(* ===== verification/Py_Prelude.thy ===== *)
theory Py_Prelude
  imports Complex_Main "HOL-Library.AList" "HOL-Library.Sublist"
begin

text \<open>
  The part of Python and of its standard library that the components share: dictionaries,
  slices, string methods, conversion of numbers, and the generic interfaces that several
  components implement (an invariant kept along a run of events, a running maximum by rank,
  a log that keeps its newest entries).

  A \<open>dict\<close> keeps its insertion order, so it is an association list: \<open>d[k] = v\<close> is
  \<open>AList.update k v d\<close> (in place for an old key, at the end for a new one), \<open>d.get(k)\<close> is
  \<open>map_of d k\<close> and \<open>del d[k]\<close> is \<open>AList.delete k d\<close>. A Python \<open>float\<close> is a real number
  here: rounding of the binary format is not modelled, overflow to \<open>inf\<close> is written out
  where the code relies on it. Text is ASCII.
\<close>

named_theorems py_eval \<open>definitions to unfold when a concrete input is evaluated\<close>

section \<open>Types and errors\<close>

type_synonym pyfloat = real
type_synonym ('k, 'v) pydict = "('k \<times> 'v) list"

datatype py_error =
    KeyError
  | IndexError
  | ValueError
  | TypeError
  | AttributeError
  | OverflowError
  | UnboundLocalError
  | NameError
  | ZeroDivisionError
  | HTTPException nat string

section \<open>Dictionaries\<close>

abbreviation dict_get :: "('k, 'v) pydict \<Rightarrow> 'k \<Rightarrow> 'v option" where
  "dict_get d k \<equiv> map_of d k"

abbreviation dict_set :: "'k \<Rightarrow> 'v \<Rightarrow> ('k, 'v) pydict \<Rightarrow> ('k, 'v) pydict" where
  "dict_set k v d \<equiv> AList.update k v d"

abbreviation dict_del :: "'k \<Rightarrow> ('k, 'v) pydict \<Rightarrow> ('k, 'v) pydict" where
  "dict_del k d \<equiv> AList.delete k d"

definition dict_get_or :: "('k, 'v) pydict \<Rightarrow> 'k \<Rightarrow> 'v \<Rightarrow> 'v" where
  [py_eval]: "dict_get_or d k v = (case map_of d k of None \<Rightarrow> v | Some w \<Rightarrow> w)"

definition dict_values :: "('k, 'v) pydict \<Rightarrow> 'v list" where
  [py_eval]: "dict_values d = map snd d"

definition dict_merge :: "('k, 'v) pydict \<Rightarrow> ('k, 'v) pydict \<Rightarrow> ('k, 'v) pydict" where
  \<comment> \<open>\<open>d.update(e)\<close>\<close>
  [py_eval]: "dict_merge d e = foldl (\<lambda>acc (k, v). dict_set k v acc) d e"

lemma dict_get_set [simp]: "map_of (AList.update k v d) k' = (if k' = k then Some v else map_of d k')"
  by (simp add: update_conv')

lemma dict_get_del [simp]: "map_of (AList.delete k d) k' = (if k' = k then None else map_of d k')"
  by (simp add: delete_conv')

lemma dict_get_or_set [simp]:
  "dict_get_or (AList.update k v d) k' w = (if k' = k then v else dict_get_or d k' w)"
  by (simp add: dict_get_or_def)

lemma dict_set_values:
  assumes "x \<in> snd ` set (AList.update k v d)"
  shows "x = v \<or> x \<in> snd ` set d"
  using assms by (induction d) (auto split: if_splits)

lemma dict_set_mem: "x \<in> set (AList.update k v d) \<Longrightarrow> x = (k, v) \<or> x \<in> set d"
  by (induction d) (auto split: if_splits)

lemma keys_dict_set [simp]: "fst ` set (AList.update k v d) = insert k (fst ` set d)"
  by (induction d) auto

lemma length_dict_set_new: "map_of d k = None \<Longrightarrow> length (AList.update k v d) = Suc (length d)"
  by (induction d) (auto split: if_splits)

lemma length_dict_set_old: "map_of d k = Some w \<Longrightarrow> length (AList.update k v d) = length d"
  by (induction d) (auto split: if_splits)

lemma dict_set_new: "map_of d k = None \<Longrightarrow> AList.update k v d = d @ [(k, v)]"
  by (induction d) (auto split: if_splits)

lemma map_of_map_snd [simp]: "map_of (map (\<lambda>(k, v). (k, f v)) d) k = map_option f (map_of d k)"
  by (induction d) auto

lemma sum_dict_set:
  fixes v :: "'a :: ab_group_add"
  shows "sum_list (map snd (dict_set k v d)) = sum_list (map snd d) - dict_get_or d k 0 + v"
  by (induction d) (auto simp: dict_get_or_def)

lemma sum_dict_inc: "sum_list (map snd (dict_set k (Suc (dict_get_or d k 0)) d)) = Suc (sum_list (map snd d))"
  by (induction d) (auto simp: dict_get_or_def)

fun count_by :: "('a \<Rightarrow> 'k) \<Rightarrow> 'a list \<Rightarrow> ('k, nat) pydict \<Rightarrow> ('k, nat) pydict" where
  \<comment> \<open>\<open>d[k] = d.get(k, 0) + 1\<close> for each item\<close>
  "count_by f [] d = d"
| "count_by f (x # xs) d = count_by f xs (dict_set (f x) (dict_get_or d (f x) 0 + 1) d)"

lemma sum_count_by: "sum_list (map snd (count_by f xs d)) = sum_list (map snd d) + length xs"
  by (induction xs arbitrary: d) (simp_all add: sum_dict_inc)

lemma length_dict_values: "length (dict_values d) = length d"
  by (simp add: dict_values_def)

section \<open>Slices\<close>

definition take_last :: "nat \<Rightarrow> 'a list \<Rightarrow> 'a list" where
  \<comment> \<open>\<open>xs[-n:]\<close> for \<open>n > 0\<close>\<close>
  [py_eval]: "take_last n xs = drop (length xs - n) xs"

definition slice_to :: "int \<Rightarrow> 'a list \<Rightarrow> 'a list" where
  \<comment> \<open>\<open>xs[:n]\<close>: a negative bound counts from the end\<close>
  [py_eval]: "slice_to n xs = (if 0 \<le> n then take (nat n) xs else take (length xs - nat (- n)) xs)"

lemma length_take_last [simp]: "length (take_last n xs) = min n (length xs)"
  by (simp add: take_last_def)

lemma set_take_last: "set (take_last n xs) \<subseteq> set xs"
  by (simp add: take_last_def set_drop_subset)

lemma take_last_all [simp]: "length xs \<le> n \<Longrightarrow> take_last n xs = xs"
  by (simp add: take_last_def)

lemma take_last_take_last [simp]: "take_last n (take_last n xs) = take_last n xs"
  by (simp add: take_last_def)

lemma take_last_snoc_take_last: "take_last n (take_last n xs @ [x]) = take_last n (xs @ [x])"
  by (cases "length xs \<le> n") (auto simp: take_last_def Suc_diff_le)

section \<open>Lists\<close>

lemma find_SomeD: "find P xs = Some x \<Longrightarrow> x \<in> set xs \<and> P x"
  by (auto simp: find_Some_iff)

lemma filter_partition3:
  assumes "\<And>t. t \<in> set ts \<Longrightarrow> A t \<and> \<not> B t \<and> \<not> C t \<or> \<not> A t \<and> B t \<and> \<not> C t \<or> \<not> A t \<and> \<not> B t \<and> C t"
  shows "length (filter A ts) + length (filter B ts) + length (filter C ts) = length ts"
  using assms by (induction ts) auto

section \<open>Strings and numbers\<close>

definition lower_char :: "char \<Rightarrow> char" where
  [py_eval]: "lower_char c = (let n = of_char c :: nat in if 65 \<le> n \<and> n \<le> 90 then char_of (n + 32) else c)"

definition lower :: "string \<Rightarrow> string" where
  [py_eval]: "lower s = map lower_char s"

definition is_space :: "char \<Rightarrow> bool" where
  [py_eval]: "is_space c = (let n = of_char c :: nat in n = 32 \<or> (9 \<le> n \<and> n \<le> 13) \<or> (28 \<le> n \<and> n \<le> 31))"

definition strip :: "string \<Rightarrow> string" where
  [py_eval]: "strip s = rev (dropWhile is_space (rev (dropWhile is_space s)))"

abbreviation startswith :: "string \<Rightarrow> string \<Rightarrow> bool" where
  "startswith s p \<equiv> prefix p s"

abbreviation substr :: "string \<Rightarrow> string \<Rightarrow> bool" where
  \<comment> \<open>\<open>p in s\<close>\<close>
  "substr p s \<equiv> sublist p s"

fun split_on :: "char \<Rightarrow> string \<Rightarrow> string list" where
  \<comment> \<open>\<open>s.split(c)\<close> for a separator of one character\<close>
  "split_on sep [] = [[]]"
| "split_on sep (c # s) = (if c = sep then [] # split_on sep s
     else case split_on sep s of [] \<Rightarrow> [[c]] | p # ps \<Rightarrow> (c # p) # ps)"

definition rfind :: "string \<Rightarrow> string \<Rightarrow> nat option" where
  \<comment> \<open>\<open>s.rfind(p)\<close>, \<open>None\<close> for -1\<close>
  "rfind p s = find (\<lambda>i. prefix p (drop i s)) (rev [0..<Suc (length s)])"

definition digit_char :: "nat \<Rightarrow> char" where
  [py_eval]: "digit_char n = char_of (48 + n)"

fun show_nat :: "nat \<Rightarrow> string" where
  "show_nat n = (if n < 10 then [digit_char n] else show_nat (n div 10) @ [digit_char (n mod 10)])"

declare show_nat.simps [simp del, py_eval]

definition show_int :: "int \<Rightarrow> string" where
  [py_eval]: "show_int i = (if i < 0 then ''-'' @ show_nat (nat (- i)) else show_nat (nat i))"

definition py_int :: "pyfloat \<Rightarrow> int" where
  \<comment> \<open>\<open>int(x)\<close> truncates towards zero\<close>
  [py_eval]: "py_int x = (if 0 \<le> x then \<lfloor>x\<rfloor> else \<lceil>x\<rceil>)"

definition round_half_even :: "pyfloat \<Rightarrow> int" where
  [py_eval]: "round_half_even x =
     (let f = \<lfloor>x\<rfloor>; d = x - of_int f in
      if d < 1/2 then f else if 1/2 < d then f + 1 else if even f then f else f + 1)"

definition py_round :: "pyfloat \<Rightarrow> nat \<Rightarrow> pyfloat" where
  \<comment> \<open>\<open>round(x, n)\<close>\<close>
  [py_eval]: "py_round x n = of_int (round_half_even (x * 10 ^ n)) / 10 ^ n"

lemma round_half_even_mono: "x \<le> y \<Longrightarrow> round_half_even x \<le> round_half_even y"
  unfolding round_half_even_def Let_def
  by (smt (verit, best) floor_mono floor_less_cancel le_floor_iff of_int_floor_le
      floor_correct of_int_add of_int_1 floor_less_iff of_int_le_iff)

lemma round_half_even_of_int [simp]: "round_half_even (of_int i) = i"
  by (simp add: round_half_even_def)

lemma round_half_even_error: "\<bar>of_int (round_half_even x) - x\<bar> \<le> 1/2"
  unfolding round_half_even_def Let_def by (auto simp: abs_le_iff)

lemma py_round_mono: "x \<le> y \<Longrightarrow> py_round x n \<le> py_round y n"
  by (simp add: py_round_def divide_right_mono round_half_even_mono)

lemma py_round_error: "\<bar>py_round x n - x\<bar> \<le> 1 / (2 * 10 ^ n)"
proof -
  have "\<bar>py_round x n - x\<bar> = \<bar>of_int (round_half_even (x * 10 ^ n)) - x * 10 ^ n\<bar> / 10 ^ n"
    by (simp add: py_round_def field_simps abs_divide)
  also have "\<dots> \<le> (1/2) / 10 ^ n"
    by (intro divide_right_mono round_half_even_error) simp
  finally show ?thesis by simp
qed

lemma py_round_nonneg: "0 \<le> x \<Longrightarrow> 0 \<le> py_round x n"
  using py_round_mono [of 0 x n] by (simp add: py_round_def round_half_even_def)

lemma py_round_le_1: "x \<le> 1 \<Longrightarrow> py_round x n \<le> 1"
proof -
  assume "x \<le> 1"
  then have "py_round x n \<le> py_round 1 n" by (rule py_round_mono)
  also have "py_round 1 n = 1"
    using round_half_even_of_int [of "10 ^ n"] by (simp add: py_round_def)
  finally show ?thesis .
qed

lemma py_round_idem [simp]: "py_round (py_round x n) n = py_round x n"
  by (simp add: py_round_def)

lemma py_round_0 [simp]: "py_round 0 n = 0"
  by (simp add: py_round_def round_half_even_def)

lemma py_round_1 [simp]: "py_round 1 n = 1"
  using round_half_even_of_int [of "10 ^ n"] by (simp add: py_round_def)

lemma py_int_nonneg_le: "0 \<le> x \<Longrightarrow> of_int (py_int x) \<le> x"
  by (simp add: py_int_def)

lemma py_int_nonneg_gt: "0 \<le> x \<Longrightarrow> x < of_int (py_int x) + 1"
  by (simp add: py_int_def)

text \<open>A separator that a part does not contain ends this part.\<close>

lemma separator_inj:
  "x \<notin> set as \<Longrightarrow> x \<notin> set bs \<Longrightarrow> as @ x # cs = bs @ x # ds \<longleftrightarrow> as = bs \<and> cs = ds"
proof (induction as arbitrary: bs)
  case Nil
  then show ?case by (cases bs) auto
next
  case (Cons a as)
  then show ?case by (cases bs) auto
qed

end
