(* ===== verification/Interfaces.thy ===== *)
theory Interfaces
  imports Py_Prelude
begin

text \<open>
  The interfaces several components share, as locales. Each is interpreted on the model's own
  definitions in the theory of the component that provides it:
  a state machine with an inductive invariant (\<open>run_invariant\<close>), a log that keeps its newest
  entries (\<open>bounded_log\<close>), a machine that implements an abstract one (\<open>refinement\<close>) and a loop that keeps the strictest item by rank (\<open>strictest\<close>). The
  interface of an append-only log linked by hashes, which only the audit components provide, is
  in \<open>Audit_Chain\<close>.
\<close>

section \<open>A machine whose steps keep an invariant\<close>

locale run_invariant =
  fixes step :: "'s \<Rightarrow> 'e \<Rightarrow> 's"
    and ok :: "'s \<Rightarrow> 'e \<Rightarrow> bool"
    and inv :: "'s \<Rightarrow> bool"
  assumes step_inv: "inv s \<Longrightarrow> ok s e \<Longrightarrow> inv (step s e)"
begin

fun admissible :: "'s \<Rightarrow> 'e list \<Rightarrow> bool" where
  "admissible s [] \<longleftrightarrow> True"
| "admissible s (e # es) \<longleftrightarrow> ok s e \<and> admissible (step s e) es"

lemma run_inv: "inv s \<Longrightarrow> admissible s es \<Longrightarrow> inv (foldl step s es)"
  by (induction es arbitrary: s) (auto intro: step_inv)

lemma admissible_always: "(\<And>s e. e \<in> set es \<Longrightarrow> ok s e) \<Longrightarrow> admissible s es"
  by (induction es arbitrary: s) auto

lemma run_inv_always: "inv s \<Longrightarrow> (\<And>s e. e \<in> set es \<Longrightarrow> ok s e) \<Longrightarrow> inv (foldl step s es)"
  by (blast intro: run_inv admissible_always)

end

section \<open>A machine that implements an abstract one\<close>

locale refinement = run_invariant step ok inv
  for step :: "'s \<Rightarrow> 'e \<Rightarrow> 's" and ok :: "'s \<Rightarrow> 'e \<Rightarrow> bool" and inv :: "'s \<Rightarrow> bool" +
  fixes abs_step :: "'a \<Rightarrow> 'e \<Rightarrow> 'a"
    and abs_of :: "'s \<Rightarrow> 'a"
  assumes simulates: "inv s \<Longrightarrow> ok s e \<Longrightarrow> abs_of (step s e) = abs_step (abs_of s) e"
begin

lemma abs_run: "inv s \<Longrightarrow> admissible s es \<Longrightarrow> abs_of (foldl step s es) = foldl abs_step (abs_of s) es"
  by (induction es arbitrary: s) (simp_all add: step_inv flip: simulates)

lemma abs_run_always:
  "inv s \<Longrightarrow> (\<And>s e. e \<in> set es \<Longrightarrow> ok s e) \<Longrightarrow> abs_of (foldl step s es) = foldl abs_step (abs_of s) es"
  by (blast intro: abs_run admissible_always)

end

section \<open>A log that keeps its newest entries\<close>

locale bounded_log =
  fixes add :: "'s \<Rightarrow> 'x \<Rightarrow> 's"
    and entries :: "'s \<Rightarrow> 'x list"
    and cap :: "'s \<Rightarrow> nat"
    and wf :: "'s \<Rightarrow> bool"
  assumes entries_add: "wf s \<Longrightarrow> entries (add s x) = take_last (cap s) (entries s @ [x])"
    and cap_add: "wf s \<Longrightarrow> cap (add s x) = cap s"
    and wf_add: "wf s \<Longrightarrow> wf (add s x)"
    and wf_entries: "wf s \<Longrightarrow> length (entries s) \<le> cap s"
begin

lemma wf_run: "wf s \<Longrightarrow> wf (foldl add s xs)"
  by (induction xs arbitrary: s) (auto intro: wf_add)

lemma cap_run: "wf s \<Longrightarrow> cap (foldl add s xs) = cap s"
  by (induction xs arbitrary: s) (auto simp: cap_add wf_add)

lemma entries_run: "wf s \<Longrightarrow> entries (foldl add s xs) = take_last (cap s) (entries s @ xs)"
proof (induction xs rule: rev_induct)
  case Nil
  then show ?case by (simp add: wf_entries)
next
  case (snoc x xs)
  then show ?case
    by (simp add: entries_add wf_run cap_run take_last_snoc_take_last flip: append_assoc)
qed

lemma length_run: "wf s \<Longrightarrow> length (entries (foldl add s xs)) \<le> cap s"
  by (simp add: entries_run)

end

section \<open>A loop that keeps the strictest item\<close>

locale strictest =
  fixes rank :: "'a \<Rightarrow> nat"
    and pick :: "'a \<Rightarrow> 'a list \<Rightarrow> 'a"
  assumes pick_Nil: "pick b [] = b"
    and pick_Cons: "pick b (x # xs) = pick (if rank b < rank x then x else b) xs"
begin

lemma pick_mem: "pick b xs \<in> insert b (set xs)"
  by (induction xs arbitrary: b) (force simp: pick_Nil pick_Cons)+

lemma rank_pick_bottom: "rank b \<le> rank (pick b xs)"
proof (induction xs arbitrary: b)
  case Nil
  then show ?case by (simp add: pick_Nil)
next
  case (Cons x xs)
  show ?case
    using Cons [of "if rank b < rank x then x else b"]
    by (auto simp: pick_Cons split: if_splits)
qed

lemma rank_pick_item: "x \<in> set xs \<Longrightarrow> rank x \<le> rank (pick b xs)"
proof (induction xs arbitrary: b)
  case Nil
  then show ?case by simp
next
  case (Cons y ys)
  show ?case
  proof (cases "x = y")
    case True
    then show ?thesis
      using rank_pick_bottom [of "if rank b < rank x then x else b" ys]
      by (auto simp: pick_Cons split: if_splits)
  next
    case False
    with Cons show ?thesis by (simp add: pick_Cons)
  qed
qed

lemmas rank_pick_ge = rank_pick_bottom rank_pick_item

lemma rank_pick_Max: "rank (pick b xs) = Max (rank ` insert b (set xs))"
proof (rule Max_eqI [symmetric])
  show "rank (pick b xs) \<in> rank ` insert b (set xs)" by (rule imageI) (rule pick_mem)
qed (auto intro: rank_pick_ge)

lemma rank_pick_set: "set xs = set ys \<Longrightarrow> rank (pick b xs) = rank (pick b ys)"
  by (simp add: rank_pick_Max)

lemma pick_bottom: "(\<And>x. x \<in> set xs \<Longrightarrow> rank x \<le> rank b) \<Longrightarrow> pick b xs = b"
  by (induction xs) (simp_all add: pick_Nil pick_Cons leD)

end

end
