(* ===== verification/Rate_Limiter.thy ===== *)
theory Rate_Limiter
  imports Interfaces
begin

text \<open>
  The token-bucket rate limiter, \<open>services/shared/rate_limiter.py\<close>: \<open>TokenBucket\<close>,
  \<open>RateLimiter\<close> (buckets per limit type and key), the \<open>rate_limit\<close> decorator and
  \<open>RateLimitMiddleware\<close>.

  Clock readings are inputs: every call of \<open>time.monotonic()\<close> and \<open>time.time()\<close> is an
  argument. The Prometheus counters and the log lines are output only and are left out. A bucket
  object is shared between the dictionary and the caller, so the model writes a changed bucket
  back (\<open>put_bucket\<close>).
\<close>

section \<open>TokenBucket\<close>

record token_bucket =
  tb_rate :: pyfloat
  tb_burst :: int
  tb_tokens :: pyfloat
  tb_last_refill :: pyfloat

definition new_bucket :: "pyfloat \<Rightarrow> int \<Rightarrow> pyfloat \<Rightarrow> token_bucket" where
  "new_bucket r b now =
     \<lparr>tb_rate = r, tb_burst = b, tb_tokens = of_int b, tb_last_refill = now\<rparr>"

datatype wait_time = Secs pyfloat | Forever \<comment> \<open>\<open>float('inf')\<close>\<close>

definition available_tokens :: "token_bucket \<Rightarrow> pyfloat \<Rightarrow> pyfloat" where
  "available_tokens b now =
     min (of_int (tb_burst b)) (tb_tokens b + (now - tb_last_refill b) * tb_rate b)"

definition acquire :: "token_bucket \<Rightarrow> int \<Rightarrow> pyfloat \<Rightarrow> (bool \<times> wait_time) \<times> token_bucket" where
  "acquire b count now =
     (let elapsed = now - tb_last_refill b;
          t = min (of_int (tb_burst b)) (tb_tokens b + elapsed * tb_rate b);
          b' = b\<lparr>tb_tokens := t, tb_last_refill := now\<rparr>
      in if of_int count \<le> t
         then ((True, Secs 0), b'\<lparr>tb_tokens := t - of_int count\<rparr>)
         else let deficit = of_int count - t
              in ((False, if 0 < tb_rate b then Secs (deficit / tb_rate b) else Forever), b'))"

text \<open>
  \<open>wait_and_acquire\<close> loops: acquire, give up after the timeout, sleep. The model's clock moves
  only by the sleep, \<open>min(wait_time, 0.1)\<close>; \<open>None\<close> says that the fuel ran out inside the loop.
\<close>

definition sleep_time :: "wait_time \<Rightarrow> pyfloat" where
  "sleep_time w = (case w of Secs s \<Rightarrow> min s (1/10) | Forever \<Rightarrow> 1/10)"

fun wait_and_acquire ::
  "nat \<Rightarrow> token_bucket \<Rightarrow> int \<Rightarrow> pyfloat option \<Rightarrow> pyfloat \<Rightarrow> pyfloat \<Rightarrow> (bool \<times> pyfloat \<times> token_bucket) option"
where
  "wait_and_acquire 0 b count timeout start now = None"
| "wait_and_acquire (Suc fuel) b count timeout start now =
     (case acquire b count now of
        ((True, _), b') \<Rightarrow> Some (True, now, b')
      | ((False, w), b') \<Rightarrow>
          (if (case timeout of None \<Rightarrow> False | Some t \<Rightarrow> t \<le> now - start) then Some (False, now, b')
           else wait_and_acquire fuel b' count timeout start (now + sleep_time w)))"

section \<open>RateLimiter\<close>

record rate_limiter =
  rl_buckets :: "(string, (string, token_bucket) pydict) pydict"
  rl_default_limits :: "(string, pyfloat \<times> int) pydict"

record clock =
  clk_create :: pyfloat \<comment> \<open>\<open>time.monotonic()\<close> of a new bucket\<close>
  clk_acquire :: pyfloat \<comment> \<open>\<open>time.monotonic()\<close> in \<open>acquire\<close>\<close>
  clk_avail :: pyfloat \<comment> \<open>\<open>time.monotonic()\<close> in \<open>available_tokens\<close>\<close>
  clk_wall :: pyfloat \<comment> \<open>\<open>time.time()\<close>\<close>

definition new_rate_limiter :: rate_limiter where
  "new_rate_limiter = \<lparr>rl_buckets = [], rl_default_limits = []\<rparr>"

definition configure :: "string \<Rightarrow> pyfloat \<Rightarrow> int \<Rightarrow> rate_limiter \<Rightarrow> rate_limiter" where
  "configure lt r b l = l\<lparr>rl_default_limits := dict_set lt (r, b) (rl_default_limits l)\<rparr>"

definition limits_of :: "rate_limiter \<Rightarrow> string \<Rightarrow> pyfloat \<times> int" where
  "limits_of l lt = dict_get_or (rl_default_limits l) lt (10, 20)"

definition find_bucket :: "rate_limiter \<Rightarrow> string \<Rightarrow> string \<Rightarrow> token_bucket option" where
  "find_bucket l lt key = dict_get (dict_get_or (rl_buckets l) lt []) key"

definition put_bucket :: "string \<Rightarrow> string \<Rightarrow> token_bucket \<Rightarrow> rate_limiter \<Rightarrow> rate_limiter" where
  "put_bucket lt key b l =
     l\<lparr>rl_buckets := dict_set lt (dict_set key b (dict_get_or (rl_buckets l) lt [])) (rl_buckets l)\<rparr>"

definition get_bucket :: "rate_limiter \<Rightarrow> string \<Rightarrow> string \<Rightarrow> pyfloat \<Rightarrow> token_bucket \<times> rate_limiter" where
  "get_bucket l key lt now =
     (case find_bucket l lt key of
        Some b \<Rightarrow> (b, l)
      | None \<Rightarrow> let (r, b) = limits_of l lt; bk = new_bucket r b now in (bk, put_bucket lt key bk l))"

type_synonym headers = "(string, string) pydict"

definition limit_headers :: "pyfloat \<times> int \<Rightarrow> pyfloat \<Rightarrow> pyfloat \<Rightarrow> headers" where
  "limit_headers rb remaining wall =
     (let (r, b) = rb in
      [(''X-RateLimit-Limit'', show_int (py_int r)),
       (''X-RateLimit-Remaining'', show_int (max 0 (py_int remaining))),
       (''X-RateLimit-Reset'',
          show_int (py_int (if 0 < r then wall + (of_int b - remaining) / r else 0)))])"

definition check_rate_limit ::
  "rate_limiter \<Rightarrow> string \<Rightarrow> string \<Rightarrow> int \<Rightarrow> clock \<Rightarrow> (py_error + bool \<times> headers) \<times> rate_limiter" where
  "check_rate_limit l key lt count clk =
     (let (bk, l1) = get_bucket l key lt (clk_create clk);
          ((allowed, w), bk') = acquire bk count (clk_acquire clk);
          l2 = put_bucket lt key bk' l1;
          remaining = available_tokens bk' (clk_avail clk);
          hs = limit_headers (limits_of l2 lt) remaining (clk_wall clk)
      in (if allowed then Inr (True, hs)
          else case w of
                 Secs s \<Rightarrow> Inr (False, dict_set ''Retry-After'' (show_int (py_int s + 1)) hs)
               | Forever \<Rightarrow> Inl OverflowError, l2))"

fun check_rate_limit_multi ::
  "rate_limiter \<Rightarrow> (string, string) pydict \<Rightarrow> int \<Rightarrow> (string \<Rightarrow> clock) \<Rightarrow> bool \<Rightarrow> headers \<Rightarrow>
     (py_error + bool \<times> headers) \<times> rate_limiter" where
  \<comment> \<open>\<open>keys\<close> maps limit types to keys; the last two arguments are \<open>all_allowed\<close> and \<open>combined_headers\<close>\<close>
  "check_rate_limit_multi l [] count clk ok hs = (Inr (ok, hs), l)"
| "check_rate_limit_multi l ((lt, key) # rest) count clk ok hs =
     (case check_rate_limit l key lt count (clk lt) of
        (Inl e, l') \<Rightarrow> (Inl e, l')
      | (Inr (allowed, h), l') \<Rightarrow>
          check_rate_limit_multi l' rest count clk (ok \<and> allowed) (dict_merge hs h))"

record usage_stat =
  us_limit_type :: string
  us_key :: string
  us_rate :: pyfloat
  us_burst :: int
  us_remaining :: pyfloat
  us_usage_percentage :: pyfloat

definition usage_of :: "rate_limiter \<Rightarrow> string \<Rightarrow> string \<Rightarrow> token_bucket \<Rightarrow> pyfloat \<Rightarrow> usage_stat" where
  "usage_of l lt k bk now =
     (let (r, b) = limits_of l lt;
          remaining = available_tokens bk now;
          pct = (if 0 < b then (of_int b - remaining) / of_int b * 100 else 0)
      in \<lparr>us_limit_type = lt, us_key = k, us_rate = r, us_burst = b,
          us_remaining = py_round remaining 2, us_usage_percentage = py_round pct 1\<rparr>)"

definition truthy :: "string option \<Rightarrow> bool" where
  "truthy s \<longleftrightarrow> (case s of None \<Rightarrow> False | Some t \<Rightarrow> t \<noteq> [])"

definition get_usage_stats ::
  "rate_limiter \<Rightarrow> string option \<Rightarrow> string option \<Rightarrow> (string \<Rightarrow> string \<Rightarrow> pyfloat) \<Rightarrow> (string, usage_stat) pydict" where
  "get_usage_stats l key lt now =
     foldl (\<lambda>st (t, bs).
       if truthy lt \<and> Some t \<noteq> lt then st
       else foldl (\<lambda>st (k, bk).
              if truthy key \<and> Some k \<noteq> key then st
              else dict_set (t @ '':'' @ k) (usage_of l t k bk (now t k)) st) st bs)
     [] (rl_buckets l)"

definition reset_key :: "string \<Rightarrow> string option \<Rightarrow> rate_limiter \<Rightarrow> rate_limiter" where
  "reset_key key lt l =
     (if truthy lt
      then case dict_get (rl_buckets l) (the lt) of
             None \<Rightarrow> l
           | Some bs \<Rightarrow>
               if dict_get bs key = None then l
               else l\<lparr>rl_buckets := dict_set (the lt) (dict_del key bs) (rl_buckets l)\<rparr>
      else l\<lparr>rl_buckets := map (\<lambda>(t, bs). (t, dict_del key bs)) (rl_buckets l)\<rparr>)"

section \<open>Decorator and middleware\<close>

record json_response =
  jr_status :: nat
  jr_detail :: string
  jr_retry_after :: string
  jr_headers :: headers

definition rate_limit_wrapper ::
  "string \<Rightarrow> (string list \<Rightarrow> string) option \<Rightarrow> int \<Rightarrow> (string list \<Rightarrow> 'r) \<Rightarrow>
     string list \<Rightarrow> clock \<Rightarrow> rate_limiter \<Rightarrow> (py_error + json_response + 'r) \<times> rate_limiter" where
  "rate_limit_wrapper lt key_func count func args clk l =
     (let key = (case key_func of Some f \<Rightarrow> f args
                 | None \<Rightarrow> (case args of [] \<Rightarrow> ''default'' | a # _ \<Rightarrow> a))
      in case check_rate_limit l key lt count clk of
           (Inl e, l') \<Rightarrow> (Inl e, l')
         | (Inr (False, hs), l') \<Rightarrow>
             (Inr (Inl \<lparr>jr_status = 429, jr_detail = ''Rate limit exceeded'',
                        jr_retry_after = dict_get_or hs ''Retry-After'' ''60'', jr_headers = hs\<rparr>), l')
         | (Inr (True, _), l') \<Rightarrow> (Inr (Inr (func args)), l'))"

record asgi_scope =
  sc_type :: string
  sc_client :: "(string \<times> int) option option" \<comment> \<open>missing, \<open>None\<close>, or (host, port)\<close>
  sc_path :: "string option"

datatype asgi_message =
    ResponseStart nat headers
  | ResponseBody string
  | OtherMessage string

datatype middleware_outcome =
    Passthrough \<comment> \<open>not HTTP: the application gets the unwrapped \<open>send\<close>\<close>
  | Rejected "asgi_message list" \<comment> \<open>messages sent instead of calling the application\<close>
  | Forwarded headers \<comment> \<open>the application is called with \<open>send_with_headers\<close>\<close>

definition middleware_init :: "pyfloat \<times> int \<Rightarrow> pyfloat \<times> int \<Rightarrow> pyfloat \<times> int \<Rightarrow> rate_limiter \<Rightarrow> rate_limiter" where
  "middleware_init default_limit auth_limit static_limit l =
     configure ''static'' (fst static_limit) (snd static_limit)
       (configure ''auth'' (fst auth_limit) (snd auth_limit)
         (configure ''api'' (fst default_limit) (snd default_limit) l))"

definition path_limit_type :: "string \<Rightarrow> string" where
  "path_limit_type path =
     (if startswith path ''/auth/'' then ''auth''
      else if startswith path ''/static/'' \<or> startswith path ''/assets/'' then ''static''
      else ''api'')"

definition send_with_headers :: "headers \<Rightarrow> asgi_message \<Rightarrow> asgi_message" where
  "send_with_headers lh m =
     (case m of
        ResponseStart st hs \<Rightarrow> ResponseStart st (hs @ map (\<lambda>(k, v). (lower k, v)) lh)
      | _ \<Rightarrow> m)"

definition rejection :: "headers \<Rightarrow> asgi_message list" where
  "rejection lh =
     (let body = ''{'' @ [CHR 0x22] @ ''detail'' @ [CHR 0x22] @ '':'' @ [CHR 0x22] @
                 ''Rate limit exceeded'' @ [CHR 0x22] @ '','' @ [CHR 0x22] @ ''retry_after'' @
                 [CHR 0x22] @ '':'' @ dict_get_or lh ''Retry-After'' ''60'' @ ''}''
      in [ResponseStart 429
            ([(''content-type'', ''application/json''),
              (''content-length'', show_int (int (length body)))]
             @ map (\<lambda>(k, v). (lower k, v)) lh),
          ResponseBody body])"

definition middleware_call ::
  "asgi_scope \<Rightarrow> clock \<Rightarrow> rate_limiter \<Rightarrow> (py_error + middleware_outcome) \<times> rate_limiter" where
  "middleware_call sc clk l =
     (if sc_type sc \<noteq> ''http'' then (Inr Passthrough, l)
      else case (case sc_client sc of None \<Rightarrow> Some (''unknown'', 0) | Some c \<Rightarrow> c) of
             None \<Rightarrow> (Inl TypeError, l)
           | Some (ip, _) \<Rightarrow>
               (let path = (case sc_path sc of None \<Rightarrow> ''/'' | Some p \<Rightarrow> p) in
                case check_rate_limit l ip (path_limit_type path) 1 clk of
                  (Inl e, l') \<Rightarrow> (Inl e, l')
                | (Inr (False, lh), l') \<Rightarrow> (Inr (Rejected (rejection lh)), l')
                | (Inr (True, lh), l') \<Rightarrow> (Inr (Forwarded lh), l')))"

section \<open>One bucket\<close>

text \<open>Well-formed: a bucket of a non-negative rate and capacity, holding between 0 and \<open>burst\<close> tokens.\<close>

definition bucket_ok :: "token_bucket \<Rightarrow> bool" where
  "bucket_ok b \<longleftrightarrow> 0 \<le> tb_rate b \<and> 0 \<le> tb_burst b \<and> 0 \<le> tb_tokens b \<and> tb_tokens b \<le> of_int (tb_burst b)"

lemma bucket_ok_new [simp]: "bucket_ok (new_bucket r b now) \<longleftrightarrow> 0 \<le> r \<and> 0 \<le> b"
  by (auto simp: bucket_ok_def new_bucket_def)

lemma new_bucket_sel [simp]:
  "tb_rate (new_bucket r b now) = r" "tb_burst (new_bucket r b now) = b"
  "tb_tokens (new_bucket r b now) = of_int b" "tb_last_refill (new_bucket r b now) = now"
  by (simp_all add: new_bucket_def)

lemma acquire_frame [simp]:
  "tb_rate (snd (acquire b count now)) = tb_rate b"
  "tb_burst (snd (acquire b count now)) = tb_burst b"
  "tb_last_refill (snd (acquire b count now)) = now"
  by (simp_all add: acquire_def Let_def)

lemma acquire_tokens:
  "tb_tokens (snd (acquire b count now)) =
     available_tokens b now - (if fst (fst (acquire b count now)) then of_int count else 0)"
  by (simp add: acquire_def available_tokens_def Let_def)

lemma acquire_allowed: "fst (fst (acquire b count now)) \<longleftrightarrow> of_int count \<le> available_tokens b now"
  by (simp add: acquire_def available_tokens_def Let_def)

lemma acquire_denied_wait:
  "\<not> fst (fst (acquire b count now)) \<Longrightarrow>
     snd (fst (acquire b count now)) =
       (if 0 < tb_rate b then Secs ((of_int count - available_tokens b now) / tb_rate b) else Forever)"
  by (auto simp: acquire_def available_tokens_def Let_def split: if_splits)

lemma available_le_burst: "available_tokens b now \<le> of_int (tb_burst b)"
  by (simp add: available_tokens_def)

lemma available_nonneg:
  "bucket_ok b \<Longrightarrow> tb_last_refill b \<le> now \<Longrightarrow> 0 \<le> available_tokens b now"
  by (simp add: bucket_ok_def available_tokens_def)

lemma available_mono_diff:
  "bucket_ok b \<Longrightarrow> t \<le> u \<Longrightarrow> available_tokens b u \<le> available_tokens b t + (u - t) * tb_rate b"
proof -
  assume ok: "bucket_ok b" and tu: "t \<le> u"
  have "(u - tb_last_refill b) * tb_rate b = (t - tb_last_refill b) * tb_rate b + (u - t) * tb_rate b"
    by (simp add: algebra_simps)
  moreover have "0 \<le> (u - t) * tb_rate b"
    using ok tu by (simp add: bucket_ok_def)
  ultimately show ?thesis
    by (auto simp: available_tokens_def min_def)
qed

lemma acquire_ok:
  assumes "bucket_ok b" "tb_last_refill b \<le> now" "0 \<le> count"
  shows "bucket_ok (snd (acquire b count now))"
proof -
  have "0 \<le> tb_tokens (snd (acquire b count now))"
    using available_nonneg [OF assms(1,2)] by (simp add: acquire_tokens acquire_allowed)
  moreover have "tb_tokens (snd (acquire b count now)) \<le> of_int (tb_burst b)"
    using available_le_burst [of b now] assms(3) by (simp add: acquire_tokens)
  ultimately show ?thesis
    using assms(1) by (simp add: bucket_ok_def)
qed

text \<open>The bucket as a machine: an event is a request of \<open>count\<close> tokens at a time.\<close>

definition bucket_step :: "token_bucket \<Rightarrow> int \<times> pyfloat \<Rightarrow> token_bucket" where
  "bucket_step b e = snd (acquire b (fst e) (snd e))"

interpretation bucket_run: run_invariant bucket_step
  "\<lambda>b (count, now). 0 \<le> count \<and> tb_last_refill b \<le> now" bucket_ok
  by unfold_locales (auto simp: bucket_step_def intro: acquire_ok)

lemma bucket_admissible:
  "sorted (tb_last_refill b # map snd es) \<Longrightarrow> \<forall>e \<in> set es. 0 \<le> fst e \<Longrightarrow> bucket_run.admissible b es"
  by (induction es arbitrary: b) (auto simp: bucket_step_def)

lemma acquire_wait_exact:
  assumes ok: "bucket_ok b" and t: "tb_last_refill b \<le> now" and c: "count \<le> tb_burst b"
    and den: "acquire b count now = ((False, Secs w), b')" and u: "now \<le> u"
  shows "fst (fst (acquire b' count u)) \<longleftrightarrow> w \<le> u - now"
proof -
  let ?t = "available_tokens b now"
  have d: "\<not> fst (fst (acquire b count now))" and b': "b' = snd (acquire b count now)"
    using den by simp_all
  have r: "0 < tb_rate b" and w: "w = (of_int count - ?t) / tb_rate b"
    using acquire_denied_wait [OF d] den by (auto split: if_splits)
  have tok: "tb_tokens b' = ?t" and fr: "tb_rate b' = tb_rate b" "tb_burst b' = tb_burst b"
    "tb_last_refill b' = now"
    using d by (simp_all add: b' acquire_tokens)
  have "fst (fst (acquire b' count u)) \<longleftrightarrow> of_int count \<le> ?t + (u - now) * tb_rate b"
    using c by (simp add: acquire_allowed available_tokens_def [of b'] tok fr)
  also have "\<dots> \<longleftrightarrow> w \<le> u - now"
    by (auto simp: w pos_divide_le_eq [OF r])
  finally show ?thesis .
qed

section \<open>The limiter\<close>

lemma find_put [simp]:
  "find_bucket (put_bucket lt k b l) lt' k' = (if lt' = lt \<and> k' = k then Some b else find_bucket l lt' k')"
  by (auto simp: find_bucket_def put_bucket_def)

lemma limits_put [simp]: "limits_of (put_bucket lt k b l) = limits_of l"
  by (simp add: limits_of_def put_bucket_def fun_eq_iff)

definition bucket_for :: "rate_limiter \<Rightarrow> string \<Rightarrow> string \<Rightarrow> pyfloat \<Rightarrow> token_bucket" where
  "bucket_for l key lt now = fst (get_bucket l key lt now)"

lemma bucket_for_eq:
  "bucket_for l key lt now =
     (case find_bucket l lt key of Some b \<Rightarrow> b
      | None \<Rightarrow> new_bucket (fst (limits_of l lt)) (snd (limits_of l lt)) now)"
  by (auto simp: bucket_for_def get_bucket_def Let_def split: option.splits prod.splits)

lemma find_get [simp]:
  "find_bucket (snd (get_bucket l key lt now)) lt' k' =
     (if lt' = lt \<and> k' = key then Some (bucket_for l key lt now) else find_bucket l lt' k')"
  by (auto simp: bucket_for_def get_bucket_def Let_def split: option.splits prod.splits)

lemma limits_get [simp]: "limits_of (snd (get_bucket l key lt now)) = limits_of l"
  by (auto simp: get_bucket_def Let_def split: option.splits prod.splits)

lemma check_state:
  "snd (check_rate_limit l key lt count clk) =
     put_bucket lt key (snd (acquire (bucket_for l key lt (clk_create clk)) count (clk_acquire clk)))
       (snd (get_bucket l key lt (clk_create clk)))"
  by (simp add: check_rate_limit_def bucket_for_def Let_def split: prod.splits)

lemma check_find [simp]:
  "find_bucket (snd (check_rate_limit l key lt count clk)) lt' k' =
     (if lt' = lt \<and> k' = key
      then Some (snd (acquire (bucket_for l key lt (clk_create clk)) count (clk_acquire clk)))
      else find_bucket l lt' k')"
  by (simp add: check_state)

lemma check_limits [simp]: "limits_of (snd (check_rate_limit l key lt count clk)) = limits_of l"
  by (simp add: check_state)

definition allowed :: "(py_error + bool \<times> headers) \<Rightarrow> bool" where
  "allowed res = (case res of Inr (True, _) \<Rightarrow> True | _ \<Rightarrow> False)"

lemma check_allowed:
  "allowed (fst (check_rate_limit l key lt count clk)) \<longleftrightarrow>
     of_int count \<le> available_tokens (bucket_for l key lt (clk_create clk)) (clk_acquire clk)"
  unfolding acquire_allowed [symmetric]
  by (auto simp: check_rate_limit_def bucket_for_def allowed_def Let_def
      split: prod.splits wait_time.splits)

record request =
  rq_key :: string
  rq_type :: string
  rq_count :: int
  rq_clk :: clock

definition serve :: "rate_limiter \<Rightarrow> request \<Rightarrow> (py_error + bool \<times> headers) \<times> rate_limiter" where
  "serve l q = check_rate_limit l (rq_key q) (rq_type q) (rq_count q) (rq_clk q)"

fun granted :: "rate_limiter \<Rightarrow> string \<Rightarrow> string \<Rightarrow> request list \<Rightarrow> int" where
  \<comment> \<open>tokens granted to one key of one limit type while a list of requests is served\<close>
  "granted l k lt [] = 0"
| "granted l k lt (q # qs) =
     (if rq_key q = k \<and> rq_type q = lt \<and> allowed (fst (serve l q)) then rq_count q else 0)
     + granted (snd (serve l q)) k lt qs"

fun time_ordered :: "pyfloat \<Rightarrow> request list \<Rightarrow> pyfloat \<Rightarrow> bool" where
  \<comment> \<open>the requests arrive between the two times, in order, none for a negative count\<close>
  "time_ordered t [] t1 \<longleftrightarrow> t \<le> t1"
| "time_ordered t (q # qs) t1 \<longleftrightarrow>
     0 \<le> rq_count q \<and> clk_create (rq_clk q) \<le> clk_acquire (rq_clk q) \<and> t \<le> clk_acquire (rq_clk q) \<and>
     time_ordered (clk_acquire (rq_clk q)) qs t1"

definition key_ok :: "rate_limiter \<Rightarrow> string \<Rightarrow> string \<Rightarrow> pyfloat \<Rightarrow> bool" where
  "key_ok l k lt t \<longleftrightarrow>
     0 \<le> fst (limits_of l lt) \<and> 0 \<le> snd (limits_of l lt) \<and>
     (case find_bucket l lt k of None \<Rightarrow> True
      | Some b \<Rightarrow> bucket_ok b \<and> tb_last_refill b \<le> t \<and>
          tb_rate b = fst (limits_of l lt) \<and> tb_burst b = snd (limits_of l lt))"

definition credit :: "rate_limiter \<Rightarrow> string \<Rightarrow> string \<Rightarrow> pyfloat \<Rightarrow> pyfloat" where
  "credit l k lt t =
     (case find_bucket l lt k of None \<Rightarrow> of_int (snd (limits_of l lt)) | Some b \<Rightarrow> available_tokens b t)"

lemma time_ordered_le: "time_ordered t qs t1 \<Longrightarrow> t \<le> t1"
  by (induction qs arbitrary: t) force+

lemma credit_nonneg: "key_ok l k lt t \<Longrightarrow> 0 \<le> credit l k lt t"
  by (auto simp: key_ok_def credit_def split: option.splits intro: available_nonneg)

lemma credit_le: "key_ok l k lt t \<Longrightarrow> credit l k lt t \<le> of_int (snd (limits_of l lt))"
  using available_le_burst [of "the (find_bucket l lt k)" t]
  by (cases "find_bucket l lt k") (simp_all add: key_ok_def credit_def)

lemma key_ok_later: "key_ok l k lt t \<Longrightarrow> t \<le> u \<Longrightarrow> key_ok l k lt u"
  by (auto simp: key_ok_def split: option.splits)

lemma credit_later:
  assumes "key_ok l k lt t" "t \<le> u"
  shows "credit l k lt u \<le> credit l k lt t + fst (limits_of l lt) * (u - t)"
proof (cases "find_bucket l lt k")
  case None
  then show ?thesis using assms by (simp add: credit_def key_ok_def)
next
  case (Some b)
  with assms have "available_tokens b u \<le> available_tokens b t + (u - t) * tb_rate b"
    by (intro available_mono_diff) (auto simp: key_ok_def)
  with Some assms(1) show ?thesis
    by (simp add: credit_def key_ok_def mult.commute)
qed

lemma bucket_for_key_ok:
  assumes "key_ok l k lt t" "t \<le> u" "c \<le> u"
  shows "bucket_ok (bucket_for l k lt c)" "tb_last_refill (bucket_for l k lt c) \<le> u"
    "tb_rate (bucket_for l k lt c) = fst (limits_of l lt)"
    "tb_burst (bucket_for l k lt c) = snd (limits_of l lt)"
    "available_tokens (bucket_for l k lt c) u \<le> credit l k lt u"
  using assms
  by (auto simp: key_ok_def bucket_for_eq credit_def available_tokens_def split: option.splits)

lemma serve_key_ok:
  assumes "key_ok l k lt t" "time_ordered t (q # qs) t1"
  shows "key_ok (snd (serve l q)) k lt (clk_acquire (rq_clk q))"
proof (cases "rq_key q = k \<and> rq_type q = lt")
  case True
  with assms show ?thesis
    using bucket_for_key_ok [OF assms(1), of "clk_acquire (rq_clk q)" "clk_create (rq_clk q)"]
    by (auto simp: key_ok_def serve_def intro!: acquire_ok)
next
  case False
  with assms show ?thesis
    by (auto simp: key_ok_def serve_def split: option.splits)
qed

lemma serve_credit:
  assumes "key_ok l k lt t" "time_ordered t (q # qs) t1"
  shows "credit (snd (serve l q)) k lt (clk_acquire (rq_clk q)) +
      (if rq_key q = k \<and> rq_type q = lt \<and> allowed (fst (serve l q)) then of_int (rq_count q) else 0)
    \<le> credit l k lt (clk_acquire (rq_clk q))"
proof (cases "rq_key q = k \<and> rq_type q = lt")
  case True
  let ?c = "clk_create (rq_clk q)" and ?u = "clk_acquire (rq_clk q)"
  let ?b = "bucket_for l k lt ?c"
  note bf = bucket_for_key_ok [OF assms(1), of ?u ?c]
  from True have cr: "credit (snd (serve l q)) k lt ?u =
      available_tokens (snd (acquire ?b (rq_count q) ?u)) ?u"
    by (simp add: credit_def serve_def)
  also have "\<dots> \<le> tb_tokens (snd (acquire ?b (rq_count q) ?u))"
    by (simp add: available_tokens_def)
  also have "\<dots> = available_tokens ?b ?u -
      (if allowed (fst (serve l q)) then of_int (rq_count q) else 0)"
    using True by (simp add: acquire_tokens acquire_allowed serve_def check_allowed)
  finally show ?thesis
    using True bf assms by auto
next
  case False
  then show ?thesis by (cases "find_bucket l lt k") (auto simp: credit_def serve_def)
qed

lemma granted_bound:
  "key_ok l k lt t \<Longrightarrow> time_ordered t qs t1 \<Longrightarrow>
     of_int (granted l k lt qs) \<le> credit l k lt t + fst (limits_of l lt) * (t1 - t)"
proof (induction qs arbitrary: l t)
  case Nil
  then show ?case using credit_nonneg [of l k lt t] by (simp add: key_ok_def)
next
  case (Cons q qs)
  let ?u = "clk_acquire (rq_clk q)" and ?l = "snd (serve l q)"
  from Cons.prems have tu: "t \<le> ?u" "time_ordered ?u qs t1" by simp_all
  note IH = Cons.IH [OF serve_key_ok [OF Cons.prems] tu(2)]
  moreover have "fst (limits_of ?l lt) = fst (limits_of l lt)" by (simp add: serve_def)
  moreover note serve_credit [OF Cons.prems] credit_later [OF Cons.prems(1) tu(1)]
  moreover have "fst (limits_of l lt) * (t1 - t) =
      fst (limits_of l lt) * (t1 - ?u) + fst (limits_of l lt) * (?u - t)"
    by (simp add: algebra_simps)
  ultimately show ?case by (auto split: if_splits)
qed

lemma check_result_cong:
  "find_bucket l lt k = find_bucket m lt k \<Longrightarrow> limits_of l lt = limits_of m lt \<Longrightarrow>
     fst (check_rate_limit l k lt count clk) = fst (check_rate_limit m k lt count clk)"
proof -
  assume f: "find_bucket l lt k = find_bucket m lt k" and lim: "limits_of l lt = limits_of m lt"
  let ?t = "clk_create clk"
  obtain b l1 where l1: "get_bucket l k lt ?t = (b, l1)" by fastforce
  obtain b' m1 where m1: "get_bucket m k lt ?t = (b', m1)" by fastforce
  have "bucket_for l k lt ?t = bucket_for m k lt ?t"
    using f lim by (cases "find_bucket m lt k") (simp_all add: bucket_for_eq)
  then have b: "b' = b" by (simp add: bucket_for_def l1 m1)
  have "limits_of l1 lt = limits_of m1 lt"
    using limits_get [of l k lt ?t] limits_get [of m k lt ?t] lim by (simp add: l1 m1)
  then show ?thesis
    by (simp add: check_rate_limit_def l1 m1 b Let_def split: prod.splits wait_time.splits)
qed

lemma check_denied:
  assumes "fst (check_rate_limit l key lt count clk) = Inr (False, hs)"
  shows "\<exists>w. acquire (bucket_for l key lt (clk_create clk)) count (clk_acquire clk) =
        ((False, Secs w), snd (acquire (bucket_for l key lt (clk_create clk)) count (clk_acquire clk)))
      \<and> dict_get hs ''Retry-After'' = Some (show_int (py_int w + 1))"
  using assms
  by (auto simp: check_rate_limit_def bucket_for_def Let_def limit_headers_def
      split: prod.splits if_splits wait_time.splits)

lemma serve_others:
  "\<forall>q \<in> set qs. \<not> (rq_type q = lt \<and> rq_key q = k) \<Longrightarrow>
     find_bucket (foldl (\<lambda>l q. snd (serve l q)) l qs) lt k = find_bucket l lt k \<and>
     limits_of (foldl (\<lambda>l q. snd (serve l q)) l qs) = limits_of l"
  by (induction qs arbitrary: l) (auto simp: serve_def)

lemma lower_header_names:
  "lower ''X-RateLimit-Limit'' = ''x-ratelimit-limit''"
  "lower ''X-RateLimit-Remaining'' = ''x-ratelimit-remaining''"
  "lower ''X-RateLimit-Reset'' = ''x-ratelimit-reset''"
  "lower ''Retry-After'' = ''retry-after''"
  by code_simp+

section \<open>Waiting for tokens\<close>

lemma wait_and_acquire_now:
  "of_int count \<le> available_tokens b now \<Longrightarrow> 0 < tb_rate b \<Longrightarrow>
   \<exists>b'. wait_and_acquire (Suc n) b count None start now =
     Some (True, now + max 0 ((of_int count - available_tokens b now) / tb_rate b), b')"
proof -
  assume le: "of_int count \<le> available_tokens b now" and r: "0 < tb_rate b"
  obtain ok w b1 where acq: "acquire b count now = ((ok, w), b1)" by (metis prod.exhaust)
  with le have "ok" using acquire_allowed [of b count now] by simp
  moreover have "(of_int count - available_tokens b now) / tb_rate b \<le> 0"
    using le r by (simp add: divide_nonpos_pos)
  ultimately show ?thesis using acq by (simp add: max_absorb1)
qed

lemma wait_and_acquire_steps:
  "bucket_ok b \<Longrightarrow> 0 < tb_rate b \<Longrightarrow> tb_last_refill b \<le> now \<Longrightarrow> count \<le> tb_burst b \<Longrightarrow>
   of_int count - available_tokens b now \<le> of_nat n * (tb_rate b / 10) \<Longrightarrow>
   \<exists>b'. wait_and_acquire (Suc n) b count None start now =
     Some (True, now + max 0 ((of_int count - available_tokens b now) / tb_rate b), b')"
proof (induction n arbitrary: b now)
  case 0
  then show ?case by (intro wait_and_acquire_now) simp_all
next
  case (Suc n)
  let ?a = "available_tokens b now" and ?r = "tb_rate b"
  obtain ok w b1 where acq: "acquire b count now = ((ok, w), b1)" by (metis prod.exhaust)
  show ?case
  proof (cases "of_int count \<le> ?a")
    case True
    then show ?thesis using Suc.prems(2) by (rule wait_and_acquire_now)
  next
    case False
    then have nok: "\<not> ok" and w: "w = Secs ((of_int count - ?a) / ?r)"
      using acquire_allowed [of b count now] acquire_denied_wait [of b count now] acq Suc.prems(2) by simp_all
    have b1: "tb_rate b1 = ?r" "tb_burst b1 = tb_burst b" "tb_last_refill b1 = now" "tb_tokens b1 = ?a"
      using acquire_frame [of b count now] acquire_tokens [of b count now] acq nok by simp_all
    have ok1: "bucket_ok b1"
      using Suc.prems(1) available_nonneg [OF Suc.prems(1,3)] available_le_burst [of b now]
      by (simp add: bucket_ok_def b1)
    let ?d = "(of_int count - ?a) / ?r" and ?s = "min ((of_int count - ?a) / ?r) (1/10)"
    have dpos: "0 < ?d" using False Suc.prems(2) by simp
    have sr: "?s * ?r \<le> of_int count - ?a" using Suc.prems(2) by (simp add: min_def field_simps)
    have av: "available_tokens b1 (now + ?s) = ?a + ?s * ?r"
      using sr Suc.prems(4) by (simp add: available_tokens_def b1 min_def)
    have "of_int count - (?a + ?s * ?r) \<le> of_nat n * (?r / 10)"
    proof (cases "?d \<le> 1/10")
      case True
      then have "?s * ?r = of_int count - ?a" using Suc.prems(2) by (simp add: min_def)
      then show ?thesis using Suc.prems(2) by simp
    next
      case False
      then have "?s = 1/10" by simp
      then show ?thesis using Suc.prems(5) by (simp add: algebra_simps)
    qed
    then obtain b' where b': "wait_and_acquire (Suc n) b1 count None start (now + ?s) =
        Some (True, now + ?s + max 0 ((of_int count - (?a + ?s * ?r)) / ?r), b')"
      using Suc.IH [of b1 "now + ?s"] ok1 Suc.prems(2,4) dpos by (auto simp: b1 av)
    have "?s + max 0 ((of_int count - (?a + ?s * ?r)) / ?r) = ?d"
      using Suc.prems(2) sr by (simp add: max_def field_simps)
    then have "now + ?s + max 0 ((of_int count - (?a + ?s * ?r)) / ?r) = now + max 0 ?d"
      using dpos by simp
    with b' show ?thesis
      using nok
      by (simp add: acq w sleep_time_def wait_and_acquire.simps(2) [of "Suc n" b]
          del: wait_and_acquire.simps)
  qed
qed

lemma wait_and_acquire_oversized:
  "tb_burst b < count \<Longrightarrow> wait_and_acquire fuel b count None start now = None"
proof (induction fuel arbitrary: b now)
  case 0
  then show ?case by simp
next
  case (Suc n)
  obtain ok w b1 where acq: "acquire b count now = ((ok, w), b1)" by (metis prod.exhaust)
  moreover have "\<not> ok"
    using Suc.prems acq acquire_allowed [of b count now] available_le_burst [of b now] by simp
  moreover have "tb_burst b1 = tb_burst b" using acquire_frame [of b count now] acq by simp
  ultimately show ?case using Suc by simp
qed

section \<open>Properties\<close>

text \<open>
  C3: However requests of all keys are interleaved, the tokens granted to one key between two
  times are at most its burst plus its rate times the elapsed time.
\<close>

theorem rate_limit_bound:
  assumes "key_ok l k lt t0" and "time_ordered t0 qs t1"
  shows "of_int (granted l k lt qs) \<le> of_int (snd (limits_of l lt)) + fst (limits_of l lt) * (t1 - t0)"
  using granted_bound [OF assms] credit_le [OF assms(1)] by simp

definition demo_clock :: "pyfloat \<Rightarrow> clock" where
  "demo_clock t = \<lparr>clk_create = t, clk_acquire = t, clk_avail = t, clk_wall = t\<rparr>"

definition demo_limiter :: rate_limiter where
  "demo_limiter = configure ''api'' 1 2 new_rate_limiter"

definition demo_requests :: "request list" where
  "demo_requests = map (\<lambda>t. \<lparr>rq_key = ''u'', rq_type = ''api'', rq_count = 1, rq_clk = demo_clock t\<rparr>) [0, 0, 0, 1]"

lemma demo_limits: "limits_of demo_limiter ''api'' = (1, 2)"
  by (simp add: limits_of_def demo_limiter_def configure_def new_rate_limiter_def dict_get_or_def)

lemma demo_key_ok: "key_ok demo_limiter k ''api'' 0"
  by (simp add: key_ok_def demo_limits)
    (simp add: find_bucket_def demo_limiter_def configure_def new_rate_limiter_def dict_get_or_def)

theorem rate_limit_bound_witness:
  "of_int (granted demo_limiter ''u'' ''api'' demo_requests) \<le> (3::pyfloat)"
proof -
  have "time_ordered 0 demo_requests 1"
    by (simp add: demo_requests_def demo_clock_def)
  from rate_limit_bound [OF demo_key_ok this, of "''u''"] show ?thesis
    by (simp add: demo_limits)
qed

text \<open>
  The answer to a key of a limit type does not depend on what other keys did: serving any
  requests of other keys first leaves the decision and the headers unchanged.
\<close>

theorem keys_isolated:
  assumes "\<forall>q \<in> set qs. \<not> (rq_type q = lt \<and> rq_key q = k)"
  shows "fst (check_rate_limit (foldl (\<lambda>l q. snd (serve l q)) l qs) k lt count clk) =
         fst (check_rate_limit l k lt count clk)"
  using serve_others [OF assms] by (intro check_result_cong) simp_all

theorem keys_isolated_witness:
  "fst (check_rate_limit (foldl (\<lambda>l q. snd (serve l q)) demo_limiter demo_requests) ''v'' ''api'' 1 (demo_clock 1)) =
   fst (check_rate_limit demo_limiter ''v'' ''api'' 1 (demo_clock 1))"
  by (rule keys_isolated) (simp add: demo_requests_def)

text \<open>
  C35: The \<open>Retry-After\<close> header is honest: after a refusal that carries \<open>Retry-After: n\<close>, a
  request for the same tokens at least \<open>n\<close> seconds later is granted, provided it fits the burst.
\<close>

theorem retry_after_sufficient:
  assumes "key_ok l k lt (clk_acquire clk)" and "clk_create clk \<le> clk_acquire clk"
    and "count \<le> snd (limits_of l lt)"
    and "check_rate_limit l k lt count clk = (Inr (False, hs), l')"
  shows "\<exists>n. dict_get hs ''Retry-After'' = Some (show_int n) \<and>
    (\<forall>clk'. clk_acquire clk + of_int n \<le> clk_acquire clk' \<longrightarrow>
       allowed (fst (check_rate_limit l' k lt count clk')))"
proof -
  let ?b = "bucket_for l k lt (clk_create clk)" and ?t = "clk_acquire clk"
  note bf = bucket_for_key_ok [OF assms(1) order_refl assms(2)]
  obtain w where w: "acquire ?b count ?t = ((False, Secs w), snd (acquire ?b count ?t))"
      and ra: "dict_get hs ''Retry-After'' = Some (show_int (py_int w + 1))"
    using check_denied [of l k lt count clk hs] assms(4) by auto
  have l': "find_bucket l' lt k = Some (snd (acquire ?b count ?t))"
    using check_find [of l k lt count clk lt k] assms(4) by simp
  have "w \<le> of_int (py_int w + 1)"
    by (simp add: py_int_def) linarith
  moreover have "fst (fst (acquire ?b count ?t)) = False" "snd (fst (acquire ?b count ?t)) = Secs w"
    by (simp_all add: w [THEN arg_cong [where f = fst]])
  then have "0 \<le> w"
    using acquire_denied_wait [of ?b count ?t] acquire_allowed [of ?b count ?t]
    by (auto split: if_splits)
  then have "0 \<le> real_of_int (py_int w + 1)"
    by (simp add: py_int_def)
  moreover have "bucket_for l' k lt c = snd (acquire ?b count ?t)" for c
    by (simp add: bucket_for_eq [of l'] l')
  ultimately have "allowed (fst (check_rate_limit l' k lt count clk'))"
    if "?t + of_int (py_int w + 1) \<le> clk_acquire clk'" for clk'
    using acquire_wait_exact [OF bf(1,2) _ w, of "clk_acquire clk'"] that assms(3) bf(4)
    by (simp add: check_allowed acquire_allowed)
  with ra show ?thesis by blast
qed

definition drained_limiter :: rate_limiter where
  "drained_limiter = snd (check_rate_limit demo_limiter ''u'' ''api'' 2 (demo_clock 0))"

lemma drained_bucket:
  "find_bucket drained_limiter ''api'' ''u'' = Some \<lparr>tb_rate = 1, tb_burst = 2, tb_tokens = 0, tb_last_refill = 0\<rparr>"
  by code_simp

lemma drained_refused:
  "check_rate_limit drained_limiter ''u'' ''api'' 1 (demo_clock 0) =
     (Inr (False, [(''X-RateLimit-Limit'', ''1''), (''X-RateLimit-Remaining'', ''0''),
        (''X-RateLimit-Reset'', ''2''), (''Retry-After'', ''2'')]), drained_limiter)"
  by code_simp

theorem retry_after_sufficient_witness:
  "\<exists>n. ''2'' = show_int n \<and>
    (\<forall>clk'. of_int n \<le> clk_acquire clk' \<longrightarrow> allowed (fst (check_rate_limit drained_limiter ''u'' ''api'' 1 clk')))"
proof -
  have lim: "limits_of drained_limiter ''api'' = (1, 2)"
    by (simp add: drained_limiter_def demo_limits)
  have ok: "key_ok drained_limiter ''u'' ''api'' (clk_acquire (demo_clock 0))"
    by (simp add: key_ok_def lim demo_clock_def drained_bucket bucket_ok_def)
  show ?thesis
    using retry_after_sufficient [OF ok _ _ drained_refused]
    by (simp add: lim demo_clock_def)
qed

text \<open>
  Whatever sequence of requests a bucket serves, at non-decreasing times, its tokens stay
  between 0 and the burst capacity.
\<close>

theorem bucket_within_capacity:
  assumes "bucket_ok b" and "sorted (tb_last_refill b # map snd es)" and "\<forall>e \<in> set es. 0 \<le> fst e"
  shows "0 \<le> tb_tokens (foldl bucket_step b es) \<and> tb_tokens (foldl bucket_step b es) \<le> of_int (tb_burst b)"
proof -
  have "bucket_ok (foldl bucket_step b es)"
    using assms by (intro bucket_run.run_inv bucket_admissible)
  moreover have "tb_burst (foldl bucket_step b es) = tb_burst b"
    by (induction es arbitrary: b) (simp_all add: bucket_step_def)
  ultimately show ?thesis by (simp add: bucket_ok_def)
qed

theorem bucket_within_capacity_witness:
  "tb_tokens (foldl bucket_step (new_bucket 1 2 0) [(2, 0), (1, 0), (1, 5)]) \<le> 2"
  using bucket_within_capacity [of "new_bucket 1 2 0" "[(2, 0), (1, 0), (1, 5)]"] by simp

text \<open>
  C38: Waiting without a timeout for tokens that fit the burst returns, exactly when the
  deficit has been refilled: after deficit/rate seconds, not later.
\<close>

theorem wait_and_acquire_returns:
  assumes "bucket_ok b" and "0 < tb_rate b" and "tb_last_refill b \<le> now" and "count \<le> tb_burst b"
  shows "\<exists>fuel b'. wait_and_acquire fuel b count None start now =
    Some (True, now + max 0 ((of_int count - available_tokens b now) / tb_rate b), b')"
proof -
  let ?d = "(of_int count - available_tokens b now) / (tb_rate b / 10)"
  have "?d \<le> of_nat (nat \<lceil>?d\<rceil>)" by linarith
  then have "of_int count - available_tokens b now \<le> of_nat (nat \<lceil>?d\<rceil>) * (tb_rate b / 10)"
    using assms(2) by (simp add: field_simps)
  from wait_and_acquire_steps [OF assms this] show ?thesis by blast
qed

theorem wait_and_acquire_returns_witness:
  "\<exists>fuel b'. wait_and_acquire fuel (new_bucket 2 4 0\<lparr>tb_tokens := 0\<rparr>) 3 None 0 0 = Some (True, 3/2, b')"
  using wait_and_acquire_returns [of "new_bucket 2 4 0\<lparr>tb_tokens := 0\<rparr>" 0 3 0]
  by (simp add: bucket_ok_def new_bucket_def available_tokens_def)

text \<open>
  Resetting a key in every limit type makes its next request start from a full bucket:
  it is granted exactly when it fits the configured burst.
\<close>

theorem reset_restores_burst:
  assumes "0 \<le> fst (limits_of l lt)" and "clk_create clk \<le> clk_acquire clk"
  shows "allowed (fst (check_rate_limit (reset_key key None l) key lt count clk)) \<longleftrightarrow>
     count \<le> snd (limits_of l lt)"
proof -
  have "map_of (map (\<lambda>(t, bs). (t, dict_del key bs)) (rl_buckets l)) lt =
      map_option (dict_del key) (map_of (rl_buckets l) lt)"
    by simp
  then have "find_bucket (reset_key key None l) lt key = None"
    by (auto simp: reset_key_def truthy_def find_bucket_def dict_get_or_def split: option.splits)
  moreover have "limits_of (reset_key key None l) = limits_of l"
    by (simp add: reset_key_def truthy_def limits_of_def fun_eq_iff)
  moreover have "0 \<le> (clk_acquire clk - clk_create clk) * fst (limits_of l lt)"
    using assms by simp
  ultimately show ?thesis
    by (auto simp: check_allowed bucket_for_eq available_tokens_def)
qed

theorem reset_restores_burst_witness:
  "allowed (fst (check_rate_limit (reset_key ''u'' None demo_limiter) ''u'' ''api'' 2 (demo_clock 0)))"
  using reset_restores_burst [of demo_limiter "''api''" "demo_clock 0" "''u''" 2]
  by (simp add: demo_limits demo_clock_def)

text \<open>
  Reconfiguring a limit type does not reach the buckets that exist: an existing bucket keeps
  deciding at its old rate and burst, while the headers already advertise the new rate.
\<close>

theorem configure_keeps_old_buckets:
  assumes "find_bucket l lt key = Some b"
    and "fst (check_rate_limit (configure lt r' b' l) key lt count clk) = Inr (ok, hs)"
  shows "ok = allowed (fst (check_rate_limit l key lt count clk)) \<and>
    dict_get hs ''X-RateLimit-Limit'' = Some (show_int (py_int r'))"
proof -
  have f: "find_bucket (configure lt r' b' l) lt key = Some b"
    using assms(1) by (simp add: find_bucket_def configure_def)
  have "ok = allowed (fst (check_rate_limit (configure lt r' b' l) key lt count clk))"
    using assms(2) by (simp add: allowed_def split: bool.splits)
  also have "\<dots> = allowed (fst (check_rate_limit l key lt count clk))"
    using f assms(1) by (simp add: check_allowed bucket_for_eq)
  finally have "ok = allowed (fst (check_rate_limit l key lt count clk))" .
  moreover have "limits_of (configure lt r' b' l) lt = (r', b')"
    by (simp add: limits_of_def configure_def)
  ultimately show ?thesis
    using f assms(2) by (auto simp: check_rate_limit_def get_bucket_def limit_headers_def Let_def
        split: prod.splits if_splits wait_time.splits)
qed

definition demo_used :: rate_limiter where
  "demo_used = snd (check_rate_limit demo_limiter ''u'' ''api'' 1 (demo_clock 0))"

theorem configure_keeps_old_buckets_witness:
  "\<exists>hs. fst (check_rate_limit (configure ''api'' 100 200 demo_used) ''u'' ''api'' 1 (demo_clock 0)) = Inr (True, hs)
     \<and> dict_get hs ''X-RateLimit-Limit'' = Some (show_int 100)"
proof -
  let ?l = "configure ''api'' 100 200 demo_used"
  have none: "find_bucket demo_limiter ''api'' ''u'' = None"
    by (simp add: find_bucket_def demo_limiter_def configure_def new_rate_limiter_def dict_get_or_def)
  have f: "find_bucket demo_used ''api'' ''u'' = Some (snd (acquire (new_bucket 1 2 0) 1 0))"
    by (simp add: demo_used_def bucket_for_eq none demo_limits demo_clock_def)
  then have g: "find_bucket ?l ''api'' ''u'' = Some (snd (acquire (new_bucket 1 2 0) 1 0))"
    by (simp add: find_bucket_def configure_def)
  have "allowed (fst (check_rate_limit ?l ''u'' ''api'' 1 (demo_clock 0)))"
    by (simp add: check_allowed bucket_for_eq g demo_clock_def available_tokens_def acquire_def Let_def)
  then obtain hs where hs: "fst (check_rate_limit ?l ''u'' ''api'' 1 (demo_clock 0)) = Inr (True, hs)"
    by (auto simp: allowed_def split: sum.splits prod.splits bool.splits)
  from configure_keeps_old_buckets [OF f hs] hs show ?thesis by (simp add: py_int_def)
qed

text \<open>
  The middleware forwards an HTTP request of a known client to the application exactly when
  the client's bucket for the path's limit type holds a token; otherwise the application is not
  called and the client receives status 429 with the limit headers and \<open>Retry-After\<close>.
\<close>

theorem middleware_admission:
  assumes "sc_type sc = ''http''" and "sc_client sc = Some (Some (ip, port))" and "sc_path sc = Some path"
    and "middleware_call sc clk l = (Inr res, l')"
  shows "if 1 \<le> available_tokens (bucket_for l ip (path_limit_type path) (clk_create clk)) (clk_acquire clk)
    then \<exists>lh. res = Forwarded lh
    else \<exists>hs body n. res = Rejected [ResponseStart 429 hs, ResponseBody body] \<and>
           dict_get hs ''retry-after'' = Some (show_int n)"
proof -
  let ?lt = "path_limit_type path"
  obtain r l1 where r: "check_rate_limit l ip ?lt 1 clk = (Inr r, l1)" and
      res: "res = (if fst r then Forwarded (snd r) else Rejected (rejection (snd r)))"
    using assms by (auto simp: middleware_call_def split: prod.splits sum.splits bool.splits)
  have al: "allowed (fst (check_rate_limit l ip ?lt 1 clk)) \<longleftrightarrow> fst r"
    by (simp add: r allowed_def split: prod.splits bool.splits)
  show ?thesis
  proof (cases "fst r")
    case True
    then show ?thesis using al res by (simp add: check_allowed)
  next
    case False
    then obtain hs where hs: "r = (False, hs)" by (cases r) simp
    obtain w where "acquire (bucket_for l ip ?lt (clk_create clk)) 1 (clk_acquire clk) =
        ((False, Secs w), snd (acquire (bucket_for l ip ?lt (clk_create clk)) 1 (clk_acquire clk)))"
      using check_denied [of l ip ?lt 1 clk hs] r hs by auto
    then obtain xs ys zs where "hs = [(''X-RateLimit-Limit'', xs), (''X-RateLimit-Remaining'', ys),
        (''X-RateLimit-Reset'', zs), (''Retry-After'', show_int (py_int w + 1))]"
      using r hs by (auto simp: check_rate_limit_def bucket_for_def limit_headers_def Let_def
          split: prod.splits)
    then show ?thesis
      using al False res hs
      by (auto simp: check_allowed rejection_def Let_def lower_header_names)
  qed
qed

theorem middleware_admission_witness:
  "\<exists>lh. fst (middleware_call \<lparr>sc_type = ''http'', sc_client = Some (Some (''10.0.0.1'', 80)),
       sc_path = Some ''/chat''\<rparr> (demo_clock 0) demo_limiter) = Inr (Forwarded lh)"
proof -
  let ?sc = "\<lparr>sc_type = ''http'', sc_client = Some (Some (''10.0.0.1'', 80)), sc_path = Some ''/chat''\<rparr>"
  have p: "path_limit_type ''/chat'' = ''api''" by (simp add: path_limit_type_def)
  have "find_bucket demo_limiter ''api'' k = None" for k
    by (simp add: find_bucket_def demo_limiter_def configure_def new_rate_limiter_def dict_get_or_def)
  then have b: "bucket_for demo_limiter ''10.0.0.1'' ''api'' 0 = new_bucket 1 2 0"
    by (simp add: bucket_for_eq demo_limits)
  have al: "1 \<le> available_tokens (new_bucket 1 2 0) 0" by (simp add: available_tokens_def)
  have "allowed (fst (check_rate_limit demo_limiter ''10.0.0.1'' ''api'' 1 (demo_clock 0)))"
    using al by (simp add: check_allowed b demo_clock_def)
  then obtain lh where "fst (check_rate_limit demo_limiter ''10.0.0.1'' ''api'' 1 (demo_clock 0)) = Inr (True, lh)"
    by (auto simp: allowed_def split: sum.splits prod.splits bool.splits)
  then obtain m where "check_rate_limit demo_limiter ''10.0.0.1'' ''api'' 1 (demo_clock 0) = (Inr (True, lh), m)"
    by (cases "check_rate_limit demo_limiter ''10.0.0.1'' ''api'' 1 (demo_clock 0)") simp
  then have m: "middleware_call ?sc (demo_clock 0) demo_limiter = (Inr (Forwarded lh), m)"
    by (simp add: middleware_call_def p)
  from middleware_admission [OF _ _ _ m] show ?thesis
    using al by (simp add: p b demo_clock_def m [unfolded demo_clock_def])
qed

end
