(* ===== verification/Py_Regex.thy ===== *)
theory Py_Regex
  imports Py_Prelude
begin

text \<open>
  Regular expressions as Python's \<open>re\<close> matches them, for the patterns the components use:
  a pattern is a value of \<open>rx\<close>, and \<open>ends r s i\<close> lists the positions where a match of \<open>r\<close> that
  starts at position \<open>i\<close> of \<open>s\<close> can end, in the order in which the backtracking matcher finds
  them (its first element is the match Python reports). An iteration of a star must consume a
  character, as in \<open>re\<close>; the length of the rest of the text bounds the iterations, and
  \<open>ends_iff\<close> shows that this bound loses no match of the declarative relation \<open>rmatch\<close>.
  \<open>search\<close>, \<open>findall\<close> and \<open>re_sub\<close> scan for the leftmost match, as the library does. Text is
  ASCII; no pattern of the code matches the empty string.
\<close>

section \<open>Patterns\<close>

datatype rx =
    Eps
  | Cls "char \<Rightarrow> bool" \<comment> \<open>one character of a class\<close>
  | Seq rx rx
  | Alt rx rx
  | Star rx
  | LazyStar rx
  | Bound \<comment> \<open>word boundary\<close>

definition is_digit :: "char \<Rightarrow> bool" where
  [py_eval]: "is_digit c = (let n = of_char c :: nat in 48 \<le> n \<and> n \<le> 57)"

definition is_upper :: "char \<Rightarrow> bool" where
  [py_eval]: "is_upper c = (let n = of_char c :: nat in 65 \<le> n \<and> n \<le> 90)"

definition is_lower :: "char \<Rightarrow> bool" where
  [py_eval]: "is_lower c = (let n = of_char c :: nat in 97 \<le> n \<and> n \<le> 122)"

definition is_word :: "char \<Rightarrow> bool" where
  [py_eval]: "is_word c = (is_digit c \<or> is_upper c \<or> is_lower c \<or> c = CHR ''_'')"

definition upper_char :: "char \<Rightarrow> char" where
  [py_eval]: "upper_char c = (if is_lower c then char_of ((of_char c :: nat) - 32) else c)"

definition upper :: "string \<Rightarrow> string" where
  [py_eval]: "upper s = map upper_char s"

fun rx_seq :: "rx list \<Rightarrow> rx" where
  "rx_seq [] = Eps"
| "rx_seq [r] = r"
| "rx_seq (r # rs) = Seq r (rx_seq rs)"

fun rx_alts :: "rx list \<Rightarrow> rx" where
  "rx_alts [] = Cls (\<lambda>_. False)"
| "rx_alts [r] = r"
| "rx_alts (r # rs) = Alt r (rx_alts rs)"

definition lit :: "string \<Rightarrow> rx" where
  "lit s = rx_seq (map (\<lambda>c. Cls (\<lambda>d. d = c)) s)"

definition lits :: "string list \<Rightarrow> rx" where
  "lits ss = rx_alts (map lit ss)"

definition opt :: "rx \<Rightarrow> rx" where
  "opt r = Alt r Eps"

definition plus1 :: "rx \<Rightarrow> rx" where
  "plus1 r = Seq r (Star r)"

fun rep :: "nat \<Rightarrow> rx \<Rightarrow> rx" where
  \<comment> \<open>\<open>r{n}\<close>\<close>
  "rep 0 r = Eps"
| "rep (Suc n) r = Seq r (rep n r)"

fun rep_upto :: "nat \<Rightarrow> rx \<Rightarrow> rx" where
  \<comment> \<open>\<open>r{0,n}\<close>, greedy\<close>
  "rep_upto 0 r = Eps"
| "rep_upto (Suc n) r = Alt (Seq r (rep_upto n r)) Eps"

definition rep_range :: "nat \<Rightarrow> nat \<Rightarrow> rx \<Rightarrow> rx" where
  \<comment> \<open>\<open>r{m,n}\<close>\<close>
  "rep_range m n r = Seq (rep m r) (rep_upto (n - m) r)"

definition spaces :: rx where "spaces = plus1 (Cls is_space)" \<comment> \<open>\<open>\s+\<close>\<close>
definition spaces0 :: rx where "spaces0 = Star (Cls is_space)" \<comment> \<open>\<open>\s*\<close>\<close>
definition digit :: rx where "digit = Cls is_digit" \<comment> \<open>\<open>\d\<close>\<close>

text \<open>\<open>re.IGNORECASE\<close>: a class also accepts the other case of its characters.\<close>

fun ignore_case :: "rx \<Rightarrow> rx" where
  "ignore_case Eps = Eps"
| "ignore_case (Cls p) = Cls (\<lambda>c. p c \<or> p (lower_char c) \<or> p (upper_char c))"
| "ignore_case (Seq a b) = Seq (ignore_case a) (ignore_case b)"
| "ignore_case (Alt a b) = Alt (ignore_case a) (ignore_case b)"
| "ignore_case (Star a) = Star (ignore_case a)"
| "ignore_case (LazyStar a) = LazyStar (ignore_case a)"
| "ignore_case Bound = Bound"

section \<open>The matcher\<close>

fun star_ends :: "(nat \<Rightarrow> nat list) \<Rightarrow> nat \<Rightarrow> nat \<Rightarrow> nat list" where
  "star_ends m 0 i = [i]"
| "star_ends m (Suc n) i = concat (map (star_ends m n) (filter (\<lambda>j. i < j) (m i))) @ [i]"

fun lazy_ends :: "(nat \<Rightarrow> nat list) \<Rightarrow> nat \<Rightarrow> nat \<Rightarrow> nat list" where
  "lazy_ends m 0 i = [i]"
| "lazy_ends m (Suc n) i = i # concat (map (lazy_ends m n) (filter (\<lambda>j. i < j) (m i)))"

definition word_at :: "string \<Rightarrow> nat \<Rightarrow> bool" where
  "word_at s i \<longleftrightarrow> i < length s \<and> is_word (s ! i)"

definition boundary_at :: "string \<Rightarrow> nat \<Rightarrow> bool" where
  "boundary_at s i \<longleftrightarrow> (0 < i \<and> word_at s (i - 1)) \<noteq> word_at s i"

fun ends :: "rx \<Rightarrow> string \<Rightarrow> nat \<Rightarrow> nat list" where
  "ends Eps s i = [i]"
| "ends (Cls p) s i = (if i < length s \<and> p (s ! i) then [Suc i] else [])"
| "ends (Seq a b) s i = concat (map (ends b s) (ends a s i))"
| "ends (Alt a b) s i = ends a s i @ ends b s i"
| "ends (Star a) s i = star_ends (ends a s) (length s - i) i"
| "ends (LazyStar a) s i = lazy_ends (ends a s) (length s - i) i"
| "ends Bound s i = (if boundary_at s i then [i] else [])"

definition match_at :: "rx \<Rightarrow> string \<Rightarrow> nat \<Rightarrow> bool" where
  "match_at r s i \<longleftrightarrow> ends r s i \<noteq> []"

definition search :: "rx \<Rightarrow> string \<Rightarrow> bool" where
  "search r s \<longleftrightarrow> list_ex (match_at r s) [0..<Suc (length s)]"

definition fullmatch :: "rx \<Rightarrow> string \<Rightarrow> bool" where
  "fullmatch r s \<longleftrightarrow> length s \<in> set (ends r s 0)"

fun first_match :: "rx \<Rightarrow> string \<Rightarrow> nat list \<Rightarrow> (nat \<times> nat) option" where
  "first_match r s [] = None"
| "first_match r s (i # is) = (case ends r s i of [] \<Rightarrow> first_match r s is | j # _ \<Rightarrow> Some (i, j))"

definition search_from :: "rx \<Rightarrow> string \<Rightarrow> nat \<Rightarrow> (nat \<times> nat) option" where
  "search_from r s i = first_match r s [i..<Suc (length s)]"

definition match_text :: "rx \<Rightarrow> string \<Rightarrow> string option" where
  \<comment> \<open>\<open>re.search(r, s).group()\<close>\<close>
  "match_text r s = map_option (\<lambda>(i, j). take (j - i) (drop i s)) (search_from r s 0)"

fun find_spans :: "nat \<Rightarrow> rx \<Rightarrow> string \<Rightarrow> nat \<Rightarrow> (nat \<times> nat) list" where
  \<comment> \<open>\<open>re.finditer\<close>: leftmost, non-overlapping\<close>
  "find_spans 0 r s i = []"
| "find_spans (Suc n) r s i =
     (case search_from r s i of None \<Rightarrow> []
      | Some (a, b) \<Rightarrow> (a, b) # find_spans n r s (if a < b then b else Suc b))"

definition finditer :: "rx \<Rightarrow> string \<Rightarrow> (nat \<times> nat) list" where
  "finditer r s = find_spans (Suc (length s)) r s 0"

definition findall :: "rx \<Rightarrow> string \<Rightarrow> string list" where
  "findall r s = map (\<lambda>(a, b). take (b - a) (drop a s)) (finditer r s)"

fun splice :: "string \<Rightarrow> string \<Rightarrow> nat \<Rightarrow> (nat \<times> nat) list \<Rightarrow> string" where
  "splice repl s i [] = drop i s"
| "splice repl s i ((a, b) # rest) = take (a - i) (drop i s) @ repl @ splice repl s b rest"

definition re_sub :: "rx \<Rightarrow> string \<Rightarrow> string \<Rightarrow> string" where
  "re_sub r repl s = splice repl s 0 (finditer r s)"

section \<open>The declarative relation, and the matcher against it\<close>

inductive rmatch :: "rx \<Rightarrow> string \<Rightarrow> nat \<Rightarrow> nat \<Rightarrow> bool" where
  "rmatch Eps s i i"
| "i < length s \<Longrightarrow> p (s ! i) \<Longrightarrow> rmatch (Cls p) s i (Suc i)"
| "rmatch a s i j \<Longrightarrow> rmatch b s j k \<Longrightarrow> rmatch (Seq a b) s i k"
| "rmatch a s i j \<Longrightarrow> rmatch (Alt a b) s i j"
| "rmatch b s i j \<Longrightarrow> rmatch (Alt a b) s i j"
| "rmatch (Star a) s i i"
| "rmatch a s i j \<Longrightarrow> rmatch (Star a) s j k \<Longrightarrow> rmatch (Star a) s i k"
| "rmatch (LazyStar a) s i i"
| "rmatch a s i j \<Longrightarrow> rmatch (LazyStar a) s j k \<Longrightarrow> rmatch (LazyStar a) s i k"
| "boundary_at s i \<Longrightarrow> rmatch Bound s i i"

inductive_cases rmatch_Star: "rmatch (Star a) s i k"

text \<open>The positions a star reaches are the closure of the strictly advancing iterations.\<close>

definition advances :: "(nat \<Rightarrow> nat list) \<Rightarrow> nat \<Rightarrow> nat \<Rightarrow> bool" where
  "advances m i j \<longleftrightarrow> j \<in> set (m i) \<and> i < j"

lemma set_lazy_ends [simp]: "set (lazy_ends m n i) = set (star_ends m n i)"
  by (induction n arbitrary: i) auto

lemma star_ends_sound: "j \<in> set (star_ends m n i) \<Longrightarrow> (advances m)\<^sup>*\<^sup>* i j"
proof (induction n arbitrary: i)
  case 0
  then show ?case by simp
next
  case (Suc n)
  then consider "j = i" | k where "k \<in> set (m i)" "i < k" "j \<in> set (star_ends m n k)"
    by auto
  then show ?case
  proof cases
    case 2
    then have "advances m i k" by (simp add: advances_def)
    with Suc.IH [OF 2(3)] show ?thesis by (rule converse_rtranclp_into_rtranclp [rotated])
  qed simp
qed

lemma advances_le: "(advances m)\<^sup>*\<^sup>* i j \<Longrightarrow> i \<le> j"
  by (induction rule: rtranclp_induct) (auto simp: advances_def)

lemma star_ends_complete: "(advances m)\<^sup>*\<^sup>* i j \<Longrightarrow> j \<le> i + n \<Longrightarrow> j \<in> set (star_ends m n i)"
proof (induction arbitrary: n rule: converse_rtranclp_induct)
  case base
  then show ?case by (cases n) simp_all
next
  case (step i k)
  from step.hyps have k: "k \<in> set (m i)" "i < k" and "k \<le> j"
    using advances_le [OF step.hyps(2)] by (simp_all add: advances_def)
  with step.prems obtain n' where n': "n = Suc n'" by (cases n) auto
  with k step.prems have "j \<in> set (star_ends m n' k)" by (intro step.IH) simp
  with k n' show ?case by auto
qed

lemma advances_bound:
  assumes "(advances m)\<^sup>*\<^sup>* i j" "i \<le> L" "\<And>i j. i \<le> L \<Longrightarrow> j \<in> set (m i) \<Longrightarrow> j \<le> L"
  shows "j \<le> L"
  using assms by (induction rule: rtranclp_induct) (auto simp: advances_def)

lemma set_star_ends:
  assumes "i \<le> L" "\<And>i j. i \<le> L \<Longrightarrow> j \<in> set (m i) \<Longrightarrow> j \<le> L"
  shows "j \<in> set (star_ends m (L - i) i) \<longleftrightarrow> (advances m)\<^sup>*\<^sup>* i j"
proof
  assume r: "(advances m)\<^sup>*\<^sup>* i j"
  with assms have "j \<le> i + (L - i)" using advances_bound [OF r, of L] by simp
  with r show "j \<in> set (star_ends m (L - i) i)" by (rule star_ends_complete)
qed (rule star_ends_sound)

lemma ends_bounds: "i \<le> length s \<Longrightarrow> j \<in> set (ends r s i) \<Longrightarrow> i \<le> j \<and> j \<le> length s"
proof (induction r arbitrary: i j)
  case (Seq a b)
  from Seq.prems(2) obtain k where k: "k \<in> set (ends a s i)" "j \<in> set (ends b s k)" by auto
  from Seq.IH(1) [OF Seq.prems(1) k(1)] have ik: "i \<le> k" "k \<le> length s" by simp_all
  from Seq.IH(2) [OF ik(2) k(2)] ik(1) show ?case by simp
next
  case (Star a)
  from Star.prems(2) have "j \<in> set (star_ends (ends a s) (length s - i) i)" by simp
  then have c: "(advances (ends a s))\<^sup>*\<^sup>* i j" by (rule star_ends_sound)
  have "k \<le> length s" if "i \<le> length s" "k \<in> set (ends a s i)" for i k
    using Star.IH [OF that] by simp
  with advances_le [OF c] advances_bound [OF c Star.prems(1)] show ?case by simp
next
  case (LazyStar a)
  from LazyStar.prems(2) have "j \<in> set (star_ends (ends a s) (length s - i) i)" by simp
  then have c: "(advances (ends a s))\<^sup>*\<^sup>* i j" by (rule star_ends_sound)
  have "k \<le> length s" if "i \<le> length s" "k \<in> set (ends a s i)" for i k
    using LazyStar.IH [OF that] by simp
  with advances_le [OF c] advances_bound [OF c LazyStar.prems(1)] show ?case by simp
next
  case (Alt a b)
  from Alt.prems(2) consider "j \<in> set (ends a s i)" | "j \<in> set (ends b s i)" by auto
  then show ?case by cases (rule Alt.IH(1) [OF Alt.prems(1)] Alt.IH(2) [OF Alt.prems(1)], assumption)+
qed (simp_all split: if_splits)

lemma rmatch_bounds: "rmatch r s i j \<Longrightarrow> i \<le> length s \<Longrightarrow> i \<le> j \<and> j \<le> length s"
  by (induction rule: rmatch.induct) auto

lemma rmatch_Star_closure:
  assumes "\<And>i j. i \<le> length s \<Longrightarrow> j \<in> set (ends a s i) \<longleftrightarrow> rmatch a s i j" and "i \<le> length s"
  shows "rmatch (Star a) s i j \<longleftrightarrow> (advances (ends a s))\<^sup>*\<^sup>* i j"
    and "rmatch (LazyStar a) s i j \<longleftrightarrow> (advances (ends a s))\<^sup>*\<^sup>* i j"
proof -
  have to: "(advances (ends a s))\<^sup>*\<^sup>* i j \<Longrightarrow> i \<le> length s \<Longrightarrow>
      rmatch (Star a) s i j \<and> rmatch (LazyStar a) s i j" for i
  proof (induction rule: converse_rtranclp_induct)
    case base
    then show ?case by (auto intro: rmatch.intros)
  next
    case (step i k)
    from step.hyps(1) have k: "k \<in> set (ends a s i)" by (simp add: advances_def)
    from ends_bounds [OF step.prems k] have "k \<le> length s" by simp
    note IH = step.IH [OF this]
    from k assms(1) [OF step.prems] have "rmatch a s i k" by simp
    with IH show ?case by (blast intro: rmatch.intros)
  qed
  have one: "rmatch a s i k \<Longrightarrow> i \<le> length s \<Longrightarrow> (advances (ends a s))\<^sup>*\<^sup>* i k" for i k
    using assms(1) [of i k] rmatch_bounds [of a s i k] by (cases "i = k") (auto simp: advances_def)
  have st: "rmatch r u i j \<Longrightarrow> r = Star a \<or> r = LazyStar a \<Longrightarrow> u = s \<Longrightarrow> i \<le> length s \<Longrightarrow>
      (advances (ends a s))\<^sup>*\<^sup>* i j" for r u i j
  proof (induction rule: rmatch.induct)
    case (7 a' s' i j k)
    then have "rmatch a s i j" "i \<le> length s" by simp_all
    then have "(advances (ends a s))\<^sup>*\<^sup>* i j" "j \<le> length s" using one rmatch_bounds by blast+
    moreover from this 7 have "(advances (ends a s))\<^sup>*\<^sup>* j k" by simp
    ultimately show ?case by (blast intro: rtranclp_trans)
  next
    case (9 a' s' i j k)
    then have "rmatch a s i j" "i \<le> length s" by simp_all
    then have "(advances (ends a s))\<^sup>*\<^sup>* i j" "j \<le> length s" using one rmatch_bounds by blast+
    moreover from this 9 have "(advances (ends a s))\<^sup>*\<^sup>* j k" by simp
    ultimately show ?case by (blast intro: rtranclp_trans)
  qed simp_all
  show "rmatch (Star a) s i j \<longleftrightarrow> (advances (ends a s))\<^sup>*\<^sup>* i j"
    using st [of "Star a" s i j] to assms(2) by blast
  show "rmatch (LazyStar a) s i j \<longleftrightarrow> (advances (ends a s))\<^sup>*\<^sup>* i j"
    using st [of "LazyStar a" s i j] to assms(2) by blast
qed

lemma rmatch_simps:
  "rmatch Eps s i j \<longleftrightarrow> j = i"
  "rmatch (Cls p) s i j \<longleftrightarrow> i < length s \<and> p (s ! i) \<and> j = Suc i"
  "rmatch (Seq a b) s i j \<longleftrightarrow> (\<exists>k. rmatch a s i k \<and> rmatch b s k j)"
  "rmatch (Alt a b) s i j \<longleftrightarrow> rmatch a s i j \<or> rmatch b s i j"
  "rmatch Bound s i j \<longleftrightarrow> boundary_at s i \<and> j = i"
  by (auto elim: rmatch.cases intro: rmatch.intros)

theorem ends_iff: "i \<le> length s \<Longrightarrow> j \<in> set (ends r s i) \<longleftrightarrow> rmatch r s i j"
proof (induction r arbitrary: i j)
  case (Seq a b)
  have "j \<in> set (ends (Seq a b) s i) \<longleftrightarrow> (\<exists>k \<in> set (ends a s i). j \<in> set (ends b s k))" by simp
  also have "\<dots> \<longleftrightarrow> (\<exists>k. rmatch a s i k \<and> rmatch b s k j)"
  proof -
    have "k \<in> set (ends a s i) \<and> j \<in> set (ends b s k) \<longleftrightarrow> rmatch a s i k \<and> rmatch b s k j" for k
      using Seq.IH(1) [OF Seq.prems, of k] Seq.IH(2) [of k j] rmatch_bounds [of a s i k] Seq.prems
      by blast
    then show ?thesis by blast
  qed
  finally show ?case by (simp add: rmatch_simps)
next
  case (Star a)
  have "j \<in> set (ends (Star a) s i) \<longleftrightarrow> (advances (ends a s))\<^sup>*\<^sup>* i j"
    unfolding ends.simps using Star.prems ends_bounds by (intro set_star_ends) blast+
  with rmatch_Star_closure(1) [OF Star.IH Star.prems] show ?case by simp
next
  case (LazyStar a)
  have "j \<in> set (ends (LazyStar a) s i) \<longleftrightarrow> (advances (ends a s))\<^sup>*\<^sup>* i j"
    unfolding ends.simps set_lazy_ends using LazyStar.prems ends_bounds by (intro set_star_ends) blast+
  with rmatch_Star_closure(2) [OF LazyStar.IH LazyStar.prems] show ?case by simp
qed (auto simp: rmatch_simps)

lemma search_iff: "search r s \<longleftrightarrow> (\<exists>i j. i \<le> length s \<and> rmatch r s i j)"
proof -
  have "match_at r s i \<longleftrightarrow> (\<exists>j. rmatch r s i j)" if "i \<le> length s" for i
    using ends_iff [OF that, of _ r] by (auto simp: match_at_def) (metis ex_in_conv set_empty)
  moreover have "search r s \<longleftrightarrow> (\<exists>i \<le> length s. match_at r s i)"
    by (simp add: search_def list_ex_iff Bex_def less_Suc_eq_le del: upt_Suc)
  ultimately show ?thesis by auto
qed

section \<open>Patterns that need a character the text lacks\<close>

fun possible :: "char list \<Rightarrow> rx \<Rightarrow> bool" where
  \<comment> \<open>whether the pattern has a match over the given characters, boundaries aside\<close>
  "possible A Eps = True"
| "possible A (Cls p) = list_ex p A"
| "possible A (Seq a b) = (possible A a \<and> possible A b)"
| "possible A (Alt a b) = (possible A a \<or> possible A b)"
| "possible A (Star a) = True"
| "possible A (LazyStar a) = True"
| "possible A Bound = True"

lemma rmatch_possible: "rmatch r s i j \<Longrightarrow> set s \<subseteq> set A \<Longrightarrow> possible A r"
  by (induction rule: rmatch.induct) (auto simp: list_ex_iff dest: nth_mem)

lemma not_search: "\<not> possible A r \<Longrightarrow> set s \<subseteq> set A \<Longrightarrow> \<not> search r s"
  by (meson rmatch_possible search_iff)

definition both_cases :: "char list \<Rightarrow> char list" where
  "both_cases A = A @ map lower_char A @ map upper_char A"

lemma possible_ignore_case: "possible A (ignore_case r) = possible (both_cases A) r"
  by (induction r) (auto simp: both_cases_def list_ex_iff)

lemma possible_rx_seq [simp]: "possible A (rx_seq rs) = list_all (possible A) rs"
  by (induction rs rule: rx_seq.induct) auto

lemma possible_rx_alts [simp]: "possible A (rx_alts rs) = list_ex (possible A) rs"
  by (induction rs rule: rx_alts.induct) (auto simp: list_ex_iff)

lemma possible_lit [simp]: "possible A (lit w) = list_all (\<lambda>c. c \<in> set A) w"
  by (auto simp: lit_def list_all_iff list_ex_iff)

lemma possible_lits [simp]: "possible A (lits ws) = list_ex (list_all (\<lambda>c. c \<in> set A)) ws"
  by (auto simp: lits_def list_ex_iff)

lemma possible_opt [simp]: "possible A (opt r)"
  by (simp add: opt_def)

lemma match_at_search: "match_at r s i \<Longrightarrow> i \<le> length s \<Longrightarrow> search r s"
  by (auto simp: search_def list_ex_iff less_Suc_eq_le simp del: upt_Suc intro!: bexI [of _ i])

text \<open>A full match consists of characters the classes of the pattern accept.\<close>

fun only :: "(char \<Rightarrow> bool) \<Rightarrow> rx \<Rightarrow> bool" where
  \<comment> \<open>every class of the pattern lies within the given one\<close>
  "only P (Cls p) = (\<forall>c. p c \<longrightarrow> P c)"
| "only P (Seq a b) = (only P a \<and> only P b)"
| "only P (Alt a b) = (only P a \<and> only P b)"
| "only P (Star a) = only P a"
| "only P (LazyStar a) = only P a"
| "only P Eps = True"
| "only P Bound = True"

lemma rmatch_only: "rmatch r s i j \<Longrightarrow> only P r \<Longrightarrow> i \<le> k \<Longrightarrow> k < j \<Longrightarrow> P (s ! k)"
proof (induction arbitrary: k rule: rmatch.induct)
  case (2 i s p)
  then have "k = i" by simp
  with 2 show ?case by simp
next
  case (3 a s i j b k')
  then show ?case by (cases "k < j") simp_all
next
  case (7 a s i j k')
  then show ?case by (cases "k < j") simp_all
next
  case (9 a s i j k')
  then show ?case by (cases "k < j") simp_all
qed simp_all

lemma fullmatch_only:
  assumes "fullmatch r s" "only P r" "c \<in> set s"
  shows "P c"
proof -
  from assms(1) have "rmatch r s 0 (length s)" using ends_iff [of 0 s "length s" r] by (simp add: fullmatch_def)
  moreover from assms(3) obtain k where "k < length s" "c = s ! k" by (auto simp: in_set_conv_nth)
  ultimately show ?thesis using rmatch_only assms(2) by fastforce
qed

text \<open>\<open>search\<close> and \<open>findall\<close> agree on whether there is a match.\<close>

lemma first_match_None: "first_match r s is = None \<longleftrightarrow> (\<forall>i \<in> set is. ends r s i = [])"
  by (induction r s "is" rule: first_match.induct) (auto split: list.splits)

lemma search_findall: "search r s \<longleftrightarrow> findall r s \<noteq> []"
proof -
  have "search r s \<longleftrightarrow> search_from r s 0 \<noteq> None"
    by (auto simp: search_def match_at_def search_from_def first_match_None list_ex_iff simp del: upt_Suc)
  then show ?thesis by (auto simp: findall_def finditer_def split: option.splits)
qed

text \<open>The least length of a match.\<close>

fun rx_min :: "rx \<Rightarrow> nat" where
  "rx_min Eps = 0"
| "rx_min (Cls p) = 1"
| "rx_min (Seq a b) = rx_min a + rx_min b"
| "rx_min (Alt a b) = min (rx_min a) (rx_min b)"
| "rx_min (Star a) = 0"
| "rx_min (LazyStar a) = 0"
| "rx_min Bound = 0"

lemma rmatch_min: "rmatch r s i j \<Longrightarrow> i + rx_min r \<le> j"
  by (induction rule: rmatch.induct) auto

lemma short_no_search: "length s < rx_min r \<Longrightarrow> \<not> search r s"
  using rmatch_min rmatch_bounds by (fastforce simp: search_iff)

text \<open>Matches of literals and of bounded repetitions.\<close>

lemma rmatch_lit: "i \<le> length s \<Longrightarrow> rmatch (lit w) s i j \<longleftrightarrow> j = i + length w \<and> prefix w (drop i s)"
proof (induction w arbitrary: i)
  case Nil
  then show ?case by (simp add: lit_def rmatch_simps)
next
  case (Cons c w)
  have step: "rmatch (lit (c # w)) s i j \<longleftrightarrow> i < length s \<and> s ! i = c \<and> rmatch (lit w) s (Suc i) j"
    by (cases w) (auto simp: lit_def rmatch_simps)
  show ?case
  proof (cases "i < length s")
    case True
    with Cons.IH [of "Suc i"] show ?thesis
      unfolding step by (auto simp: Cons_nth_drop_Suc [OF True, symmetric])
  qed (use Cons.prems step in auto)
qed

lemma rmatch_rep_Cls:
  "(\<And>k. k < n \<Longrightarrow> i + k < length s \<and> p (s ! (i + k))) \<Longrightarrow> rmatch (rep n (Cls p)) s i (i + n)"
proof (induction n arbitrary: i)
  case (Suc n)
  have "i < length s \<and> p (s ! i)" using Suc.prems [of 0] by simp
  moreover have "rmatch (rep n (Cls p)) s (Suc i) (Suc i + n)"
  proof (rule Suc.IH)
    fix k assume "k < n"
    then show "Suc i + k < length s \<and> p (s ! (Suc i + k))" using Suc.prems [of "Suc k"] by simp
  qed
  ultimately show ?case by (auto simp: rmatch_simps)
qed (simp add: rmatch_simps)

text \<open>What \<open>findall\<close> returns are matches.\<close>

lemma first_match_Some: "first_match r s is = Some (i, j) \<Longrightarrow> i \<in> set is \<and> j \<in> set (ends r s i)"
  by (induction r s "is" rule: first_match.induct) (auto split: list.splits)

lemma find_spans_sound: "p \<in> set (find_spans n r s i) \<Longrightarrow> fst p \<le> length s \<and> rmatch r s (fst p) (snd p)"
proof (induction n arbitrary: i)
  case (Suc n)
  show ?case
  proof (cases "search_from r s i")
    case None
    with Suc.prems show ?thesis by simp
  next
    case (Some q)
    obtain c d where q: "q = (c, d)" by force
    from Some have "first_match r s [i..<Suc (length s)] = Some (c, d)" by (simp add: search_from_def q)
    from first_match_Some [OF this] have cd: "c \<le> length s" "d \<in> set (ends r s c)" by auto
    with ends_iff [of c s d r] have "rmatch r s c d" by blast
    with Suc cd Some q show ?thesis by auto
  qed
qed simp

lemma findall_sound:
  assumes "w \<in> set (findall r s)"
  shows "\<exists>a b. a \<le> length s \<and> rmatch r s a b \<and> w = take (b - a) (drop a s)"
proof -
  from assms obtain p where "p \<in> set (find_spans (Suc (length s)) r s 0)"
    "w = take (snd p - fst p) (drop (fst p) s)"
    by (auto simp: findall_def finditer_def split_beta simp del: find_spans.simps)
  with find_spans_sound [OF this(1)] show ?thesis by blast
qed

end
