(* ===== verification/Injection.thy ===== *)
theory Injection
  imports Py_Regex Interfaces
begin

text \<open>
  Prompt-injection detection, \<open>services/shared/injection/\<close>: the graduated result types
  (\<open>types.py\<close>), the pattern detector with its table and per-category thresholds
  (\<open>regex_detector.py\<close>), the model judge (\<open>llm_judge.py\<close>) and the chain that runs them
  (\<open>pipeline.py\<close>, \<open>config.py\<close>, the factory in \<open>__init__.py\<close>).

  Latencies and log lines are left out. A reason keeps the values the code formats into it. A
  pattern is named by its position in the table. The Ollama service is the parameter of the
  judge: the outcome of its HTTP request and of parsing the answer.
\<close>

section \<open>types.py\<close>

datatype severity = SevNone | SevLow | SevMedium | SevHigh | SevCritical

datatype action = Allow | Flag | Redact | Block | BlockAndAlert

datatype category =
    SystemOverride | RoleSwitch | PromptLeak | SafetyBypass | HarmGeneration | JailbreakKeyword
  | SocialEngineering | UnrestrictedMode | Generic
  | OtherCategory string

fun severity_value :: "severity \<Rightarrow> nat" where
  "severity_value SevNone = 0"
| "severity_value SevLow = 1"
| "severity_value SevMedium = 2"
| "severity_value SevHigh = 3"
| "severity_value SevCritical = 4"

fun category_threshold :: "category \<Rightarrow> pyfloat" where
  \<comment> \<open>\<open>CATEGORY_THRESHOLDS.get(c, 0.85)\<close>\<close>
  "category_threshold SystemOverride = 0.95"
| "category_threshold RoleSwitch = 0.85"
| "category_threshold PromptLeak = 0.90"
| "category_threshold SafetyBypass = 0.80"
| "category_threshold HarmGeneration = 0.90"
| "category_threshold JailbreakKeyword = 0.94"
| "category_threshold SocialEngineering = 0.88"
| "category_threshold UnrestrictedMode = 0.88"
| "category_threshold Generic = 0.85"
| "category_threshold (OtherCategory _) = 0.85"

datatype reason =
    Reason string
  | BelowThreshold "category option" pyfloat pyfloat
  | PatternsMatched "category option" nat
  | JudgeReason string
  | JudgeUnavailable string bool \<comment> \<open>whether the fallback blocks\<close>
  | PipelineError py_error

datatype layer = LayerNone | LayerRegex | LayerJudge

record injection_result =
  ir_detected :: bool
  ir_score :: pyfloat
  ir_severity :: severity
  ir_action :: action
  ir_category :: "category option"
  ir_patterns :: "nat list"
  ir_reason :: reason
  ir_layer :: layer

definition result_allow :: "reason \<Rightarrow> injection_result" where
  "result_allow r = \<lparr>ir_detected = False, ir_score = 0, ir_severity = SevNone, ir_action = Allow,
     ir_category = None, ir_patterns = [], ir_reason = r, ir_layer = LayerNone\<rparr>"

definition result_detected ::
  "severity \<Rightarrow> action \<Rightarrow> pyfloat \<Rightarrow> category \<Rightarrow> nat list \<Rightarrow> reason \<Rightarrow> injection_result" where
  \<comment> \<open>the shared body of \<open>flag\<close>, \<open>redact\<close>, \<open>block\<close>, \<open>critical\<close>\<close>
  "result_detected sev act score c ps r = \<lparr>ir_detected = True, ir_score = score, ir_severity = sev,
     ir_action = act, ir_category = Some c, ir_patterns = ps, ir_reason = r, ir_layer = LayerNone\<rparr>"

definition result_flag :: "pyfloat \<Rightarrow> category \<Rightarrow> nat list \<Rightarrow> reason \<Rightarrow> injection_result" where
  "result_flag = result_detected SevLow Flag"
definition result_redact :: "pyfloat \<Rightarrow> category \<Rightarrow> nat list \<Rightarrow> reason \<Rightarrow> injection_result" where
  "result_redact = result_detected SevMedium Redact"
definition result_block :: "pyfloat \<Rightarrow> category \<Rightarrow> nat list \<Rightarrow> reason \<Rightarrow> injection_result" where
  "result_block = result_detected SevHigh Block"
definition result_critical :: "pyfloat \<Rightarrow> category \<Rightarrow> nat list \<Rightarrow> reason \<Rightarrow> injection_result" where
  "result_critical = result_detected SevCritical BlockAndAlert"

section \<open>The pattern table of regex_detector.py\<close>

abbreviation "sp \<equiv> spaces"
abbreviation "word1 \<equiv> plus1 (Cls is_word)" \<comment> \<open>\<open>\w+\<close>\<close>
abbreviation "apos \<equiv> opt (lit [CHR 0x27])" \<comment> \<open>an optional apostrophe\<close>

definition s_opt :: "string \<Rightarrow> rx" where
  \<comment> \<open>a word with an optional final \<open>s\<close>\<close>
  "s_opt w = Seq (lit w) (opt (lit ''s''))"

definition an_opt :: rx where
  \<comment> \<open>\<open>an?\<close>\<close>
  "an_opt = Seq (lit ''a'') (opt (lit ''n''))"

definition opt_word :: "string \<Rightarrow> rx" where
  \<comment> \<open>\<open>(w\s+)?\<close>\<close>
  "opt_word w = opt (Seq (lit w) sp)"

definition phrase :: "string list \<Rightarrow> rx" where
  \<comment> \<open>words separated by white space\<close>
  "phrase ws = rx_seq (case ws of [] \<Rightarrow> [] | w # vs \<Rightarrow> lit w # concat (map (\<lambda>v. [sp, lit v]) vs))"

definition patterns_a :: "(rx \<times> pyfloat \<times> category) list" where
  "patterns_a = [
   (rx_seq [lit ''ignore'', sp, opt (rx_alts [Seq (lit ''all'') sp, Seq (lit ''any'') sp]),
      lits [''previous'', ''above'', ''prior''], sp,
      rx_alts [s_opt ''instruction'', s_opt ''prompt'', s_opt ''message'']], 0.95, SystemOverride),
   (rx_seq [phrase [''you'', ''are''], sp, rx_alts [lit ''now'', phrase [''no'', ''longer'']], sp,
      opt (Seq an_opt sp), opt (Seq word1 sp),
      rx_alts [lit ''assistant'', lit ''ai'', lit ''bot'', phrase [''language'', ''model'']]], 0.90, SystemOverride),
   (rx_seq [lit ''system'', spaces0, rx_alts [Seq (lit '':'') spaces0, lit ''message'', lit ''prompt'', lit ''override'']],
      0.92, SystemOverride),
   (rx_seq [lit ''override'', sp, rx_alts [lit ''system'', lit ''safety'', lit ''security'', s_opt ''instruction'']],
      0.91, SystemOverride),
   (rx_seq [lit ''new'', sp, opt_word ''system'', s_opt ''instruction'', spaces0, lits ['':'', ''='']],
      0.88, SystemOverride),
   (rx_seq [lit ''forget'', sp, lits [''everything'', ''all'', ''your''], sp, lits [''above'', ''previous'', ''prior''], sp,
      rx_alts [s_opt ''instruction'', lit ''training'']], 0.93, SystemOverride),
   (phrase [''you'', ''are'', ''now'', ''free'', ''from''], 0.92, SystemOverride),
   (rx_seq [lit ''disregard'', sp, opt_word ''all'',
      lits [''previous'', ''prior'', ''above'', ''ethical'', ''safety'', ''content''], sp], 0.94, SystemOverride),
   (rx_seq [phrase [''your'', ''safety'', ''training''], sp, rx_alts [lit ''is'', phrase [''has'', ''been'']], sp,
      lit ''temporarily'', sp, lits [''disabled'', ''suspended'', ''removed'']], 0.95, SystemOverride),
   (rx_seq [lit ''DAN'', spaces0, lits [''mode'', ''prompt'', ''jailbreak'']], 0.95, JailbreakKeyword),
   (rx_alts [lit ''jailbreak'', rx_seq [lit ''jail'', spaces0, lit ''break''],
      rx_seq [lit ''prompt'', spaces0, lit ''injection''], rx_seq [lit ''prompt'', spaces0, lit ''leak'']],
      0.94, JailbreakKeyword),
   (rx_seq [lit ''bypass'', sp, lits [''your'', ''the'', ''all''], sp,
      lits [''ethical'', ''safety'', ''content'', ''security''], sp,
      rx_alts [s_opt ''guideline'', s_opt ''filter'', s_opt ''rule'', s_opt ''protocol'']], 0.96, JailbreakKeyword),
   (rx_seq [lit ''pretend'', sp, rx_alts [phrase [''you'', ''are''], phrase [''to'', ''be'']], sp,
      rx_alts [lit ''not'', phrase [''someone'', ''else''], phrase [''a'', ''different'']]], 0.85, RoleSwitch),
   (rx_seq [phrase [''act'', ''as''], sp, rx_alts [phrase [''if'', ''you'', ''are''], phrase [''a'', ''different'']], sp,
      lits [''not'', ''someone'']], 0.85, RoleSwitch),
   (rx_seq [lit ''switch'', sp, rx_alts [s_opt ''role'', lit ''persona'', lit ''mode'', lit ''character'']],
      0.84, RoleSwitch),
   (rx_seq [phrase [''roleplay'', ''as'', ''a'', ''character'', ''with''], sp, lits [''no'', ''zero''], sp,
      rx_alts [s_opt ''restriction'', s_opt ''rule'', s_opt ''limit'']], 0.93, RoleSwitch),
   (rx_seq [lit ''reveal'', sp, lits [''your'', ''the''], sp, opt_word ''system'',
      rx_alts [lit ''prompt'', s_opt ''instruction'', phrase [''training'', ''data'']]], 0.93, PromptLeak),
   (rx_seq [lits [''output'', ''print'', ''show'', ''display'', ''write''], sp, lits [''your'', ''the''], sp,
      opt_word ''system'', rx_alts [lit ''prompt'', s_opt ''instruction'', s_opt ''rule'']], 0.88, PromptLeak),
   (rx_seq [lits [''tell'', ''say''], sp, lits [''me'', ''us''], sp, lits [''how'', ''what''], sp, lits [''your'', ''the''], sp,
      opt_word ''system'', rx_alts [lit ''prompt'', s_opt ''instruction'']], 0.91, PromptLeak),
   (rx_seq [lit ''what'', sp, lits [''is'', ''are''], sp, lits [''your'', ''the''], sp, opt_word ''system'', lit ''prompt''],
      0.90, PromptLeak)]"

definition patterns_b :: "(rx \<times> pyfloat \<times> category) list" where
  "patterns_b = [
   (rx_alts [phrase [''do'', ''not'', ''filter''],
      rx_seq [lit ''disable'', sp, opt_word ''your'', rx_alts [lit ''filter'', lit ''safety'', s_opt ''guardrail'']]],
      0.86, SafetyBypass),
   (rx_seq [phrase [''you'', ''have'', ''no''], sp,
      rx_alts [s_opt ''restriction'', s_opt ''limitation'', s_opt ''rule'', lit ''filter'']], 0.89, SafetyBypass),
   (phrase [''do'', ''anything'', ''now''], 0.92, SafetyBypass),
   (rx_seq [rx_alts [lit ''this'', rx_seq [lit ''we'', apos, lit ''re''], phrase [''we'', ''are'']], sp,
      phrase [''doing'', ''a''], sp, lits [''security'', ''penetration'', ''vulnerability''], sp,
      lits [''audit'', ''test'', ''assessment'']], 0.88, SafetyBypass),
   (rx_seq [phrase [''you'', ''are''], sp, lits [''unfiltered'', ''unrestricted'', ''unlimited'', ''uncensored'']],
      0.88, UnrestrictedMode),
   (rx_seq [phrase [''you'', ''are'', ''in''], sp,
      rx_alts [phrase [''developer'', ''mode''], phrase [''debug'', ''mode''], phrase [''test'', ''mode'']]],
      0.88, UnrestrictedMode),
   (rx_seq [phrase [''imagine'', ''you''], sp, lits [''are'', ''were''], sp, rx_alts [lit ''not'', phrase [''no'', ''longer'']],
      sp, phrase [''bound'', ''by''], sp, lits [''any'', ''your''], sp,
      rx_alts [s_opt ''constraint'', s_opt ''rule'', s_opt ''ethic'']], 0.92, UnrestrictedMode),
   (rx_seq [lits [''can'', ''could''], sp, lit ''you'', sp, opt_word ''please'', opt (Seq (phrase [''help'', ''me'']) sp),
      lits [''hack'', ''crack'', ''exploit'', ''bypass'', ''steal'']], 0.92, HarmGeneration),
   (rx_seq [phrase [''show'', ''me''], sp, opt (Seq (phrase [''how'', ''to'']) sp),
      lits [''make'', ''create'', ''build'', ''manufacture''], sp, opt_word ''a'',
      lits [''bomb'', ''weapon'', ''drug'', ''explosive'', ''poison'']], 0.97, HarmGeneration),
   (rx_seq [lit ''including'', sp, lits [''illegal'', ''harmful'', ''dangerous'', ''explicit'', ''unethical''], sp,
      lits [''content'', ''material'', ''information'']], 0.91, HarmGeneration),
   (rx_seq [lits [''do'', ''please''], sp, phrase [''not'', ''follow''], sp, lits [''your'', ''the'', ''any''], sp,
      rx_alts [s_opt ''instruction'', s_opt ''guideline'', s_opt ''rule'']], 0.87, SocialEngineering),
   (rx_seq [lit ''respond'', sp, lits [''as'', ''like''], sp, opt_word ''a'', lits [''human'', ''person'', ''friend'', ''expert'']],
      0.78, SocialEngineering),
   (rx_seq [phrase [''from'', ''now'', ''on'', ''you''], sp, rx_alts [lit ''are'', phrase [''will'', ''be'']]],
      0.82, SocialEngineering),
   (rx_seq [phrase [''how'', ''would''], sp, an_opt, sp, lits [''evil'', ''unethical'', ''dark''], sp, lits [''AI'', ''version''],
      sp, lit ''respond''], 0.91, SocialEngineering),
   (rx_seq [phrase [''for'', ''educational''], sp, s_opt ''purpose'', sp, lit ''only'', Bound], 0.85, SocialEngineering),
   (rx_seq [phrase [''you'', ''must''], sp, lits [''always'', ''never''], sp], 0.72, Generic),
   (rx_seq [lit ''do'', sp, lits [''anything'', ''whatever'', ''everything''], sp,
      rx_alts [lit ''i'', phrase [''the'', ''user'']], sp, lits [''say'', ''want'', ''ask'', ''tell'']], 0.90, Generic),
   (rx_seq [lit ''pretend'', sp, lit ''you'', apos, lit ''re'', sp, an_opt, sp,
      lits [''unaligned'', ''evil'', ''unethical'', ''dangerous''], sp, lits [''AI'', ''assistant'']], 0.94, Generic),
   (rx_seq [lit ''write'', sp, lits [''the'', ''a''], sp, phrase [''response'', ''as'', ''if'', ''safety''], sp, s_opt ''filter'', sp,
      lits [''are'', ''is'', ''were''], sp, lits [''off'', ''disabled'', ''removed'']], 0.93, Generic),
   (rx_seq [phrase [''answer'', ''as'', ''if'', ''you''], apos, lit ''re'', sp, lit ''on'', sp,
      rx_alts [lit ''4chan'', lit ''reddit'', lit ''twitter'', phrase [''an'', ''imageboard'']]], 0.86, Generic),
   (rx_seq [phrase [''you'', ''are''], sp, opt_word ''now'', lits [''acting'', ''operating''], sp, lits [''as'', ''in''], sp,
      lits [''evil'', ''dark'', ''unrestricted'', ''unfiltered''], sp, lits [''mode'', ''persona'']], 0.93, Generic),
   (rx_seq [phrase [''you'', ''are'', ''now''], sp, an_opt, sp,
      lits [''unrestricted'', ''unfiltered'', ''uncensored'', ''unlimited''], sp, lits [''AI'', ''assistant'', ''model'']],
      0.88, UnrestrictedMode),
   (rx_seq [lit ''system'', spaces0, lit '':'', spaces0, lit ''override'', sp, lits [''safety'', ''security''], sp, s_opt ''filter''],
      0.95, SystemOverride),
   (rx_seq [lit ''new'', sp, s_opt ''instruction'', spaces0, lit '':'', spaces0, lit ''disregard'', sp, opt_word ''ethical'',
      s_opt ''guideline''], 0.95, SystemOverride),
   (rx_seq [phrase [''output'', ''your''], sp, s_opt ''instruction''], 0.90, PromptLeak),
   (phrase [''disregard'', ''all'', ''previous'', ''ethical'', ''constraints''], 0.95, SystemOverride)]"

definition patterns :: "(rx \<times> pyfloat \<times> category) list" where
  \<comment> \<open>every pattern starts with \<open>(?i)\<close>\<close>
  "patterns = map (\<lambda>(r, c). (ignore_case r, c)) (patterns_a @ patterns_b)"

section \<open>RegexDetector\<close>

definition severity_from_score :: "pyfloat \<Rightarrow> severity" where
  "severity_from_score score =
     (if 0.95 \<le> score then SevCritical else if 0.80 \<le> score then SevHigh
      else if 0.55 \<le> score then SevMedium else if 0.30 \<le> score then SevLow else SevNone)"

fun action_from_severity :: "severity \<Rightarrow> action" where
  "action_from_severity SevNone = Allow"
| "action_from_severity SevLow = Flag"
| "action_from_severity SevMedium = Redact"
| "action_from_severity SevHigh = Block"
| "action_from_severity SevCritical = BlockAndAlert"

record scan =
  sc_best :: pyfloat
  sc_cat :: "category option"
  sc_matched :: "nat list"
  sc_hit :: "category list"

definition scan_pattern :: "string \<Rightarrow> scan \<Rightarrow> nat \<times> rx \<times> pyfloat \<times> category \<Rightarrow> scan" where
  \<comment> \<open>one round of the loop over \<open>_compiled\<close>; \<open>categories_hit\<close> is a set: no duplicates\<close>
  "scan_pattern text s p = (case p of (i, r, conf, cat) \<Rightarrow>
     if search r text
     then let s1 = s\<lparr>sc_hit := List.insert cat (sc_hit s), sc_matched := sc_matched s @ [i]\<rparr>
          in if sc_best s < conf then s1\<lparr>sc_best := conf, sc_cat := Some cat\<rparr> else s1
     else s)"

definition scan_all :: "(rx \<times> pyfloat \<times> category) list \<Rightarrow> string \<Rightarrow> scan" where
  "scan_all ps text = foldl (scan_pattern text) \<lparr>sc_best = 0, sc_cat = None, sc_matched = [], sc_hit = []\<rparr>
     (zip [0..<length ps] ps)"

definition judge_scan :: "scan \<Rightarrow> injection_result" where
  \<comment> \<open>from the end of the loop to the result\<close>
  "judge_scan s =
     (if sc_best s = 0 then result_allow (Reason ''no patterns matched'')
      else
        let escalations = (2 \<le> length (sc_hit s) \<and> 0.55 \<le> sc_best s);
            best = (if escalations then min 1 (sc_best s + 0.05) else sc_best s);
            threshold = category_threshold (case sc_cat s of None \<Rightarrow> Generic | Some c \<Rightarrow> c)
        in if best < threshold
           then result_allow (BelowThreshold (sc_cat s) best threshold)
           else
             let sev0 = severity_from_score best;
                 sev = (if escalations \<and> severity_value sev0 < severity_value SevHigh then SevHigh else sev0)
             in \<lparr>ir_detected = True, ir_score = best, ir_severity = sev,
                 ir_action = action_from_severity sev, ir_category = sc_cat s,
                 ir_patterns = sc_matched s,
                 ir_reason = PatternsMatched (sc_cat s) (length (sc_matched s)), ir_layer = LayerRegex\<rparr>)"

definition regex_detect :: "string \<Rightarrow> injection_result" where
  "regex_detect text =
     (if text = [] then result_allow (Reason ''empty text'') else judge_scan (scan_all patterns text))"

section \<open>EncodingDecoder (encoding.py)\<close>

text \<open>
  The library decoders are parameters: \<open>b64\<close> is \<open>base64.b64decode(...).decode("utf-8",
  errors="replace")\<close>, \<open>unhex\<close> the same for \<open>bytes.fromhex\<close>, \<open>unescape\<close> and \<open>unquote\<close> those of
  \<open>html\<close> and \<open>urllib.parse\<close>; \<open>Inl\<close> is the exception they raise. ROT13, the patterns and the
  tests around them are modelled.
\<close>

record codecs =
  b64 :: "string \<Rightarrow> py_error + string"
  unhex :: "string \<Rightarrow> py_error + string"
  unescape :: "string \<Rightarrow> string"
  unquote :: "string \<Rightarrow> string"

record decoder =
  dec_base64 :: bool
  dec_hex :: bool
  dec_rot13 :: bool
  dec_url :: bool

definition is_hex :: "char \<Rightarrow> bool" where
  [py_eval]: "is_hex c = (is_digit c \<or> (let n = of_char c :: nat in 97 \<le> n \<and> n \<le> 102 \<or> 65 \<le> n \<and> n \<le> 70))"

definition is_b64 :: "char \<Rightarrow> bool" where
  [py_eval]: "is_b64 c = (is_upper c \<or> is_lower c \<or> is_digit c \<or> c = CHR ''+'' \<or> c = CHR ''/'')"

definition base64_re :: rx where
  "base64_re = (let b = Cls is_b64 in
     rx_seq [rep 4 (rep 4 b), Star (rep 4 b),
       opt (rx_alts [Seq (rep 2 b) (lit ''==''), Seq (rep 3 b) (lit ''='')])])"

definition hex_re :: rx where
  "hex_re = (let h = Cls is_hex in rx_seq [Bound, rep 8 (rep 2 h), Star (rep 2 h), Bound])"

definition url_re :: rx where
  "url_re = Seq (lit ''%'') (rep 2 (Cls is_hex))"

definition rot13_char :: "char \<Rightarrow> char" where
  [py_eval]: "rot13_char c =
     (let n = of_char c :: nat in
      if 97 \<le> n \<and> n \<le> 122 then char_of (97 + (n - 97 + 13) mod 26)
      else if 65 \<le> n \<and> n \<le> 90 then char_of (65 + (n - 65 + 13) mod 26) else c)"

definition rot13 :: "string \<Rightarrow> string" where
  [py_eval]: "rot13 s = map rot13_char s"

definition injection_keywords :: "string list" where
  [py_eval]: "injection_keywords = [''ignore'', ''instruction'', ''prompt'', ''system'', ''bypass'',
     ''jailbreak'', ''pretend'', ''override'', ''rule'', ''filter'']"

definition is_printable :: "char \<Rightarrow> bool" where
  [py_eval]: "is_printable c = (let n = of_char c :: nat in 32 \<le> n \<and> n < 127)"

definition is_meaningful :: "string \<Rightarrow> string \<Rightarrow> bool" where
  "is_meaningful decoded original =
     (if length decoded < 3 then False
      else 0.7 < real (length (filter (\<lambda>c. is_printable c \<or> c \<in> {CHR 0x0A, CHR 0x0D, CHR 0x09}) decoded)) /
             real (max (length decoded) 1)
           \<and> decoded \<noteq> original)"

definition remove_blanks :: "string \<Rightarrow> string" where
  "remove_blanks s = filter (\<lambda>c. c \<noteq> CHR '' '') s"

definition decode_steps :: "codecs \<Rightarrow> decoder \<Rightarrow> string \<Rightarrow> (py_error + string) option list" where
  \<comment> \<open>the four attempts in order: \<open>None\<close> falls through, \<open>Inl\<close> raises, \<open>Inr\<close> returns\<close>
  "decode_steps lib d text = [
     (if dec_base64 d \<and> fullmatch base64_re (strip text)
      then case b64 lib text of Inl e \<Rightarrow> Some (Inl e)
           | Inr t \<Rightarrow> if is_meaningful t text then Some (Inr t) else None
      else None),
     (if dec_hex d \<and> fullmatch hex_re (remove_blanks (strip text))
      then case unhex lib (remove_blanks (strip text)) of
             Inl e \<Rightarrow> if e = ValueError then None else Some (Inl e)
           | Inr t \<Rightarrow> if is_meaningful t text then Some (Inr t) else None
      else None),
     (if dec_rot13 d \<and> list_ex (\<lambda>kw. substr kw (lower (rot13 text))) injection_keywords
      then Some (Inr (rot13 text)) else None),
     (if dec_url d \<and> search url_re text
      then let t = unquote lib (unescape lib text) in if t \<noteq> text then Some (Inr t) else None
      else None)]"

fun first_attempt :: "string \<Rightarrow> (py_error + string) option list \<Rightarrow> string" where
  "first_attempt text [] = text"
| "first_attempt text (None # as) = first_attempt text as"
| "first_attempt text (Some (Inl e) # as) = text"
| "first_attempt text (Some (Inr t) # as) = t"

definition decode :: "codecs \<Rightarrow> decoder \<Rightarrow> string \<Rightarrow> string" where
  "decode lib d text = (if length text < 10 then text else first_attempt text (decode_steps lib d text))"

section \<open>LlamaJudgeDetector (llm_judge.py)\<close>

text \<open>
  The request to Ollama and \<open>json.loads\<close> are parameters: \<open>post\<close> gives the outcome of the HTTP
  call for a prompt text, \<open>loads\<close> what a text parses to. \<open>Unusable\<close> is an answer on which
  \<open>parsed.get\<close> or \<open>float\<close> raises.
\<close>

record judge_answer =
  ja_injection :: bool
  ja_confidence :: pyfloat
  ja_category :: category
  ja_reasoning :: string

datatype http_outcome =
    HttpTimeout
  | HttpRaises string
  | HttpStatus nat
  | HttpOk string \<comment> \<open>the \<open>response\<close> field of a 200 answer\<close>

datatype loads_outcome = DecodeError | Unusable string | Answer judge_answer

record judge =
  j_post :: "string \<Rightarrow> http_outcome"
  j_loads :: "string \<Rightarrow> loads_outcome"
  j_block :: bool \<comment> \<open>the fallback is \<open>"block"\<close>\<close>

fun str_replace :: "nat \<Rightarrow> string \<Rightarrow> string \<Rightarrow> string \<Rightarrow> string" where
  \<comment> \<open>\<open>s.replace(old, new)\<close>; the first argument bounds the scan by the length of \<open>s\<close>\<close>
  "str_replace 0 old new s = s"
| "str_replace (Suc n) old new [] = []"
| "str_replace (Suc n) old new (c # s) =
     (if prefix old (c # s) then new @ str_replace n old new (drop (length old) (c # s))
      else c # str_replace n old new s)"

definition py_replace :: "string \<Rightarrow> string \<Rightarrow> string \<Rightarrow> string" where
  "py_replace old new s = str_replace (length s) old new s"

definition handle_fallback :: "bool \<Rightarrow> string \<Rightarrow> injection_result" where
  "handle_fallback block_on_error r =
     (if block_on_error
      then result_block 0.80 (OtherCategory ''unknown'') [] (JudgeUnavailable r True)
      else result_allow (JudgeUnavailable r False))"

definition judge_verdict :: "judge_answer \<Rightarrow> injection_result" where
  "judge_verdict a =
     (if \<not> ja_injection a \<or> ja_confidence a < 0.5
      then \<lparr>ir_detected = False, ir_score = ja_confidence a, ir_severity = SevNone, ir_action = Allow,
             ir_category = None, ir_patterns = [], ir_reason = JudgeReason (ja_reasoning a),
             ir_layer = LayerJudge\<rparr>
      else let sev = severity_from_score (ja_confidence a)
           in \<lparr>ir_detected = True, ir_score = ja_confidence a, ir_severity = sev,
               ir_action = action_from_severity sev, ir_category = Some (ja_category a),
               ir_patterns = [], ir_reason = JudgeReason (ja_reasoning a), ir_layer = LayerJudge\<rparr>)"

definition object_re :: rx where
  "object_re = rx_seq [lit ''{'', plus1 (Cls (\<lambda>c. c \<noteq> CHR ''}'')), lit ''}'']"

definition judge_detect :: "judge \<Rightarrow> string \<Rightarrow> injection_result" where
  "judge_detect j text =
     (if length text < 5 then result_allow (Reason ''text too short for judge'')
      else case j_post j text of
        HttpTimeout \<Rightarrow> handle_fallback (j_block j) ''judge timeout''
      | HttpRaises e \<Rightarrow> handle_fallback (j_block j) (''judge error: '' @ e)
      | HttpStatus n \<Rightarrow> handle_fallback (j_block j) ''judge returned non-200''
      | HttpOk reply \<Rightarrow>
          let body = strip (py_replace ''```'' '''' (py_replace ''```json'' '''' (strip reply)))
          in case j_loads j body of
               Answer a \<Rightarrow> judge_verdict a
             | Unusable e \<Rightarrow> handle_fallback (j_block j) (''judge error: '' @ e)
             | DecodeError \<Rightarrow>
                 (case match_text object_re body of
                    None \<Rightarrow> handle_fallback (j_block j) ''judge response not parseable''
                  | Some obj \<Rightarrow>
                      (case j_loads j obj of
                         Answer a \<Rightarrow> judge_verdict a
                       | Unusable e \<Rightarrow> handle_fallback (j_block j) (''judge error: '' @ e)
                       | DecodeError \<Rightarrow> handle_fallback (j_block j) ''judge error: json'')))"

section \<open>InjectionPipeline (pipeline.py, config.py, the factory)\<close>

record injection_config =
  cfg_regex_enabled :: bool
  cfg_judge_enabled :: bool

record injection_pipeline =
  ip_config :: injection_config
  ip_enabled :: bool
  ip_pre :: "(string \<Rightarrow> py_error + string) list"
  ip_detectors :: "(string \<times> (string \<Rightarrow> py_error + injection_result)) list"

definition new_pipeline :: "injection_config \<Rightarrow> injection_pipeline" where
  "new_pipeline c = \<lparr>ip_config = c, ip_enabled = cfg_regex_enabled c, ip_pre = [], ip_detectors = []\<rparr>"

definition add_preprocessor ::
  "(string \<Rightarrow> py_error + string) \<Rightarrow> injection_pipeline \<Rightarrow> injection_pipeline" where
  "add_preprocessor f p = p\<lparr>ip_pre := ip_pre p @ [f]\<rparr>"

definition add_detector ::
  "string \<Rightarrow> (string \<Rightarrow> py_error + injection_result) \<Rightarrow> injection_pipeline \<Rightarrow> injection_pipeline" where
  "add_detector n f p = p\<lparr>ip_detectors := ip_detectors p @ [(n, f)]\<rparr>"

definition is_detector_enabled :: "injection_config \<Rightarrow> string \<Rightarrow> bool" where
  "is_detector_enabled c n =
     (if n = ''regex'' then cfg_regex_enabled c
      else if n = ''llm_judge'' then cfg_judge_enabled c else True)"

fun preprocess :: "(string \<Rightarrow> py_error + string) list \<Rightarrow> string \<Rightarrow> py_error + string" where
  "preprocess [] text = Inr text"
| "preprocess (f # fs) text = (case f text of Inl e \<Rightarrow> Inl e | Inr t \<Rightarrow> preprocess fs t)"

fun run_detectors ::
  "injection_config \<Rightarrow> (string \<times> (string \<Rightarrow> py_error + injection_result)) list \<Rightarrow> string \<Rightarrow>
   py_error + injection_result option" where
  \<comment> \<open>\<open>None\<close>: the loop ended with nothing detected\<close>
  "run_detectors c [] text = Inr None"
| "run_detectors c ((n, f) # ds) text =
     (if \<not> is_detector_enabled c n then run_detectors c ds text
      else case f text of Inl e \<Rightarrow> Inl e
           | Inr r \<Rightarrow> if ir_detected r then Inr (Some r) else run_detectors c ds text)"

definition run_pipeline :: "injection_pipeline \<Rightarrow> string \<Rightarrow> injection_result" where
  "run_pipeline p text =
     (if \<not> ip_enabled p then result_allow (Reason ''pipeline disabled'')
      else case preprocess (ip_pre p) text of Inl e \<Rightarrow> result_allow (PipelineError e)
           | Inr t \<Rightarrow> (case run_detectors (ip_config p) (ip_detectors p) t of
                 Inl e \<Rightarrow> result_allow (PipelineError e)
               | Inr (Some r) \<Rightarrow> r
               | Inr None \<Rightarrow> result_allow (Reason ''pipeline complete'')))"

definition default_injection_config :: injection_config where
  "default_injection_config = \<lparr>cfg_regex_enabled = True, cfg_judge_enabled = True\<rparr>"

definition default_decoder :: decoder where
  "default_decoder = \<lparr>dec_base64 = True, dec_hex = True, dec_rot13 = True, dec_url = True\<rparr>"

definition create_injection_pipeline ::
  "(string \<Rightarrow> string) \<Rightarrow> codecs \<Rightarrow> (string \<Rightarrow> http_outcome) \<Rightarrow> (string \<Rightarrow> loads_outcome) \<Rightarrow> injection_pipeline" where
  \<comment> \<open>the factory: the judge is built with its default fallback \<open>"pass"\<close>. The first argument is
     the Unicode normalisation of \<open>normalizer.py\<close>, which leaves ASCII text as it is.\<close>
  "create_injection_pipeline nfkc lib post loads =
     add_detector ''llm_judge'' (\<lambda>t. Inr (judge_detect \<lparr>j_post = post, j_loads = loads, j_block = False\<rparr> t))
      (add_detector ''regex'' (\<lambda>t. Inr (regex_detect t))
        (add_preprocessor (\<lambda>t. Inr (decode lib default_decoder t))
          (add_preprocessor (\<lambda>t. Inr (nfkc t)) (new_pipeline default_injection_config))))"

section \<open>Properties of the detector\<close>

lemma scan_pattern_simps [simp]:
  "sc_matched (scan_pattern t s (i, r, c, k)) = sc_matched s @ (if search r t then [i] else [])"
  "set (sc_hit (scan_pattern t s (i, r, c, k))) = set (sc_hit s) \<union> (if search r t then {k} else {})"
  "distinct (sc_hit (scan_pattern t s (i, r, c, k))) = distinct (sc_hit s)"
  "sc_best (scan_pattern t s (i, r, c, k)) = (if search r t then max (sc_best s) c else sc_best s)"
  "sc_cat (scan_pattern t s (i, r, c, k)) =
     (if search r t \<and> sc_best s < c then Some k else sc_cat s)"
  by (auto simp: scan_pattern_def Let_def max_def distinct_insert)

text \<open>What the scan has after a prefix of the table: the matched patterns, the maximum of their
  confidences and the category of the first pattern that reaches it.\<close>

definition scan_ok :: "(rx \<times> pyfloat \<times> category) list \<Rightarrow> string \<Rightarrow> nat \<Rightarrow> scan \<Rightarrow> bool" where
  "scan_ok ps t n s \<longleftrightarrow>
     sc_matched s = filter (\<lambda>i. search (fst (ps ! i)) t) [0..<n] \<and>
     set (sc_hit s) = (\<lambda>i. snd (snd (ps ! i))) ` set (sc_matched s) \<and> distinct (sc_hit s) \<and>
     (\<forall>i \<in> set (sc_matched s). fst (snd (ps ! i)) \<le> sc_best s) \<and>
     (if sc_matched s = [] then sc_best s = 0 \<and> sc_cat s = None
      else \<exists>i \<in> set (sc_matched s). sc_best s = fst (snd (ps ! i)) \<and> sc_cat s = Some (snd (snd (ps ! i))))"

lemma scan_ok_step:
  assumes "scan_ok ps t n s" "\<forall>p \<in> set ps. 0 < fst (snd p)" "n < length ps"
  shows "scan_ok ps t (Suc n) (scan_pattern t s (n, ps ! n))"
proof (cases "search (fst (ps ! n)) t")
  case False
  then show ?thesis using assms(1) unfolding scan_ok_def
    by (cases "ps ! n") (fastforce split: if_splits)
next
  case True
  obtain r c k where p: "ps ! n = (r, c, k)" by (cases "ps ! n") auto
  from assms(2) nth_mem [OF assms(3)] have "0 < c" using p by fastforce
  with True assms(1) p show ?thesis
    unfolding scan_ok_def by (cases "sc_best s < c") (fastforce simp: max_def split: if_splits)+
qed

lemma scan_all_ok:
  assumes "\<forall>p \<in> set ps. 0 < fst (snd p)"
  shows "scan_ok ps t (length ps) (scan_all ps t)"
proof -
  let ?s0 = "\<lparr>sc_best = 0, sc_cat = None, sc_matched = [], sc_hit = []\<rparr>"
  have "n \<le> length ps \<Longrightarrow> scan_ok ps t n (foldl (scan_pattern t) ?s0 (zip [0..<n] (take n ps)))" for n
  proof (induction n)
    case 0
    show ?case by (simp add: scan_ok_def)
  next
    case (Suc n)
    have "zip [0..<Suc n] (take (Suc n) ps) = zip [0..<n] (take n ps) @ [(n, ps ! n)]"
      using Suc.prems by (simp add: take_Suc_conv_app_nth)
    with Suc scan_ok_step [OF _ assms, of t n] show ?case by simp
  qed
  from this [of "length ps"] show ?thesis by (simp add: scan_all_def)
qed

lemma patterns_confidences:
  assumes "p \<in> set patterns"
  shows "0.72 \<le> fst (snd p) \<and> fst (snd p) \<le> 0.97"
proof -
  have all: "list_all (\<lambda>c. 0.72 \<le> c \<and> c \<le> (0.97::real)) (map (fst \<circ> snd) (patterns_a @ patterns_b))"
    unfolding patterns_a_def patterns_b_def by simp
  have "fst (snd p) \<in> set (map (fst \<circ> snd) (patterns_a @ patterns_b))"
    using assms unfolding patterns_def by force
  with all show ?thesis unfolding list_all_iff by (rule bspec)
qed

lemma length_patterns [simp]: "length patterns = 46"
  by (simp add: patterns_def patterns_a_def patterns_b_def)

definition matching :: "string \<Rightarrow> nat list" where
  \<comment> \<open>the positions of the patterns that match\<close>
  "matching t = filter (\<lambda>i. search (fst (patterns ! i)) t) [0..<length patterns]"

abbreviation "confidence i \<equiv> fst (snd (patterns ! i))"
abbreviation "category_of i \<equiv> snd (snd (patterns ! i))"

lemma scan_patterns:
  fixes t :: string
  defines "s \<equiv> scan_all patterns t"
  shows "sc_matched s = matching t"
    and "set (sc_hit s) = category_of ` set (matching t)"
    and "distinct (sc_hit s)"
    and "i \<in> set (matching t) \<Longrightarrow> confidence i \<le> sc_best s"
    and "matching t = [] \<Longrightarrow> sc_best s = 0 \<and> sc_cat s = None"
    and "matching t \<noteq> [] \<Longrightarrow> \<exists>i \<in> set (matching t). sc_best s = confidence i \<and> sc_cat s = Some (category_of i)"
proof -
  have "\<forall>p \<in> set patterns. 0 < fst (snd p)" using patterns_confidences by fastforce
  from scan_all_ok [OF this, of t] have ok: "scan_ok patterns t (length patterns) s"
    by (simp add: s_def)
  then show m: "sc_matched s = matching t" by (simp add: scan_ok_def matching_def)
  show "set (sc_hit s) = category_of ` set (matching t)"
    and "distinct (sc_hit s)"
    and "i \<in> set (matching t) \<Longrightarrow> confidence i \<le> sc_best s"
    and "matching t = [] \<Longrightarrow> sc_best s = 0 \<and> sc_cat s = None"
    and "matching t \<noteq> [] \<Longrightarrow> \<exists>i \<in> set (matching t). sc_best s = confidence i \<and> sc_cat s = Some (category_of i)"
    using ok unfolding scan_ok_def m by (auto split: if_splits)
qed

lemma matching_confidence: "i \<in> set (matching t) \<Longrightarrow> 0.72 \<le> confidence i \<and> confidence i \<le> 0.97"
  unfolding matching_def by (intro patterns_confidences nth_mem) simp

lemma category_threshold_bounds: "0.80 \<le> category_threshold c \<and> category_threshold c \<le> 0.95"
  by (cases c) simp_all

lemma judge_scan_detected:
  assumes "ir_detected (judge_scan s)"
  shows "ir_score (judge_scan s) = (if 2 \<le> length (sc_hit s) \<and> 0.55 \<le> sc_best s then min 1 (sc_best s + 0.05) else sc_best s)"
    and "category_threshold (case sc_cat s of None \<Rightarrow> Generic | Some c \<Rightarrow> c) \<le> ir_score (judge_scan s)"
    and "ir_category (judge_scan s) = sc_cat s"
    and "ir_patterns (judge_scan s) = sc_matched s"
    and "ir_action (judge_scan s) \<in> {Block, BlockAndAlert}"
    and "ir_severity (judge_scan s) \<in> {SevHigh, SevCritical}"
  using assms category_threshold_bounds [of "case sc_cat s of None \<Rightarrow> Generic | Some c \<Rightarrow> c"]
  by (auto simp: judge_scan_def Let_def result_allow_def severity_from_score_def split: if_splits)

lemma two_members:
  assumes "distinct xs" "c \<in> set xs"
  shows "2 \<le> length xs \<longleftrightarrow> (\<exists>d \<in> set xs. d \<noteq> c)"
  using assms by (cases xs; cases "tl xs") auto

section \<open>Which patterns match a concrete text\<close>

lemma raw_pattern: "i < 46 \<Longrightarrow> patterns ! i = (ignore_case (fst ((patterns_a @ patterns_b) ! i)), snd ((patterns_a @ patterns_b) ! i))"
proof -
  have "length (patterns_a @ patterns_b) = 46" by (simp add: patterns_a_def patterns_b_def)
  then show "i < 46 \<Longrightarrow> ?thesis" unfolding patterns_def by (simp only: nth_map split_beta)
qed
definition candidates :: "char list \<Rightarrow> nat list" where
  "candidates A = map fst (filter (\<lambda>(i, r, _). possible A r) (enumerate 0 (patterns_a @ patterns_b)))"

lemma enumerate_filter:
  "map fst (filter (\<lambda>(i, x). P x) (enumerate n xs)) = filter (\<lambda>i. P (xs ! (i - n))) [n..<n + length xs]"
proof (induction xs arbitrary: n)
  case Nil
  show ?case by simp
next
  case (Cons x xs)
  have "filter (\<lambda>i. P (xs ! (i - Suc n))) [Suc n..<Suc n + length xs] =
      filter (\<lambda>i. P ((x # xs) ! (i - n))) [Suc n..<Suc n + length xs]"
    by (intro filter_cong) (auto simp: nth_Cons' Suc_diff_Suc)
  moreover have "[n..<n + length (x # xs)] = n # [Suc n..<Suc n + length xs]"
    by (simp add: upt_conv_Cons del: upt_Suc)
  ultimately show ?case by (simp add: Cons.IH)
qed

lemma matching_candidates:
  assumes "set t \<subseteq> set A"
  shows "matching t = filter (\<lambda>i. search (fst (patterns ! i)) t) (candidates (both_cases A))"
proof -
  let ?raw = "patterns_a @ patterns_b"
  have l: "length ?raw = 46" by (simp add: patterns_a_def patterns_b_def)
  have "candidates (both_cases A) = filter (\<lambda>i. possible (both_cases A) (fst (?raw ! i))) [0..<46]"
    using enumerate_filter [of "\<lambda>p. possible (both_cases A) (fst p)" 0 ?raw] unfolding l
    by (simp add: candidates_def split_beta')
  moreover have "possible (both_cases A) (fst (?raw ! i))" if "i < 46" "search (fst (patterns ! i)) t" for i
    using not_search [OF _ assms] that unfolding raw_pattern [OF that(1)] possible_ignore_case [symmetric] by auto
  ultimately show ?thesis by (auto simp: matching_def intro!: filter_cong)
qed

definition absorb :: "scan \<Rightarrow> nat \<Rightarrow> scan" where
  \<comment> \<open>the loop body for a pattern that matches\<close>
  "absorb s i = (let s1 = s\<lparr>sc_hit := List.insert (category_of i) (sc_hit s), sc_matched := sc_matched s @ [i]\<rparr>
     in if sc_best s < confidence i then s1\<lparr>sc_best := confidence i, sc_cat := Some (category_of i)\<rparr> else s1)"

lemma scan_matching:
  "scan_all patterns t = foldl absorb \<lparr>sc_best = 0, sc_cat = None, sc_matched = [], sc_hit = []\<rparr> (matching t)"
proof -
  have "foldl (scan_pattern t) s (zip ks (map (nth patterns) ks)) =
      foldl absorb s (filter (\<lambda>i. search (fst (patterns ! i)) t) ks)" for s ks
    by (induction ks arbitrary: s) (simp_all add: scan_pattern_def absorb_def split_beta)
  from this [of _ "[0..<length patterns]"] show ?thesis
    by (simp only: scan_all_def matching_def map_nth)
qed

text \<open>
  C10: What a detection of the pattern layer reports. The category is that of a pattern that
  matches the text with the highest confidence of all matching patterns; the score is that
  confidence, raised by 0.05 (at most to 1) when patterns of two categories match, and it
  reaches the threshold of the category; the reported patterns are exactly the matching ones;
  and the recommended action is \<open>BLOCK\<close> or \<open>BLOCK_AND_ALERT\<close>, never a softer one.
\<close>
theorem regex_detect_sound:
  assumes "ir_detected (regex_detect t)"
  shows "\<exists>i \<in> set (matching t).
      ir_category (regex_detect t) = Some (category_of i) \<and>
      (\<forall>j \<in> set (matching t). confidence j \<le> confidence i) \<and>
      ir_score (regex_detect t) =
        (if \<exists>j \<in> set (matching t). category_of j \<noteq> category_of i
         then min 1 (confidence i + 0.05) else confidence i) \<and>
      category_threshold (category_of i) \<le> ir_score (regex_detect t) \<and>
      ir_patterns (regex_detect t) = matching t \<and>
      ir_action (regex_detect t) \<in> {Block, BlockAndAlert}"
proof -
  let ?s = "scan_all patterns t"
  from assms have r: "regex_detect t = judge_scan ?s" and d: "ir_detected (judge_scan ?s)"
    by (auto simp: regex_detect_def result_allow_def split: if_splits)
  have ne: "matching t \<noteq> []"
    using d scan_patterns(5) [of t] by (auto simp: judge_scan_def result_allow_def)
  obtain i where i: "i \<in> set (matching t)" "sc_best ?s = confidence i" "sc_cat ?s = Some (category_of i)"
    using scan_patterns(6) [OF ne] by blast
  have two: "2 \<le> length (sc_hit ?s) \<longleftrightarrow> (\<exists>j \<in> set (matching t). category_of j \<noteq> category_of i)"
    using two_members [OF scan_patterns(3), of "category_of i" t] i(1) scan_patterns(2) [of t] by auto
  have big: "0.55 \<le> sc_best ?s" using matching_confidence [OF i(1)] i(2) by simp
  have score: "ir_score (judge_scan ?s) =
      (if \<exists>j \<in> set (matching t). category_of j \<noteq> category_of i
       then min 1 (confidence i + 0.05) else confidence i)"
    unfolding judge_scan_detected(1) [OF d] two i(2) using big i(2) by simp
  have best: "\<forall>j \<in> set (matching t). confidence j \<le> confidence i"
    using scan_patterns(4) [where t = t] i(2) by simp
  have threshold: "category_threshold (category_of i) \<le> ir_score (judge_scan ?s)"
    using judge_scan_detected(2) [OF d] i(3) by simp
  show ?thesis unfolding r
    using i(1) score best threshold judge_scan_detected(3,4,5) [OF d] i(3) scan_patterns(1) [of t]
    by (metis (no_types, lifting))
qed


lemma matching_do_not_filter: "matching ''do not filter'' = [20]"
proof -
  have "candidates (both_cases ''donfilter '') = [20]" by code_simp
  moreover have "search (fst (patterns ! 20)) ''do not filter''" by code_simp
  ultimately show ?thesis by (simp add: matching_candidates [of _ "''donfilter ''"])
qed

lemma pattern_20: "confidence 20 = 0.86" "category_of 20 = SafetyBypass"
  by (simp_all add: raw_pattern patterns_a_def patterns_b_def)

lemma detect_do_not_filter: "ir_detected (regex_detect ''do not filter'')"
  by (simp add: regex_detect_def scan_matching matching_do_not_filter pattern_20 absorb_def
      judge_scan_def Let_def)

lemma regex_detect_sound_witness:
  "ir_detected (regex_detect ''do not filter'') \<and>
   ir_action (regex_detect ''do not filter'') \<in> {Block, BlockAndAlert}"
  using regex_detect_sound [OF detect_do_not_filter] detect_do_not_filter by blast

definition dead_patterns :: "nat list" where
  "dead_patterns = filter (\<lambda>i. confidence i < category_threshold (category_of i)) [0..<length patterns]"

lemma dead_patterns_eq: "dead_patterns = [1, 2, 3, 4, 5, 6, 7, 14, 17, 30, 31, 32, 34, 35]"
proof -
  let ?raw = "patterns_a @ patterns_b"
  have l: "length ?raw = 46" "length patterns = 46" by (simp_all add: patterns_def patterns_a_def patterns_b_def)
  have "dead_patterns = filter (\<lambda>i. fst (snd (?raw ! i)) < category_threshold (snd (snd (?raw ! i)))) [0..<46]"
    unfolding dead_patterns_def l by (intro filter_cong refl) (simp add: raw_pattern)
  also have "\<dots> = map fst (filter (\<lambda>(i, _, c, cat). c < category_threshold cat) (enumerate 0 ?raw))"
    using enumerate_filter [of "\<lambda>p. fst (snd p) < category_threshold (snd (snd p))" 0 ?raw] unfolding l
    by (simp add: split_beta')
  also have "\<dots> = [1, 2, 3, 4, 5, 6, 7, 14, 17, 30, 31, 32, 34, 35]" by (simp add: patterns_a_def patterns_b_def)
  finally show ?thesis .
qed

lemma matching_Nil: "matching [] = []"
proof -
  have "candidates (both_cases []) = []" by code_simp
  then show ?thesis by (simp add: matching_candidates [of _ "[]"])
qed

lemma not_detected_allow: "\<not> ir_detected (regex_detect t) \<Longrightarrow> ir_action (regex_detect t) = Allow"
  by (auto simp: regex_detect_def judge_scan_def result_allow_def Let_def split: if_splits)

text \<open>
  A pattern whose confidence is below the threshold of its own category has no effect by
  itself: a text that only such patterns of one category match is allowed. 14 of the 46
  patterns of the table are of that kind, seven of them system override patterns.
\<close>
theorem dead_patterns_allow:
  "dead_patterns = [1, 2, 3, 4, 5, 6, 7, 14, 17, 30, 31, 32, 34, 35] \<and>
   (set (matching t) \<subseteq> set dead_patterns \<longrightarrow>
    (\<forall>i \<in> set (matching t). \<forall>j \<in> set (matching t). category_of i = category_of j) \<longrightarrow>
    ir_action (regex_detect t) = Allow)"
proof (intro conjI impI)
  assume dead: "set (matching t) \<subseteq> set dead_patterns"
    and one: "\<forall>i \<in> set (matching t). \<forall>j \<in> set (matching t). category_of i = category_of j"
  let ?s = "scan_all patterns t"
  have "\<not> ir_detected (judge_scan ?s)"
  proof
    assume d: "ir_detected (judge_scan ?s)"
    have "matching t \<noteq> []"
      using d scan_patterns(5) [of t] by (auto simp: judge_scan_def result_allow_def)
    then obtain i where i: "i \<in> set (matching t)" "sc_best ?s = confidence i" "sc_cat ?s = Some (category_of i)"
      using scan_patterns(6) by blast
    have "category_of i \<in> set (sc_hit ?s)" unfolding scan_patterns(2) using i(1) by (rule imageI)
    moreover have "\<not> (\<exists>d \<in> set (sc_hit ?s). d \<noteq> category_of i)"
      unfolding scan_patterns(2) using one i(1) by blast
    ultimately have "\<not> 2 \<le> length (sc_hit ?s)" using two_members [OF scan_patterns(3)] by blast
    with judge_scan_detected(1,2) [OF d] i have "category_threshold (category_of i) \<le> confidence i" by simp
    moreover have "i \<in> set dead_patterns" using dead i(1) by blast
    then have "confidence i < category_threshold (category_of i)"
      by (simp only: dead_patterns_def set_filter mem_Collect_eq)
    ultimately show False by simp
  qed
  then show "ir_action (regex_detect t) = Allow"
    by (intro not_detected_allow) (simp add: regex_detect_def result_allow_def)
qed (rule dead_patterns_eq)

lemma dead_patterns_allow_witness: "ir_action (regex_detect ''switch role'') = Allow"
proof -
  have "candidates (both_cases ''switch role'') = [14]" by code_simp
  moreover have "search (fst (patterns ! 14)) ''switch role''" by code_simp
  ultimately have "matching ''switch role'' = [14]"
    by (simp add: matching_candidates [of _ "''switch role''"])
  moreover have "14 \<in> set dead_patterns" by (simp add: dead_patterns_eq)
  ultimately show ?thesis
    using dead_patterns_allow [THEN conjunct2, of "''switch role''"] by simp
qed

text \<open>
  A pattern with a confidence of at least 0.95 decides alone: if one matches, the text
  is a critical detection, whatever else matches.
\<close>
theorem regex_high_confidence:
  assumes "i \<in> set (matching t)" "0.95 \<le> confidence i"
  shows "ir_detected (regex_detect t) \<and> ir_severity (regex_detect t) = SevCritical \<and>
    ir_action (regex_detect t) = BlockAndAlert"
proof -
  let ?s = "scan_all patterns t"
  have b: "0.95 \<le> sc_best ?s" using scan_patterns(4) [OF assms(1)] assms(2) by simp
  have c: "category_threshold c \<le> 0.95" for c by (cases c) simp_all
  have t: "t \<noteq> []" using assms(1) matching_Nil by auto
  from b c [of "case sc_cat ?s of None \<Rightarrow> Generic | Some c \<Rightarrow> c"] show ?thesis
    by (simp add: regex_detect_def t judge_scan_def Let_def severity_from_score_def)
qed

lemma regex_high_confidence_witness: "ir_action (regex_detect ''do danmode'') = BlockAndAlert"
proof -
  have "9 \<in> set (matching ''do danmode'')"
  proof -
    have "search (fst (patterns ! 9)) ''do danmode''" by code_simp
    then show ?thesis by (simp add: matching_def)
  qed
  moreover have "0.95 \<le> confidence 9" by (simp add: raw_pattern patterns_a_def patterns_b_def)
  ultimately show ?thesis using regex_high_confidence by blast
qed

text \<open>
  Detection is not monotonic: \<open>"do not filter"\<close> is blocked, and the same text followed by
  \<open>" new instruction="\<close>, which matches a system override pattern as well, is allowed: the
  category of the higher confidence decides, and its threshold is out of reach.
\<close>
theorem added_override_evades:
  "ir_action (regex_detect ''do not filter'') = Block \<and>
   ir_action (regex_detect (''do not filter'' @ '' new instruction='')) = Allow"
proof
  show "ir_action (regex_detect ''do not filter'') = Block"
    by (simp add: regex_detect_def scan_matching matching_do_not_filter pattern_20 absorb_def
        judge_scan_def Let_def severity_from_score_def)
  have "candidates (both_cases ''donfilterws uc='') = [4, 20]" by code_simp
  moreover have "search (fst (patterns ! 4)) ''do not filter new instruction=''"
    and "search (fst (patterns ! 20)) ''do not filter new instruction=''" by code_simp+
  ultimately have m: "matching ''do not filter new instruction='' = [4, 20]"
    by (simp add: matching_candidates [of _ "''donfilterws uc=''"])
  have "confidence 4 = 0.88" "category_of 4 = SystemOverride"
    by (simp_all add: raw_pattern patterns_a_def patterns_b_def)
  then show "ir_action (regex_detect (''do not filter'' @ '' new instruction='')) = Allow"
    by (simp add: regex_detect_def scan_matching m pattern_20 absorb_def judge_scan_def Let_def
        result_allow_def)
qed

lemma last_strip: "s \<noteq> [] \<Longrightarrow> \<not> is_space (last s) \<Longrightarrow> last s \<in> set (strip s)"
proof -
  assume "s \<noteq> []" "\<not> is_space (last s)"
  then obtain u c where s: "s = u @ [c]" "\<not> is_space c" by (cases s rule: rev_cases) auto
  then have "\<exists>v. dropWhile is_space s = v @ [c]" by (simp add: dropWhile_append) 
  with s show ?thesis by (auto simp: strip_def)
qed

text \<open>
  Text that contains a keyword in ROT13 is replaced by its ROT13 image, so the detectors
  never see the plain text. Whatever the text \<open>a\<close> is, with \<open>" - vtaber!"\<close> behind it the decoder
  hands over \<open>rot13 a\<close>; for instance \<open>"do not filter"\<close> is blocked by the pattern layer and,
  with that tail, passes it.
\<close>
theorem rot13_shadows_text:
  "decode lib default_decoder (a @ '' - vtaber!'') = rot13 a @ '' - ignore!'' \<and>
   ir_detected (regex_detect ''do not filter'') \<and>
   \<not> ir_detected (regex_detect (decode lib default_decoder (''do not filter'' @ '' - vtaber!'')))"
proof -
  have shadow: "decode lib default_decoder (a @ '' - vtaber!'') = rot13 a @ '' - ignore!''" for a
  proof -
    let ?s = "a @ '' - vtaber!''"
    have mem: "CHR ''!'' \<in> set (strip ?s)" using last_strip [of ?s] by (simp add: is_space_def)
    have "\<not> fullmatch base64_re (strip ?s)"
    proof
      assume m: "fullmatch base64_re (strip ?s)"
      have "only (\<lambda>c. is_b64 c \<or> c = CHR ''='') base64_re"
        by (simp add: base64_re_def lit_def opt_def numeral_eq_Suc Let_def)
      from fullmatch_only [OF m this mem] show False by (simp add: py_eval)
    qed
    moreover have "\<not> fullmatch hex_re (remove_blanks (strip ?s))"
    proof
      assume m: "fullmatch hex_re (remove_blanks (strip ?s))"
      have "only is_hex hex_re" by (simp add: hex_re_def numeral_eq_Suc Let_def)
      from fullmatch_only [OF m this, of "CHR ''!''"] mem show False
        by (simp add: py_eval remove_blanks_def)
    qed
    moreover have r: "rot13 ?s = rot13 a @ '' - ignore!''" 
      unfolding rot13_def map_append by (intro arg_cong [where f = "(@) _"]) code_simp
    moreover have "lower (rot13 ?s) = (lower (rot13 a) @ '' - '') @ ''ignore'' @ ''!''"
      unfolding r by (simp add: lower_def lower_char_def)
    then have "substr ''ignore'' (lower (rot13 ?s))" unfolding sublist_def by metis
    then have "list_ex (\<lambda>kw. substr kw (lower (rot13 ?s))) injection_keywords"
      
      by (simp only: injection_keywords_def list_ex_Cons_iff simp_thms)
    ultimately show ?thesis by (simp add: decode_def decode_steps_def default_decoder_def)
  qed
  have "matching (rot13 ''do not filter'' @ '' - ignore!'') = []"
  proof -
    have "rot13 ''do not filter'' @ '' - ignore!'' = ''qb abg svygre - ignore!''" by code_simp
    moreover have "candidates (both_cases ''qb agsvyre-ino!'') = []" by code_simp
    ultimately show ?thesis by (simp add: matching_candidates [of _ "''qb agsvyre-ino!''"])
  qed
  then have "\<not> ir_detected (regex_detect (rot13 ''do not filter'' @ '' - ignore!''))"
    using scan_patterns(5) by (simp add: regex_detect_def judge_scan_def result_allow_def)
  with detect_do_not_filter show ?thesis unfolding shadow by blast
qed

section \<open>Properties of the pipeline\<close>

lemma run_detectors_Some:
  "run_detectors c ds t = Inr (Some r) \<longleftrightarrow>
   (\<exists>ds1 n f ds2. ds = ds1 @ (n, f) # ds2 \<and> is_detector_enabled c n \<and> f t = Inr r \<and> ir_detected r \<and>
      (\<forall>(m, g) \<in> set ds1. is_detector_enabled c m \<longrightarrow> (\<exists>q. g t = Inr q \<and> \<not> ir_detected q)))"
  (is "_ \<longleftrightarrow> ?R ds")
proof (induction ds)
  case Nil
  show ?case by simp
next
  case (Cons d ds)
  obtain n f where d: "d = (n, f)" by (cases d)
  let ?skip = "is_detector_enabled c n \<longrightarrow> (\<exists>q. f t = Inr q \<and> \<not> ir_detected q)"
  let ?hit = "is_detector_enabled c n \<and> f t = Inr r \<and> ir_detected r"
  have "?R (d # ds)" if "?hit"
    using that d by (intro exI [of _ "[]"] exI [of _ n] exI [of _ f] exI [of _ ds]) simp
  moreover have "?R (d # ds)" if "?skip" "?R ds"
  proof -
    from that(2) obtain ds1 m g ds2 where *: "ds = ds1 @ (m, g) # ds2" "is_detector_enabled c m"
      "g t = Inr r" "ir_detected r"
      "\<forall>(m, g) \<in> set ds1. is_detector_enabled c m \<longrightarrow> (\<exists>q. g t = Inr q \<and> \<not> ir_detected q)"
      by (elim exE conjE)
    then show ?thesis
      using that(1) d by (intro exI [of _ "d # ds1"] exI [of _ m] exI [of _ g] exI [of _ ds2]) simp
  qed
  moreover have "?hit \<or> ?skip \<and> ?R ds" if "?R (d # ds)"
  proof -
    from that obtain ds1 m g ds2 where *: "d # ds = ds1 @ (m, g) # ds2" "is_detector_enabled c m"
      "g t = Inr r" "ir_detected r"
      "\<forall>(m, g) \<in> set ds1. is_detector_enabled c m \<longrightarrow> (\<exists>q. g t = Inr q \<and> \<not> ir_detected q)"
      by (elim exE conjE)
    show ?thesis
    proof (cases ds1)
      case Nil
      with * d show ?thesis by simp
    next
      case (Cons e ds1')
      with *(1) d have "e = (n, f)" by simp
      with * Cons d have "?skip" "ds = ds1' @ (m, g) # ds2"
        "\<forall>(m, g) \<in> set ds1'. is_detector_enabled c m \<longrightarrow> (\<exists>q. g t = Inr q \<and> \<not> ir_detected q)" by simp_all
      with *(2-4) show ?thesis by blast
    qed
  qed
  moreover have "run_detectors c (d # ds) t = Inr (Some r) \<longleftrightarrow>
      ?hit \<or> ?skip \<and> run_detectors c ds t = Inr (Some r)"
    unfolding d by (auto split: sum.splits)
  ultimately show ?case using Cons.IH by blast
qed

text \<open>
  C11: The pipeline reports a detection exactly when it is enabled, all preprocessors return,
  and the report is that of the first detector, in the order they were added and disabled ones
  skipped, that detects something in the preprocessed text; a detector that raises before that
  makes the whole run an allow (fail-open).
\<close>
theorem run_pipeline_detects:
  assumes "ir_detected r"
  shows "run_pipeline p text = r \<longleftrightarrow>
    ip_enabled p \<and> (\<exists>t ds1 n f ds2. preprocess (ip_pre p) text = Inr t \<and>
       ip_detectors p = ds1 @ (n, f) # ds2 \<and> is_detector_enabled (ip_config p) n \<and> f t = Inr r \<and>
       (\<forall>(m, g) \<in> set ds1. is_detector_enabled (ip_config p) m \<longrightarrow> (\<exists>q. g t = Inr q \<and> \<not> ir_detected q)))"
proof (cases "ip_enabled p")
  case False
  with assms show ?thesis by (auto simp: run_pipeline_def result_allow_def)
next
  case True
  show ?thesis
  proof (cases "preprocess (ip_pre p) text")
    case (Inl e)
    with True assms show ?thesis by (auto simp: run_pipeline_def result_allow_def)
  next
    case (Inr t)
    have "run_pipeline p text = r \<longleftrightarrow> run_detectors (ip_config p) (ip_detectors p) t = Inr (Some r)"
      using True Inr assms by (auto simp: run_pipeline_def result_allow_def split: sum.splits option.splits)
    with True Inr assms show ?thesis unfolding run_detectors_Some by simp
  qed
qed

lemma run_pipeline_detects_witness:
  "run_pipeline (add_detector ''regex'' (\<lambda>t. Inr (regex_detect t)) (new_pipeline default_injection_config))
     ''do not filter'' = regex_detect ''do not filter''"
  by (rule iffD2 [OF run_pipeline_detects [OF detect_do_not_filter]], intro conjI
      exI [of _ "''do not filter''"] exI [of _ "[]"] exI [of _ "''regex''"]
      exI [of _ "\<lambda>t. Inr (regex_detect t)"])
    (simp_all add: add_detector_def new_pipeline_def default_injection_config_def is_detector_enabled_def)

text \<open>
  When the model judge cannot be reached (a timeout, a transport error, a status other than
  200), the pipeline the factory builds decides by the pattern layer alone on the normalised,
  decoded text: it reports that layer's detection or allows; an outage of the judge
  neither blocks nor unblocks anything.
\<close>
theorem judge_outage:
  assumes "\<And>t. \<forall>reply. post t \<noteq> HttpOk reply"
  shows "let r = run_pipeline (create_injection_pipeline nfkc lib post loads) text;
             q = regex_detect (decode lib default_decoder (nfkc text))
         in ir_detected r = ir_detected q \<and> ir_action r = ir_action q \<and>
            ir_category r = ir_category q \<and> (ir_detected q \<longrightarrow> r = q)"
proof -
  let ?j = "\<lparr>j_post = post, j_loads = loads, j_block = False\<rparr>"
  have j: "\<exists>why. judge_detect ?j t = result_allow why" for t
    using assms [of t] by (cases "post t") (auto simp: judge_detect_def handle_fallback_def)
  let ?q = "regex_detect (decode lib default_decoder (nfkc text))"
  have "\<exists>why. run_pipeline (create_injection_pipeline nfkc lib post loads) text =
      (if ir_detected ?q then ?q else result_allow why)"
    using j by (auto simp: run_pipeline_def create_injection_pipeline_def add_detector_def
        add_preprocessor_def new_pipeline_def default_injection_config_def is_detector_enabled_def
        result_allow_def)
  moreover have "ir_action ?q = Allow \<and> ir_category ?q = None" if "\<not> ir_detected ?q"
    using that by (auto simp: regex_detect_def judge_scan_def result_allow_def Let_def split: if_splits)
  ultimately show ?thesis by (cases "ir_detected ?q") (auto simp: Let_def result_allow_def)
qed

lemma judge_outage_witness:
  "ir_action (run_pipeline (create_injection_pipeline (\<lambda>t. t)
     \<lparr>b64 = Inr, unhex = Inr, unescape = (\<lambda>t. t), unquote = (\<lambda>t. t)\<rparr>
     (\<lambda>_. HttpTimeout) (\<lambda>_. DecodeError)) ''Hello'') = Allow"
proof -
  have "matching ''Hello'' = []"
  proof -
    have "candidates (both_cases ''Helo'') = []" by code_simp
    then show ?thesis by (simp add: matching_candidates [of _ "''Helo''"])
  qed
  then have "\<not> ir_detected (regex_detect ''Hello'')"
    using scan_patterns(5) by (simp add: regex_detect_def judge_scan_def result_allow_def)
  from not_detected_allow [OF this] show ?thesis
    using judge_outage [of "\<lambda>_. HttpTimeout" "\<lambda>t. t"
        "\<lparr>b64 = Inr, unhex = Inr, unescape = (\<lambda>t. t), unquote = (\<lambda>t. t)\<rparr>" "\<lambda>_. DecodeError" "''Hello''"]
    by (simp add: Let_def decode_def)
qed

end
