(* ===== verification/Audit_Chain.thy ===== *)
theory Audit_Chain
  imports Py_Regex Interfaces "HOL-Library.Char_ord" "HOL-Library.List_Lexorder"
begin

text \<open>
  The three tamper-evident logs of \<open>services/shared\<close>: the HMAC-linked \<open>audit_logs\<close> table
  (\<open>audit.py\<close>), the SHA-256-linked \<open>audit_chain\<close> table (\<open>audit_chain.py\<close>) and the file-backed
  chain of security events (\<open>security/audit.py\<close>). All three link an entry to the stored hash of
  the one before; \<open>hash_linked\<close> is that contract, interpreted below on the two tables. The events of
  the third are objects that \<open>append\<close> mutates and stores by reference: they live in an explicit store.

  The digest functions are parameters (\<open>mac\<close>, \<open>sha\<close>, \<open>digest\<close>): what is shown holds for every
  function, and where it needs collision freedom the hypothesis names the finite set of inputs
  on which the function is assumed injective. A table is the list of its rows in the order of
  their ids; the database and the file system may fail where the code catches an exception.
\<close>

section \<open>Logs whose entries hash the entry before\<close>

locale hash_linked =
  fixes computed :: "'h option \<Rightarrow> 'e \<Rightarrow> 'h" \<comment> \<open>the hash an entry must store after the given hash\<close>
    and stored :: "'e \<Rightarrow> 'h"
    and build :: "'h option \<Rightarrow> 'c \<Rightarrow> 'e" \<comment> \<open>the entry written for some content\<close>
  assumes stored_build: "stored (build p c) = computed p (build p c)"
begin

fun intact :: "'h option \<Rightarrow> 'e list \<Rightarrow> bool" where
  "intact p [] \<longleftrightarrow> True"
| "intact p (e # es) \<longleftrightarrow> stored e = computed p e \<and> intact (Some (stored e)) es"

definition last_hash :: "'h option \<Rightarrow> 'e list \<Rightarrow> 'h option" where
  "last_hash p es = (if es = [] then p else Some (stored (last es)))"

lemma last_hash_simps [simp]:
  "last_hash p [] = p"
  "last_hash p (e # es) = last_hash (Some (stored e)) es"
  "last_hash p (es @ [e]) = Some (stored e)"
  by (simp_all add: last_hash_def)

lemma intact_append: "intact p (es @ fs) \<longleftrightarrow> intact p es \<and> intact (last_hash p es) fs"
  by (induction es arbitrary: p) auto

lemma intact_build: "intact p (es @ [build (last_hash p es) c]) \<longleftrightarrow> intact p es"
  by (simp add: intact_append stored_build)

fun links :: "'h option \<Rightarrow> 'e list \<Rightarrow> ('h option \<times> 'e) list" where
  \<comment> \<open>every entry with the hash it is linked to\<close>
  "links p [] = []"
| "links p (e # es) = (p, e) # links (Some (stored e)) es"

lemma links_snoc: "links p (es @ [e]) = links p es @ [(last_hash p es, e)]"
  by (induction es arbitrary: p) simp_all

lemma last_hash_determines:
  assumes "intact None es" "intact None fs" "last_hash None es = last_hash None fs"
    and "\<And>p e q f. (p, e) \<in> set (links None es) \<Longrightarrow> (q, f) \<in> set (links None fs) \<Longrightarrow>
      computed p e = computed q f \<Longrightarrow> p = q \<and> payload e = payload f"
  shows "map payload es = map payload fs"
  using assms
proof (induction es arbitrary: fs rule: rev_induct)
  case Nil
  then show ?case by (cases fs rule: rev_cases) simp_all
next
  case (snoc e es)
  from snoc.prems(3) obtain f fs' where fs: "fs = fs' @ [f]" "stored e = stored f"
    by (cases fs rule: rev_cases) simp_all
  with snoc.prems(1,2) have "computed (last_hash None es) e = computed (last_hash None fs') f"
    by (simp add: intact_append)
  with snoc.prems(4) [of "last_hash None es" e "last_hash None fs'" f]
  have "last_hash None es = last_hash None fs'" "payload e = payload f" by (simp_all add: links_snoc fs)
  moreover from this snoc.prems have "map payload es = map payload fs'"
    by (intro snoc.IH) (auto simp: fs intact_append links_snoc)
  ultimately show ?case by (simp add: fs)
qed

end

section \<open>audit.py: the HMAC chain of audit_logs\<close>

subsection \<open>Masking\<close>

datatype json =
    JStr string
  | JDict "(string, json) pydict"
  | JList "json list"
  | JOther string

abbreviation "alnum c \<equiv> is_digit c \<or> is_upper c \<or> is_lower c"
abbreviation "alpha c \<equiv> is_upper c \<or> is_lower c"
abbreviation "one_of s \<equiv> Cls (\<lambda>c. c \<in> set s)"

definition pii_patterns :: "(rx \<times> string) list" where
  "pii_patterns = (let d = digit; sep = one_of ''-.'' in [
     (rx_seq [Bound, plus1 (Cls (\<lambda>c. alnum c \<or> c \<in> set ''._%+-'')), lit ''@'',
        plus1 (Cls (\<lambda>c. alnum c \<or> c \<in> set ''.-'')), lit ''.'',
        Seq (rep 2 (Cls (\<lambda>c. alpha c))) (Star (Cls (\<lambda>c. alpha c))), Bound], ''***@***.***''),
     (rx_seq [Bound, rep 3 d, opt sep, rep 3 d, opt sep, rep 4 d, Bound], ''***-***-****''),
     (rx_seq [Bound, rep 3 d, lit ''-'', rep 2 d, lit ''-'', rep 4 d, Bound], ''***-**-****''),
     (rx_seq [Bound, rx_alts [
          rx_seq [lit ''4'', rep 12 d, opt (rep 3 d)],
          rx_seq [lit ''5'', one_of ''12345'', rep 14 d],
          rx_seq [lit ''3'', one_of ''47'', rep 13 d],
          rx_seq [lit ''6'', rx_alts [lit ''011'', Seq (lit ''5'') (rep 2 d)], rep 12 d]], Bound],
        ''****-****-****-****''),
     (rx_seq [Bound, rep 20 (Cls (\<lambda>c. alnum c)), Star (Cls (\<lambda>c. alnum c)), Bound], ''***'')])"

fun mask_pii :: "json \<Rightarrow> json" where
  "mask_pii (JStr s) = JStr (foldl (\<lambda>m (r, repl). re_sub r repl m) s pii_patterns)"
| "mask_pii (JDict d) = JDict (map (\<lambda>(k, v). (k, mask_pii v)) d)"
| "mask_pii (JList vs) = JList (map mask_pii vs)"
| "mask_pii (JOther s) = JOther s"

definition falsy :: "json option \<Rightarrow> bool" where
  "falsy v \<longleftrightarrow> (case v of None \<Rightarrow> True | Some (JStr s) \<Rightarrow> s = [] | Some (JDict d) \<Rightarrow> d = []
     | Some (JList vs) \<Rightarrow> vs = [] | Some (JOther s) \<Rightarrow> s \<in> {''0'', ''0.0'', ''false'', ''null''})"

definition masked :: "json option \<Rightarrow> json option" where
  "masked v = (if falsy v then None else map_option mask_pii v)"

subsection \<open>Rows, appending and verifying\<close>

record audit_row =
  al_id :: nat
  al_user :: string
  al_action :: string
  al_rtype :: "string option"
  al_rid :: "string option"
  al_details :: "json option"
  al_before :: "json option"
  al_after :: "json option"
  al_ip :: "string option"
  al_chain :: "string option"
  al_prev :: "string option"

record http_request =
  rq_client :: "string option"
  rq_forwarded :: "string option" \<comment> \<open>the header \<open>X-Forwarded-For\<close>\<close>

record audit_call =
  ca_user :: string
  ca_action :: string
  ca_rtype :: "string option"
  ca_rid :: "string option"
  ca_details :: "json option"
  ca_before :: "json option"
  ca_after :: "json option"
  ca_request :: "http_request option"

fun str_or :: "string option \<Rightarrow> string" where
  "str_or None = []"
| "str_or (Some s) = s"

definition request_ip :: "http_request option \<Rightarrow> string option" where
  "request_ip r = (case r of None \<Rightarrow> None
     | Some q \<Rightarrow> (case rq_forwarded q of
          Some (c # s) \<Rightarrow> Some (strip (takeWhile (\<lambda>x. x \<noteq> CHR '','') (c # s)))
        | _ \<Rightarrow> rq_client q))"

definition entry_data :: "string \<Rightarrow> string \<Rightarrow> string option \<Rightarrow> string option \<Rightarrow> string option \<Rightarrow> string" where
  "entry_data user act rtype rid ip =
     user @ ''|'' @ act @ ''|'' @ str_or rtype @ ''|'' @ str_or rid @ ''|'' @ str_or ip"

definition row_data :: "audit_row \<Rightarrow> string" where
  "row_data r = entry_data (al_user r) (al_action r) (al_rtype r) (al_rid r) (al_ip r)"

definition chain_hash_input :: "string option \<Rightarrow> string \<Rightarrow> string" where
  \<comment> \<open>\<open>if prev_hash\<close>: an empty hash counts as none\<close>
  "chain_hash_input prev data =
     (case prev of Some (c # s) \<Rightarrow> (c # s) @ ''||'' @ data | _ \<Rightarrow> ''GENESIS||'' @ data)"

definition chained :: "audit_row list \<Rightarrow> audit_row list" where
  \<comment> \<open>\<open>WHERE chain_hash IS NOT NULL ORDER BY id ASC\<close>\<close>
  "chained rows = filter (\<lambda>r. al_chain r \<noteq> None) rows"

definition get_last_chain_hash :: "bool \<Rightarrow> audit_row list \<Rightarrow> string option" where
  \<comment> \<open>the first argument: the database answers\<close>
  "get_last_chain_hash db_ok rows =
     (if db_ok \<and> chained rows \<noteq> [] then al_chain (last (chained rows)) else None)"

definition audit_row_for :: "(string \<Rightarrow> string) \<Rightarrow> nat \<Rightarrow> string option \<Rightarrow> audit_call \<Rightarrow> audit_row" where
  "audit_row_for mac i prev c =
     (let ip = request_ip (ca_request c)
      in \<lparr>al_id = i, al_user = ca_user c, al_action = ca_action c, al_rtype = ca_rtype c, al_rid = ca_rid c,
          al_details = masked (ca_details c), al_before = masked (ca_before c), al_after = masked (ca_after c),
          al_ip = ip,
          al_chain = Some (mac (chain_hash_input prev
             (entry_data (ca_user c) (ca_action c) (ca_rtype c) (ca_rid c) ip))),
          al_prev = prev\<rparr>)"

definition insert_row :: "(string \<Rightarrow> string) \<Rightarrow> string option \<Rightarrow> audit_call \<Rightarrow> audit_row list \<Rightarrow> audit_row list" where
  \<comment> \<open>the \<open>INSERT\<close>: the id is the next value of the sequence\<close>
  "insert_row mac prev c rows = rows @ [audit_row_for mac (Suc (length rows)) prev c]"

definition log_audit ::
  "(string \<Rightarrow> string) \<Rightarrow> bool \<Rightarrow> bool \<Rightarrow> audit_call \<Rightarrow> audit_row list \<Rightarrow> audit_row list" where
  \<comment> \<open>whether the read and the write of the database succeed; both failures are caught\<close>
  "log_audit mac read_ok write_ok c rows =
     (let prev = get_last_chain_hash read_ok rows
      in if write_ok then insert_row mac prev c rows else rows)"

record verify_report =
  vr_valid :: bool
  vr_total :: nat
  vr_broken_at :: "nat option"

fun first_broken :: "(string \<Rightarrow> string) \<Rightarrow> string option \<Rightarrow> audit_row list \<Rightarrow> nat option" where
  "first_broken mac prev [] = None"
| "first_broken mac prev (r # rs) =
     (if Some (mac (chain_hash_input prev (row_data r))) \<noteq> al_chain r then Some (al_id r)
      else first_broken mac (al_chain r) rs)"

definition verify_audit_chain :: "(string \<Rightarrow> string) \<Rightarrow> audit_row list \<Rightarrow> verify_report" where
  "verify_audit_chain mac rows =
     (let b = first_broken mac None (chained rows)
      in \<lparr>vr_valid = (b = None), vr_total = length (chained rows), vr_broken_at = b\<rparr>)"

subsection \<open>The chain as a hash-linked log\<close>

interpretation mac_log: hash_linked
  "\<lambda>p r. mac (chain_hash_input p (row_data r))" "\<lambda>r. the (al_chain r)"
  "\<lambda>p (i, c). audit_row_for mac i p c" for mac :: "string \<Rightarrow> string"
  by unfold_locales (auto simp: audit_row_for_def row_data_def Let_def)

lemma first_broken_None:
  assumes "\<forall>r \<in> set rs. al_chain r \<noteq> None"
  shows "first_broken mac p rs = None \<longleftrightarrow> mac_log.intact mac p rs"
  using assms by (induction rs arbitrary: p) auto

lemma chained_all: "\<forall>r \<in> set (chained rows). al_chain r \<noteq> None"
  by (simp add: chained_def)

lemma verify_valid: "vr_valid (verify_audit_chain mac rows) \<longleftrightarrow> mac_log.intact mac None (chained rows)"
  by (simp add: verify_audit_chain_def Let_def first_broken_None [OF chained_all])

lemma last_chain_hash: "get_last_chain_hash True rows = mac_log.last_hash None (chained rows)"
proof (cases "chained rows = []")
  case False
  then have "al_chain (last (chained rows)) \<noteq> None" using chained_all last_in_set by blast
  with False show ?thesis by (auto simp: get_last_chain_hash_def mac_log.last_hash_def)
qed (simp add: get_last_chain_hash_def)

lemma chained_insert: "chained (insert_row mac p c rows) = chained rows @ [audit_row_for mac (Suc (length rows)) p c]"
  by (simp add: insert_row_def chained_def audit_row_for_def Let_def)

lemma log_audit_step:
  "vr_valid (verify_audit_chain mac rows) \<Longrightarrow> vr_valid (verify_audit_chain mac (log_audit mac True w c rows))"
  using mac_log.intact_build [of mac None "chained rows" "(Suc (length rows), c)"]
  by (simp add: verify_valid log_audit_def Let_def chained_insert last_chain_hash)

interpretation audit_run: run_invariant
  "\<lambda>rows (r, w, c). log_audit mac r w c rows" "\<lambda>rows (r, w, c). r \<and> True"
  "\<lambda>rows. vr_valid (verify_audit_chain mac rows)" for mac :: "string \<Rightarrow> string"
  by unfold_locales (auto intro: log_audit_step)

text \<open>
  C1: Starting from an audit log whose chain verifies (the empty one does), any sequence of
  logged events leaves a chain that verifies, whichever of the writes fail, as long as every
  read of the last hash succeeds.
\<close>
theorem log_audit_keeps_valid:
  assumes "vr_valid (verify_audit_chain mac rows)" "\<forall>(r, w, c) \<in> set calls. r"
  shows "vr_valid (verify_audit_chain mac (foldl (\<lambda>rows (r, w, c). log_audit mac r w c rows) rows calls))"
  using assms by (intro audit_run.run_inv_always) (auto split: prod.splits)

lemma first_broken_append:
  "first_broken mac p (rs @ [r]) = (case first_broken mac p rs of
     Some i \<Rightarrow> Some i
   | None \<Rightarrow> if Some (mac (chain_hash_input (if rs = [] then p else al_chain (last rs)) (row_data r))) = al_chain r
             then None else Some (al_id r))"
  by (induction rs arbitrary: p) auto

lemma broken_stays:
  assumes "vr_broken_at (verify_audit_chain mac rows) = Some i"
  shows "vr_broken_at (verify_audit_chain mac (foldl (\<lambda>rows (r, w, c). log_audit mac r w c rows) rows later)) = Some i"
  using assms
proof (induction later arbitrary: rows)
  case (Cons e later)
  obtain r w c where e: "e = (r, w, c)" by (cases e)
  have "vr_broken_at (verify_audit_chain mac (log_audit mac r w c rows)) = Some i"
    using Cons.prems
    by (simp add: verify_audit_chain_def log_audit_def Let_def chained_insert first_broken_append)
  from Cons.IH [OF this] show ?case by (simp add: e)
qed simp

lemma stale_link_breaks:
  assumes "vr_valid (verify_audit_chain mac rows)"
    and "mac (chain_hash_input p d) \<noteq> mac (chain_hash_input (get_last_chain_hash True rows) d)"
    and "d = entry_data (ca_user c) (ca_action c) (ca_rtype c) (ca_rid c) (request_ip (ca_request c))"
  shows "vr_broken_at (verify_audit_chain mac (insert_row mac p c rows)) = Some (Suc (length rows))"
proof -
  let ?r = "audit_row_for mac (Suc (length rows)) p c"
  have ok: "first_broken mac None (chained rows) = None"
    using assms(1) by (simp add: verify_audit_chain_def Let_def)
  have prev: "(if chained rows = [] then None else al_chain (last (chained rows))) = get_last_chain_hash True rows"
    by (simp add: get_last_chain_hash_def)
  have r: "row_data ?r = d" "al_chain ?r = Some (mac (chain_hash_input p d))" "al_id ?r = Suc (length rows)"
    by (simp_all add: audit_row_for_def row_data_def Let_def assms(3))
  have "first_broken mac None (chained rows @ [?r]) = Some (Suc (length rows))"
    unfolding first_broken_append ok prev r using assms(2) by simp
  then show ?thesis by (simp add: verify_audit_chain_def Let_def chained_insert)
qed

text \<open>
  C40: Two events logged at the same time break the chain for good. Both calls read the last
  hash before either inserts; the rows are then linked to the same predecessor, and
  verification reports tampering at the second one, whatever is logged later, provided the
  digests of that row's data behind the two predecessors differ.
\<close>
theorem concurrent_log_breaks_chain:
  assumes "vr_valid (verify_audit_chain mac rows)"
    and "prev = get_last_chain_hash True rows"
    and "d = entry_data (ca_user c2) (ca_action c2) (ca_rtype c2) (ca_rid c2) (request_ip (ca_request c2))"
    and "mac (chain_hash_input prev d) \<noteq>
      mac (chain_hash_input (get_last_chain_hash True (insert_row mac prev c1 rows)) d)"
  shows "vr_broken_at (verify_audit_chain mac
      (foldl (\<lambda>rows (r, w, c). log_audit mac r w c rows)
        (insert_row mac prev c2 (insert_row mac prev c1 rows)) later)) = Some (length rows + 2)"
proof -
  have "vr_valid (verify_audit_chain mac (insert_row mac prev c1 rows))"
    using log_audit_step [OF assms(1), of True c1] assms(2) by (simp add: log_audit_def Let_def)
  from broken_stays [OF stale_link_breaks [OF this assms(4,3)]] show ?thesis
    by (simp add: insert_row_def)
qed

text \<open>
  A failed read of the last hash has the same effect: the exception is caught, the new row
  is hashed as if it were the first one, and from then on verification reports tampering there.
\<close>
theorem failed_read_breaks_chain:
  assumes "vr_valid (verify_audit_chain mac rows)"
    and "d = entry_data (ca_user c) (ca_action c) (ca_rtype c) (ca_rid c) (request_ip (ca_request c))"
    and "mac (chain_hash_input None d) \<noteq> mac (chain_hash_input (get_last_chain_hash True rows) d)"
  shows "vr_broken_at (verify_audit_chain mac
      (foldl (\<lambda>rows (r, w, c). log_audit mac r w c rows) (log_audit mac False True c rows) later)) =
    Some (Suc (length rows))"
  using broken_stays [OF stale_link_breaks [OF assms(1,3,2)]]
  by (simp add: log_audit_def Let_def get_last_chain_hash_def)

definition sample_call :: audit_call where
  "sample_call = \<lparr>ca_user = ''a@b.ca'', ca_action = ''login'', ca_rtype = None, ca_rid = None,
     ca_details = None, ca_before = None, ca_after = None, ca_request = None\<rparr>"

lemma log_audit_keeps_valid_witness:
  "vr_valid (verify_audit_chain rev
     (foldl (\<lambda>rows (r, w, c). log_audit rev r w c rows) []
       [(True, True, sample_call), (True, False, sample_call), (True, True, sample_call)]))"
  by (rule log_audit_keeps_valid) (simp_all add: verify_audit_chain_def chained_def)

lemma concurrent_log_breaks_chain_witness:
  "vr_broken_at (verify_audit_chain rev
     (insert_row rev None sample_call (insert_row rev None sample_call []))) = Some 2"
  using concurrent_log_breaks_chain [of rev "[]" None _ sample_call sample_call "[]"]
  by (simp add: verify_audit_chain_def chained_def get_last_chain_hash_def insert_row_def audit_row_for_def
      entry_data_def chain_hash_input_def sample_call_def request_ip_def Let_def)

lemma failed_read_breaks_chain_witness:
  "vr_broken_at (verify_audit_chain rev
     (log_audit rev False True sample_call (log_audit rev True True sample_call []))) = Some 2"
proof -
  let ?rows = "log_audit rev True True sample_call []"
  have "vr_valid (verify_audit_chain rev ?rows)"
    by (rule log_audit_step) (simp add: verify_audit_chain_def chained_def)
  from failed_read_breaks_chain [OF this refl, of sample_call "[]"] show ?thesis
    by (simp add: chained_def get_last_chain_hash_def insert_row_def audit_row_for_def log_audit_def
      entry_data_def chain_hash_input_def sample_call_def request_ip_def Let_def)
qed

text \<open>
  The HMAC covers the user, action, resource and address of an entry but not what changed:
  rewriting the details and the before and after states of every row of the log leaves the
  outcome of verification as it was.
\<close>
theorem details_not_covered:
  "verify_audit_chain mac (map (\<lambda>r. r\<lparr>al_details := f r, al_before := g r, al_after := h r\<rparr>) rows) =
   verify_audit_chain mac rows"
proof -
  let ?e = "\<lambda>r. r\<lparr>al_details := f r, al_before := g r, al_after := h r\<rparr>"
  have "first_broken mac p (map ?e rs) = first_broken mac p rs" for p rs
    by (induction rs arbitrary: p) (simp_all add: row_data_def)
  moreover have "chained (map ?e rows) = map ?e (chained rows)"
    by (induction rows) (simp_all add: chained_def)
  ultimately show ?thesis by (simp add: verify_audit_chain_def Let_def)
qed

lemma hex_not_genesis:
  assumes "set h \<subseteq> set ''0123456789abcdef''" "h \<noteq> []"
  shows "chain_hash_input (Some h) d \<noteq> chain_hash_input None e"
  using assms by (cases h) (auto simp: chain_hash_input_def)

lemma chain_hash_input_inj:
  assumes "chain_hash_input p d = chain_hash_input q e"
    and "\<And>h. p = Some h \<or> q = Some h \<Longrightarrow> length h = 64 \<and> set h \<subseteq> set ''0123456789abcdef''"
  shows "p = q \<and> d = e"
proof (cases p)
  case None
  with assms hex_not_genesis [of "the q" e d] show ?thesis
    by (cases q) (fastforce simp: chain_hash_input_def)+
next
  case (Some h)
  show ?thesis
  proof (cases q)
    case None
    with Some assms hex_not_genesis [of h d e] show ?thesis by fastforce
  next
    case (Some h')
    from assms(2) [of h] assms(2) [of h'] Some \<open>p = Some h\<close> have l: "length h = 64" "length h' = 64" by simp_all
    then obtain c s c' s' where "h = c # s" "h' = c' # s'" by (cases h; cases h') auto
    with assms(1) Some \<open>p = Some h\<close> l show ?thesis by (auto simp: chain_hash_input_def)
  qed
qed

lemma chain_pins_data:
  assumes "vr_valid (verify_audit_chain mac rows)" "vr_valid (verify_audit_chain mac rows')"
    and "get_last_chain_hash True rows = get_last_chain_hash True rows'"
    and "\<forall>x. length (mac x) = 64 \<and> set (mac x) \<subseteq> set ''0123456789abcdef''"
    and "inj_on mac ((\<lambda>(p, r). chain_hash_input p (row_data r)) `
      (set (mac_log.links None (chained rows)) \<union> set (mac_log.links None (chained rows'))))"
  shows "map row_data (chained rows) = map row_data (chained rows')"
proof (rule mac_log.last_hash_determines [of mac])
  show "mac_log.intact mac None (chained rows)" "mac_log.intact mac None (chained rows')"
    using assms(1,2) by (simp_all add: verify_valid)
  show "mac_log.last_hash None (chained rows) = mac_log.last_hash None (chained rows')"
    using assms(3) by (simp add: last_chain_hash)
  have hex: "length h = 64 \<and> set h \<subseteq> set ''0123456789abcdef''"
    if "(Some h, e) \<in> set (mac_log.links None rs)" "mac_log.intact mac None rs" for h e rs
  proof -
    have "(Some h, e) \<in> set (mac_log.links p rs) \<Longrightarrow> mac_log.intact mac p rs \<Longrightarrow>
        p = Some h \<or> (\<exists>x. h = mac x)" for p
    proof (induction rs arbitrary: p)
      case (Cons r rs)
      then consider "p = Some h" | "(Some h, e) \<in> set (mac_log.links (Some (the (al_chain r))) rs)" by auto
      then show ?case
      proof cases
        case 2
        with Cons.IH [OF 2] Cons.prems(2) show ?thesis by auto
      qed simp
    qed simp
    with that assms(4) show ?thesis by blast
  qed
  show "p = q \<and> row_data e = row_data f"
    if "(p, e) \<in> set (mac_log.links None (chained rows))" "(q, f) \<in> set (mac_log.links None (chained rows'))"
      "mac (chain_hash_input p (row_data e)) = mac (chain_hash_input q (row_data f))" for p e q f
  proof (rule chain_hash_input_inj)
    show "chain_hash_input p (row_data e) = chain_hash_input q (row_data f)"
      by (rule inj_onD [OF assms(5) that(3)]) (use that in force)+
    show "length h = 64 \<and> set h \<subseteq> set ''0123456789abcdef''" if "p = Some h \<or> q = Some h" for h
      using that
    proof
      assume "p = Some h"
      with \<open>(p, e) \<in> _\<close> assms(1) show ?thesis by (intro hex) (simp_all only: verify_valid)
    next
      assume "q = Some h"
      with \<open>(q, f) \<in> _\<close> assms(2) show ?thesis by (intro hex) (simp_all only: verify_valid)
    qed
  qed
qed

text \<open>
  The hashed text joins the fields with a bar, so it determines them only when the fields
  before the last one contain none; a missing field and an empty one are joined alike.
\<close>

definition covered_fields :: "audit_row \<Rightarrow> string \<times> string \<times> string \<times> string \<times> string" where
  "covered_fields r = (al_user r, al_action r, str_or (al_rtype r), str_or (al_rid r), str_or (al_ip r))"

definition no_bar :: "audit_row \<Rightarrow> bool" where
  "no_bar r \<longleftrightarrow> CHR ''|'' \<notin> set (al_user r) \<union> set (al_action r) \<union> set (str_or (al_rtype r)) \<union> set (str_or (al_rid r))"

lemma row_data_inj:
  assumes "no_bar r" "no_bar s" "row_data r = row_data s"
  shows "covered_fields r = covered_fields s"
  using assms by (auto simp: no_bar_def row_data_def entry_data_def covered_fields_def separator_inj)

text \<open>
  Where the user holds a bar, another split of the same text into user and action gives the same
  hash: rewriting such a row leaves the report of the verification as it was.
\<close>
theorem shifted_fields_undetected:
  assumes "al_user r = u @ ''|'' @ a"
  shows "verify_audit_chain mac (rows @ r\<lparr>al_user := u, al_action := a @ ''|'' @ al_action r\<rparr> # rows') =
    verify_audit_chain mac (rows @ r # rows')"
proof -
  let ?r = "r\<lparr>al_user := u, al_action := a @ ''|'' @ al_action r\<rparr>"
  have "row_data ?r = row_data r" using assms by (simp add: row_data_def entry_data_def)
  then have "first_broken mac p (xs @ ?r # ys) = first_broken mac p (xs @ r # ys)" for p xs ys
    by (induction xs arbitrary: p) simp_all
  then show ?thesis by (simp add: verify_audit_chain_def chained_def Let_def)
qed

text \<open>
  C2: The last hash of a chain that verifies pins down the whole history of the covered fields:
  two logs that verify and end in the same chain hash have the same user, action, resource
  type, resource id and address in every entry, if no user, action, type or id contains the
  separator, the digests are 64 hexadecimal digits, and no two of the finitely many inputs
  hashed for the two logs collide. (A missing type, id or address counts as an empty one.)
\<close>
theorem chain_pins_history:
  assumes "vr_valid (verify_audit_chain mac rows)" "vr_valid (verify_audit_chain mac rows')"
    and "get_last_chain_hash True rows = get_last_chain_hash True rows'"
    and "\<forall>x. length (mac x) = 64 \<and> set (mac x) \<subseteq> set ''0123456789abcdef''"
    and "inj_on mac ((\<lambda>(p, r). chain_hash_input p (row_data r)) `
      (set (mac_log.links None (chained rows)) \<union> set (mac_log.links None (chained rows'))))"
    and "\<forall>r \<in> set (chained rows) \<union> set (chained rows'). no_bar r"
  shows "map covered_fields (chained rows) = map covered_fields (chained rows')"
proof -
  have data: "map row_data (chained rows) = map row_data (chained rows')"
    using assms(1-5) by (rule chain_pins_data)
  have "map covered_fields rs = map covered_fields ss"
    if "map row_data rs = map row_data ss" "\<forall>r \<in> set rs \<union> set ss. no_bar r" for rs ss
    using that
  proof (induction rs arbitrary: ss)
    case (Cons r rs)
    then obtain t ts where "ss = t # ts" by auto
    with Cons row_data_inj [of r t] show ?case by auto
  qed simp
  from this [OF data assms(6)] show ?thesis .
qed

definition sample_digest :: "string \<Rightarrow> string" where
  "sample_digest x = replicate 64 (if substr ''GENESIS'' x then CHR ''0'' else CHR ''1'')"

lemma sample_log:
  "chained (log_audit mac True True c []) = [audit_row_for mac 1 None c]"
  by (simp add: log_audit_def Let_def insert_row_def chained_def audit_row_for_def get_last_chain_hash_def)

lemma chain_pins_history_witness:
  "let rows = log_audit sample_digest True True sample_call [];
       rows' = log_audit sample_digest True True (sample_call\<lparr>ca_details := Some (JStr ''x'')\<rparr>) []
   in map covered_fields (chained rows) = map covered_fields (chained rows')"
  unfolding Let_def
proof (rule chain_pins_history [where mac = sample_digest])
  let ?c = "sample_call\<lparr>ca_details := Some (JStr ''x'')\<rparr>"
  have ok: "vr_valid (verify_audit_chain sample_digest (log_audit sample_digest True True c []))" for c
    by (rule log_audit_step) (simp add: verify_audit_chain_def chained_def)
  show "vr_valid (verify_audit_chain sample_digest (log_audit sample_digest True True sample_call []))" by (rule ok)
  show "vr_valid (verify_audit_chain sample_digest (log_audit sample_digest True True ?c []))" by (rule ok)
  show "\<forall>x. length (sample_digest x) = 64 \<and> set (sample_digest x) \<subseteq> set ''0123456789abcdef''"
    by (simp add: sample_digest_def)
  show "get_last_chain_hash True (log_audit sample_digest True True sample_call []) =
      get_last_chain_hash True (log_audit sample_digest True True ?c [])"
    by (simp add: get_last_chain_hash_def sample_log audit_row_for_def sample_call_def Let_def)
  show "inj_on sample_digest ((\<lambda>(p, r). chain_hash_input p (row_data r)) `
      (set (mac_log.links None (chained (log_audit sample_digest True True sample_call []))) \<union>
       set (mac_log.links None (chained (log_audit sample_digest True True ?c [])))))"
    by (simp add: sample_log row_data_def audit_row_for_def sample_call_def Let_def)
  show "\<forall>r \<in> set (chained (log_audit sample_digest True True sample_call [])) \<union>
      set (chained (log_audit sample_digest True True ?c [])). no_bar r"
    by (simp add: sample_log no_bar_def audit_row_for_def sample_call_def Let_def)
qed

section \<open>audit_chain.py: the SHA-256 chain of the audit_chain table\<close>

text \<open>
  A JSON argument is its text (\<open>json.dumps\<close>), \<open>None\<close> when the value is falsy. What PostgreSQL
  and its driver return for a JSONB or timestamp column, formatted again, is the parameter
  \<open>reread\<close>.
\<close>

record chain_entry =
  ce_id :: nat
  ce_prev :: string
  ce_hash :: string
  ce_user :: "string option"
  ce_action :: string
  ce_rtype :: "string option"
  ce_rid :: "string option"
  ce_details :: "string option"
  ce_before :: "string option"
  ce_after :: "string option"
  ce_ip :: "string option"
  ce_corr :: "string option"
  ce_time :: string

fun join :: "string \<Rightarrow> string list \<Rightarrow> string" where
  \<comment> \<open>\<open>sep.join(xs)\<close>\<close>
  "join sep [] = []"
| "join sep [x] = x"
| "join sep (x # xs) = x @ sep @ join sep xs"

definition compute_entry_hash :: "(string \<Rightarrow> string) \<Rightarrow> string \<Rightarrow> chain_entry \<Rightarrow> string" where
  \<comment> \<open>\<open>_compute_entry_hash\<close> on the fields of an entry and the given previous hash\<close>
  "compute_entry_hash sha prev e =
     sha (join ''|'' [prev, str_or (ce_user e), ce_action e, str_or (ce_rtype e), str_or (ce_rid e),
       str_or (ce_details e), str_or (ce_before e), str_or (ce_after e), str_or (ce_ip e),
       str_or (ce_corr e), ce_time e])"

definition genesis_hash :: "(string \<Rightarrow> string) \<Rightarrow> string" where
  "genesis_hash sha = sha ''POLARISGATE_AUDIT_GENESIS_2024''"

definition get_last_audit_hash :: "(string \<Rightarrow> string) \<Rightarrow> chain_entry list \<Rightarrow> string" where
  \<comment> \<open>\<open>ORDER BY id DESC LIMIT 1\<close>; \<open>if row\<close> takes an empty hash for none\<close>
  "get_last_audit_hash sha es =
     (if es \<noteq> [] \<and> ce_hash (last es) \<noteq> [] then ce_hash (last es) else genesis_hash sha)"

definition append_audit_entry :: "(string \<Rightarrow> string) \<Rightarrow> chain_entry \<Rightarrow> chain_entry list \<Rightarrow> chain_entry list" where
  \<comment> \<open>the argument carries the fields of the call and the time; its id and hashes are filled in\<close>
  "append_audit_entry sha c es =
     (let prev = get_last_audit_hash sha es
      in es @ [c\<lparr>ce_id := Suc (length es), ce_prev := prev, ce_hash := compute_entry_hash sha prev c\<rparr>])"

definition reread_entry :: "(string \<Rightarrow> string) \<Rightarrow> chain_entry \<Rightarrow> chain_entry" where
  \<comment> \<open>the fields as \<open>verify_audit_chain\<close> formats them from the row\<close>
  "reread_entry reread e = e\<lparr>ce_details := map_option reread (ce_details e),
     ce_before := map_option reread (ce_before e), ce_after := map_option reread (ce_after e),
     ce_time := reread (ce_time e)\<rparr>"

lemma reread_entry_iff:
  "reread_entry r e = e \<longleftrightarrow> map_option r (ce_details e) = ce_details e \<and>
     map_option r (ce_before e) = ce_before e \<and> map_option r (ce_after e) = ce_after e \<and>
     r (ce_time e) = ce_time e"
  by (cases e) (auto simp: reread_entry_def)

fun broken_links :: "(string \<Rightarrow> string) \<Rightarrow> (string \<Rightarrow> string) \<Rightarrow> string \<Rightarrow> chain_entry list \<Rightarrow>
    (nat \<times> string \<times> string) list" where
  "broken_links sha reread expected [] = []"
| "broken_links sha reread expected (e # es) =
     (let h = compute_entry_hash sha expected (reread_entry reread e)
      in (if h \<noteq> ce_hash e then [(ce_id e, h, ce_hash e)] else []) @
         broken_links sha reread (ce_hash e) es)"

record chain_report =
  cr_valid :: bool
  cr_total :: nat
  cr_broken :: "(nat \<times> string \<times> string) list"
  cr_first :: "nat option"
  cr_last :: "nat option"

definition verify_chain_table :: "(string \<Rightarrow> string) \<Rightarrow> (string \<Rightarrow> string) \<Rightarrow> chain_entry list \<Rightarrow> chain_report" where
  "verify_chain_table sha reread es =
     (if es = [] then \<lparr>cr_valid = True, cr_total = 0, cr_broken = [], cr_first = None, cr_last = None\<rparr>
      else let b = broken_links sha reread (genesis_hash sha) es
           in \<lparr>cr_valid = (b = []), cr_total = length es, cr_broken = b,
               cr_first = Some (ce_id (hd es)), cr_last = Some (ce_id (last es))\<rparr>)"

definition prev_of :: "(string \<Rightarrow> string) \<Rightarrow> string option \<Rightarrow> string" where
  "prev_of sha p = (case p of None \<Rightarrow> genesis_hash sha | Some h \<Rightarrow> if h = [] then genesis_hash sha else h)"

interpretation sha_log: hash_linked
  "\<lambda>p e. compute_entry_hash sha (prev_of sha p) e" ce_hash
  "\<lambda>p (i, c). c\<lparr>ce_id := i, ce_prev := prev_of sha p, ce_hash := compute_entry_hash sha (prev_of sha p) c\<rparr>"
  for sha :: "string \<Rightarrow> string"
  by unfold_locales (auto simp: compute_entry_hash_def)

lemma append_is_build:
  "append_audit_entry sha c es = es @ [(\<lambda>p (i, c). c\<lparr>ce_id := i, ce_prev := prev_of sha p,
     ce_hash := compute_entry_hash sha (prev_of sha p) c\<rparr>) (sha_log.last_hash None es) (Suc (length es), c)]"
  by (auto simp: append_audit_entry_def get_last_audit_hash_def sha_log.last_hash_def prev_of_def Let_def)

lemma broken_links_intact:
  assumes "\<forall>e \<in> set es. reread_entry reread e = e" "\<forall>x. sha x \<noteq> []" "prev_of sha p = q"
  shows "broken_links sha reread q es = [] \<longleftrightarrow> sha_log.intact sha p es"
  using assms
proof (induction es arbitrary: p q)
  case (Cons e es)
  show ?case
  proof (cases "ce_hash e = []")
    case True
    have "compute_entry_hash sha x y \<noteq> []" "[] \<noteq> compute_entry_hash sha x y" for x y
      using Cons.prems(2) by (metis compute_entry_hash_def)+
    with True show ?thesis by (auto simp: Let_def)
  next
    case False
    then have "prev_of sha (Some (ce_hash e)) = ce_hash e" by (simp add: prev_of_def)
    with Cons.IH [OF _ _ this] Cons.prems show ?thesis by (auto simp: Let_def)
  qed
qed simp

lemma verify_table_intact:
  assumes "\<forall>e \<in> set es. reread_entry reread e = e" "\<forall>x. sha x \<noteq> []"
  shows "cr_valid (verify_chain_table sha reread es) \<longleftrightarrow> sha_log.intact sha None es"
  using broken_links_intact [OF assms, of None "genesis_hash sha"]
  by (auto simp: verify_chain_table_def Let_def prev_of_def)

text \<open>
  Entries appended to the table verify: if every text stored in a JSONB or timestamp column
  is read back as the text that was hashed, and digests are not empty, then any sequence of
  appends to a table that verifies leaves one that verifies.
\<close>
theorem appended_entries_verify:
  assumes "\<forall>x. sha x \<noteq> []" "\<forall>e \<in> set es \<union> set cs. reread_entry reread e = e"
    and "cr_valid (verify_chain_table sha reread es)"
  shows "cr_valid (verify_chain_table sha reread (foldl (\<lambda>es c. append_audit_entry sha c es) es cs))"
  using assms(2,3)
proof (induction cs arbitrary: es)
  case (Cons c cs)
  let ?es = "append_audit_entry sha c es"
  have re: "\<forall>e \<in> set ?es. reread_entry reread e = e"
    using Cons.prems(1) unfolding reread_entry_iff by (auto simp: append_audit_entry_def Let_def)
  have "sha_log.intact sha None es" using verify_table_intact [OF _ assms(1)] Cons.prems by auto
  then have "sha_log.intact sha None ?es" unfolding append_is_build
    using sha_log.intact_build [of sha None es "(Suc (length es), c)"] by blast
  with verify_table_intact [OF re assms(1)] have "cr_valid (verify_chain_table sha reread ?es)" by simp
  moreover from re Cons.prems(1) have "\<forall>e \<in> set ?es \<union> set cs. reread_entry reread e = e" by auto
  ultimately have "cr_valid (verify_chain_table sha reread (foldl (\<lambda>es c. append_audit_entry sha c es) ?es cs))"
    by (intro Cons.IH)
  then show ?case by simp
qed simp

definition sample_entry :: chain_entry where
  "sample_entry = \<lparr>ce_id = 0, ce_prev = [], ce_hash = [], ce_user = Some ''u'', ce_action = ''a'', ce_rtype = None,
     ce_rid = None, ce_details = Some ''{}'', ce_before = None, ce_after = None, ce_ip = None, ce_corr = None,
     ce_time = ''2026-01-01''\<rparr>"

lemma appended_entries_verify_witness:
  "cr_valid (verify_chain_table (Cons CHR ''h'') (\<lambda>t. t)
     (foldl (\<lambda>es c. append_audit_entry (Cons CHR ''h'') c es) [] [sample_entry, sample_entry]))"
  by (rule appended_entries_verify) (simp_all add: verify_chain_table_def reread_entry_def option.map_ident)

text \<open>
  The joined payload does not separate the fields: rewriting an entry of the user
  \<open>u|a\<close> with the action \<open>b\<close> into one of the user \<open>u\<close> with the action \<open>a|b\<close>, anywhere in
  the table, changes nothing in the report of the verification, whatever the digest function is.
\<close>
theorem field_shift_undetected:
  assumes "ce_user e = Some (u @ ''|'' @ a)" "ce_action e = b"
  shows "verify_chain_table sha reread (es @ e\<lparr>ce_user := Some u, ce_action := a @ ''|'' @ b\<rparr> # fs) =
    verify_chain_table sha reread (es @ e # fs)"
proof -
  let ?e = "e\<lparr>ce_user := Some u, ce_action := a @ ''|'' @ b\<rparr>"
  have h: "compute_entry_hash sha p (reread_entry reread ?e) = compute_entry_hash sha p (reread_entry reread e)" for p
    using assms by (simp add: compute_entry_hash_def reread_entry_def)
  have "broken_links sha reread p (?e # fs) = broken_links sha reread p (e # fs)" for p
    unfolding broken_links.simps h Let_def by simp
  then have "broken_links sha reread p (es @ ?e # fs) = broken_links sha reread p (es @ e # fs)" for p
    by (induction es arbitrary: p) (simp_all only: append_Nil append_Cons broken_links.simps Let_def)
  then show ?thesis by (cases es) (simp_all add: verify_chain_table_def Let_def)
qed

lemma field_shift_undetected_witness:
  "verify_chain_table (\<lambda>x. x) (\<lambda>t. t) [sample_entry\<lparr>ce_user := Some ''root'', ce_action := ''x|drop''\<rparr>] =
   verify_chain_table (\<lambda>x. x) (\<lambda>t. t) [sample_entry\<lparr>ce_user := Some ''root|x'', ce_action := ''drop''\<rparr>]"
  using field_shift_undetected [of "sample_entry\<lparr>ce_user := Some ''root|x'', ce_action := ''drop''\<rparr>"
      "''root''" "''x''" "''drop''" _ _ "[]" "[]"] by simp

section \<open>security/audit.py: the file-backed chain of security events\<close>

text \<open>
  The chain is a list of references to event objects, which \<open>append\<close> mutates: the store maps a
  reference to the fields of its object. \<open>digest\<close> is SHA-256 over the sorted JSON of all fields
  but \<open>hash\<close>, \<open>None\<close> where \<open>json.dumps\<close> raises (the keys of the details cannot be sorted). A
  file is its name and its lines. Each call carries the date and the time stamp the code reads
  from the clock and how each file operation ends.
\<close>

record audit_event =
  ev_id :: string
  ev_timestamp :: string
  ev_service :: string
  ev_action :: string
  ev_actor :: string
  ev_rtype :: string
  ev_rid :: "string option"
  ev_status :: string
  ev_details :: "json option"
  ev_corr :: "string option"
  ev_ip :: "string option"
  ev_agent :: "string option"
  ev_prev :: "string option"
  ev_hash :: "string option"
  ev_class :: string

definition compute_hash :: "(audit_event \<Rightarrow> string option) \<Rightarrow> audit_event \<Rightarrow> string option" where
  "compute_hash digest e = digest (e\<lparr>ev_hash := None\<rparr>)"

definition verify_integrity :: "(audit_event \<Rightarrow> string option) \<Rightarrow> audit_event \<Rightarrow> bool option" where
  \<comment> \<open>\<open>None\<close>: the digest raises\<close>
  "verify_integrity digest e =
     (case ev_hash e of None \<Rightarrow> Some False
      | Some h \<Rightarrow> if h = [] then Some False else map_option (\<lambda>d. h = d) (compute_hash digest e))"

datatype audit_line =
    Line audit_event
  | Torn \<comment> \<open>the piece a failing write left, without a line end\<close>
  | Garbled \<comment> \<open>a complete line that is no JSON\<close>

datatype audit_write =
    Complete
  | Not_opened
  | Cut nat bool \<comment> \<open>the write ends after so many lines, with or without a piece of the next\<close>

fun written_lines :: "audit_write \<Rightarrow> audit_event list \<Rightarrow> audit_line list" where
  "written_lines Complete es = map Line es"
| "written_lines Not_opened es = []"
| "written_lines (Cut k torn) es = map Line (take k es) @ (if torn \<and> k < length es then [Torn] else [])"

definition add_lines :: "audit_line list \<Rightarrow> audit_line list \<Rightarrow> audit_line list" where
  \<comment> \<open>mode \<open>a\<close>: the first new line continues a torn one\<close>
  "add_lines old new =
     (if old \<noteq> [] \<and> last old = Torn \<and> new \<noteq> []
      then butlast old @ (if hd new = Torn then Torn else Garbled) # tl new else old @ new)"

record audit_chain =
  ac_store :: "nat \<Rightarrow> audit_event"
  ac_next :: nat \<comment> \<open>the next reference\<close>
  ac_chain :: "nat list"
  ac_files :: "(string, audit_line list) pydict"
  ac_max :: nat

definition new_audit_chain :: "(nat \<Rightarrow> audit_event) \<Rightarrow> nat \<Rightarrow> (string, audit_line list) pydict \<Rightarrow> audit_chain" where
  \<comment> \<open>a new object on the directory the earlier ones left\<close>
  "new_audit_chain st n files =
     \<lparr>ac_store = st, ac_next = n, ac_chain = [], ac_files = files, ac_max = 10000\<rparr>"

definition load_last_hash :: "(string, audit_line list) pydict \<Rightarrow> string option" where
  \<comment> \<open>the last line of the file whose name sorts last; a line that is no JSON raises, which is caught\<close>
  "load_last_hash files =
     (if files = [] then None
      else case dict_get files (last (sort (map fst files))) of
        Some (l # ls) \<Rightarrow> (case last (l # ls) of Line e \<Rightarrow> ev_hash e | _ \<Rightarrow> None)
      | _ \<Rightarrow> None)"

record file_env =
  fe_date :: string \<comment> \<open>\<open>%Y-%m-%d\<close>\<close>
  fe_stamp :: string \<comment> \<open>\<open>%Y%m%d_%H%M%S\<close>\<close>
  fe_read :: bool
  fe_persist :: audit_write
  fe_archive :: audit_write

definition persist_event :: "file_env \<Rightarrow> nat \<Rightarrow> audit_chain \<Rightarrow> audit_chain" where
  "persist_event fe r c =
     (let name = fe_date fe @ ''_audit.jsonl''
      in if fe_persist fe = Not_opened then c
         else c\<lparr>ac_files := dict_set name
             (add_lines (dict_get_or (ac_files c) name []) (written_lines (fe_persist fe) [ac_store c r])) (ac_files c)\<rparr>)"

definition rotate :: "file_env \<Rightarrow> audit_chain \<Rightarrow> audit_chain" where
  \<comment> \<open>mode \<open>w\<close>: an archive of that name is replaced; only a complete one clears the chain\<close>
  "rotate fe c =
     (let c1 = (if fe_archive fe = Not_opened then c
                else c\<lparr>ac_files := dict_set (''audit_archive_'' @ fe_stamp fe @ ''.jsonl'')
                    (written_lines (fe_archive fe) (map (ac_store c) (ac_chain c))) (ac_files c)\<rparr>)
      in if fe_archive fe = Complete then c1\<lparr>ac_chain := []\<rparr> else c1)"

definition put_event :: "nat \<Rightarrow> audit_event \<Rightarrow> audit_chain \<Rightarrow> audit_chain" where
  "put_event r e c = c\<lparr>ac_store := (ac_store c)(r := e)\<rparr>"

definition append_event ::
  "(audit_event \<Rightarrow> string option) \<Rightarrow> file_env \<Rightarrow> nat \<Rightarrow> audit_chain \<Rightarrow> bool \<times> audit_chain" where
  \<comment> \<open>the object \<open>r\<close> is changed in place; a digest that raises leaves its new \<open>previous_hash\<close>\<close>
  "append_event digest fe r c =
     (let prev = (if ac_chain c \<noteq> [] then ev_hash (ac_store c (last (ac_chain c)))
                  else if fe_read fe then load_last_hash (ac_files c) else None);
          c1 = put_event r ((ac_store c r)\<lparr>ev_prev := prev\<rparr>) c
      in case compute_hash digest (ac_store c1 r) of
           None \<Rightarrow> (False, c1)
         | Some h \<Rightarrow>
            let c2 = put_event r ((ac_store c1 r)\<lparr>ev_hash := Some h\<rparr>) c1;
                c3 = persist_event fe r (c2\<lparr>ac_chain := ac_chain c2 @ [r]\<rparr>)
            in (True, if ac_max c3 \<le> length (ac_chain c3) then rotate fe c3 else c3))"

definition log_security_event ::
  "(audit_event \<Rightarrow> string option) \<Rightarrow> file_env \<Rightarrow> audit_event \<Rightarrow> audit_chain \<Rightarrow> bool \<times> audit_chain" where
  \<comment> \<open>a new object with the arguments, the fresh id, the time and the service name; the other
     fields keep the defaults of the class\<close>
  "log_security_event digest fe args c =
     append_event digest fe (ac_next c)
       ((put_event (ac_next c) (args\<lparr>ev_agent := None, ev_prev := None, ev_hash := None\<rparr>) c)
         \<lparr>ac_next := Suc (ac_next c)\<rparr>)"

fun linked :: "(audit_event \<Rightarrow> string option) \<Rightarrow> audit_event option \<Rightarrow> audit_event list \<Rightarrow> bool option" where
  \<comment> \<open>the loop of \<open>verify_chain\<close>, given the event before\<close>
  "linked digest before [] = Some True"
| "linked digest before (e # es) =
     (case verify_integrity digest e of None \<Rightarrow> None
      | Some ok \<Rightarrow> if \<not> ok then Some False
          else if (case before of None \<Rightarrow> False | Some b \<Rightarrow> ev_prev e \<noteq> ev_hash b) then Some False
          else linked digest (Some e) es)"

definition verify_chain :: "(audit_event \<Rightarrow> string option) \<Rightarrow> audit_chain \<Rightarrow> bool option" where
  "verify_chain digest c = linked digest None (map (ac_store c) (ac_chain c))"

definition query_events :: "(audit_event \<Rightarrow> bool) list \<Rightarrow> audit_chain \<Rightarrow> nat list" where
  \<comment> \<open>one test per keyword: the attribute equals the value\<close>
  "query_events fs c = foldl (\<lambda>rs f. filter (\<lambda>r. f (ac_store c r)) rs) (ac_chain c) fs"

definition events_since :: "(string \<Rightarrow> int) \<Rightarrow> int \<Rightarrow> audit_chain \<Rightarrow> nat list" where
  \<comment> \<open>the first argument reads an ISO time stamp\<close>
  "events_since fromiso since c = filter (\<lambda>r. since \<le> fromiso (ev_timestamp (ac_store c r))) (ac_chain c)"

lemma linked_snoc:
  "linked digest b (es @ [e]) = Some True \<longleftrightarrow> linked digest b es = Some True \<and> verify_integrity digest e = Some True \<and>
     (case (if es = [] then b else Some (last es)) of None \<Rightarrow> True | Some b \<Rightarrow> ev_prev e = ev_hash b)"
  by (induction es arbitrary: b) (auto split: option.splits)

definition chain_ok :: "(audit_event \<Rightarrow> string option) \<Rightarrow> audit_chain \<Rightarrow> bool" where
  \<comment> \<open>the chain verifies and names objects that were created before\<close>
  "chain_ok digest c \<longleftrightarrow> verify_chain digest c = Some True \<and> (\<forall>r \<in> set (ac_chain c). r < ac_next c)"

lemma persist_event_fields [simp]:
  "ac_store (persist_event fe r c) = ac_store c" "ac_next (persist_event fe r c) = ac_next c"
  "ac_chain (persist_event fe r c) = ac_chain c" "ac_max (persist_event fe r c) = ac_max c"
  by (simp_all add: persist_event_def Let_def)

lemma rotate_fields [simp]:
  "ac_store (rotate fe c) = ac_store c" "ac_next (rotate fe c) = ac_next c"
  "ac_chain (rotate fe c) = (if fe_archive fe = Complete then [] else ac_chain c)"
  by (simp_all add: rotate_def Let_def)

lemma put_event_fields [simp]:
  "ac_store (put_event r e c) = (ac_store c)(r := e)" "ac_next (put_event r e c) = ac_next c"
  "ac_chain (put_event r e c) = ac_chain c" "ac_max (put_event r e c) = ac_max c" "ac_files (put_event r e c) = ac_files c"
  by (simp_all add: put_event_def)

lemma append_new_verifies:
  assumes "\<forall>e. digest e \<noteq> Some []" "verify_chain digest c = Some True" "r \<notin> set (ac_chain c)"
  shows "verify_chain digest (snd (append_event digest fe r c)) = Some True"
proof -
  have upd: "map ((ac_store c)(r := e)) (ac_chain c) = map (ac_store c) (ac_chain c)" for e
    using assms(3) by (simp add: map_fun_upd)
  show ?thesis
    using assms last_in_set [of "ac_chain c"]
    by (auto simp: append_event_def Let_def verify_chain_def upd linked_snoc verify_integrity_def compute_hash_def
        last_map split: option.splits)
qed

lemma log_security_event_ok:
  assumes "\<forall>e. digest e \<noteq> Some []" "chain_ok digest c"
  shows "chain_ok digest (snd (log_security_event digest fe args c))"
proof -
  have new: "ac_next c \<notin> set (ac_chain c)" using assms(2) by (auto simp: chain_ok_def)
  then have "map ((ac_store c)(ac_next c := e)) (ac_chain c) = map (ac_store c) (ac_chain c)" for e
    by (simp add: map_fun_upd)
  with assms new have "verify_chain digest (snd (log_security_event digest fe args c)) = Some True"
    unfolding log_security_event_def
    by (intro append_new_verifies) (simp_all add: chain_ok_def verify_chain_def)
  moreover have "\<forall>r \<in> set (ac_chain (snd (log_security_event digest fe args c))).
      r < ac_next (snd (log_security_event digest fe args c))"
    using assms(2)
    by (auto simp: log_security_event_def append_event_def Let_def chain_ok_def less_Suc_eq split: option.splits)
  ultimately show ?thesis by (simp add: chain_ok_def)
qed

interpretation event_run: run_invariant
  "\<lambda>c (fe, args). snd (log_security_event digest fe args c)" "\<lambda>c e. True"
  "\<lambda>c. (\<forall>e. digest e \<noteq> Some []) \<and> chain_ok digest c" for digest
  by unfold_locales (auto intro: log_security_event_ok)

text \<open>
  C17: The in-memory chain of security events always verifies: after any sequence of calls of
  \<open>log_security_event\<close> on a new object, with rotations whenever it is full, events that
  cannot be hashed and whatever file operations fail, every stored hash is the digest of its
  event and every event names the hash of the one before. Every call makes its own object, and
  the dictionary of details it is given must not be changed later.
\<close>
theorem appended_events_verify:
  assumes "\<forall>e. digest e \<noteq> Some []"
  shows "verify_chain digest
    (foldl (\<lambda>c (fe, args). snd (log_security_event digest fe args c)) (new_audit_chain st n files) events) = Some True"
proof -
  have "chain_ok digest (new_audit_chain st n files)" by (simp add: chain_ok_def verify_chain_def new_audit_chain_def)
  with assms event_run.run_inv_always [of digest "new_audit_chain st n files" events] show ?thesis
    by (simp add: chain_ok_def)
qed

definition sample_event :: "string \<Rightarrow> audit_event" where
  "sample_event i = \<lparr>ev_id = i, ev_timestamp = ''t'', ev_service = ''s'', ev_action = ''login'', ev_actor = ''u'',
     ev_rtype = ''user'', ev_rid = None, ev_status = ''success'', ev_details = None, ev_corr = None,
     ev_ip = None, ev_agent = None, ev_prev = None, ev_hash = Some i, ev_class = ''internal''\<rparr>"

definition sample_files :: file_env where
  "sample_files = \<lparr>fe_date = ''2026-01-02'', fe_stamp = ''x'', fe_read = True, fe_persist = Complete, fe_archive = Complete\<rparr>"

definition event_digest :: "audit_event \<Rightarrow> string option" where
  "event_digest e = Some (CHR ''h'' # ev_id e @ str_or (ev_prev e))"

lemma appended_events_verify_witness:
  "verify_chain event_digest (foldl (\<lambda>c (fe, args). snd (log_security_event event_digest fe args c))
     (new_audit_chain (\<lambda>_. sample_event []) 0 [])
     [(sample_files, sample_event ''1''), (sample_files\<lparr>fe_persist := Cut 0 True\<rparr>, sample_event ''2''),
      (sample_files, sample_event ''3'')]) = Some True"
  by (rule appended_events_verify) (simp add: event_digest_def)

text \<open>
  An object that is in the chain already must not be appended again: its hash is overwritten,
  and the chain no longer verifies unless the digest behind its new predecessor is the old one.
\<close>

lemma linked_hash_changed:
  assumes "linked digest b es = Some True" "i < length es" "j = Suc i" "j < length es"
  shows "ev_prev (es ! j) = ev_hash (es ! i)"
  using assms
proof (induction es arbitrary: b i j)
  case (Cons e es)
  then have l: "linked digest (Some e) es = Some True" by (auto split: option.splits if_splits)
  show ?case
  proof (cases i)
    case 0
    with Cons.prems l show ?thesis by (cases es) (auto split: option.splits if_splits)
  next
    case (Suc k)
    with Cons.prems Cons.IH [OF l, of k "Suc k"] show ?thesis by simp
  qed
qed simp

lemma linked_integrity:
  "linked digest b es = Some True \<Longrightarrow> e \<in> set es \<Longrightarrow> verify_integrity digest e = Some True"
  by (induction es arbitrary: b) (auto split: option.splits if_splits)

lemma linked_defined:
  "(\<And>e. e \<in> set es \<Longrightarrow> verify_integrity digest e \<noteq> None) \<Longrightarrow> linked digest b es \<noteq> None"
proof (induction es arbitrary: b)
  case (Cons e es)
  from Cons.prems [of e] obtain ok where "verify_integrity digest e = Some ok" by auto
  moreover have "linked digest (Some e) es \<noteq> None" using Cons by simp
  ultimately show ?case by (auto simp: ex_bool_eq)
qed simp

text \<open>
  Appending an event object that the chain holds already reports success and breaks the chain:
  the object's stored hash is overwritten, so that the event after it no longer names it,
  whenever the new digest differs from the old one and the append does not rotate.
\<close>
theorem reappended_event_breaks:
  assumes "verify_chain digest c = Some True" "r \<in> set (ac_chain c)" "Suc (length (ac_chain c)) < ac_max c"
    and "compute_hash digest ((ac_store c r)\<lparr>ev_prev := ev_hash (ac_store c (last (ac_chain c)))\<rparr>) = Some h"
    and "ev_hash (ac_store c r) \<noteq> Some h"
  shows "fst (append_event digest fe r c) \<and> verify_chain digest (snd (append_event digest fe r c)) = Some False"
proof -
  let ?e = "(ac_store c r)\<lparr>ev_prev := ev_hash (ac_store c (last (ac_chain c))), ev_hash := Some h\<rparr>"
  let ?l = "map ((ac_store c)(r := ?e)) (ac_chain c @ [r])"
  obtain xs ys where c: "ac_chain c = xs @ r # ys" "r \<notin> set ys" using assms(2) by (metis split_list_last)
  have upd: "(ac_store c r)\<lparr>ev_prev := q, ev_hash := Some h\<rparr> = (ac_store c r)\<lparr>ev_prev := q\<rparr>\<lparr>ev_hash := Some h\<rparr>" for q
    by simp
  have step: "fst (append_event digest fe r c)" "verify_chain digest (snd (append_event digest fe r c)) = linked digest None ?l"
    using assms(3,4) c(1) by (simp_all add: append_event_def Let_def verify_chain_def persist_event_def)
  have old: "linked digest None (map (ac_store c) (ac_chain c)) = Some True" using assms(1) by (simp add: verify_chain_def)
  have "verify_integrity digest e \<noteq> None" if "e \<in> set ?l" for e
  proof (cases "e = ?e")
    case True
    then show ?thesis using assms(4) by (simp add: verify_integrity_def compute_hash_def ex_bool_eq)
  next
    case False
    with that have "e \<in> set (map (ac_store c) (ac_chain c))" by (auto split: if_splits)
    with linked_integrity [OF old] show ?thesis by simp
  qed
  then have "linked digest None ?l \<noteq> None" by (rule linked_defined)
  moreover have "linked digest None ?l \<noteq> Some True"
  proof
    assume new: "linked digest None ?l = Some True"
    from linked_hash_changed [OF new, of "length xs" "Suc (length xs)"] c(1)
    have p: "ev_prev (?l ! Suc (length xs)) = Some h" by (simp add: nth_append)
    show False
    proof (cases ys)
      case Nil
      with p c(1) assms(5) show False by (simp add: nth_append)
    next
      case (Cons y zs)
      with p c have "ev_prev (ac_store c y) = Some h" by (auto simp: nth_append)
      moreover from linked_hash_changed [OF old, of "length xs" "Suc (length xs)"] c(1) Cons
      have "ev_prev (ac_store c y) = ev_hash (ac_store c r)" by (simp add: nth_append)
      ultimately show False using assms(5) by simp
    qed
  qed
  ultimately show ?thesis using step by auto
qed

lemma reappended_event_breaks_witness:
  "let c = snd (log_security_event event_digest sample_files (sample_event ''1'') (new_audit_chain (\<lambda>_. sample_event []) 0 []))
   in verify_chain event_digest (snd (append_event event_digest sample_files 0 c)) = Some False"
proof -
  let ?c = "snd (log_security_event event_digest sample_files (sample_event ''1'') (new_audit_chain (\<lambda>_. sample_event []) 0 []))"
  have "fst (append_event event_digest sample_files 0 ?c) \<and>
      verify_chain event_digest (snd (append_event event_digest sample_files 0 ?c)) = Some False"
    by (rule reappended_event_breaks [where h = "''h1h1''"])
      (simp_all add: log_security_event_def append_event_def new_audit_chain_def Let_def event_digest_def compute_hash_def
        verify_chain_def verify_integrity_def persist_event_def sample_files_def sample_event_def load_last_hash_def)
  then show ?thesis by (simp add: Let_def)
qed

text \<open>Names that start with a digit sort before the archives.\<close>

lemma last_sort_archive:
  assumes "n \<in> set ns" "\<And>m. m \<in> set ns \<Longrightarrow> m \<le> n"
  shows "last (sort ns) = (n :: string)"
proof -
  have ne: "sort ns \<noteq> []" using assms(1) by (metis empty_iff empty_set set_sort)
  have "n \<le> last (sort ns)"
  proof -
    from assms(1) obtain i where i: "i < length (sort ns)" "n = sort ns ! i"
      by (metis in_set_conv_nth set_sort)
    have "sort ns ! i \<le> sort ns ! (length (sort ns) - 1)" using i by (intro sorted_nth_mono) auto
    with i ne show ?thesis by (simp add: last_conv_nth)
  qed
  moreover have "last (sort ns) \<le> n" using assms(2) last_in_set [OF ne] by simp
  ultimately show ?thesis by simp
qed

lemma digit_before_archive:
  assumes "is_digit c"
  shows "(c # s :: string) < ''audit_archive_'' @ t"
proof -
  have "c < CHR ''a''" using assms by (simp add: is_digit_def less_char_def Let_def)
  then show ?thesis by simp
qed

text \<open>
  After a rotation a restart forks the chain. Events persisted since then are in files named
  by date, and every archive's name sorts after those; so a new object on the directory links
  its first event to the last event of the archive, and not to the event logged last.
\<close>
theorem restart_links_to_archive:
  assumes "dict_get files archive = Some (olds @ [Line old])" "archive = ''audit_archive_'' @ stamp"
    and "\<forall>m \<in> set (map fst files). m = archive \<or> (\<exists>c s. m = c # s \<and> is_digit c)"
    and "fe_read fe" "c = snd (append_event digest fe r (new_audit_chain st n files))"
  shows "ev_prev (ac_store c r) = ev_hash old"
proof -
  from assms(1) have "archive \<in> set (map fst files)" by (force dest: map_of_SomeD)
  moreover have "n \<le> archive" if "n \<in> set (map fst files)" for n
  proof (cases "n = archive")
    case False
    with assms(3) that obtain c s where "n = c # s" "is_digit c" by blast
    then show ?thesis using digit_before_archive assms(2) by (metis less_imp_le)
  qed simp
  ultimately have "last (sort (map fst files)) = archive" by (rule last_sort_archive)
  moreover have "files \<noteq> []" using assms(1) by auto
  ultimately have "load_last_hash files = ev_hash old"
    using assms(1) last_snoc [of olds "Line old"] by (cases "olds @ [Line old]") (simp_all add: load_last_hash_def)
  with assms(4,5) show ?thesis
    by (auto simp: append_event_def new_audit_chain_def Let_def split: option.splits)
qed

lemma restart_links_to_archive_witness:
  "ev_prev (ac_store (snd (append_event event_digest sample_files 0
     (new_audit_chain (\<lambda>_. sample_event ''3'') 1 [(''audit_archive_2026.jsonl'', [Line (sample_event ''1'')]),
        (''2026-01-02_audit.jsonl'', [Line (sample_event ''2'')])]))) 0) = ev_hash (sample_event ''1'')"
proof (rule restart_links_to_archive [OF _ _ _ _ refl])
  show "dict_get [(''audit_archive_2026.jsonl'', [Line (sample_event ''1'')]),
        (''2026-01-02_audit.jsonl'', [Line (sample_event ''2'')])] ''audit_archive_2026.jsonl'' =
      Some ([] @ [Line (sample_event ''1'')])" by simp
  show "''audit_archive_2026.jsonl'' = ''audit_archive_'' @ ''2026.jsonl''" by simp
qed (simp_all add: is_digit_def sample_files_def)

end
