(* ===== verification/Policy_Engines.thy ===== *)
theory Policy_Engines
  imports Py_Regex Interfaces
begin

text \<open>
  The two policy engines: tool calls against the access policies
  (\<open>services/gateway/app/mcp/policy_engine.py\<close>, \<open>tool_interceptor.py\<close>) and guardrail results
  against the content policies (\<open>services/shared/policy_engine.py\<close>).

  A policy file is a parameter: the value YAML loads it to, with every pattern already a regular
  expression. \<open>None\<close> for a pattern is the empty string where the code tests for it. Parsing
  the arguments of a tool call is the parameter \<open>loads\<close>.
\<close>

section \<open>Tool access policies (mcp/policy_engine.py)\<close>

definition matches :: "rx \<Rightarrow> string \<Rightarrow> bool" where
  \<comment> \<open>\<open>re.search(pattern, text, re.IGNORECASE)\<close>\<close>
  "matches r s = search (ignore_case r) s"

record deny_rule =
  dr_enabled :: bool
  dr_pattern :: "rx option"
  dr_reason :: string
  dr_risk :: string
  dr_category :: string

datatype deny_list =
    DenyCategories "deny_rule list" "deny_rule list" \<comment> \<open>categories, custom rules\<close>
  | DenyFlat "deny_rule list"

record role_policy =
  rp_empty :: bool \<comment> \<open>the entry is an empty mapping, which is falsy\<close>
  rp_allow :: "rx list"
  rp_deny :: "rx list"
  rp_approve :: "rx list"
  rp_inherits :: "string option"
  rp_scope :: string

record user_override =
  ov_tool :: rx
  ov_target :: "rx option"
  ov_permission :: string
  ov_reason :: "string option"

record user_policy =
  up_role :: "string option"
  up_overrides :: "user_override list"

record context_rules =
  cx_max_tools :: nat
  cx_confirm :: "rx list"

record policies =
  po_deny :: deny_list
  po_contexts :: "(string, context_rules) pydict"
  po_users :: "(string, user_policy) pydict"
  po_roles :: "(string, role_policy) pydict"

definition load_policies :: "policies option \<Rightarrow> policies" where
  \<comment> \<open>\<open>None\<close>: the file cannot be read\<close>
  "load_policies f = (case f of Some p \<Rightarrow> p
     | None \<Rightarrow> \<lparr>po_deny = DenyCategories [] [], po_contexts = [], po_users = [], po_roles = []\<rparr>)"

datatype policy_layer = LDenyList | LContext | LUser | LRole | LDefault

record decision =
  de_effect :: string
  de_reason :: string
  de_layer :: policy_layer
  de_risk :: "string option"
  de_category :: "string option"

definition rule_hits :: "string \<Rightarrow> deny_rule \<Rightarrow> bool" where
  "rule_hits tool r \<longleftrightarrow> (case dr_pattern r of None \<Rightarrow> False | Some p \<Rightarrow> matches p tool)"

definition deny_by :: "string option \<Rightarrow> deny_rule \<Rightarrow> decision" where
  "deny_by cat r = \<lparr>de_effect = ''deny'', de_reason = dr_reason r, de_layer = LDenyList,
     de_risk = Some (dr_risk r), de_category = cat\<rparr>"

definition check_deny_list :: "deny_list \<Rightarrow> string \<Rightarrow> decision option" where
  "check_deny_list d tool = (case d of
     DenyCategories cats customs \<Rightarrow>
       (case find (\<lambda>r. dr_enabled r \<and> rule_hits tool r) cats of
          Some r \<Rightarrow> Some (deny_by (Some (dr_category r)) r)
        | None \<Rightarrow> map_option (deny_by (Some ''Custom Rule'')) (find (rule_hits tool) customs))
   | DenyFlat rules \<Rightarrow> map_option (deny_by None) (find (rule_hits tool) rules))"

definition check_context :: "policies \<Rightarrow> string \<Rightarrow> string \<Rightarrow> decision option" where
  \<comment> \<open>\<open>max_tools_per_response\<close> is read and not used\<close>
  "check_context po ctx tool =
     (if list_ex (\<lambda>p. matches p tool) (case dict_get (po_contexts po) ctx of None \<Rightarrow> [] | Some c \<Rightarrow> cx_confirm c)
      then Some \<lparr>de_effect = ''require_approval'',
        de_reason = ''Tool requires confirmation in '' @ ctx @ '' context'',
        de_layer = LContext, de_risk = None, de_category = None\<rparr>
      else None)"

definition override_hits :: "string \<Rightarrow> string \<Rightarrow> user_override \<Rightarrow> bool" where
  "override_hits tool target v \<longleftrightarrow> matches (ov_tool v) tool \<and>
     (case ov_target v of None \<Rightarrow> True | Some p \<Rightarrow> matches p target)"

definition check_user :: "policies \<Rightarrow> string \<Rightarrow> string \<Rightarrow> string \<Rightarrow> decision option" where
  "check_user po user tool target =
     (case find (override_hits tool target) (case dict_get (po_users po) user of None \<Rightarrow> [] | Some u \<Rightarrow> up_overrides u) of
        None \<Rightarrow> None
      | Some v \<Rightarrow> Some \<lparr>de_effect = ov_permission v,
          de_reason = (case ov_reason v of Some r \<Rightarrow> r | None \<Rightarrow> ''User override: '' @ ov_permission v),
          de_layer = LUser, de_risk = None, de_category = None\<rparr>)"

definition effective_role :: "policies \<Rightarrow> string \<Rightarrow> string \<Rightarrow> string" where
  "effective_role po user role = (case dict_get (po_users po) user of
     Some u \<Rightarrow> (case up_role u of Some (c # s) \<Rightarrow> c # s | _ \<Rightarrow> role) | None \<Rightarrow> role)"

definition find_role :: "policies \<Rightarrow> string \<Rightarrow> role_policy option" where
  \<comment> \<open>\<open>roles.get(role) or roles.get("intern")\<close>\<close>
  "find_role po role = (case dict_get (po_roles po) role of
     Some r \<Rightarrow> if rp_empty r then dict_get (po_roles po) ''intern'' else Some r
   | None \<Rightarrow> dict_get (po_roles po) ''intern'')"

definition hits_any :: "rx list \<Rightarrow> string \<Rightarrow> bool" where
  "hits_any ps tool = list_ex (\<lambda>p. matches p tool) ps"

definition role_decision :: "string \<Rightarrow> string \<Rightarrow> policy_layer \<Rightarrow> decision" where
  "role_decision eff reason l =
     \<lparr>de_effect = eff, de_reason = reason, de_layer = l, de_risk = None, de_category = None\<rparr>"

definition check_role :: "policies \<Rightarrow> string \<Rightarrow> role_policy \<Rightarrow> string \<Rightarrow> decision" where
  "check_role po role r tool =
     (let parent = (case rp_inherits r of None \<Rightarrow> [] | Some [] \<Rightarrow> []
          | Some h \<Rightarrow> (case dict_get (po_roles po) h of None \<Rightarrow> [] | Some q \<Rightarrow> rp_allow q))
      in if hits_any (rp_allow r) tool
         then role_decision ''allow'' (''Role policy allows (role: '' @ role @ '')'') LRole
         else if hits_any parent tool
         then role_decision ''allow'' (''Inherited from role: '' @ (case rp_inherits r of None \<Rightarrow> [] | Some h \<Rightarrow> h)) LRole
         else if hits_any (rp_deny r) tool
         then role_decision ''deny'' (''Role policy denies (role: '' @ role @ '')'') LRole
         else if hits_any (rp_approve r) tool
         then role_decision ''require_approval'' (''Role '' @ role @ '' requires approval for '' @ tool) LRole
         else role_decision ''deny'' ''No policy allows this tool call (least privilege default)'' LDefault)"

definition evaluate_tool_call ::
  "policies \<Rightarrow> string \<Rightarrow> string \<Rightarrow> string \<Rightarrow> string \<Rightarrow> string \<Rightarrow> py_error + decision" where
  "evaluate_tool_call po user role ctx tool target =
     (case check_deny_list (po_deny po) tool of
        Some d \<Rightarrow> Inr d
      | None \<Rightarrow> (case check_context po ctx tool of
          Some d \<Rightarrow> Inr d
        | None \<Rightarrow> (case check_user po user tool target of
            Some d \<Rightarrow> Inr d
          | None \<Rightarrow> (let rl = effective_role po user role
                    in case find_role po rl of
                         None \<Rightarrow> Inl AttributeError
                       | Some r \<Rightarrow> Inr (check_role po rl r tool)))))"

record effective_policy =
  ep_email :: string
  ep_role :: string
  ep_inherits :: "string option"
  ep_allows :: "rx list"
  ep_denies :: "rx list"
  ep_approvals :: "rx list"
  ep_scope :: string
  ep_overrides :: "user_override list"

definition no_role :: role_policy where
  "no_role = \<lparr>rp_empty = True, rp_allow = [], rp_deny = [], rp_approve = [], rp_inherits = None,
     rp_scope = ''internal_only''\<rparr>"

definition get_user_effective_policy :: "policies \<Rightarrow> string \<Rightarrow> string \<Rightarrow> effective_policy" where
  \<comment> \<open>\<open>roles.get(role, roles.get("intern", {}))\<close>: no fallback for an empty entry here, and the
     role of the user's own entry is not consulted\<close>
  "get_user_effective_policy po user role =
     (let r = dict_get_or (po_roles po) role (dict_get_or (po_roles po) ''intern'' no_role)
      in \<lparr>ep_email = user, ep_role = role, ep_inherits = rp_inherits r,
          ep_allows = rp_allow r @ (case rp_inherits r of None \<Rightarrow> [] | Some [] \<Rightarrow> []
             | Some h \<Rightarrow> rp_allow (dict_get_or (po_roles po) h no_role)),
          ep_denies = rp_deny r, ep_approvals = rp_approve r, ep_scope = rp_scope r,
          ep_overrides = (case dict_get (po_users po) user of None \<Rightarrow> [] | Some u \<Rightarrow> up_overrides u)\<rparr>)"

section \<open>Tool interception (mcp/tool_interceptor.py)\<close>

record tool_call =
  tc_id :: string
  tc_name :: "string option"
  tc_arguments :: string

datatype parsed_args =
    ArgsDict "(string, string) pydict"
  | ArgsOther \<comment> \<open>JSON that is no object: \<open>.get\<close> raises \<open>AttributeError\<close>, which is not caught\<close>
  | ArgsInvalid \<comment> \<open>\<open>JSONDecodeError\<close>\<close>

record tool_result =
  tr_allowed :: bool
  tr_approval :: bool
  tr_blocked :: bool
  tr_name :: string
  tr_target :: string
  tr_decision :: decision
  tr_risk :: string

fun first_truthy :: "string option list \<Rightarrow> string" where
  "first_truthy [] = []"
| "first_truthy (Some (c # s) # vs) = c # s"
| "first_truthy (_ # vs) = first_truthy vs"

definition call_target :: "(string \<Rightarrow> parsed_args) \<Rightarrow> tool_call \<Rightarrow> py_error + string" where
  "call_target loads tc = (case loads (tc_arguments tc) of
     ArgsDict d \<Rightarrow> Inr (first_truthy (map (dict_get d) [''path'', ''url'', ''to'', ''command'']))
   | ArgsOther \<Rightarrow> Inl AttributeError
   | ArgsInvalid \<Rightarrow> Inr (take 200 (tc_arguments tc)))"

definition intercept_tool_call ::
  "policies \<Rightarrow> (string \<Rightarrow> parsed_args) \<Rightarrow> string \<Rightarrow> string \<Rightarrow> string \<Rightarrow> tool_call \<Rightarrow> py_error + tool_result" where
  "intercept_tool_call po loads user role ctx tc =
     (let name = (case tc_name tc of None \<Rightarrow> ''unknown'' | Some n \<Rightarrow> n)
      in case call_target loads tc of Inl e \<Rightarrow> Inl e
         | Inr target \<Rightarrow>
             (case evaluate_tool_call po user role ctx name target of Inl e \<Rightarrow> Inl e
              | Inr d \<Rightarrow> Inr \<lparr>tr_allowed = (de_effect d = ''allow''), tr_approval = (de_effect d = ''require_approval''),
                   tr_blocked = (de_effect d = ''deny''), tr_name = name, tr_target = take 200 target,
                   tr_decision = d, tr_risk = (case de_risk d of None \<Rightarrow> ''NONE'' | Some r \<Rightarrow> r)\<rparr>))"

record interception =
  it_allowed :: "tool_call list"
  it_blocked :: "(tool_call \<times> tool_result) list"
  it_approval :: "(tool_call \<times> tool_result) list"
  it_total :: nat

fun intercept_loop ::
  "(tool_call \<Rightarrow> py_error + tool_result) \<Rightarrow> tool_call list \<Rightarrow> interception \<Rightarrow> py_error + interception" where
  "intercept_loop f [] acc = Inr acc"
| "intercept_loop f (tc # tcs) acc = (case f tc of Inl e \<Rightarrow> Inl e
     | Inr r \<Rightarrow> intercept_loop f tcs
         (if tr_allowed r then acc\<lparr>it_allowed := it_allowed acc @ [tc]\<rparr>
          else if tr_approval r then acc\<lparr>it_approval := it_approval acc @ [(tc, r)]\<rparr>
          else acc\<lparr>it_blocked := it_blocked acc @ [(tc, r)]\<rparr>))"

definition intercept_tool_calls ::
  "policies \<Rightarrow> (string \<Rightarrow> parsed_args) \<Rightarrow> string \<Rightarrow> string \<Rightarrow> string \<Rightarrow> tool_call list \<Rightarrow> py_error + interception" where
  "intercept_tool_calls po loads user role ctx tcs =
     intercept_loop (intercept_tool_call po loads user role ctx) tcs
       \<lparr>it_allowed = [], it_blocked = [], it_approval = [], it_total = length tcs\<rparr>"

section \<open>Content policies (shared/policy_engine.py)\<close>

record content_rule =
  cr_name :: "string option"
  cr_category :: "string option"
  cr_action :: string
  cr_type :: string
  cr_severity :: string
  cr_enabled :: bool
  cr_message :: "string option option" \<comment> \<open>\<open>None\<close>: no such key; \<open>Some None\<close>: null\<close>
  cr_patterns :: "rx list"

record guard_context =
  gc_text :: string
  gc_toxic :: bool
  gc_score :: pyfloat
  gc_pii :: "string option list"

definition severity_threshold :: "string \<Rightarrow> pyfloat" where
  "severity_threshold s = (if s = ''low'' then 0.3 else if s = ''medium'' then 0.6
     else if s = ''high'' then 0.9 else if s = ''critical'' then 0.95 else 0)"

definition match_toxicity :: "content_rule \<Rightarrow> guard_context \<Rightarrow> bool" where
  "match_toxicity r c =
     (if cr_severity r = ''off'' then False
      else if \<not> cr_enabled r then False
      else if \<not> gc_toxic c then False
      else severity_threshold (cr_severity r) \<le> gc_score c)"

definition match_pii :: "content_rule \<Rightarrow> guard_context \<Rightarrow> bool" where
  "match_pii r c \<longleftrightarrow> cr_category r \<in> set (gc_pii c)"

definition match_rule :: "content_rule \<Rightarrow> guard_context \<Rightarrow> bool" where
  "match_rule r c =
     (if cr_type r = ''toxicity'' then match_toxicity r c
      else if cr_type r = ''pii'' then match_pii r c else False)"

definition action_order :: "string \<Rightarrow> nat" where
  "action_order a = (if a = ''block'' then 4 else if a = ''mask'' then 3 else if a = ''flag'' then 2
     else if a = ''allow'' then 1 else 0)"

definition is_stricter :: "string \<Rightarrow> string \<Rightarrow> bool" where
  "is_stricter new_action current_action \<longleftrightarrow> action_order current_action < action_order new_action"

record policy_result =
  pr_action :: string
  pr_reason :: "string option"
  pr_text :: "string option" \<comment> \<open>\<open>None\<close> when a null message becomes the text\<close>
  pr_triggered :: "content_rule list"

definition rule_message :: "content_rule \<Rightarrow> string option" where
  "rule_message r = (case cr_message r of
     Some m \<Rightarrow> m
   | None \<Rightarrow> Some (''Policy '' @ [CHR 0x27] @ (case cr_name r of None \<Rightarrow> ''None'' | Some n \<Rightarrow> n) @ [CHR 0x27] @ '' matched''))"

definition mask_text :: "content_rule \<Rightarrow> string \<Rightarrow> string" where
  "mask_text r text = foldl (\<lambda>t p. re_sub p (''['' @ upper (case cr_category r of None \<Rightarrow> ''REDACTED'' | Some c \<Rightarrow> c) @ '']'') t)
     text (cr_patterns r)"

definition policy_step :: "guard_context \<Rightarrow> policy_result \<Rightarrow> content_rule \<Rightarrow> policy_result" where
  "policy_step c s r =
     (if \<not> match_rule r c then s
      else let s1 = s\<lparr>pr_triggered := pr_triggered s @ [r]\<rparr>
           in if \<not> is_stricter (cr_action r) (pr_action s) then s1
              else let s2 = s1\<lparr>pr_action := cr_action r, pr_reason := rule_message r\<rparr>
                   in if cr_action r = ''mask'' then s2\<lparr>pr_text := map_option (mask_text r) (pr_text s2)\<rparr>
                      else if cr_action r = ''block'' then s2\<lparr>pr_text := rule_message r\<rparr>
                      else s2)"

definition evaluate_policies :: "content_rule list \<Rightarrow> guard_context \<Rightarrow> policy_result" where
  "evaluate_policies rules c =
     foldl (policy_step c) \<lparr>pr_action = ''allow'', pr_reason = Some ''No policy triggered'',
       pr_text = Some (gc_text c), pr_triggered = []\<rparr> rules"

datatype risk_level = Negligible | LowRisk | MediumRisk | HighRisk | CriticalRisk

fun risk_index :: "risk_level \<Rightarrow> nat" where
  "risk_index Negligible = 0"
| "risk_index LowRisk = 1"
| "risk_index MediumRisk = 2"
| "risk_index HighRisk = 3"
| "risk_index CriticalRisk = 4"

instantiation risk_level :: linorder
begin

definition less_eq_risk_level :: "risk_level \<Rightarrow> risk_level \<Rightarrow> bool" where
  "less_eq_risk_level a b \<longleftrightarrow> risk_index a \<le> risk_index b"

definition less_risk_level :: "risk_level \<Rightarrow> risk_level \<Rightarrow> bool" where
  "less_risk_level a b \<longleftrightarrow> risk_index a < risk_index b"

instance
proof
  fix a b :: risk_level
  assume "a \<le> b" "b \<le> a"
  then show "a = b" by (cases a; cases b) (simp_all add: less_eq_risk_level_def)
qed (auto simp: less_eq_risk_level_def less_risk_level_def)

end

definition action_risk :: "string \<Rightarrow> risk_level" where
  "action_risk a = (if a = ''block'' then HighRisk else if a = ''mask'' then MediumRisk
     else if a = ''flag'' then LowRisk else Negligible)"

fun max_risk :: "risk_level \<Rightarrow> risk_level list \<Rightarrow> risk_level" where
  "max_risk m [] = m"
| "max_risk m (r # rs) = max_risk (if risk_index m < risk_index r then r else m) rs"

definition overall_risk_level :: "content_rule list \<Rightarrow> risk_level" where
  "overall_risk_level triggered = max_risk Negligible (map (\<lambda>r. action_risk (cr_action r)) triggered)"

fun strictest_action :: "string \<Rightarrow> string list \<Rightarrow> string" where
  "strictest_action a [] = a"
| "strictest_action a (b # bs) = strictest_action (if is_stricter b a then b else a) bs"

interpretation risk_max: strictest risk_index max_risk
  by unfold_locales simp_all

lemma max_risk_Max: "max_risk a bs = Max (insert a (set bs))"
proof -
  have "max_risk a bs = fold max bs a"
  proof (induction bs arbitrary: a)
    case (Cons b bs)
    have "max b a = (if risk_index a < risk_index b then b else a)"
      by (cases "a = b") (auto simp: max_def less_eq_risk_level_def not_less antisym_conv dest: leD)
    with Cons show ?case by simp
  qed simp
  then show ?thesis by (simp add: Max.set_eq_fold [of a bs, simplified])
qed

lemma overall_risk_greatest:
  "overall_risk_level triggered = Max (insert Negligible ((\<lambda>r. action_risk (cr_action r)) ` set triggered))"
  by (simp add: overall_risk_level_def max_risk_Max image_image)

interpretation action_max: strictest action_order strictest_action
  by unfold_locales (simp_all add: is_stricter_def)

definition triggered :: "content_rule list \<Rightarrow> guard_context \<Rightarrow> content_rule list" where
  "triggered rules c = filter (\<lambda>r. match_rule r c) rules"

lemma policy_fold:
  "pr_action (foldl (policy_step c) s rules) = strictest_action (pr_action s) (map cr_action (triggered rules c)) \<and>
   pr_triggered (foldl (policy_step c) s rules) = pr_triggered s @ triggered rules c"
proof (induction rules arbitrary: s)
  case (Cons r rs)
  have "pr_action (policy_step c s r) =
      (if match_rule r c \<and> is_stricter (cr_action r) (pr_action s) then cr_action r else pr_action s)"
    "pr_triggered (policy_step c s r) = pr_triggered s @ (if match_rule r c then [r] else [])"
    by (simp_all add: policy_step_def Let_def)
  with Cons.IH [of "policy_step c s r"] show ?case by (auto simp: triggered_def)
qed (simp add: triggered_def)

text \<open>
  C8: The action of the content policies is the strictest of those of the triggered rules (block
  over mask over flag over allow), whatever the order of the rules; exactly the matching rules
  are reported, and the overall risk level is the highest of theirs.
\<close>
theorem policies_pick_strictest:
  "action_order (pr_action (evaluate_policies rules c)) =
     Max (insert 1 (action_order ` cr_action ` set (triggered rules c))) \<and>
   pr_action (evaluate_policies rules c) \<in> insert ''allow'' (cr_action ` set (triggered rules c)) \<and>
   pr_triggered (evaluate_policies rules c) = triggered rules c \<and>
   risk_index (overall_risk_level (triggered rules c)) =
     Max (insert 0 ((\<lambda>r. risk_index (action_risk (cr_action r))) ` set (triggered rules c)))"
proof (intro conjI)
  have e: "pr_action (evaluate_policies rules c) = strictest_action ''allow'' (map cr_action (triggered rules c))"
    "pr_triggered (evaluate_policies rules c) = triggered rules c"
    using policy_fold [of c _ rules] by (simp_all add: evaluate_policies_def)
  show "pr_triggered (evaluate_policies rules c) = triggered rules c" by (rule e(2))
  have "action_order ''allow'' = 1" by (simp add: action_order_def)
  then show "action_order (pr_action (evaluate_policies rules c)) =
      Max (insert 1 (action_order ` cr_action ` set (triggered rules c)))"
    unfolding e(1) action_max.rank_pick_Max by (simp add: image_image)
  show "pr_action (evaluate_policies rules c) \<in> insert ''allow'' (cr_action ` set (triggered rules c))"
    unfolding e(1) using action_max.pick_mem [of "''allow''" "map cr_action (triggered rules c)"] by simp
  show "risk_index (overall_risk_level (triggered rules c)) =
      Max (insert 0 ((\<lambda>r. risk_index (action_risk (cr_action r))) ` set (triggered rules c)))"
    unfolding overall_risk_level_def risk_max.rank_pick_Max by (simp add: image_image)
qed

lemma policy_step_masked:
  assumes "action_order ''mask'' \<le> action_order (pr_action s)"
  shows "pr_text (policy_step c s r) = (if match_rule r c \<and> cr_action r = ''block'' \<and> pr_action s \<noteq> ''block''
      then rule_message r else pr_text s)"
    and "action_order ''mask'' \<le> action_order (pr_action (policy_step c s r))"
  using assms by (auto simp: policy_step_def Let_def is_stricter_def action_order_def split: if_splits)

text \<open>
  Only the first triggered mask rule masks. If no rule before it triggers a mask or a block,
  then after a triggered mask rule \<open>r\<close> the rewritten text is the text with the patterns of \<open>r\<close>
  replaced, unless a later rule blocks; the patterns of later mask rules that trigger as
  well are not applied, so what they should hide stays in the text.
\<close>
theorem only_first_mask_applies:
  assumes "\<forall>q \<in> set before. match_rule q c \<longrightarrow> cr_action q \<noteq> ''mask'' \<and> cr_action q \<noteq> ''block''"
    and "match_rule r c" "cr_action r = ''mask''"
    and "\<forall>q \<in> set later. match_rule q c \<longrightarrow> cr_action q \<noteq> ''block''"
  shows "pr_action (evaluate_policies (before @ r # later) c) = ''mask'' \<and>
    pr_text (evaluate_policies (before @ r # later) c) = Some (mask_text r (gc_text c))"
proof -
  let ?s0 = "\<lparr>pr_action = ''allow'', pr_reason = Some ''No policy triggered'',
       pr_text = Some (gc_text c), pr_triggered = []\<rparr>"
  have pre: "pr_text (foldl (policy_step c) s before) = pr_text s \<and>
      action_order (pr_action (foldl (policy_step c) s before)) < 3" if "action_order (pr_action s) < 3" for s
    using assms(1) that
  proof (induction before arbitrary: s)
    case (Cons q qs)
    have "pr_text (policy_step c s q) = pr_text s \<and> action_order (pr_action (policy_step c s q)) < 3"
      using Cons.prems by (auto simp: policy_step_def Let_def is_stricter_def action_order_def)
    with Cons.IH [of "policy_step c s q"] Cons.prems(1) show ?case by simp
  qed simp
  have post: "pr_text (foldl (policy_step c) s later) = pr_text s \<and>
      pr_action (foldl (policy_step c) s later) = ''mask''" if "pr_action s = ''mask''" for s
    using assms(4) that
  proof (induction later arbitrary: s)
    case (Cons q qs)
    have "pr_text (policy_step c s q) = pr_text s \<and> pr_action (policy_step c s q) = ''mask''"
      using Cons.prems by (auto simp: policy_step_def Let_def is_stricter_def action_order_def)
    with Cons.IH [of "policy_step c s q"] Cons.prems(1) show ?case by simp
  qed simp
  let ?s1 = "foldl (policy_step c) ?s0 before"
  have s1: "pr_text ?s1 = Some (gc_text c)" "action_order (pr_action ?s1) < 3"
    using pre [of ?s0] by (simp_all add: action_order_def)
  have "pr_action (policy_step c ?s1 r) = ''mask''"
    "pr_text (policy_step c ?s1 r) = Some (mask_text r (gc_text c))"
    using assms(2,3) s1 by (simp_all add: policy_step_def Let_def is_stricter_def action_order_def)
  with post [of "policy_step c ?s1 r"] show ?thesis by (simp add: evaluate_policies_def)
qed

definition pii_rule :: "string \<Rightarrow> rx \<Rightarrow> content_rule" where
  "pii_rule cat p = \<lparr>cr_name = Some cat, cr_category = Some cat, cr_action = ''mask'', cr_type = ''pii'',
     cr_severity = ''off'', cr_enabled = True, cr_message = None, cr_patterns = [p]\<rparr>"

lemma only_first_mask_applies_witness:
  "pr_text (evaluate_policies ([] @ pii_rule ''a'' (lit ''1'') # [pii_rule ''b'' (lit ''2'')])
     \<lparr>gc_text = ''1 2'', gc_toxic = False, gc_score = 0, gc_pii = [Some ''a'', Some ''b'']\<rparr>) =
   Some (mask_text (pii_rule ''a'' (lit ''1'')) ''1 2'')"
  using only_first_mask_applies [of "[]"
      "\<lparr>gc_text = ''1 2'', gc_toxic = False, gc_score = 0, gc_pii = [Some ''a'', Some ''b'']\<rparr>"
      "pii_rule ''a'' (lit ''1'')" "[pii_rule ''b'' (lit ''2'')]"]
  by (simp add: pii_rule_def match_rule_def match_pii_def)

section \<open>Properties of the tool policies\<close>

definition denied :: "policies \<Rightarrow> string \<Rightarrow> bool" where
  \<comment> \<open>some active entry of the global deny list matches the tool\<close>
  "denied po tool \<longleftrightarrow> (case po_deny po of
     DenyCategories cats customs \<Rightarrow> (\<exists>r \<in> set cats. dr_enabled r \<and> rule_hits tool r) \<or> (\<exists>r \<in> set customs. rule_hits tool r)
   | DenyFlat rules \<Rightarrow> (\<exists>r \<in> set rules. rule_hits tool r))"

lemma check_deny_list_None: "check_deny_list (po_deny po) tool = None \<longleftrightarrow> \<not> denied po tool"
  by (auto simp: check_deny_list_def denied_def find_None_iff dest: find_SomeD split: deny_list.splits option.splits)

lemma check_deny_list_effect: "check_deny_list d tool = Some x \<Longrightarrow> de_effect x = ''deny''"
  by (auto simp: check_deny_list_def deny_by_def split: deny_list.splits option.splits)

definition allowing_override :: "policies \<Rightarrow> string \<Rightarrow> string \<Rightarrow> string \<Rightarrow> bool" where
  "allowing_override po user tool target \<longleftrightarrow> (\<exists>u v. dict_get (po_users po) user = Some u \<and>
     v \<in> set (up_overrides u) \<and> override_hits tool target v \<and> ov_permission v = ''allow'')"

definition role_allows :: "policies \<Rightarrow> string \<Rightarrow> string \<Rightarrow> bool" where
  "role_allows po role tool \<longleftrightarrow> (\<exists>r. find_role po role = Some r \<and>
     (hits_any (rp_allow r) tool \<or>
      (\<exists>h q. rp_inherits r = Some h \<and> dict_get (po_roles po) h = Some q \<and> hits_any (rp_allow q) tool)))"

text \<open>
  C9: A tool call is allowed only by an explicit permission, and never against the deny list:
  when the decision is to allow, no active deny entry matches the tool, the context does not
  ask for a confirmation, and an allowing override of the user or an allow pattern of
  the user's role or of the role it inherits from matches.
\<close>
theorem allow_needs_permission:
  assumes "evaluate_tool_call po user role ctx tool target = Inr d" "de_effect d = ''allow''"
  shows "\<not> denied po tool \<and> check_context po ctx tool = None \<and>
    (allowing_override po user tool target \<or> role_allows po (effective_role po user role) tool)"
proof -
  have deny: "check_deny_list (po_deny po) tool = None"
  proof (cases "check_deny_list (po_deny po) tool")
    case (Some x)
    with assms check_deny_list_effect [OF Some] show ?thesis by (simp add: evaluate_tool_call_def)
  qed
  have ctx: "check_context po ctx tool = None"
  proof (cases "check_context po ctx tool")
    case (Some x)
    with assms deny show ?thesis
      by (auto simp: evaluate_tool_call_def check_context_def split: if_splits)
  qed
  show ?thesis
  proof (cases "check_user po user tool target")
    case (Some x)
    with assms deny ctx have "de_effect x = ''allow''" by (simp add: evaluate_tool_call_def)
    with Some have "allowing_override po user tool target"
      by (auto simp: check_user_def allowing_override_def dest!: find_SomeD split: option.splits)
    with deny ctx show ?thesis by (simp add: check_deny_list_None)
  next
    case None
    let ?rl = "effective_role po user role"
    from None assms deny ctx obtain r where r: "find_role po ?rl = Some r" "d = check_role po ?rl r tool"
      by (auto simp: evaluate_tool_call_def Let_def split: option.splits)
    with assms(2) have "role_allows po ?rl tool"
      by (auto simp: check_role_def role_allows_def role_decision_def hits_any_def Let_def
          split: if_splits option.splits list.splits)
    with deny ctx show ?thesis by (simp add: check_deny_list_None)
  qed
qed

definition sample_policies :: policies where
  "sample_policies = \<lparr>po_deny = DenyCategories [] [], po_contexts = [], po_users = [],
     po_roles = [(''admin'', \<lparr>rp_empty = False, rp_allow = [Eps], rp_deny = [], rp_approve = [],
       rp_inherits = None, rp_scope = ''all''\<rparr>)]\<rparr>"

lemma search_Eps: "search Eps s"
  by (rule match_at_search [of _ _ 0]) (simp_all add: match_at_def)

lemma sample_allows:
  "evaluate_tool_call sample_policies ''u'' ''admin'' ''chat_ui'' ''ls'' [] =
     Inr (role_decision ''allow'' (''Role policy allows (role: admin)'') LRole)"
  by (simp add: evaluate_tool_call_def check_deny_list_def check_context_def check_user_def
      effective_role_def find_role_def check_role_def hits_any_def matches_def sample_policies_def search_Eps Let_def)

lemma allow_needs_permission_witness: "\<not> denied sample_policies ''ls''"
  using allow_needs_permission [OF sample_allows] by (simp add: role_decision_def)

lemma intercept_loop_parts:
  assumes "intercept_loop f tcs acc = Inr r"
  shows "it_allowed r = it_allowed acc @ filter (\<lambda>tc. \<exists>q. f tc = Inr q \<and> tr_allowed q) tcs \<and>
    map fst (it_approval r) = map fst (it_approval acc) @
      filter (\<lambda>tc. \<exists>q. f tc = Inr q \<and> \<not> tr_allowed q \<and> tr_approval q) tcs \<and>
    map fst (it_blocked r) = map fst (it_blocked acc) @
      filter (\<lambda>tc. \<exists>q. f tc = Inr q \<and> \<not> tr_allowed q \<and> \<not> tr_approval q) tcs \<and>
    it_total r = it_total acc"
  using assms
proof (induction tcs arbitrary: acc)
  case (Cons tc tcs)
  from Cons.prems obtain q where "f tc = Inr q" by (auto split: sum.splits)
  with Cons show ?case by (cases "tr_allowed q"; cases "tr_approval q") fastforce+
qed simp

lemma intercept_loop_ok:
  "intercept_loop f tcs acc = Inr r \<Longrightarrow> tc \<in> set tcs \<Longrightarrow> \<exists>q. f tc = Inr q"
  by (induction tcs arbitrary: acc) (auto split: sum.splits)

text \<open>
  Interception sorts the tool calls of a response into three lists without losing, repeating
  or reordering any: every call that passes was decided as an allow, so no tool on the
  deny list is among them, and the three lists together have as many calls as the response.
\<close>
theorem interception_partitions:
  assumes "intercept_tool_calls po loads user role ctx tcs = Inr r"
  shows "it_allowed r = filter (\<lambda>tc. \<exists>q. intercept_tool_call po loads user role ctx tc = Inr q \<and> tr_allowed q) tcs \<and>
    (\<forall>tc \<in> set (it_allowed r). \<not> denied po (case tc_name tc of None \<Rightarrow> ''unknown'' | Some n \<Rightarrow> n)) \<and>
    length (it_allowed r) + length (it_approval r) + length (it_blocked r) = length tcs \<and>
    it_total r = length tcs"
proof -
  let ?f = "intercept_tool_call po loads user role ctx"
  let ?A = "\<lambda>tc. \<exists>q. ?f tc = Inr q \<and> tr_allowed q"
  let ?P = "\<lambda>tc. \<exists>q. ?f tc = Inr q \<and> \<not> tr_allowed q \<and> tr_approval q"
  let ?B = "\<lambda>tc. \<exists>q. ?f tc = Inr q \<and> \<not> tr_allowed q \<and> \<not> tr_approval q"
  from assms have loop: "intercept_loop ?f tcs \<lparr>it_allowed = [], it_blocked = [], it_approval = [], it_total = length tcs\<rparr> = Inr r"
    by (simp add: intercept_tool_calls_def)
  note parts = intercept_loop_parts [OF this, simplified]
  have one: "?A tc \<and> \<not> ?P tc \<and> \<not> ?B tc \<or> \<not> ?A tc \<and> ?P tc \<and> \<not> ?B tc \<or> \<not> ?A tc \<and> \<not> ?P tc \<and> ?B tc"
    if "tc \<in> set tcs" for tc
    using intercept_loop_ok [OF loop that] by auto
  have "length (filter ?A tcs) + length (filter ?P tcs) + length (filter ?B tcs) = length tcs"
    using one by (rule filter_partition3)
  with parts have "length (it_allowed r) + length (it_approval r) + length (it_blocked r) = length tcs"
    by (metis length_map)
  moreover have "\<not> denied po (case tc_name tc of None \<Rightarrow> ''unknown'' | Some n \<Rightarrow> n)" if "?A tc" for tc
  proof -
    let ?n = "case tc_name tc of None \<Rightarrow> ''unknown'' | Some n \<Rightarrow> n"
    from that obtain t d where "evaluate_tool_call po user role ctx ?n t = Inr d" "de_effect d = ''allow''"
      by (auto simp: intercept_tool_call_def Let_def split: sum.splits)
    then show ?thesis
      using check_deny_list_effect by (cases "check_deny_list (po_deny po) ?n")
        (auto simp: evaluate_tool_call_def check_deny_list_None)
  qed
  ultimately show ?thesis using parts by auto
qed

lemma interception_partitions_witness:
  "\<exists>r. intercept_tool_calls sample_policies (\<lambda>_. ArgsDict []) ''u'' ''admin'' ''chat_ui''
      [\<lparr>tc_id = ''1'', tc_name = Some ''ls'', tc_arguments = ''{}''\<rparr>] = Inr r \<and> it_total r = 1"
proof -
  have "\<exists>r. intercept_tool_calls sample_policies (\<lambda>_. ArgsDict []) ''u'' ''admin'' ''chat_ui''
      [\<lparr>tc_id = ''1'', tc_name = Some ''ls'', tc_arguments = ''{}''\<rparr>] = Inr r"
    by (simp add: intercept_tool_calls_def intercept_tool_call_def call_target_def sample_allows)
  then show ?thesis using interception_partitions by fastforce
qed

text \<open>
  Without a policy file there is no default denial: when the file cannot be loaded, every
  tool call that reaches the roles raises an \<open>AttributeError\<close>, for every user, role, context
  and tool, instead of the documented block.
\<close>
theorem missing_policies_raise:
  "evaluate_tool_call (load_policies None) user role ctx tool target = Inl AttributeError"
  by (simp add: load_policies_def evaluate_tool_call_def check_deny_list_def check_context_def
      check_user_def effective_role_def find_role_def Let_def)

end
