(* ===== verification/Safety_Pipeline.thy ===== *)
theory Safety_Pipeline
  imports Py_Prelude Interfaces
begin

text \<open>
  The request path of the gateway: canary tokens (\<open>services/gateway/app/routers/canary.py\<close>),
  the team budget check (\<open>services/shared/quota_enforcer.py\<close>), the guardrail checks
  (\<open>services/gateway/app/safety/pipeline.py\<close>) and the service that orchestrates one chat request
  (\<open>safety/pipeline_service.py\<close>).

  The safety provider, the model provider, the database and the cache are parameters collected
  in a record: what each call returns or raises. Calls that leave the process are recorded in a
  list of effects, in order, so that statements about what happens before what can be made.
\<close>

section \<open>Canary tokens (routers/canary.py)\<close>

record canary_row =
  cn_id :: string
  cn_label :: string
  cn_hash :: string
  cn_active :: bool

record canary_state =
  cs_rows :: "canary_row list"
  cs_cache :: "(string, string) pydict" \<comment> \<open>\<open>_TOKEN_CACHE\<close>: hash to label\<close>
  cs_loaded :: bool

record canary_alert =
  ca_hash :: string
  ca_label :: string
  ca_text :: string

definition load_cache :: "canary_state \<Rightarrow> canary_state" where
  "load_cache s =
     (if cs_loaded s then s
      else s\<lparr>cs_cache := foldl (\<lambda>d r. dict_set (cn_hash r) (cn_label r) d) (cs_cache s)
               (filter cn_active (cs_rows s)),
             cs_loaded := True\<rparr>)"

definition alert_for :: "string \<Rightarrow> string \<Rightarrow> string \<Rightarrow> canary_alert" where
  "alert_for h lbl text = \<lparr>ca_hash = h, ca_label = lbl, ca_text = take 200 text\<rparr>"

definition check_canary :: "string \<Rightarrow> canary_state \<Rightarrow> canary_alert option \<times> canary_state" where
  "check_canary text s =
     (let s = load_cache s
      in if cs_cache s = [] then (None, s)
         else case find (\<lambda>(h, l). substr h text) (cs_cache s) of
           Some (h, l) \<Rightarrow> (Some (alert_for h l text), s)
         | None \<Rightarrow>
             (case find (\<lambda>r. cn_active r \<and> substr (cn_hash r) text) (cs_rows s) of
                Some r \<Rightarrow> (Some (alert_for (cn_hash r) (cn_label r) text),
                           s\<lparr>cs_cache := dict_set (cn_hash r) (cn_label r) (cs_cache s)\<rparr>)
              | None \<Rightarrow> (None, s)))"

definition create_token ::
  "(string \<Rightarrow> string) \<Rightarrow> string \<Rightarrow> string \<Rightarrow> string \<Rightarrow> string \<Rightarrow> canary_state \<Rightarrow> py_error + canary_state" where
  \<comment> \<open>digest function, role of the caller, id, label and the generated value\<close>
  "create_token sha role i label val s =
     (if role \<noteq> ''admin'' then Inl (HTTPException 403 ''Admin only'')
      else let h = sha val
           in Inr (s\<lparr>cs_rows := cs_rows s @ [\<lparr>cn_id = i, cn_label = label, cn_hash = h, cn_active = True\<rparr>],
                     cs_cache := dict_set h label (cs_cache s)\<rparr>))"

definition revoke_token :: "string \<Rightarrow> string \<Rightarrow> canary_state \<Rightarrow> py_error + canary_state" where
  "revoke_token role i s =
     (if role \<noteq> ''admin'' then Inl (HTTPException 403 ''Admin only'')
      else if i \<notin> cn_id ` set (cs_rows s) then Inl (HTTPException 404 ''Token not found'')
      else Inr (s\<lparr>cs_rows := map (\<lambda>r. if cn_id r = i then r\<lparr>cn_active := False\<rparr> else r) (cs_rows s),
                  cs_cache := [], cs_loaded := False\<rparr>))"

datatype canary_op =
    CCheck string
  | CCreate string string string string
  | CRevoke string string

fun canary_step :: "(string \<Rightarrow> string) \<Rightarrow> canary_state \<Rightarrow> canary_op \<Rightarrow> canary_state" where
  "canary_step sha s (CCheck text) = snd (check_canary text s)"
| "canary_step sha s (CCreate role i label val) =
     (case create_token sha role i label val s of Inl _ \<Rightarrow> s | Inr s' \<Rightarrow> s')"
| "canary_step sha s (CRevoke role i) = (case revoke_token role i s of Inl _ \<Rightarrow> s | Inr s' \<Rightarrow> s')"

definition active_hashes :: "canary_state \<Rightarrow> string set" where
  "active_hashes s = cn_hash ` set (filter cn_active (cs_rows s))"

definition cache_ok :: "canary_state \<Rightarrow> bool" where
  \<comment> \<open>the cache holds hashes of active tokens only, and all of them once it is loaded\<close>
  "cache_ok s \<longleftrightarrow> fst ` set (cs_cache s) \<subseteq> active_hashes s \<and>
     (cs_loaded s \<longrightarrow> active_hashes s \<subseteq> fst ` set (cs_cache s))"

lemma keys_foldl_set:
  "fst ` set (foldl (\<lambda>d r. dict_set (f r) (g r) d) d rs) = fst ` set d \<union> f ` set rs"
  by (induction rs arbitrary: d) auto

lemma load_cache_ok: "cache_ok s \<Longrightarrow> cache_ok (load_cache s) \<and> cs_loaded (load_cache s) \<and>
    active_hashes (load_cache s) = active_hashes s \<and> fst ` set (cs_cache (load_cache s)) = active_hashes s"
proof -
  assume ok: "cache_ok s"
  have rows: "active_hashes (load_cache s) = active_hashes s"
    by (simp add: load_cache_def active_hashes_def)
  moreover have "fst ` set (cs_cache (load_cache s)) = active_hashes s"
  proof (cases "cs_loaded s")
    case True
    with ok show ?thesis unfolding cache_ok_def load_cache_def by auto
  next
    case False
    then have "fst ` set (cs_cache (load_cache s)) = fst ` set (cs_cache s) \<union> active_hashes s"
      unfolding load_cache_def active_hashes_def by (simp add: keys_foldl_set del: set_filter)
    with ok show ?thesis unfolding cache_ok_def by blast
  qed
  moreover have "cs_loaded (load_cache s)" by (simp add: load_cache_def)
  ultimately show ?thesis unfolding cache_ok_def by blast
qed

lemma check_canary_ok: "cache_ok s \<Longrightarrow> cache_ok (snd (check_canary text s))"
proof -
  assume ok: "cache_ok s"
  define t where "t = load_cache s"
  have t: "cache_ok t" "cs_loaded t" using load_cache_ok [OF ok] by (simp_all add: t_def)
  have "cache_ok (t\<lparr>cs_cache := dict_set (cn_hash r) (cn_label r) (cs_cache t)\<rparr>)"
    if "find (\<lambda>r. cn_active r \<and> substr (cn_hash r) text) (cs_rows t) = Some r" for r
    using t find_SomeD [OF that] by (auto simp: cache_ok_def active_hashes_def)
  moreover have "snd (check_canary text s) = t \<or> (\<exists>r. find (\<lambda>r. cn_active r \<and> substr (cn_hash r) text) (cs_rows t) = Some r \<and>
      snd (check_canary text s) = t\<lparr>cs_cache := dict_set (cn_hash r) (cn_label r) (cs_cache t)\<rparr>)"
    unfolding check_canary_def t_def [symmetric] Let_def
    by (simp split: option.split prod.split)
  ultimately show ?thesis using t by metis
qed

interpretation canary_run: run_invariant "canary_step sha" "\<lambda>s e. True" cache_ok for sha
proof unfold_locales
  fix s e assume ok: "cache_ok s"
  show "cache_ok (canary_step sha s e)"
  proof (cases e)
    case (CCheck tx)
    with check_canary_ok [OF ok] show ?thesis by simp
  next
    case (CCreate role i label val)
    show ?thesis
    proof (cases "role = ''admin''")
      case True
      let ?s = "canary_step sha s e"
      have "active_hashes ?s = insert (sha val) (active_hashes s)"
        "fst ` set (cs_cache ?s) = insert (sha val) (fst ` set (cs_cache s))" "cs_loaded ?s = cs_loaded s"
        using CCreate True by (simp_all add: create_token_def active_hashes_def Let_def del: set_filter)
      with ok show ?thesis unfolding cache_ok_def by blast
    qed (use ok CCreate in \<open>simp add: create_token_def\<close>)
  next
    case (CRevoke role i)
    with ok show ?thesis by (auto simp: revoke_token_def cache_ok_def)
  qed
qed

text \<open>
  After any sequence of checks, token creations and revocations, a text raises an alert
  exactly when it contains the digest of a token that is active then: a revoked token is no longer
  looked for, and a new one is at once.
\<close>
theorem canary_alert_iff:
  assumes "s = foldl (canary_step sha) \<lparr>cs_rows = rows, cs_cache = [], cs_loaded = False\<rparr> ops"
  shows "fst (check_canary text s) \<noteq> None \<longleftrightarrow> (\<exists>h \<in> active_hashes s. substr h text)"
proof -
  have "cache_ok \<lparr>cs_rows = rows, cs_cache = [], cs_loaded = False\<rparr>" by (simp add: cache_ok_def)
  then have "cache_ok s" unfolding assms by (rule canary_run.run_inv_always) simp
  define t where "t = load_cache s"
  have t: "fst ` set (cs_cache t) = active_hashes s"
    using load_cache_ok [OF \<open>cache_ok s\<close>] by (simp add: t_def)
  show ?thesis
  proof (cases "find (\<lambda>(h, l). substr h text) (cs_cache t)")
    case None
    then have "\<not> (\<exists>h \<in> active_hashes s. substr h text)"
      unfolding t [symmetric] find_None_iff by force
    moreover from this have "find (\<lambda>r. cn_active r \<and> substr (cn_hash r) text) (cs_rows t) = None"
      by (auto simp: find_None_iff active_hashes_def t_def load_cache_def)
    ultimately show ?thesis using None by (simp add: check_canary_def Let_def t_def [symmetric])
  next
    case (Some p)
    obtain h l where p: "p = (h, l)" by (cases p)
    with find_SomeD [OF Some] have "(h, l) \<in> set (cs_cache t)" "substr h text" by auto
    moreover from this t have "h \<in> active_hashes s" by force
    moreover have "cs_cache t \<noteq> []" using \<open>(h, l) \<in> set (cs_cache t)\<close> by auto
    ultimately show ?thesis using Some p by (auto simp: check_canary_def Let_def t_def [symmetric])
  qed
qed

lemma canary_alert_iff_witness:
  "fst (check_canary ''leak: h-v'' (foldl (canary_step (\<lambda>v. ''h-'' @ v))
     \<lparr>cs_rows = [], cs_cache = [], cs_loaded = False\<rparr> [CCreate ''admin'' ''1'' ''l'' ''v''])) \<noteq> None"
  by (subst canary_alert_iff [OF refl])
    (simp add: create_token_def active_hashes_def Let_def sublist_code)

text \<open>
  The secret itself is not looked for. When an administrator creates a token with value \<open>val\<close>,
  a text that contains \<open>val\<close> (and not the digest of \<open>val\<close>) raises no alert.
\<close>
theorem leaked_value_missed:
  assumes "create_token sha ''admin'' i label val \<lparr>cs_rows = [], cs_cache = [], cs_loaded = False\<rparr> = Inr s"
    and "text = pre @ val @ post" "\<not> substr (sha val) text"
  shows "fst (check_canary text s) = None"
proof -
  have "s = \<lparr>cs_rows = [\<lparr>cn_id = i, cn_label = label, cn_hash = sha val, cn_active = True\<rparr>],
      cs_cache = [(sha val, label)], cs_loaded = False\<rparr>"
    using assms(1) by (simp add: create_token_def Let_def)
  with assms(3) show ?thesis by (simp add: check_canary_def load_cache_def Let_def)
qed

lemma leaked_value_missed_witness:
  "\<exists>s. create_token (\<lambda>v. ''h-'' @ v) ''admin'' ''1'' ''l'' ''pg_canary_1''
      \<lparr>cs_rows = [], cs_cache = [], cs_loaded = False\<rparr> = Inr s \<and>
    fst (check_canary (''key '' @ ''pg_canary_1'' @ [] ) s) = None"
proof -
  obtain s where s: "create_token (\<lambda>v. ''h-'' @ v) ''admin'' ''1'' ''l'' ''pg_canary_1''
      \<lparr>cs_rows = [], cs_cache = [], cs_loaded = False\<rparr> = Inr s"
    by (simp add: create_token_def Let_def)
  from leaked_value_missed [OF s refl, of "''key ''" "[]"] s show ?thesis
    by (auto simp: sublist_code)
qed

section \<open>Team budgets (shared/quota_enforcer.py)\<close>

record budget_row =
  bu_monthly :: pyfloat
  bu_spent :: pyfloat
  bu_hard :: bool

datatype quota_reason =
    NoBudget
  | BudgetExceeded pyfloat pyfloat
  | PercentUsed pyfloat
  | QuotaUnavailable

record quota =
  qu_allowed :: bool
  qu_reason :: quota_reason
  qu_remaining :: "pyfloat option"
  qu_percent :: "pyfloat option"

definition check_quota :: "(string \<Rightarrow> py_error + budget_row option) \<Rightarrow> string \<Rightarrow> quota" where
  \<comment> \<open>the first argument is the query of \<open>team_budgets\<close>; every exception is caught\<close>
  "check_quota fetch team = (case fetch team of
     Inl e \<Rightarrow> \<lparr>qu_allowed = True, qu_reason = QuotaUnavailable, qu_remaining = None, qu_percent = None\<rparr>
   | Inr None \<Rightarrow> \<lparr>qu_allowed = True, qu_reason = NoBudget, qu_remaining = None, qu_percent = None\<rparr>
   | Inr (Some b) \<Rightarrow>
       (let percent = (if 0 < bu_monthly b then bu_spent b / bu_monthly b * 100 else 0)
        in if bu_hard b \<and> bu_monthly b \<le> bu_spent b
           then \<lparr>qu_allowed = False, qu_reason = BudgetExceeded (bu_spent b) (bu_monthly b),
                 qu_remaining = Some 0, qu_percent = Some (py_round percent 1)\<rparr>
           else \<lparr>qu_allowed = True, qu_reason = PercentUsed percent,
                 qu_remaining = Some (max 0 (bu_monthly b - bu_spent b)), qu_percent = Some (py_round percent 1)\<rparr>))"

section \<open>Guardrail checks (safety/pipeline.py)\<close>

record toxicity = tx_toxic :: bool  tx_score :: pyfloat  tx_reason :: "string option"

record pii = pi_detected :: bool  pi_types :: "string list"

record injection = in_detected :: bool  in_score :: pyfloat  in_patterns :: nat
  in_category :: "string option"  in_severity :: "string option"

record safety_provider =
  sp_toxicity :: "string \<Rightarrow> py_error + toxicity"
  sp_pii :: "string \<Rightarrow> py_error + pii"
  sp_redact :: "string \<Rightarrow> py_error + string"
  sp_injection :: "string \<Rightarrow> py_error + injection"
  sp_hallucination :: "string \<Rightarrow> string \<Rightarrow> py_error + bool \<times> pyfloat"

record guard_check =
  gk_toxic :: bool
  gk_toxic_score :: pyfloat
  gk_reason :: "string option"
  gk_pii :: bool
  gk_pii_types :: "string list"
  gk_injection :: bool
  gk_injection_score :: pyfloat
  gk_injection_matches :: nat
  gk_category :: "string option"
  gk_severity :: "string option"
  gk_blocklisted :: bool
  gk_canary :: "string option"
  gk_redacted :: string

definition is_blocklisted :: "string list \<Rightarrow> string \<Rightarrow> bool" where
  "is_blocklisted words text \<longleftrightarrow> words \<noteq> [] \<and> list_ex (\<lambda>w. substr w (lower text)) words"

definition run_input_guardrails ::
  "safety_provider \<Rightarrow> string list \<Rightarrow> (string \<Rightarrow> py_error + string option) \<Rightarrow> string \<Rightarrow> py_error + guard_check" where
  \<comment> \<open>\<open>canary\<close>: the label of the alert, if any; its exceptions are caught\<close>
  "run_input_guardrails sp words canary text =
     (case sp_toxicity sp text of Inl e \<Rightarrow> Inl e
      | Inr tox \<Rightarrow> (case sp_pii sp text of Inl e \<Rightarrow> Inl e
      | Inr p \<Rightarrow> (case sp_redact sp text of Inl e \<Rightarrow> Inl e
      | Inr red \<Rightarrow> (case sp_injection sp text of Inl e \<Rightarrow> Inl e
      | Inr ij \<Rightarrow> Inr
          \<lparr>gk_toxic = tx_toxic tox, gk_toxic_score = tx_score tox, gk_reason = tx_reason tox,
           gk_pii = pi_detected p, gk_pii_types = pi_types p,
           gk_injection = in_detected ij, gk_injection_score = py_round (in_score ij) 2,
           gk_injection_matches = in_patterns ij, gk_category = in_category ij, gk_severity = in_severity ij,
           gk_blocklisted = is_blocklisted words text,
           gk_canary = (case canary text of Inl e \<Rightarrow> None | Inr c \<Rightarrow> c),
           gk_redacted = (if red = [] then text else red)\<rparr>))))"

section \<open>SafetyPipelineService.run (safety/pipeline_service.py)\<close>

record provider_response =
  rs_text :: string
  rs_input_tokens :: int
  rs_output_tokens :: int

record chat_request =
  \<comment> \<open>the fields of \<open>ProviderRequest\<close> that the pipeline itself reads or sets; the adapter also sends the
     others (messages, temperature and so on): the provider of a run is the adapter applied to the
     whole request (\<open>run_full_pipeline\<close>)\<close>
  cq_prompt :: string
  cq_model :: string
  cq_api_key :: string

record gateway_env =
  ge_safety :: safety_provider
  ge_words :: "string list"
  ge_canary :: "string \<Rightarrow> py_error + string option"
  ge_budget :: "string \<Rightarrow> py_error + budget_row option"
  ge_chat :: "chat_request \<Rightarrow> py_error + provider_response"
  ge_repo_ok :: bool

datatype effect =
    RecordTrace bool bool bool bool \<comment> \<open>toxic, PII, blocklisted, injection\<close>
  | ProviderCall chat_request
  | RecordUsage string string int int
  | InvalidateCache
  | Audit string string \<comment> \<open>action and reason\<close>

record safety_summary =
  ss_input :: guard_check
  ss_output :: guard_check
  ss_hallucinated :: bool
  ss_confidence :: pyfloat

record chat_response =
  cp_text :: string
  cp_model :: string
  cp_provider :: string
  cp_safety :: safety_summary
  cp_team :: string
  cp_quota :: quota

definition record_trace :: "gateway_env \<Rightarrow> guard_check \<Rightarrow> effect list" where
  \<comment> \<open>a failing insert is logged and ignored\<close>
  "record_trace env g =
     (if ge_repo_ok env then [RecordTrace (gk_toxic g) (gk_pii g) (gk_blocklisted g) (gk_injection g)] else [])"

definition flagged_input :: "guard_check \<Rightarrow> bool" where
  "flagged_input g \<longleftrightarrow> gk_toxic g \<or> gk_pii g \<or> gk_injection g"

definition flagged_output :: "guard_check \<Rightarrow> bool" where
  "flagged_output g \<longleftrightarrow> gk_toxic g \<or> gk_pii g \<or> gk_blocklisted g \<or> gk_injection g"

definition result_trace :: "gateway_env \<Rightarrow> guard_check \<Rightarrow> guard_check \<Rightarrow> effect list" where
  "result_trace env i out =
     (if flagged_input i then record_trace env i
      else if flagged_output out then record_trace env out else [])"

datatype caller =
    Anonymous \<comment> \<open>\<open>current_user\<close> is \<open>None\<close>\<close>
  | Caller "string option" \<comment> \<open>the field \<open>sub\<close> of its dictionary, if there is one\<close>

definition usage_effect :: "caller \<Rightarrow> string \<Rightarrow> provider_response \<Rightarrow> effect list" where
  \<comment> \<open>without a user the exception of \<open>current_user.get\<close> is caught and nothing is recorded\<close>
  "usage_effect user team resp = (case user of
     Anonymous \<Rightarrow> []
   | Caller sub \<Rightarrow> [RecordUsage (case sub of None \<Rightarrow> ''system'' | Some u \<Rightarrow> u) team (rs_input_tokens resp) (rs_output_tokens resp)])"

definition team_for :: "string option \<Rightarrow> caller \<Rightarrow> string option" where
  \<comment> \<open>the team of the middleware, else the user's; \<open>None\<close> for an \<open>AttributeError\<close>\<close>
  "team_for state_team user = (case state_team of
     Some (c # s) \<Rightarrow> Some (c # s)
   | _ \<Rightarrow> (case user of Anonymous \<Rightarrow> None | Caller sub \<Rightarrow> Some (case sub of None \<Rightarrow> ''default'' | Some u \<Rightarrow> u)))"

definition finish_chat ::
  "gateway_env \<Rightarrow> string \<Rightarrow> chat_request \<Rightarrow> caller \<Rightarrow> string \<Rightarrow> quota \<Rightarrow> guard_check \<Rightarrow> provider_response \<Rightarrow>
   (py_error + chat_response) \<times> effect list" where
  \<comment> \<open>from the recording of the usage to the response\<close>
  "finish_chat env provider req user team q inp resp =
     (let usage = usage_effect user team resp
      in case run_input_guardrails (ge_safety env) (ge_words env) (ge_canary env) (rs_text resp) of
           Inl e \<Rightarrow> (Inl e, usage)
         | Inr out \<Rightarrow>
             (let h = (case sp_hallucination (ge_safety env) (rs_text resp) (cq_prompt req) of
                         Inl e \<Rightarrow> (False, 0) | Inr v \<Rightarrow> v)
              in (Inr \<lparr>cp_text = (if gk_blocklisted out then gk_redacted out else rs_text resp),
                       cp_model = cq_model req, cp_provider = provider,
                       cp_safety = \<lparr>ss_input = inp, ss_output = out, ss_hallucinated = fst h, ss_confidence = snd h\<rparr>,
                       cp_team = team, cp_quota = q\<rparr>,
                  usage @ result_trace env inp out @ [InvalidateCache, Audit ''chat_completed'' ''''])))"

definition run_chat ::
  "gateway_env \<Rightarrow> string \<Rightarrow> chat_request \<Rightarrow> string option \<Rightarrow> caller \<Rightarrow> string option \<Rightarrow>
   (py_error + chat_response) \<times> effect list" where
  \<comment> \<open>\<open>SafetyPipelineService.run\<close> on the normalised request: provider name, request, key of the
     organisation, user and the team set by the middleware\<close>
  "run_chat env provider req0 key user state_team =
     (let req = (case key of Some (c # s) \<Rightarrow> req0\<lparr>cq_api_key := c # s\<rparr> | _ \<Rightarrow> req0)
      in case run_input_guardrails (ge_safety env) (ge_words env) (ge_canary env) (cq_prompt req) of
           Inl e \<Rightarrow> (Inl e, [])
         | Inr inp \<Rightarrow>
             if gk_blocklisted inp \<or> gk_injection inp
             then
               (case user of
                  Anonymous \<Rightarrow> (Inl AttributeError, record_trace env inp)
                | Caller sub \<Rightarrow> (Inl (HTTPException 403 (''Input blocked by safety policy. Reason: '' @
                    (if gk_blocklisted inp then ''blocklisted word'' else ''prompt injection detected'') @ ''.'')),
                   record_trace env inp @ [Audit ''chat_blocked'' (if gk_blocklisted inp then ''blocklist'' else ''injection'')]))
             else
               (case team_for state_team user of
                  None \<Rightarrow> (Inl AttributeError, [])
                | Some team \<Rightarrow>
                    let q = check_quota (ge_budget env) team
                    in if \<not> qu_allowed q then (Inl (HTTPException 402 ''Budget exceeded''), [])
                       else case ge_chat env req of
                         Inl e \<Rightarrow> (Inl (HTTPException 502 ''LLM provider error''), [ProviderCall req])
                       | Inr resp \<Rightarrow>
                           (let (r, es) = finish_chat env provider req user team q inp resp in (r, ProviderCall req # es))))"

section \<open>Properties\<close>

definition calls_provider :: "effect list \<Rightarrow> bool" where
  "calls_provider es \<longleftrightarrow> (\<exists>r. ProviderCall r \<in> set es)"

abbreviation "checks env \<equiv> run_input_guardrails (ge_safety env) (ge_words env) (ge_canary env)"

lemma request_prompt: "cq_prompt (case key of Some (c # s) \<Rightarrow> r\<lparr>cq_api_key := c # s\<rparr> | _ \<Rightarrow> r) = cq_prompt r"
  by (simp split: option.splits list.splits)

lemma no_provider_in_trace: "ProviderCall r \<notin> set (record_trace env g)"
  by (simp add: record_trace_def)

text \<open>
  C5: A prompt that the guardrails flag as blocklisted or as an injection never leaves the
  gateway: no model provider is called and no usage is recorded, and when the repository works a
  trace of it is stored. The request ends with status 403 and the rejection is audited if the caller
  is known; for an anonymous caller writing the audit entry raises.
\<close>
theorem blocked_prompt_stays:
  assumes "checks env (cq_prompt req) = Inr inp" "gk_blocklisted inp \<or> gk_injection inp"
  shows "\<exists>why. run_chat env provider req key user team =
      (if user = Anonymous then (Inl AttributeError, record_trace env inp)
       else (Inl (HTTPException 403 why), record_trace env inp @
          [Audit ''chat_blocked'' (if gk_blocklisted inp then ''blocklist'' else ''injection'')])) \<and>
    \<not> calls_provider (snd (run_chat env provider req key user team))"
  using assms by (cases user) (simp_all add: run_chat_def Let_def request_prompt calls_provider_def no_provider_in_trace)

text \<open>
  C6: No request is sent to a model provider for a team whose hard budget is used up: if the
  budget of the team can be read, is a hard one and its spend has reached it, the provider is not
  called, whatever the request is.
\<close>
theorem exhausted_budget_stops:
  assumes "team_for team user = Some t" "ge_budget env t = Inr (Some b)"
    and "bu_hard b" "bu_monthly b \<le> bu_spent b"
  shows "\<not> calls_provider (snd (run_chat env provider req key user team)) \<and>
    (\<exists>e. fst (run_chat env provider req key user team) = Inl e)"
proof -
  have "\<not> qu_allowed (check_quota (ge_budget env) t)"
    using assms by (simp add: check_quota_def Let_def)
  with assms(1) show ?thesis
    by (cases user) (simp_all add: run_chat_def Let_def calls_provider_def no_provider_in_trace split: sum.split)
qed

text \<open>
  C4: What a delivered response went through. The prompt passed the checks without a blocklist
  hit or an injection, the team was allowed to spend, the provider was called exactly once, as
  the first effect, and the completion is audited as the last one; the text is the provider's,
  or its redacted form if the output is blocklisted. No other finding on the output (toxicity,
  PII, injection, a canary, a hallucination) withholds or changes it.
\<close>
theorem delivered_response:
  assumes "run_chat env provider req key user team = (Inr r, es)"
  shows "\<exists>inp resp q0. checks env (cq_prompt req) = Inr inp \<and> \<not> gk_blocklisted inp \<and> \<not> gk_injection inp \<and>
      qu_allowed (cp_quota r) \<and> q0 = cp_quota r \<and>
      (\<exists>creq out rest. ge_chat env creq = Inr resp \<and> cq_prompt creq = cq_prompt req \<and>
         checks env (rs_text resp) = Inr out \<and>
         es = ProviderCall creq # rest @ [Audit ''chat_completed'' ''''] \<and> \<not> calls_provider rest \<and>
         cp_text r = (if gk_blocklisted out then gk_redacted out else rs_text resp))"
proof -
  let ?req = "case key of Some (c # s) \<Rightarrow> req\<lparr>cq_api_key := c # s\<rparr> | _ \<Rightarrow> req"
  obtain inp where inp: "checks env (cq_prompt req) = Inr inp" "\<not> gk_blocklisted inp" "\<not> gk_injection inp"
    using assms by (auto simp: run_chat_def Let_def request_prompt split: sum.splits if_splits caller.splits)
  then obtain t where t: "team_for team user = Some t"
    using assms by (auto simp: run_chat_def Let_def request_prompt split: option.splits)
  let ?q = "check_quota (ge_budget env) t"
  have q: "qu_allowed ?q" using assms inp t by (auto simp: run_chat_def Let_def request_prompt split: if_splits)
  obtain resp where resp: "ge_chat env ?req = Inr resp"
    using assms inp t q by (auto simp: run_chat_def Let_def request_prompt split: sum.splits)
  obtain es' where fin: "finish_chat env provider ?req user t ?q inp resp = (Inr r, es')"
    and es: "es = ProviderCall ?req # es'"
    using assms inp t q resp by (auto simp: run_chat_def Let_def request_prompt split: prod.splits)
  obtain out where out: "checks env (rs_text resp) = Inr out"
    using fin by (auto simp: finish_chat_def Let_def split: sum.splits)
  let ?rest = "usage_effect user t resp @ result_trace env inp out @ [InvalidateCache]"
  have "es' = ?rest @ [Audit ''chat_completed'' '''']" "cp_quota r = ?q"
    "cp_text r = (if gk_blocklisted out then gk_redacted out else rs_text resp)"
    using fin out by (auto simp: finish_chat_def Let_def)
  moreover have "\<not> calls_provider ?rest"
    by (cases user) (simp_all add: calls_provider_def usage_effect_def result_trace_def no_provider_in_trace)
  ultimately show ?thesis using inp q resp out es request_prompt [of req key] by metis
qed

definition sample_safety :: "bool \<Rightarrow> safety_provider" where
  "sample_safety hit = \<lparr>sp_toxicity = (\<lambda>t. Inr \<lparr>tx_toxic = False, tx_score = 0, tx_reason = None\<rparr>),
     sp_pii = (\<lambda>t. Inr \<lparr>pi_detected = False, pi_types = []\<rparr>), sp_redact = Inr,
     sp_injection = (\<lambda>t. Inr \<lparr>in_detected = hit, in_score = 0, in_patterns = 0, in_category = None, in_severity = None\<rparr>),
     sp_hallucination = (\<lambda>t p. Inr (False, 0))\<rparr>"

definition sample_env :: "bool \<Rightarrow> gateway_env" where
  "sample_env hit = \<lparr>ge_safety = sample_safety hit, ge_words = [], ge_canary = (\<lambda>t. Inr None),
     ge_budget = (\<lambda>t. Inr (if t = ''poor'' then Some \<lparr>bu_monthly = 10, bu_spent = 10, bu_hard = True\<rparr> else None)),
     ge_chat = (\<lambda>r. Inr \<lparr>rs_text = ''hi'', rs_input_tokens = 1, rs_output_tokens = 1\<rparr>), ge_repo_ok = True\<rparr>"

definition sample_request :: chat_request where
  "sample_request = \<lparr>cq_prompt = ''hello'', cq_model = ''m'', cq_api_key = ''''\<rparr>"

lemma sample_check: "\<exists>g. checks (sample_env hit) t = Inr g \<and> gk_injection g = hit \<and> \<not> gk_blocklisted g"
  by (simp add: sample_env_def run_input_guardrails_def sample_safety_def is_blocklisted_def)

lemma blocked_prompt_stays_witness:
  "\<not> calls_provider (snd (run_chat (sample_env True) ''openai'' sample_request None (Caller (Some ''u'')) None))"
proof -
  obtain g where "checks (sample_env True) (cq_prompt sample_request) = Inr g" "gk_injection g"
    using sample_check [of True "cq_prompt sample_request"] by auto
  with blocked_prompt_stays [of "sample_env True" sample_request g] show ?thesis by blast
qed

lemma exhausted_budget_stops_witness:
  "\<not> calls_provider (snd (run_chat (sample_env False) ''openai'' sample_request None (Caller (Some ''u'')) (Some ''poor'')))"
  using exhausted_budget_stops [where env = "sample_env False" and team = "Some ''poor''" and user = "Caller (Some ''u'')" and t = "''poor''" and b =
      "\<lparr>bu_monthly = 10, bu_spent = 10, bu_hard = True\<rparr>"]
  by (simp add: sample_env_def team_for_def)

lemma delivered_response_witness:
  "\<exists>r es. run_chat (sample_env False) ''openai'' sample_request None (Caller (Some ''u'')) None = (Inr r, es) \<and>
     qu_allowed (cp_quota r)"
proof -
  have "\<exists>r es. run_chat (sample_env False) ''openai'' sample_request None (Caller (Some ''u'')) None = (Inr r, es)"
    by (simp add: run_chat_def sample_env_def run_input_guardrails_def sample_safety_def is_blocklisted_def
        check_quota_def finish_chat_def sample_request_def Let_def team_for_def)
  then show ?thesis using delivered_response by blast
qed

end
