(* ===== verification/Circuit_Breaker.thy ===== *)
theory Circuit_Breaker
  imports Py_Prelude Interfaces
begin

text \<open>
  Calls between services, \<open>services/shared/circuit_breaker.py\<close>: the classification of failures, the
  bounded history with its pattern detection, the decorator and the convenience function.

  The \<open>circuitbreaker\<close> library is a parameter, a record of what the code uses of it: a new
  breaker, whether a breaker rejects a call at a time, and its state after a call. An exception
  is its type, its message and, for an HTTP error, the status. The metrics are counters by label.
\<close>

section \<open>Failures\<close>

datatype exn_kind =
    HTTPStatusError nat
  | TimeoutException
  | ConnectError
  | CircuitBreakerError
  | OtherError string

record exn =
  ex_kind :: exn_kind
  ex_message :: string

fun type_name :: "exn_kind \<Rightarrow> string" where
  "type_name (HTTPStatusError n) = ''HTTPStatusError''"
| "type_name TimeoutException = ''TimeoutException''"
| "type_name ConnectError = ''ConnectError''"
| "type_name CircuitBreakerError = ''CircuitBreakerError''"
| "type_name (OtherError s) = s"

fun status_of :: "exn_kind \<Rightarrow> nat option" where
  "status_of (HTTPStatusError n) = Some n"
| "status_of _ = None"

fun is_transient_failure :: "exn_kind \<Rightarrow> bool" where
  "is_transient_failure (HTTPStatusError n) = (n \<in> {502, 503, 504} \<or> n = 429)"
| "is_transient_failure TimeoutException = True"
| "is_transient_failure ConnectError = True"
| "is_transient_failure _ = False"

record diagnostic =
  dg_service :: string
  dg_type :: string
  dg_message :: string
  dg_duration :: pyfloat
  dg_time :: pyfloat
  dg_status :: "nat option"
  dg_transient :: bool

record diagnostics =
  di_history :: "diagnostic list"
  di_max :: nat

definition new_diagnostics :: "nat \<Rightarrow> diagnostics" where
  "new_diagnostics n = \<lparr>di_history = [], di_max = n\<rparr>"

definition diagnostic_of :: "string \<Rightarrow> exn \<Rightarrow> pyfloat \<Rightarrow> pyfloat \<Rightarrow> diagnostic" where
  "diagnostic_of service e duration now =
     \<lparr>dg_service = service, dg_type = type_name (ex_kind e), dg_message = take 200 (ex_message e),
      dg_duration = py_round duration 2, dg_time = now, dg_status = status_of (ex_kind e),
      dg_transient = is_transient_failure (ex_kind e)\<rparr>"

definition push_diagnostic :: "diagnostics \<Rightarrow> diagnostic \<Rightarrow> diagnostics" where
  "push_diagnostic d x =
     (let h = di_history d @ [x]
      in d\<lparr>di_history := (if di_max d < length h then tl h else h)\<rparr>)"

definition recent_failures :: "diagnostics \<Rightarrow> string \<Rightarrow> nat \<Rightarrow> diagnostic list" where
  "recent_failures d service n = take_last n (filter (\<lambda>f. dg_service f = service) (di_history d))"

definition truthy_statuses :: "diagnostic list \<Rightarrow> nat list" where
  \<comment> \<open>the set of the status codes that are neither missing nor 0\<close>
  "truthy_statuses fs = remdups (filter (\<lambda>n. n \<noteq> 0) (concat (map (\<lambda>f. case dg_status f of None \<Rightarrow> [] | Some n \<Rightarrow> [n]) fs)))"

definition detect_pattern :: "diagnostics \<Rightarrow> string \<Rightarrow> bool" where
  "detect_pattern d service =
     (let recent = recent_failures d service 5
      in if length recent < 5 then False
         else truthy_statuses recent \<in> {[400], [401], [403], [404]})"

definition record_failure :: "string \<Rightarrow> exn \<Rightarrow> pyfloat \<Rightarrow> pyfloat \<Rightarrow> diagnostics \<Rightarrow> bool \<times> diagnostics" where
  \<comment> \<open>also tells whether the critical pattern message is logged\<close>
  "record_failure service e duration now d =
     (let d' = push_diagnostic d (diagnostic_of service e duration now) in (detect_pattern d' service, d'))"

section \<open>Guarded calls\<close>

record 'b breaker_lib =
  bl_new :: "nat \<Rightarrow> nat \<Rightarrow> 'b" \<comment> \<open>threshold and recovery timeout\<close>
  bl_rejects :: "'b \<Rightarrow> pyfloat \<Rightarrow> bool"
  bl_after :: "'b \<Rightarrow> pyfloat \<Rightarrow> exn_kind option \<Rightarrow> 'b" \<comment> \<open>the failure that counts, if any\<close>

record metrics =
  me_failures :: "(string \<times> string \<times> nat) list"
  me_durations :: "(string \<times> string) list"

record module_state =
  ms_diag :: diagnostics
  ms_metrics :: metrics

datatype 'r call_result = Returned 'r | Raised exn

record 'r attempt =
  \<comment> \<open>what calling the service would give, and the times before and after\<close>
  at_result :: "'r call_result"
  at_start :: pyfloat
  at_end :: pyfloat

definition through_breaker :: "'b breaker_lib \<Rightarrow> 'b \<Rightarrow> 'r attempt \<Rightarrow> 'r call_result \<times> 'b" where
  \<comment> \<open>the wrapped function; \<open>expected_exception=is_transient_failure\<close>\<close>
  "through_breaker lib b a =
     (if bl_rejects lib b (at_start a) then (Raised \<lparr>ex_kind = CircuitBreakerError, ex_message = ''''\<rparr>, b)
      else (at_result a, bl_after lib b (at_end a)
        (case at_result a of Raised e \<Rightarrow> if is_transient_failure (ex_kind e) then Some (ex_kind e) else None
         | Returned _ \<Rightarrow> None)))"

definition count_failure :: "string \<Rightarrow> exn_kind \<Rightarrow> metrics \<Rightarrow> metrics" where
  "count_failure service k m = m\<lparr>me_failures := me_failures m @
     [(service, type_name k, case status_of k of None \<Rightarrow> 0 | Some n \<Rightarrow> n)]\<rparr>"

definition observe :: "string \<Rightarrow> string \<Rightarrow> metrics \<Rightarrow> metrics" where
  "observe service status m = m\<lparr>me_durations := me_durations m @ [(service, status)]\<rparr>"

definition note_failure :: "string \<Rightarrow> exn \<Rightarrow> 'r attempt \<Rightarrow> module_state \<Rightarrow> module_state" where
  "note_failure service e a ms =
     ms\<lparr>ms_diag := snd (record_failure service e ((at_end a - at_start a) * 1000) (at_end a) (ms_diag ms)),
        ms_metrics := observe service ''error'' (count_failure service (ex_kind e) (ms_metrics ms))\<rparr>"

definition service_circuit_call ::
  "'b breaker_lib \<Rightarrow> string \<Rightarrow> 'b \<Rightarrow> module_state \<Rightarrow> 'r attempt \<Rightarrow> 'r call_result \<times> 'b \<times> module_state" where
  \<comment> \<open>one call of the wrapper: the decorator's breaker is kept between calls\<close>
  "service_circuit_call lib service b ms a =
     (case through_breaker lib b a of
        (Returned r, b') \<Rightarrow> (Returned r, b', ms\<lparr>ms_metrics := observe service ''success'' (ms_metrics ms)\<rparr>)
      | (Raised e, b') \<Rightarrow> (Raised e, b', note_failure service e a ms))"

definition call_with_circuit_breaker ::
  "'b breaker_lib \<Rightarrow> string \<Rightarrow> nat \<Rightarrow> nat \<Rightarrow> module_state \<Rightarrow> 'r attempt \<Rightarrow> 'r call_result \<times> module_state" where
  \<comment> \<open>a breaker is created for the call and dropped after it\<close>
  "call_with_circuit_breaker lib service threshold recovery ms a =
     (case fst (through_breaker lib (bl_new lib threshold recovery) a) of
        Returned r \<Rightarrow> (Returned r, ms\<lparr>ms_metrics := observe service ''success'' (ms_metrics ms)\<rparr>)
      | Raised e \<Rightarrow>
          if ex_kind e = CircuitBreakerError
          then (Raised e, ms\<lparr>ms_metrics := observe service ''circuit_open''
                  (count_failure service CircuitBreakerError (ms_metrics ms))\<rparr>)
          else (Raised e, note_failure service e a ms))"

section \<open>Properties\<close>

lemma push_take_last:
  "length (di_history d) \<le> di_max d \<Longrightarrow>
   di_history (push_diagnostic d x) = take_last (di_max d) (di_history d @ [x])"
  by (cases "di_history d") (auto simp: push_diagnostic_def take_last_def Let_def drop_Suc Suc_diff_le)

interpretation history: bounded_log push_diagnostic di_history di_max "\<lambda>d. length (di_history d) \<le> di_max d"
proof unfold_locales
  fix d :: diagnostics and x assume wf: "length (di_history d) \<le> di_max d"
  show "di_history (push_diagnostic d x) = take_last (di_max d) (di_history d @ [x])"
    by (rule push_take_last [OF wf])
  then show "length (di_history (push_diagnostic d x)) \<le> di_max (push_diagnostic d x)"
    by (simp add: push_diagnostic_def Let_def)
qed (simp_all add: push_diagnostic_def Let_def)

lemma diagnostics_run:
  "foldl (\<lambda>d (s, e, t, now). snd (record_failure s e t now d)) d fs =
   foldl push_diagnostic d (map (\<lambda>(s, e, t, now). diagnostic_of s e t now) fs)"
  by (induction fs arbitrary: d) (auto simp: record_failure_def Let_def split: prod.splits)

lemma remdups_single: "remdups xs = [c] \<Longrightarrow> set xs = {c}"
  by (metis set_remdups list.set(1) list.set(2))

text \<open>
  The diagnostics keep exactly the newest failures: after any sequence of recorded failures
  the history is the last \<open>n\<close> of them, in order, and the code-bug pattern is reported for a
  service only if its last five failures in the history carry one and the same status among
  400, 401, 403 and 404, apart from failures without a status.
\<close>
theorem diagnostics_newest:
  assumes "d = foldl (\<lambda>d (s, e, t, now). snd (record_failure s e t now d)) (new_diagnostics n) fs"
  shows "di_history d = take_last n (map (\<lambda>(s, e, t, now). diagnostic_of s e t now) fs) \<and>
    (detect_pattern d service \<longrightarrow> length (recent_failures d service 5) = 5 \<and>
      (\<exists>c \<in> {400, 401, 403, 404}. \<forall>f \<in> set (recent_failures d service 5). dg_status f \<in> {None, Some 0, Some c}))"
proof (intro conjI impI)
  have "length (di_history (new_diagnostics n)) \<le> di_max (new_diagnostics n)" by (simp add: new_diagnostics_def)
  from history.entries_run [OF this] show "di_history d = take_last n (map (\<lambda>(s, e, t, now). diagnostic_of s e t now) fs)"
    unfolding assms diagnostics_run by (simp add: new_diagnostics_def)
  let ?r = "recent_failures d service 5"
  assume p: "detect_pattern d service"
  then have "\<not> length ?r < 5" by (auto simp: detect_pattern_def Let_def)
  then show "length ?r = 5" by (simp add: recent_failures_def)
  from p obtain c where c: "c \<in> {400, 401, 403, 404}" "truthy_statuses ?r = [c]"
    by (auto simp: detect_pattern_def Let_def split: if_splits)
  have "dg_status f \<in> {None, Some 0, Some c}" if "f \<in> set ?r" for f
  proof (cases "dg_status f")
    case (Some m)
    with that remdups_single [OF c(2) [unfolded truthy_statuses_def]] show ?thesis by (cases "m = 0") force+
  qed simp
  with c(1) show "\<exists>c \<in> {400, 401, 403, 404}. \<forall>f \<in> set ?r. dg_status f \<in> {None, Some 0, Some c}" by blast
qed

definition refused :: exn where
  "refused = \<lparr>ex_kind = HTTPStatusError 401, ex_message = ''''\<rparr>"

lemma diagnostics_newest_witness:
  "di_history (foldl (\<lambda>d (s, e, t, now). snd (record_failure s e t now d)) (new_diagnostics 1)
     [(''a'', refused, 1, 2), (''b'', refused, 1, 3)]) = [diagnostic_of ''b'' refused 1 3]"
  using diagnostics_newest [OF refl, of 1 "[(''a'', refused, 1, 2), (''b'', refused, 1, 3)]"]
  by (simp add: take_last_def)

fun convenience_run ::
  "'b breaker_lib \<Rightarrow> string \<Rightarrow> nat \<Rightarrow> nat \<Rightarrow> module_state \<Rightarrow> 'r attempt list \<Rightarrow> 'r call_result list" where
  \<comment> \<open>the results of successive calls of the convenience function\<close>
  "convenience_run lib service n t ms [] = []"
| "convenience_run lib service n t ms (a # as) =
     (let (r, ms') = call_with_circuit_breaker lib service n t ms a in r # convenience_run lib service n t ms' as)"

text \<open>
  The convenience function never opens a circuit. Every call makes its own breaker, and
  a new breaker lets a call through; so however many calls in a row fail, each of them still reaches
  the service and ends with what the service gave, and none fails fast.
\<close>
theorem convenience_never_opens:
  assumes "\<forall>n t now. \<not> bl_rejects lib (bl_new lib n t) now"
  shows "convenience_run lib service n t ms as = map at_result as"
proof (induction as arbitrary: ms)
  case (Cons a as)
  have "fst (call_with_circuit_breaker lib service n t ms a) = at_result a"
    using assms by (simp add: call_with_circuit_breaker_def through_breaker_def split: call_result.split)
  then show ?case using Cons.IH by (simp add: split_beta Let_def)
qed simp

definition counting_lib :: "(nat \<times> nat) breaker_lib" where
  \<comment> \<open>a breaker that rejects after as many counted failures as its threshold\<close>
  "counting_lib = \<lparr>bl_new = (\<lambda>n t. (Suc n, 0)), bl_rejects = (\<lambda>(n, k) now. n \<le> k),
     bl_after = (\<lambda>(n, k) now e. (n, if e = None then 0 else Suc k))\<rparr>"

lemma convenience_never_opens_witness:
  "convenience_run counting_lib ''s'' 1 30 \<lparr>ms_diag = new_diagnostics 100, ms_metrics = \<lparr>me_failures = [], me_durations = []\<rparr>\<rparr>
     (replicate 9 \<lparr>at_result = (Raised \<lparr>ex_kind = TimeoutException, ex_message = ''''\<rparr> :: unit call_result), at_start = 0, at_end = 1\<rparr>) =
   replicate 9 (Raised \<lparr>ex_kind = TimeoutException, ex_message = ''''\<rparr>)"
  by (subst convenience_never_opens) (simp_all add: counting_lib_def)

text \<open>
  Through the decorator the breaker is kept: permanent failures are reported to it as
  successes, so only transient ones can open it.
\<close>
lemma permanent_failures_not_counted:
  assumes "at_result a = Raised e" "\<not> is_transient_failure (ex_kind e)" "\<not> bl_rejects lib b (at_start a)"
  shows "fst (snd (service_circuit_call lib service b ms a)) = bl_after lib b (at_end a) None"
  using assms by (simp add: service_circuit_call_def through_breaker_def)

end
