(* ===== verification/Cost_Tracker.thy ===== *)
theory Cost_Tracker
  imports Py_Prelude Interfaces
begin

text \<open>
  Inference costs, \<open>services/shared/cost_tracker.py\<close>: the tracker with its totals and its
  breakdown by model, and the optimizer that enforces the limits of a user's tier.

  The clock is an argument: the time in seconds, the day and the month. A limit of
  \<open>float("inf")\<close> is \<open>None\<close>, and so is the list of allowed models of the enterprise tier.
\<close>

section \<open>CostTracker\<close>

definition cost_per_1k :: "(string, pyfloat) pydict" where
  [py_eval]: "cost_per_1k = [(''llama3.2:1b'', 0.0002), (''llama3.2:3b'', 0.0006), (''tinyllama'', 0.0001), (''bert'', 0.00005)]"

definition gpu_power_watts :: "(string, pyfloat) pydict" where
  [py_eval]: "gpu_power_watts = [(''llama3.2:1b'', 50), (''llama3.2:3b'', 75), (''tinyllama'', 30), (''bert'', 20)]"

definition model_rate :: "string \<Rightarrow> pyfloat" where
  [py_eval]: "model_rate m = dict_get_or cost_per_1k m 0.0001"

record cost_tracker =
  ct_tokens :: int
  ct_cost :: pyfloat
  ct_time :: pyfloat
  ct_carbon :: pyfloat
  ct_requests :: nat
  ct_counts :: "(string, nat) pydict"
  ct_costs :: "(string, pyfloat) pydict"
  ct_start :: pyfloat

definition new_tracker :: "pyfloat \<Rightarrow> cost_tracker" where
  "new_tracker now = \<lparr>ct_tokens = 0, ct_cost = 0, ct_time = 0, ct_carbon = 0, ct_requests = 0,
     ct_counts = [], ct_costs = [], ct_start = now\<rparr>"

record inference =
  if_model :: string
  if_prompt :: int
  if_completion :: int
  if_ms :: pyfloat

record cost_report =
  co_total :: int
  co_cost :: pyfloat
  co_carbon :: pyfloat
  co_ms :: pyfloat

definition inference_cost :: "inference \<Rightarrow> pyfloat" where
  "inference_cost i = of_int (if_prompt i + if_completion i) / 1000 * model_rate (if_model i)"

definition inference_carbon :: "inference \<Rightarrow> pyfloat" where
  "inference_carbon i =
     (let power_w = dict_get_or gpu_power_watts (if_model i) 30;
          hours = if_ms i / (1000 * 3600);
          energy_kwh = power_w * hours / 1000
      in energy_kwh * 400)"

definition record_inference :: "inference \<Rightarrow> cost_tracker \<Rightarrow> cost_report \<times> cost_tracker" where
  "record_inference i t =
     (let total = if_prompt i + if_completion i; cost = inference_cost i; carbon = inference_carbon i; m = if_model i
      in (\<lparr>co_total = total, co_cost = py_round cost 6, co_carbon = py_round carbon 6, co_ms = py_round (if_ms i) 2\<rparr>,
          t\<lparr>ct_tokens := ct_tokens t + total, ct_cost := ct_cost t + cost, ct_time := ct_time t + if_ms i,
            ct_carbon := ct_carbon t + carbon, ct_requests := Suc (ct_requests t),
            ct_counts := dict_set m (Suc (dict_get_or (ct_counts t) m 0)) (ct_counts t),
            ct_costs := dict_set m (dict_get_or (ct_costs t) m 0 + cost) (ct_costs t)\<rparr>))"

record cost_summary =
  su_requests :: nat
  su_tokens :: int
  su_cost :: pyfloat
  su_time :: pyfloat
  su_carbon :: pyfloat
  su_uptime :: pyfloat
  su_avg_cost :: pyfloat
  su_avg_tokens :: pyfloat
  su_models :: "(string, nat \<times> pyfloat) pydict"

definition get_summary :: "pyfloat \<Rightarrow> cost_tracker \<Rightarrow> cost_summary" where
  "get_summary now t =
     \<lparr>su_requests = ct_requests t, su_tokens = ct_tokens t, su_cost = py_round (ct_cost t) 6,
      su_time = py_round (ct_time t) 2, su_carbon = py_round (ct_carbon t) 4,
      su_uptime = py_round ((now - ct_start t) / 3600) 2,
      su_avg_cost = py_round (ct_cost t / real (max (ct_requests t) 1)) 6,
      su_avg_tokens = py_round (of_int (ct_tokens t) / real (max (ct_requests t) 1)) 1,
      su_models = map (\<lambda>(m, c). (m, (c, py_round (dict_get_or (ct_costs t) m 0) 4))) (ct_counts t)\<rparr>"

section \<open>CostOptimizer\<close>

record tier =
  ti_daily :: "pyfloat option"
  ti_monthly :: "pyfloat option"
  ti_models :: "string list option"
  ti_max_tokens :: nat
  ti_rpm :: nat

definition cost_tiers :: "(string, tier) pydict" where
  "cost_tiers = [
    (''free'', \<lparr>ti_daily = Some 0.01, ti_monthly = Some 0.10, ti_models = Some [''tinyllama'', ''bert''],
       ti_max_tokens = 500, ti_rpm = 10\<rparr>),
    (''standard'', \<lparr>ti_daily = Some 0.10, ti_monthly = Some 2, ti_models = Some [''tinyllama'', ''bert'', ''llama3.2:1b''],
       ti_max_tokens = 2000, ti_rpm = 60\<rparr>),
    (''premium'', \<lparr>ti_daily = Some 1, ti_monthly = Some 20,
       ti_models = Some [''llama3.2:1b'', ''llama3.2:3b'', ''tinyllama'', ''bert''], ti_max_tokens = 8000, ti_rpm = 300\<rparr>),
    (''enterprise'', \<lparr>ti_daily = None, ti_monthly = None, ti_models = None, ti_max_tokens = 32000, ti_rpm = 1000\<rparr>)]"

record optimizer =
  op_tiers :: "(string, string) pydict"
  op_daily :: "(string, pyfloat) pydict"
  op_monthly :: "(string, pyfloat) pydict"
  op_requests :: "(string, pyfloat list) pydict"
  op_day :: "string option"
  op_month :: "string option"

record calendar =
  cl_day :: string
  cl_month :: string

definition new_optimizer :: optimizer where
  "new_optimizer = \<lparr>op_tiers = [], op_daily = [], op_monthly = [], op_requests = [], op_day = None, op_month = None\<rparr>"

definition reset_if_needed :: "calendar \<Rightarrow> optimizer \<Rightarrow> optimizer" where
  "reset_if_needed c p =
     (let p1 = (if Some (cl_day c) \<noteq> op_day p then p\<lparr>op_daily := [], op_day := Some (cl_day c)\<rparr> else p)
      in if Some (cl_month c) \<noteq> op_month p1 then p1\<lparr>op_monthly := [], op_month := Some (cl_month c)\<rparr> else p1)"

definition set_user_tier :: "calendar \<Rightarrow> string \<Rightarrow> string \<Rightarrow> optimizer \<Rightarrow> py_error + optimizer" where
  "set_user_tier c user t p =
     (if dict_get cost_tiers t = None then Inl ValueError
      else Inr (reset_if_needed c (p\<lparr>op_tiers := dict_set user t (op_tiers p)\<rparr>)))"

definition get_user_tier :: "string \<Rightarrow> optimizer \<Rightarrow> string" where
  "get_user_tier user p = dict_get_or (op_tiers p) user ''standard''"

definition tier_config :: "string \<Rightarrow> optimizer \<Rightarrow> tier" where
  \<comment> \<open>\<open>COST_TIERS[tier]\<close>: only known tiers can be set\<close>
  "tier_config user p = the (dict_get cost_tiers (get_user_tier user p))"

definition can_use_model :: "string \<Rightarrow> string \<Rightarrow> optimizer \<Rightarrow> bool" where
  "can_use_model user m p = (case ti_models (tier_config user p) of None \<Rightarrow> True | Some ms \<Rightarrow> m \<in> set ms)"

definition check_rate :: "pyfloat \<Rightarrow> string \<Rightarrow> optimizer \<Rightarrow> bool \<times> optimizer" where
  \<comment> \<open>\<open>check_rate_limit\<close>\<close>
  "check_rate now user p =
     (let rpm = ti_rpm (tier_config user p);
          recent = filter (\<lambda>t. now - t < 60) (dict_get_or (op_requests p) user [])
      in if rpm \<le> length recent then (False, p\<lparr>op_requests := dict_set user recent (op_requests p)\<rparr>)
         else (True, p\<lparr>op_requests := dict_set user (recent @ [now]) (op_requests p)\<rparr>))"

definition within_limit :: "pyfloat \<Rightarrow> pyfloat option \<Rightarrow> bool" where
  "within_limit x limit \<longleftrightarrow> (case limit of None \<Rightarrow> True | Some l \<Rightarrow> x \<le> l)"

definition check_daily_budget :: "calendar \<Rightarrow> string \<Rightarrow> pyfloat \<Rightarrow> optimizer \<Rightarrow> bool \<times> optimizer" where
  "check_daily_budget c user est p =
     (let q = reset_if_needed c p
      in (within_limit (dict_get_or (op_daily q) user 0 + est) (ti_daily (tier_config user q)), q))"

definition check_monthly_budget :: "calendar \<Rightarrow> string \<Rightarrow> pyfloat \<Rightarrow> optimizer \<Rightarrow> bool \<times> optimizer" where
  "check_monthly_budget c user est p =
     (let q = reset_if_needed c p
      in (within_limit (dict_get_or (op_monthly q) user 0 + est) (ti_monthly (tier_config user q)), q))"

definition record_spend :: "calendar \<Rightarrow> string \<Rightarrow> pyfloat \<Rightarrow> optimizer \<Rightarrow> optimizer" where
  "record_spend c user cost p =
     (let q = reset_if_needed c p
      in q\<lparr>op_daily := dict_set user (dict_get_or (op_daily q) user 0 + cost) (op_daily q),
           op_monthly := dict_set user (dict_get_or (op_monthly q) user 0 + cost) (op_monthly q)\<rparr>)"

fun min_by :: "('a \<Rightarrow> pyfloat) \<Rightarrow> 'a \<Rightarrow> 'a list \<Rightarrow> 'a" where
  \<comment> \<open>\<open>min(xs, key=f)\<close>: the first of the smallest\<close>
  "min_by f b [] = b"
| "min_by f b (x # xs) = min_by f (if f x < f b then x else b) xs"

definition recommend_model :: "string \<Rightarrow> string \<Rightarrow> optimizer \<Rightarrow> string" where
  "recommend_model user quality p =
     (let allowed = (case ti_models (tier_config user p) of None \<Rightarrow> map fst cost_per_1k | Some ms \<Rightarrow> ms)
      in if quality = ''basic'' then min_by model_rate (hd allowed) (tl allowed)
         else if quality = ''high'' then min_by (\<lambda>m. - model_rate m) (hd allowed) (tl allowed)
         else (let sorted = sort_key model_rate allowed in sorted ! (length sorted div 2)))"

record tier_summary =
  tm_tier :: string
  tm_daily_spend :: pyfloat
  tm_daily_limit :: "pyfloat option"
  tm_monthly_spend :: pyfloat
  tm_monthly_limit :: "pyfloat option"
  tm_models :: "string list option"
  tm_rpm :: nat

definition get_tier_summary :: "string \<Rightarrow> optimizer \<Rightarrow> tier_summary" where
  \<comment> \<open>without \<open>_reset_if_needed\<close>: after midnight it still shows the spend of the day before\<close>
  "get_tier_summary user p = (let c = tier_config user p in
     \<lparr>tm_tier = get_user_tier user p, tm_daily_spend = py_round (dict_get_or (op_daily p) user 0) 6,
      tm_daily_limit = ti_daily c, tm_monthly_spend = py_round (dict_get_or (op_monthly p) user 0) 6,
      tm_monthly_limit = ti_monthly c, tm_models = ti_models c, tm_rpm = ti_rpm c\<rparr>)"

definition estimate_tokens :: "string \<Rightarrow> nat" where
  "estimate_tokens text = (if text = [] then 0 else max 1 (length text div 4))"

section \<open>Properties\<close>

definition adds_up :: "cost_tracker \<Rightarrow> bool" where
  "adds_up t \<longleftrightarrow> sum_list (map snd (ct_costs t)) = ct_cost t \<and> sum_list (map snd (ct_counts t)) = ct_requests t"

interpretation tracker_run: run_invariant "\<lambda>t i. snd (record_inference i t)" "\<lambda>t i. True" adds_up
  by unfold_locales (simp add: adds_up_def record_inference_def Let_def sum_dict_set sum_dict_inc)

text \<open>
  The books of the tracker balance: after any sequence of recorded inferences the costs of
  the single models add up to the total cost and their counts to the number of requests, and
  the total cost is the sum of the costs of the inferences.
\<close>
theorem tracker_balances:
  assumes "t = foldl (\<lambda>t i. snd (record_inference i t)) (new_tracker now) xs"
  shows "sum_list (map snd (ct_costs t)) = ct_cost t \<and> sum_list (map snd (ct_counts t)) = ct_requests t \<and>
    ct_requests t = length xs \<and> ct_cost t = sum_list (map inference_cost xs)"
proof -
  have "adds_up (new_tracker now)" by (simp add: adds_up_def new_tracker_def)
  then have "adds_up t" unfolding assms by (rule tracker_run.run_inv_always) simp
  moreover have "ct_requests (foldl (\<lambda>t i. snd (record_inference i t)) t0 xs) = ct_requests t0 + length xs \<and>
      ct_cost (foldl (\<lambda>t i. snd (record_inference i t)) t0 xs) = ct_cost t0 + sum_list (map inference_cost xs)" for t0
    by (induction xs arbitrary: t0) (simp_all add: record_inference_def Let_def)
  ultimately show ?thesis by (simp add: assms adds_up_def new_tracker_def)
qed

lemma tracker_balances_witness:
  "ct_requests (foldl (\<lambda>t i. snd (record_inference i t)) (new_tracker 0)
     [\<lparr>if_model = ''bert'', if_prompt = 10, if_completion = 5, if_ms = 3\<rparr>]) = 1"
  using tracker_balances [OF refl, of 0 "[\<lparr>if_model = ''bert'', if_prompt = 10, if_completion = 5, if_ms = 3\<rparr>]"]
  by simp

text \<open>The tier of a user is always a known one.\<close>

definition known_tiers :: "optimizer \<Rightarrow> bool" where
  "known_tiers p \<longleftrightarrow> (\<forall>u t. dict_get (op_tiers p) u = Some t \<longrightarrow> dict_get cost_tiers t \<noteq> None)"

lemma reset_tiers [simp]: "op_tiers (reset_if_needed c p) = op_tiers p"
  and reset_requests [simp]: "op_requests (reset_if_needed c p) = op_requests p"
  by (simp_all add: reset_if_needed_def Let_def)

lemma set_user_tier_known: "known_tiers p \<Longrightarrow> set_user_tier c u t p = Inr q \<Longrightarrow> known_tiers q"
  by (auto simp: set_user_tier_def known_tiers_def split: if_splits)

lemma tier_config_known:
  assumes "known_tiers p"
  shows "\<exists>t. dict_get cost_tiers (get_user_tier u p) = Some t"
proof (cases "dict_get (op_tiers p) u")
  case None
  then show ?thesis by (simp add: get_user_tier_def dict_get_or_def cost_tiers_def)
next
  case (Some t)
  with assms have "dict_get cost_tiers t \<noteq> None" unfolding known_tiers_def by blast
  with Some show ?thesis by (simp add: get_user_tier_def dict_get_or_def)
qed

text \<open>The requests a user is granted, with the tier kept.\<close>

fun tier_granted :: "string \<Rightarrow> optimizer \<Rightarrow> pyfloat list \<Rightarrow> pyfloat list" where
  "tier_granted user p [] = []"
| "tier_granted user p (now # nows) =
     (let (ok, q) = check_rate now user p in (if ok then [now] else []) @ tier_granted user q nows)"

definition window_count :: "pyfloat list \<Rightarrow> pyfloat \<Rightarrow> nat" where
  "window_count ts w = length (filter (\<lambda>t. w - 60 < t \<and> t \<le> w) ts)"

definition rate_inv :: "nat \<Rightarrow> string \<Rightarrow> optimizer \<Rightarrow> pyfloat list \<Rightarrow> pyfloat \<Rightarrow> bool" where
  \<comment> \<open>what is kept of the granted requests suffices for the windows to come\<close>
  "rate_inv rpm user p acc last_time \<longleftrightarrow>
     ti_rpm (tier_config user p) = rpm \<and> (\<forall>t \<in> set acc. t \<le> last_time) \<and> (\<forall>w. window_count acc w \<le> rpm) \<and>
     (\<forall>now \<ge> last_time. filter (\<lambda>t. now - t < 60) (dict_get_or (op_requests p) user []) = filter (\<lambda>t. now - t < 60) acc)"

lemma rate_step:
  assumes "rate_inv rpm user p acc T" "T \<le> now" "check_rate now user p = (ok, q)"
  shows "rate_inv rpm user q (acc @ (if ok then [now] else [])) now"
proof -
  let ?recent = "filter (\<lambda>t. now - t < 60) acc"
  from assms(1,2) have recent: "filter (\<lambda>t. now - t < 60) (dict_get_or (op_requests p) user []) = ?recent"
    and rpm: "ti_rpm (tier_config user p) = rpm" and le: "\<forall>t \<in> set acc. t \<le> now"
    and old: "\<forall>w. window_count acc w \<le> rpm"
    by (auto simp: rate_inv_def)
  have q: "ti_rpm (tier_config user q) = rpm" "ok \<longleftrightarrow> length ?recent < rpm"
    "dict_get_or (op_requests q) user [] = ?recent @ (if ok then [now] else [])"
    using assms(3) recent rpm by (auto simp: check_rate_def Let_def tier_config_def get_user_tier_def split: if_splits)
  have "filter (\<lambda>t. w - t < 60) ?recent = filter (\<lambda>t. w - t < 60) acc" if "now \<le> w" for w
    using that by (auto intro!: filter_cong)
  then have keep: "\<forall>w \<ge> now. filter (\<lambda>t. w - t < 60) (dict_get_or (op_requests q) user []) =
      filter (\<lambda>t. w - t < 60) (acc @ (if ok then [now] else []))"
    unfolding q(3) by simp
  have "window_count (acc @ (if ok then [now] else [])) w \<le> rpm" for w
  proof (cases "ok \<and> now \<le> w")
    case False
    with old show ?thesis by (auto simp: window_count_def)
  next
    case True
    have "filter (\<lambda>t. w - 60 < t \<and> t \<le> w) acc = filter (\<lambda>t. w - 60 < t \<and> t \<le> w) ?recent"
      using True by (auto intro!: filter_cong)
    then have "window_count acc w \<le> length ?recent" unfolding window_count_def by (simp only: length_filter_le)
    with True q(2) show ?thesis by (simp add: window_count_def)
  qed
  with q(1) keep le show ?thesis by (auto simp: rate_inv_def)
qed

lemma granted_windows:
  "rate_inv rpm user p acc T \<Longrightarrow> sorted (T # nows) \<Longrightarrow> window_count (acc @ tier_granted user p nows) w \<le> rpm"
proof (induction nows arbitrary: p acc T)
  case Nil
  then show ?case by (simp add: rate_inv_def)
next
  case (Cons now nows)
  obtain ok q where q: "check_rate now user p = (ok, q)" by (cases "check_rate now user p")
  from Cons.prems(2) have "T \<le> now" "sorted (now # nows)" by auto
  from Cons.IH [OF rate_step [OF Cons.prems(1) this(1) q] this(2)] show ?case by (simp add: q)
qed

text \<open>
  The rate limit of the tiers is a true sliding window: however the requests of a user are
  spaced, in no interval of 60 seconds are more of them granted than the requests per
  minute of the user's tier. (Times do not go backwards.)
\<close>
theorem tier_rate_limit:
  assumes "sorted nows" "dict_get (op_requests p) user = None"
  shows "length (filter (\<lambda>t. w - 60 < t \<and> t \<le> w) (tier_granted user p nows)) \<le> ti_rpm (tier_config user p)"
proof (cases nows)
  case (Cons now nows')
  have "rate_inv (ti_rpm (tier_config user p)) user p [] now"
    using assms(2) by (simp add: rate_inv_def window_count_def dict_get_or_def)
  from granted_windows [OF this, of nows w] assms(1) Cons show ?thesis by (simp add: window_count_def)
qed simp

lemma tier_rate_limit_witness:
  "length (filter (\<lambda>t. 5 - 60 < t \<and> t \<le> 5) (tier_granted ''u'' new_optimizer [1, 2, 3])) \<le> 60"
  using tier_rate_limit [of "[1, 2, 3]" new_optimizer "''u''" 5]
  by (simp add: new_optimizer_def tier_config_def get_user_tier_def cost_tiers_def dict_get_or_def)

text \<open>A spend that is recorded right after its check, on the same day, stays within the budget.\<close>

lemma checked_spend_within_budget:
  assumes "check_daily_budget c user cost p = (True, q)"
  shows "within_limit (dict_get_or (op_daily (record_spend c user cost q)) user 0) (ti_daily (tier_config user q))"
proof -
  have idem: "reset_if_needed c (reset_if_needed c p) = reset_if_needed c p"
    by (simp add: reset_if_needed_def Let_def)
  have q: "q = reset_if_needed c p" and
    ok: "within_limit (dict_get_or (op_daily q) user 0 + cost) (ti_daily (tier_config user q))"
    using assms by (auto simp: check_daily_budget_def Let_def)
  have "op_daily (record_spend c user cost q) = dict_set user (dict_get_or (op_daily q) user 0 + cost) (op_daily q)"
    unfolding record_spend_def Let_def q idem by simp
  with ok show ?thesis by simp
qed

lemma min_by_mem: "min_by f b xs \<in> insert b (set xs)"
  by (induction xs arbitrary: b) (auto split: if_splits)

text \<open>A recommended model is one the user may use, when the tier lists its models.\<close>

lemma recommended_is_allowed:
  assumes "ti_models (tier_config user p) = Some ms" "ms \<noteq> []"
  shows "can_use_model user (recommend_model user quality p) p"
proof -
  let ?s = "sort_key model_rate ms"
  have "?s ! (length ?s div 2) \<in> set ?s" using assms(2) by (intro nth_mem) simp
  moreover have "min_by f (hd ms) (tl ms) \<in> set ms" for f
    using min_by_mem [of f "hd ms" "tl ms"] assms(2) by (cases ms) auto
  ultimately show ?thesis using assms by (auto simp: can_use_model_def recommend_model_def Let_def)
qed

end
