(* ===== verification/Model_Router.thy ===== *)
theory Model_Router
  imports Py_Prelude Interfaces
begin

text \<open>
  The A/B router between model versions, \<open>services/shared/model_router.py\<close>: traffic split,
  recording of results, evaluation with minimum samples and cooldown, promotion and rollback. The
  random number and the clock are arguments; an evaluation record keeps the figures the code
  computes from the two versions, unrounded.
\<close>

section \<open>Versions\<close>

record model_version =
  mv_name :: string
  mv_version :: string
  mv_weight :: pyfloat
  mv_origin :: "(string \<times> string) option" \<comment> \<open>promoted from, previous primary\<close>
  mv_requests :: nat
  mv_latency :: pyfloat
  mv_errors :: nat
  mv_toxic :: nat
  mv_pii :: nat

definition new_version :: "string \<Rightarrow> string \<Rightarrow> pyfloat \<Rightarrow> (string \<times> string) option \<Rightarrow> model_version" where
  "new_version n v w origin = \<lparr>mv_name = n, mv_version = v, mv_weight = w, mv_origin = origin,
     mv_requests = 0, mv_latency = 0, mv_errors = 0, mv_toxic = 0, mv_pii = 0\<rparr>"

definition avg_latency_ms :: "model_version \<Rightarrow> pyfloat" where
  "avg_latency_ms v = mv_latency v / real (max (mv_requests v) 1)"

definition error_rate :: "model_version \<Rightarrow> pyfloat" where
  "error_rate v = real (mv_errors v) / real (max (mv_requests v) 1)"

definition version_id :: "model_version \<Rightarrow> string" where
  "version_id v = mv_name v @ '':'' @ mv_version v"

record outcome =
  oc_latency :: pyfloat
  oc_error :: bool
  oc_toxic :: bool
  oc_pii :: bool

definition record_request :: "outcome \<Rightarrow> model_version \<Rightarrow> model_version" where
  "record_request r v =
     v\<lparr>mv_requests := Suc (mv_requests v), mv_latency := mv_latency v + oc_latency r,
       mv_errors := mv_errors v + (if oc_error r then 1 else 0),
       mv_toxic := mv_toxic v + (if oc_toxic r then 1 else 0),
       mv_pii := mv_pii v + (if oc_pii r then 1 else 0)\<rparr>"

section \<open>The router\<close>

datatype promotion = PromoteCandidate | KeepCurrent | InsufficientData | NoCandidate

record evaluation =
  el_primary :: string
  el_candidate :: string
  el_requests :: "nat \<times> nat"
  el_f1 :: "pyfloat \<times> pyfloat"
  el_relative :: pyfloat
  el_decision :: promotion

record router =
  rt_primary :: model_version
  rt_candidate :: "model_version option"
  rt_min_samples :: nat
  rt_threshold :: pyfloat
  rt_cooldown :: pyfloat
  rt_last :: pyfloat
  rt_history :: "evaluation list"
  rt_passthrough :: bool

definition new_router :: "string \<Rightarrow> string \<Rightarrow> nat \<Rightarrow> pyfloat \<Rightarrow> pyfloat \<Rightarrow> router" where
  "new_router n v samples threshold cooldown =
     \<lparr>rt_primary = new_version n v 1 None, rt_candidate = None, rt_min_samples = samples,
      rt_threshold = threshold, rt_cooldown = cooldown, rt_last = 0, rt_history = [], rt_passthrough = True\<rparr>"

definition is_ab_testing :: "router \<Rightarrow> bool" where
  "is_ab_testing r \<longleftrightarrow> \<not> rt_passthrough r \<and> rt_candidate r \<noteq> None"

definition enable_ab_testing :: "string \<Rightarrow> string \<Rightarrow> pyfloat \<Rightarrow> router \<Rightarrow> router" where
  "enable_ab_testing n v w r =
     r\<lparr>rt_candidate := Some (new_version n v w None), rt_primary := (rt_primary r)\<lparr>mv_weight := 1 - w\<rparr>,
       rt_passthrough := False\<rparr>"

definition disable_ab_testing :: "router \<Rightarrow> router" where
  "disable_ab_testing r =
     r\<lparr>rt_candidate := None, rt_primary := (rt_primary r)\<lparr>mv_weight := 1\<rparr>, rt_passthrough := True\<rparr>"

definition select_model :: "pyfloat \<Rightarrow> router \<Rightarrow> string \<times> string \<times> bool" where
  \<comment> \<open>the first argument is \<open>random.random()\<close>\<close>
  "select_model rnd r = (case rt_candidate r of
     Some c \<Rightarrow>
       if rt_passthrough r then (mv_name (rt_primary r), mv_version (rt_primary r), False)
       else if rnd < mv_weight c then (mv_name c, mv_version c, True)
       else (mv_name (rt_primary r), mv_version (rt_primary r), False)
   | None \<Rightarrow> (mv_name (rt_primary r), mv_version (rt_primary r), False))"

definition record_result :: "string \<Rightarrow> string \<Rightarrow> outcome \<Rightarrow> router \<Rightarrow> router" where
  \<comment> \<open>with \<open>_find_version\<close>: the primary is tried first\<close>
  "record_result n v res r =
     (if mv_name (rt_primary r) = n \<and> mv_version (rt_primary r) = v
      then r\<lparr>rt_primary := record_request res (rt_primary r)\<rparr>
      else case rt_candidate r of
        Some c \<Rightarrow> if mv_name c = n \<and> mv_version c = v then r\<lparr>rt_candidate := Some (record_request res c)\<rparr> else r
      | None \<Rightarrow> r)"

definition estimate_f1 :: "model_version \<Rightarrow> pyfloat" where
  "estimate_f1 v =
     (if mv_requests v = 0 then 0
      else let quality = 1 - error_rate v; latency_factor = max 0 (1 - avg_latency_ms v / 1000)
           in 0.7 * quality + 0.3 * latency_factor)"

definition relative_improvement :: "model_version \<Rightarrow> model_version \<Rightarrow> pyfloat" where
  "relative_improvement p c = (estimate_f1 c - estimate_f1 p) / max (estimate_f1 p) 0.001"

definition evaluate_promotion :: "pyfloat \<Rightarrow> router \<Rightarrow> promotion \<times> router" where
  "evaluate_promotion now r =
     (case rt_candidate r of
        None \<Rightarrow> (NoCandidate, r)
      | Some c \<Rightarrow>
          if \<not> is_ab_testing r then (NoCandidate, r)
          else if now - rt_last r < rt_cooldown r then (InsufficientData, r)
          else if mv_requests (rt_primary r) < rt_min_samples r \<or> mv_requests c < rt_min_samples r
          then (InsufficientData, r)
          else
            let p = rt_primary r; rel = relative_improvement p c;
                d = (if rt_threshold r \<le> rel then PromoteCandidate else KeepCurrent);
                ev = \<lparr>el_primary = version_id p, el_candidate = version_id c,
                      el_requests = (mv_requests p, mv_requests c), el_f1 = (estimate_f1 p, estimate_f1 c),
                      el_relative = rel, el_decision = d\<rparr>
            in (d, r\<lparr>rt_last := now, rt_history := rt_history r @ [ev]\<rparr>))"

definition promote_candidate :: "router \<Rightarrow> bool \<times> router" where
  "promote_candidate r = (case rt_candidate r of
     None \<Rightarrow> (False, r)
   | Some c \<Rightarrow> (True, r\<lparr>rt_primary := new_version (mv_name c) (mv_version c) 1
         (Some (version_id c, version_id (rt_primary r))), rt_candidate := None, rt_passthrough := True\<rparr>))"

definition rollback_to :: "string \<Rightarrow> string \<Rightarrow> router \<Rightarrow> router" where
  "rollback_to n v r = r\<lparr>rt_primary := new_version n v 1 None, rt_candidate := None, rt_passthrough := True\<rparr>"

section \<open>Runs\<close>

datatype router_op =
    Enable string string pyfloat
  | Disable
  | Result string string outcome
  | Evaluate pyfloat
  | Promote
  | Rollback string string

fun router_step :: "router \<Rightarrow> router_op \<Rightarrow> router" where
  "router_step r (Enable n v w) = enable_ab_testing n v w r"
| "router_step r Disable = disable_ab_testing r"
| "router_step r (Result n v res) = record_result n v res r"
| "router_step r (Evaluate now) = snd (evaluate_promotion now r)"
| "router_step r Promote = snd (promote_candidate r)"
| "router_step r (Rollback n v) = rollback_to n v r"

definition version_ok :: "model_version \<Rightarrow> bool" where
  "version_ok v \<longleftrightarrow> mv_errors v \<le> mv_requests v \<and> 0 \<le> mv_latency v"

definition router_ok :: "router \<Rightarrow> bool" where
  \<comment> \<open>passthrough exactly without a candidate; the two weights are a distribution; the counts are
     consistent; every evaluation on record compared enough samples\<close>
  "router_ok r \<longleftrightarrow> (rt_passthrough r \<longleftrightarrow> rt_candidate r = None) \<and> version_ok (rt_primary r) \<and>
     (case rt_candidate r of
        None \<Rightarrow> mv_weight (rt_primary r) = 1
      | Some c \<Rightarrow> version_ok c \<and> mv_weight (rt_primary r) + mv_weight c = 1 \<and> 0 \<le> mv_weight c \<and> mv_weight c \<le> 1) \<and>
     (\<forall>e \<in> set (rt_history r). rt_min_samples r \<le> fst (el_requests e) \<and> rt_min_samples r \<le> snd (el_requests e))"

fun op_ok :: "router_op \<Rightarrow> bool" where
  "op_ok (Enable n v w) \<longleftrightarrow> 0 \<le> w \<and> w \<le> 1"
| "op_ok (Result n v res) \<longleftrightarrow> 0 \<le> oc_latency res"
| "op_ok _ \<longleftrightarrow> True"

lemma version_ok_simps [simp]:
  "version_ok (new_version n v w og)" "version_ok (m\<lparr>mv_weight := w\<rparr>) = version_ok m"
  "0 \<le> oc_latency res \<Longrightarrow> version_ok m \<Longrightarrow> version_ok (record_request res m)"
  "mv_weight (new_version n v w og) = w" "mv_weight (record_request res m) = mv_weight m"
  by (auto simp: version_ok_def new_version_def record_request_def)

interpretation router_run: run_invariant router_step "\<lambda>r e. op_ok e" router_ok
proof unfold_locales
  fix r e assume ok: "router_ok r" "op_ok e"
  show "router_ok (router_step r e)"
  proof (cases e)
    case (Enable n v w)
    with ok show ?thesis by (auto simp: router_ok_def enable_ab_testing_def split: option.splits)
  next
    case (Result n v res)
    with ok show ?thesis by (auto simp: router_ok_def record_result_def split: option.splits)
  next
    case (Evaluate now)
    with ok show ?thesis by (auto simp: router_ok_def evaluate_promotion_def Let_def split: option.splits)
  next
    case Promote
    with ok show ?thesis by (auto simp: router_ok_def promote_candidate_def split: option.splits)
  qed (use ok in \<open>auto simp: router_ok_def disable_ab_testing_def rollback_to_def split: option.splits\<close>)
qed

lemma score_bounds:
  fixes a b :: real
  assumes "0 \<le> a" "a \<le> 1" "0 \<le> b" "b \<le> 1"
  shows "0 \<le> 0.7 * (1 - a) + 0.3 * b \<and> 0.7 * (1 - a) + 0.3 * b \<le> 1"
  using assms by (auto simp: field_simps)

lemma version_bounds:
  assumes "version_ok v"
  shows "0 \<le> error_rate v" "error_rate v \<le> 1" "0 \<le> estimate_f1 v" "estimate_f1 v \<le> 1"
proof -
  show e: "0 \<le> error_rate v" "error_rate v \<le> 1"
    using assms by (auto simp: error_rate_def version_ok_def field_simps le_max_iff_disj)
  have "0 \<le> avg_latency_ms v" using assms by (simp add: avg_latency_ms_def version_ok_def)
  then have "0 \<le> max 0 (1 - avg_latency_ms v / 1000)" "max 0 (1 - avg_latency_ms v / 1000) \<le> 1" by simp_all
  with e score_bounds [of "error_rate v" "max 0 (1 - avg_latency_ms v / 1000)"]
  have "0 \<le> 0.7 * (1 - error_rate v) + 0.3 * max 0 (1 - avg_latency_ms v / 1000)"
    "0.7 * (1 - error_rate v) + 0.3 * max 0 (1 - avg_latency_ms v / 1000) \<le> 1" by blast+
  then show "0 \<le> estimate_f1 v" "estimate_f1 v \<le> 1" unfolding estimate_f1_def Let_def by simp_all
qed

text \<open>
  The router stays consistent: after any sequence of operations (weights between 0 and 1,
  latencies not negative) it is in passthrough mode exactly when there is no candidate, the
  weights of primary and candidate add up to 1, error rates and estimated scores lie between 0
  and 1, and with a candidate of weight \<open>w\<close> a random number \<open>x\<close> selects it iff \<open>x < w\<close>.
\<close>
theorem router_consistent:
  assumes "\<forall>e \<in> set es. op_ok e"
    and "r = foldl router_step (new_router n v samples threshold cooldown) es"
  shows "(rt_passthrough r \<longleftrightarrow> rt_candidate r = None) \<and>
    mv_weight (rt_primary r) + (case rt_candidate r of None \<Rightarrow> 0 | Some c \<Rightarrow> mv_weight c) = 1 \<and>
    (\<forall>m \<in> {rt_primary r} \<union> set_option (rt_candidate r). error_rate m \<in> {0..1} \<and> estimate_f1 m \<in> {0..1}) \<and>
    (snd (snd (select_model x r)) \<longleftrightarrow> (\<exists>c. rt_candidate r = Some c \<and> x < mv_weight c))"
proof -
  have "router_ok (new_router n v samples threshold cooldown)"
    by (simp add: router_ok_def new_router_def)
  then have ok: "router_ok r" unfolding assms(2) by (rule router_run.run_inv_always) (use assms(1) in blast)
  have "version_ok m" if "m \<in> {rt_primary r} \<union> set_option (rt_candidate r)" for m
    using ok that by (auto simp: router_ok_def)
  with version_bounds have "\<forall>m \<in> {rt_primary r} \<union> set_option (rt_candidate r). error_rate m \<in> {0..1} \<and> estimate_f1 m \<in> {0..1}"
    by simp
  with ok show ?thesis by (auto simp: router_ok_def select_model_def split: option.splits)
qed

lemma router_consistent_witness:
  "rt_candidate (foldl router_step (new_router ''m'' ''1'' 100 0.05 3600) [Enable ''m'' ''2'' 0.1, Promote]) = None"
  using router_consistent [OF _ refl, of "[Enable ''m'' ''2'' 0.1, Promote]" "''m''" "''1''" 100 "0.05" 3600]
  by (simp add: new_router_def enable_ab_testing_def promote_candidate_def)

text \<open>
  A promotion is only advised on evidence: the evaluation answers "promote" only for an active
  test, out of the cooldown, with the minimum number of samples on both sides and a relative
  improvement of the candidate's estimated score that reaches the threshold; and an
  evaluation that decides starts a new cooldown, in which no other one decides.
\<close>
theorem promotion_needs_evidence:
  assumes "evaluate_promotion now r = (d, r')" "d \<in> {PromoteCandidate, KeepCurrent}"
  shows "(\<exists>c. rt_candidate r = Some c \<and> \<not> rt_passthrough r \<and> rt_cooldown r \<le> now - rt_last r \<and>
      rt_min_samples r \<le> mv_requests (rt_primary r) \<and> rt_min_samples r \<le> mv_requests c \<and>
      (d = PromoteCandidate \<longleftrightarrow> rt_threshold r \<le> relative_improvement (rt_primary r) c)) \<and>
    (\<forall>later. later - now < rt_cooldown r \<longrightarrow> fst (evaluate_promotion later r') = InsufficientData)"
  using assms
  by (auto simp: evaluate_promotion_def is_ab_testing_def Let_def split: option.splits if_splits)

definition ready_router :: router where
  "ready_router = \<lparr>rt_primary = new_version ''m'' ''1'' 0.9 None, rt_candidate = Some (new_version ''m'' ''2'' 0.1 None),
     rt_min_samples = 0, rt_threshold = 0.05, rt_cooldown = 3600, rt_last = 0, rt_history = [], rt_passthrough = False\<rparr>"

lemma promotion_needs_evidence_witness:
  "fst (evaluate_promotion 5000 (snd (evaluate_promotion 4000 ready_router))) = InsufficientData"
proof -
  have "fst (evaluate_promotion 4000 ready_router) \<in> {PromoteCandidate, KeepCurrent}"
    by (simp add: evaluate_promotion_def ready_router_def is_ab_testing_def Let_def new_version_def)
  moreover have "rt_cooldown ready_router = 3600" by (simp add: ready_router_def)
  ultimately show ?thesis
    using promotion_needs_evidence [of 4000 ready_router "fst (evaluate_promotion 4000 ready_router)"
        "snd (evaluate_promotion 4000 ready_router)"] by simp
qed

end
