(* ===== verification/Drift_Detector.thy ===== *)
theory Drift_Detector
  imports Py_Prelude Interfaces
begin

text \<open>
  Drift detection, \<open>services/shared/drift_detector.py\<close>: histograms, the population stability index,
  the Kullback-Leibler divergence, and the detector with its baseline, its sliding window and its
  alerts. Time stamps are an argument. The callback is the list of alerts handed to it.
\<close>

section \<open>Distributions\<close>

definition bin_index :: "nat \<Rightarrow> pyfloat \<Rightarrow> pyfloat \<Rightarrow> pyfloat \<Rightarrow> nat" where
  \<comment> \<open>\<open>min(bins - 1, max(0, int((v - min_val) / bin_width)))\<close>\<close>
  "bin_index bins lo hi v = nat (min (int bins - 1) (max 0 (py_int ((v - lo) / ((hi - lo) / real bins)))))"

fun count_bins :: "(pyfloat \<Rightarrow> nat) \<Rightarrow> pyfloat list \<Rightarrow> pyfloat list \<Rightarrow> pyfloat list" where
  "count_bins idx [] h = h"
| "count_bins idx (v # vs) h = count_bins idx vs (h[idx v := h ! idx v + 1])"

definition compute_histogram :: "pyfloat list \<Rightarrow> nat \<Rightarrow> pyfloat \<Rightarrow> pyfloat \<Rightarrow> pyfloat list" where
  "compute_histogram vs bins lo hi =
     (if vs = [] then replicate bins 0
      else let h = count_bins (bin_index bins lo hi) vs (replicate bins 0); total = sum_list h
           in if 0 < total then map (\<lambda>x. x / total) h else h)"

definition clamp :: "pyfloat \<Rightarrow> pyfloat" where
  \<comment> \<open>\<open>max(x, epsilon)\<close> with the default \<open>1e-6\<close>\<close>
  "clamp x = max x (1 / 10 ^ 6)"

definition psi_sum :: "(pyfloat \<times> pyfloat) list \<Rightarrow> pyfloat" where
  "psi_sum ps = foldl (\<lambda>psi (e, a). psi + (clamp a - clamp e) * ln (clamp a / clamp e)) 0 ps"

definition compute_psi :: "pyfloat list \<Rightarrow> pyfloat list \<Rightarrow> py_error + pyfloat" where
  "compute_psi expected actual =
     (if length expected \<noteq> length actual then Inl ValueError
      else Inr (py_round (psi_sum (zip expected actual)) 6))"

definition kl_sum :: "(pyfloat \<times> pyfloat) list \<Rightarrow> pyfloat" where
  "kl_sum ps = foldl (\<lambda>kl (p, q). kl + clamp p * ln (clamp p / clamp q)) 0 ps"

definition compute_kl_divergence :: "pyfloat list \<Rightarrow> pyfloat list \<Rightarrow> py_error + pyfloat" where
  "compute_kl_divergence p q =
     (if length p \<noteq> length q then Inl ValueError else Inr (py_round (kl_sum (zip p q)) 6))"

section \<open>The detector\<close>

datatype drift_alert_kind =
    PsiDrift pyfloat bool \<comment> \<open>critical\<close>
  | KlDrift pyfloat
  | RateShift pyfloat

record drift_alert =
  da_time :: string
  da_window :: nat
  da_psi :: pyfloat
  da_kl :: pyfloat
  da_rate :: pyfloat
  da_kinds :: "drift_alert_kind list"

record drift_detector =
  dd_psi_threshold :: pyfloat
  dd_kl_threshold :: pyfloat
  dd_window :: nat
  dd_baseline :: "pyfloat list"
  dd_base_rate :: "pyfloat option"
  dd_base_pii :: "pyfloat option"
  dd_base_hist :: "pyfloat list option"
  dd_base_time :: "string option"
  dd_scores :: "pyfloat list"
  dd_alerts :: "drift_alert list"

definition new_detector :: "pyfloat \<Rightarrow> pyfloat \<Rightarrow> nat \<Rightarrow> drift_detector" where
  "new_detector psi kl w = \<lparr>dd_psi_threshold = psi, dd_kl_threshold = kl, dd_window = w, dd_baseline = [],
     dd_base_rate = None, dd_base_pii = None, dd_base_hist = None, dd_base_time = None, dd_scores = [], dd_alerts = []\<rparr>"

definition has_baseline :: "drift_detector \<Rightarrow> bool" where
  "has_baseline d \<longleftrightarrow> dd_base_hist d \<noteq> None"

definition toxicity_rate :: "pyfloat list \<Rightarrow> pyfloat" where
  "toxicity_rate scores = real (length (filter (\<lambda>s. 0.5 < s) scores)) / real (length scores)"

definition set_baseline :: "string \<Rightarrow> pyfloat list \<Rightarrow> drift_detector \<Rightarrow> drift_detector" where
  "set_baseline now scores d =
     (if scores = [] then d
      else d\<lparr>dd_baseline := scores, dd_base_hist := Some (compute_histogram scores 10 0 1),
             dd_base_time := Some now, dd_base_rate := Some (toxicity_rate scores)\<rparr>)"

definition set_baseline_from_stats ::
  "string \<Rightarrow> pyfloat \<Rightarrow> pyfloat \<Rightarrow> pyfloat list option \<Rightarrow> drift_detector \<Rightarrow> drift_detector" where
  "set_baseline_from_stats now rate pii hist d =
     d\<lparr>dd_base_rate := Some rate, dd_base_pii := Some pii,
       dd_base_hist := (case hist of Some (x # xs) \<Rightarrow> Some (x # xs) | _ \<Rightarrow> dd_base_hist d),
       dd_base_time := Some now\<rparr>"

definition alert_kinds :: "drift_detector \<Rightarrow> pyfloat \<Rightarrow> pyfloat \<Rightarrow> pyfloat \<Rightarrow> drift_alert_kind list" where
  "alert_kinds d psi kl rate =
     (if dd_psi_threshold d < psi then [PsiDrift psi (0.3 < psi)] else []) @
     (if dd_kl_threshold d < kl then [KlDrift kl] else []) @
     (case dd_base_rate d of None \<Rightarrow> []
      | Some b \<Rightarrow> if 0.1 < \<bar>rate - b\<bar> then [RateShift \<bar>rate - b\<bar>] else [])"

definition check_drift :: "string \<Rightarrow> drift_detector \<Rightarrow> py_error + drift_alert option \<times> drift_detector" where
  "check_drift now d =
     (case dd_base_hist d of
        Some (x # xs) \<Rightarrow>
          if length (dd_scores d) < 100 then Inr (None, d)
          else
            let h = compute_histogram (dd_scores d) 10 0 1
            in (case compute_psi (x # xs) h of Inl e \<Rightarrow> Inl e
                | Inr psi \<Rightarrow> (case compute_kl_divergence (x # xs) h of Inl e \<Rightarrow> Inl e
                | Inr kl \<Rightarrow>
                    let rate = toxicity_rate (dd_scores d); kinds = alert_kinds d psi kl rate;
                        al = \<lparr>da_time = now, da_window = length (dd_scores d), da_psi = psi, da_kl = kl,
                              da_rate = rate, da_kinds = kinds\<rparr>
                    in if kinds = [] then Inr (None, d)
                       else Inr (Some al, d\<lparr>dd_alerts := dd_alerts d @ [al]\<rparr>)))
      | _ \<Rightarrow> Inr (None, d))"

definition push_score :: "drift_detector \<Rightarrow> pyfloat \<Rightarrow> drift_detector" where
  "push_score d s =
     (let xs = dd_scores d @ [s]
      in d\<lparr>dd_scores := (if dd_window d < length xs then (if dd_window d = 0 then xs else take_last (dd_window d) xs) else xs)\<rparr>)"

definition add_sample :: "string \<Rightarrow> pyfloat \<Rightarrow> drift_detector \<Rightarrow> py_error + drift_alert option \<times> drift_detector" where
  "add_sample now s d =
     (let d1 = push_score d s
      in if 100 \<le> length (dd_scores d1) \<and> length (dd_scores d1) mod 100 = 0 then check_drift now d1
         else Inr (None, d1))"

definition get_alerts :: "(string \<Rightarrow> bool) option \<Rightarrow> drift_detector \<Rightarrow> drift_alert list" where
  \<comment> \<open>the optional test: the time stamp is after \<open>since\<close>\<close>
  "get_alerts since d = (case since of None \<Rightarrow> dd_alerts d | Some later \<Rightarrow> filter (\<lambda>a. later (da_time a)) (dd_alerts d))"

definition reset_detector :: "drift_detector \<Rightarrow> drift_detector" where
  "reset_detector d = d\<lparr>dd_baseline := [], dd_base_rate := None, dd_base_pii := None, dd_base_hist := None,
     dd_base_time := None, dd_scores := [], dd_alerts := []\<rparr>"

section \<open>Properties\<close>

lemma count_bins_length [simp]: "length (count_bins idx vs h) = length h"
  by (induction vs arbitrary: h) simp_all

lemma sum_list_update_add: "i < length h \<Longrightarrow> sum_list (h[i := h ! i + 1]) = sum_list h + (1 :: real)"
  by (induction h arbitrary: i) (auto split: nat.split)

lemma count_bins_sum:
  "(\<And>v. idx v < length h) \<Longrightarrow> sum_list (count_bins idx vs h) = sum_list h + real (length vs)"
  by (induction vs arbitrary: h) (simp_all add: sum_list_update_add)

lemma count_bins_nonneg: "\<forall>x \<in> set h. 0 \<le> x \<Longrightarrow> (\<And>v. idx v < length h) \<Longrightarrow> \<forall>x \<in> set (count_bins idx vs h). 0 \<le> x"
proof (induction vs arbitrary: h)
  case (Cons v vs)
  have "\<forall>x \<in> set (h[idx v := h ! idx v + 1]). 0 \<le> x"
    using Cons.prems set_update_subset_insert [of h "idx v" "h ! idx v + 1"] nth_mem [of "idx v" h] by fastforce
  with Cons show ?case by simp
qed simp

lemma bin_index_less: "0 < bins \<Longrightarrow> bin_index bins lo hi v < bins"
  by (auto simp: bin_index_def)

lemma sum_list_divide: "sum_list (map (\<lambda>x. x / c) xs) = sum_list xs / (c :: real)"
  by (induction xs) (simp_all add: add_divide_distrib)

lemma psi_term: "0 \<le> (clamp a - clamp e) * ln (clamp a / clamp e)"
proof -
  have pos: "0 < clamp a" "0 < clamp e" by (simp_all add: clamp_def max_def)
  show ?thesis
  proof (cases "clamp e \<le> clamp a")
    case True
    with pos have "0 \<le> ln (clamp a / clamp e)" by simp
    with True show ?thesis by simp
  next
    case False
    with pos have "ln (clamp a / clamp e) \<le> 0" by simp
    with False show ?thesis by (simp add: mult_nonpos_nonpos)
  qed
qed

lemma psi_fold_nonneg: "0 \<le> acc \<Longrightarrow> 0 \<le> foldl (\<lambda>psi (e, a). psi + (clamp a - clamp e) * ln (clamp a / clamp e)) acc ps"
proof (induction ps arbitrary: acc)
  case (Cons p ps)
  obtain e a where p: "p = (e, a)" by (cases p)
  have "0 \<le> acc + (clamp a - clamp e) * ln (clamp a / clamp e)"
    using Cons.prems psi_term [of a e] by (rule add_nonneg_nonneg)
  from Cons.IH [OF this] show ?case by (simp only: p foldl_Cons prod.case)
qed simp

lemma psi_fold_same: "\<forall>p \<in> set ps. fst p = snd p \<Longrightarrow>
    foldl (\<lambda>psi (e, a). psi + (clamp a - clamp e) * ln (clamp a / clamp e)) acc ps = acc"
proof (induction ps arbitrary: acc)
  case (Cons p ps)
  then have "p = (fst p, fst p)" by (metis list.set_intros(1) prod.collapse)
  then obtain e where "p = (e, e)" by blast
  with Cons show ?case by simp
qed simp

text \<open>
  The figures of the detector are well formed. The histogram of a non-empty list of scores is
  a distribution (not negative, summing to 1) with the requested number of bins; the population
  stability index of two distributions of the same length is defined, never negative, and 0 for
  a distribution against itself; different lengths are an error.
\<close>
theorem psi_and_histogram:
  "(vs \<noteq> [] \<and> 0 < bins \<longrightarrow> length (compute_histogram vs bins lo hi) = bins \<and>
     sum_list (compute_histogram vs bins lo hi) = 1 \<and> (\<forall>x \<in> set (compute_histogram vs bins lo hi). 0 \<le> x)) \<and>
   (\<forall>v. compute_psi p q = Inr v \<longrightarrow> length p = length q \<and> 0 \<le> v) \<and>
   (length p \<noteq> length q \<longrightarrow> compute_psi p q = Inl ValueError) \<and>
   compute_psi p p = Inr 0"
proof (intro conjI impI allI)
  assume a: "vs \<noteq> [] \<and> 0 < bins"
  let ?h = "count_bins (bin_index bins lo hi) vs (replicate bins 0)"
  have s: "sum_list ?h = real (length vs)"
    using a bin_index_less by (subst count_bins_sum) (simp_all add: sum_list_replicate)
  moreover have n: "\<forall>x \<in> set ?h. 0 \<le> x"
    using a bin_index_less by (intro count_bins_nonneg) simp_all
  moreover have "0 < real (length vs)" using a by simp
  ultimately have "compute_histogram vs bins lo hi = map (\<lambda>x. x / real (length vs)) ?h"
    using a by (simp add: compute_histogram_def Let_def)
  with s n a show "length (compute_histogram vs bins lo hi) = bins"
    "sum_list (compute_histogram vs bins lo hi) = 1" "\<forall>x \<in> set (compute_histogram vs bins lo hi). 0 \<le> x"
    by (auto simp: sum_list_divide)
next
  fix v assume "compute_psi p q = Inr v"
  then show "length p = length q" "0 \<le> v"
    using psi_fold_nonneg [of 0] by (auto simp: compute_psi_def psi_sum_def intro: py_round_nonneg split: if_splits)
next
  have "psi_sum (zip p p) = 0"
    unfolding psi_sum_def by (rule psi_fold_same) (auto simp: set_zip)
  then show "compute_psi p p = Inr 0"
    by (simp add: compute_psi_def py_round_def round_half_even_def)
qed (simp add: compute_psi_def)

lemma psi_and_histogram_witness:
  "sum_list (compute_histogram [0.1, 0.9] 10 0 1) = 1 \<and> compute_psi [1] [0.5, 0.5] = Inl ValueError"
  using psi_and_histogram [of "[0.1, 0.9]" 10 0 1 "[1]" "[0.5, 0.5]"] by simp

interpretation window: bounded_log push_score dd_scores dd_window "\<lambda>d. 0 < dd_window d \<and> length (dd_scores d) \<le> dd_window d"
  by unfold_locales (auto simp: push_score_def Let_def)

text \<open>
  Once its window is full the detector no longer samples the check: with a window that is no
  multiple of 100 it never looks for drift again, whatever scores arrive; and with one that is,
  it looks at every single sample instead of every 100.
\<close>
theorem full_window_checks:
  assumes "0 < dd_window d" "length (dd_scores d) = dd_window d"
  shows "(dd_window d mod 100 \<noteq> 0 \<longrightarrow> add_sample now s d = Inr (None, push_score d s)) \<and>
    (dd_window d mod 100 = 0 \<longrightarrow> add_sample now s d = check_drift now (push_score d s)) \<and>
    length (dd_scores (push_score d s)) = dd_window d \<and> dd_window (push_score d s) = dd_window d"
proof -
  have "length (dd_scores (push_score d s)) = dd_window d"
    using assms window.entries_add [of d s] by simp
  moreover have "dd_window (push_score d s) = dd_window d" by (simp add: push_score_def Let_def)
  moreover have "100 \<le> dd_window d" if "dd_window d mod 100 = 0" using that assms(1) by presburger
  ultimately show ?thesis by (simp add: add_sample_def Let_def)
qed

lemma full_window_checks_witness:
  "add_sample ''t'' 1 ((new_detector 0.2 0.1 1)\<lparr>dd_scores := [0]\<rparr>) = Inr (None, (new_detector 0.2 0.1 1)\<lparr>dd_scores := [1]\<rparr>)"
  using full_window_checks [of "(new_detector 0.2 0.1 1)\<lparr>dd_scores := [0]\<rparr>" "''t''" 1]
  by (simp add: new_detector_def push_score_def Let_def take_last_def)

text \<open>The window holds the newest scores, at most as many as configured.\<close>

lemma window_newest:
  assumes "0 < w"
  shows "dd_scores (foldl push_score (new_detector psi kl w) xs) = take_last w xs"
  using window.entries_run [of "new_detector psi kl w" xs] assms by (simp add: new_detector_def)

end
