(* ===== verification/Access_Control.thy ===== *)
theory Access_Control
  imports Py_Prelude Interfaces "HOL-Library.Char_ord" "HOL-Library.List_Lexorder" "HOL-Library.Product_Lexorder"
begin

text \<open>
  Sessions and API keys: \<open>services/shared/security/session.py\<close> and \<open>api_keys.py\<close>.

  Redis is a parameter, the record of the commands the session manager uses on a state of any
  type; a stored value is the session it parses to, and the order in which \<open>SMEMBERS\<close> lists a set
  is part of it. \<open>redis_laws\<close> names what the code relies on: reads see the last write to the same
  key, the two kinds of keys do not interfere, a set has no duplicates. Expiry is the
  environment's: a state in which keys are missing. The table of API keys is the list of its
  rows, and the digest function is a parameter.
\<close>

section \<open>Sessions (security/session.py)\<close>

record session =
  se_id :: string
  se_user :: string
  se_role :: string
  se_created :: nat \<comment> \<open>the ISO time stamp, which sorts like the time\<close>
  se_activity :: nat
  se_active :: bool

record 's redis =
  rd_get :: "string \<Rightarrow> 's \<Rightarrow> session option"
  rd_setex :: "string \<Rightarrow> nat \<Rightarrow> session \<Rightarrow> 's \<Rightarrow> 's"
  rd_members :: "string \<Rightarrow> 's \<Rightarrow> string list"
  rd_sadd :: "string \<Rightarrow> string \<Rightarrow> 's \<Rightarrow> 's"
  rd_srem :: "string \<Rightarrow> string \<Rightarrow> 's \<Rightarrow> 's"
  rd_expire :: "string \<Rightarrow> nat \<Rightarrow> 's \<Rightarrow> 's"
  rd_delete :: "string \<Rightarrow> 's \<Rightarrow> 's"

definition max_concurrent :: nat where "max_concurrent = 5"
definition session_ttl :: nat where "session_ttl = 24 * 3600"

definition session_key :: "string \<Rightarrow> string" where
  "session_key i = ''session:'' @ i"

definition user_sessions_key :: "string \<Rightarrow> string" where
  "user_sessions_key u = ''user_sessions:'' @ u"

definition revoke_session :: "'s redis \<Rightarrow> string \<Rightarrow> 's \<Rightarrow> bool \<times> 's" where
  "revoke_session rd i s =
     (case rd_get rd (session_key i) s of
        None \<Rightarrow> (False, s)
      | Some d \<Rightarrow>
          (let s1 = rd_setex rd (session_key i) session_ttl (d\<lparr>se_active := False\<rparr>) s
           in (True, if se_user d \<noteq> [] then rd_srem rd (user_sessions_key (se_user d)) i s1 else s1)))"

definition live_sessions :: "'s redis \<Rightarrow> string list \<Rightarrow> 's \<Rightarrow> (nat \<times> string) list" where
  \<comment> \<open>creation time and id of the listed sessions that still have data\<close>
  "live_sessions rd ids s = concat (map (\<lambda>i. case rd_get rd (session_key i) s of
     None \<Rightarrow> [] | Some d \<Rightarrow> [(se_created d, i)]) ids)"

definition beyond_limit :: "(nat \<times> string) list \<Rightarrow> string list" where
  \<comment> \<open>\<open>sessions[:len(sessions) - MAX_CONCURRENT_SESSIONS]\<close> of the sorted list\<close>
  "beyond_limit sorted_sessions =
     map snd (slice_to (int (length sorted_sessions) - int max_concurrent) sorted_sessions)"

definition enforce_session_limit :: "'s redis \<Rightarrow> string \<Rightarrow> 's \<Rightarrow> 's" where
  \<comment> \<open>pairs are sorted by time, then by id\<close>
  "enforce_session_limit rd user s =
     (let ids = rd_members rd (user_sessions_key user) s
      in if length ids \<le> max_concurrent then s
         else foldl (\<lambda>s i. snd (revoke_session rd i s)) s (beyond_limit (sort (live_sessions rd ids s))))"

definition create_session ::
  "'s redis \<Rightarrow> string \<Rightarrow> nat \<Rightarrow> string \<Rightarrow> string \<Rightarrow> 's \<Rightarrow> string \<times> 's" where
  \<comment> \<open>the random id and the time are arguments; the metadata, which nothing reads, is left out\<close>
  "create_session rd i now user role s =
     (let d = \<lparr>se_id = i, se_user = user, se_role = role, se_created = now, se_activity = now, se_active = True\<rparr>;
          k = user_sessions_key user;
          s1 = rd_setex rd (session_key i) session_ttl d s;
          s2 = rd_expire rd k session_ttl (rd_sadd rd k i s1)
      in (i, enforce_session_limit rd user s2))"

definition validate_session :: "'s redis \<Rightarrow> nat \<Rightarrow> string \<Rightarrow> 's \<Rightarrow> session option \<times> 's" where
  "validate_session rd now i s =
     (case rd_get rd (session_key i) s of
        None \<Rightarrow> (None, s)
      | Some d \<Rightarrow> if \<not> se_active d then (None, s)
          else let d1 = d\<lparr>se_activity := now\<rparr> in (Some d1, rd_setex rd (session_key i) session_ttl d1 s))"

definition revoke_all_user_sessions :: "'s redis \<Rightarrow> string \<Rightarrow> 's \<Rightarrow> nat \<times> 's" where
  "revoke_all_user_sessions rd user s =
     (let k = user_sessions_key user; ids = rd_members rd k s;
          (n, s1) = foldl (\<lambda>(n, s) i. case revoke_session rd i s of (ok, s') \<Rightarrow> (if ok then Suc n else n, s')) (0, s) ids
      in (n, rd_delete rd k s1))"

definition get_user_active_sessions :: "'s redis \<Rightarrow> string \<Rightarrow> 's \<Rightarrow> session list" where
  "get_user_active_sessions rd user s =
     concat (map (\<lambda>i. case rd_get rd (session_key i) s of None \<Rightarrow> []
       | Some d \<Rightarrow> if se_active d then [d] else []) (rd_members rd (user_sessions_key user) s))"

definition redis_laws :: "'s redis \<Rightarrow> bool" where
  \<comment> \<open>what the commands do to the sessions\<close>
  "redis_laws rd \<longleftrightarrow>
     (\<forall>k k' t d s. rd_get rd k' (rd_setex rd k t d s) = (if k' = k then Some d else rd_get rd k' s)) \<and>
     (\<forall>i u j s. rd_get rd (session_key j) (rd_srem rd (user_sessions_key u) i s) = rd_get rd (session_key j) s) \<and>
     (\<forall>u j s. rd_get rd (session_key j) (rd_delete rd (user_sessions_key u) s) = rd_get rd (session_key j) s)"

definition valid_in :: "'s redis \<Rightarrow> 's \<Rightarrow> string \<Rightarrow> bool" where
  \<comment> \<open>\<open>validate_session\<close> would return the session\<close>
  "valid_in rd s i \<longleftrightarrow> fst (validate_session rd 0 i s) \<noteq> None"

lemma validate_iff: "fst (validate_session rd now i s) \<noteq> None \<longleftrightarrow> valid_in rd s i"
  and valid_in_get: "valid_in rd s i \<longleftrightarrow> (\<exists>d. rd_get rd (session_key i) s = Some d \<and> se_active d)"
  by (auto simp: valid_in_def validate_session_def Let_def split: option.splits)

lemma session_key_inj [simp]: "session_key i = session_key j \<longleftrightarrow> i = j"
  by (simp add: session_key_def)

lemma revoke_valid:
  assumes "redis_laws rd"
  shows "valid_in rd (snd (revoke_session rd i s)) j \<longleftrightarrow> valid_in rd s j \<and> j \<noteq> i"
  using assms by (auto simp: revoke_session_def valid_in_get redis_laws_def Let_def split: option.splits)

lemma revoke_list_valid:
  assumes "redis_laws rd"
  shows "valid_in rd (foldl (\<lambda>s i. snd (revoke_session rd i s)) s ids) j \<longleftrightarrow> valid_in rd s j \<and> j \<notin> set ids"
  by (induction ids arbitrary: s) (auto simp: revoke_valid [OF assms])

lemma revoke_all_state:
  "snd (foldl (\<lambda>(n, s) i. case revoke_session rd i s of (ok, s') \<Rightarrow> (if ok then Suc n else n, s')) (n, s) ids) =
   foldl (\<lambda>s i. snd (revoke_session rd i s)) s ids"
  by (induction ids arbitrary: n s) (auto split: prod.splits)

text \<open>
  Revoking all sessions of a user ends exactly those its session set lists: afterwards a
  session is valid iff it was valid before and its id is not in the set. A session of the user that
  is valid but no longer listed (the set has its own expiry, which validation does not renew)
  survives the revocation.
\<close>
theorem revoke_all_ends_listed:
  assumes "redis_laws rd"
  shows "fst (validate_session rd now j (snd (revoke_all_user_sessions rd user s))) \<noteq> None \<longleftrightarrow>
    fst (validate_session rd now j s) \<noteq> None \<and> j \<notin> set (rd_members rd (user_sessions_key user) s)"
proof -
  let ?ids = "rd_members rd (user_sessions_key user) s"
  let ?s1 = "foldl (\<lambda>s i. snd (revoke_session rd i s)) s ?ids"
  have "snd (revoke_all_user_sessions rd user s) = rd_delete rd (user_sessions_key user) ?s1"
    using revoke_all_state [of rd 0 s ?ids] by (simp add: revoke_all_user_sessions_def Let_def split_beta)
  moreover have "valid_in rd (rd_delete rd (user_sessions_key user) ?s1) j \<longleftrightarrow> valid_in rd ?s1 j"
    using assms by (simp add: valid_in_get redis_laws_def)
  ultimately show ?thesis unfolding validate_iff by (simp add: revoke_list_valid [OF assms])
qed

text \<open>
  The session limit can revoke sessions of a user who is below it. When the set lists
  more ids than the limit, but only \<open>n < 5\<close> of them still have data, the slice bound is negative and
  all but the \<open>5 - n\<close> newest of these sessions are revoked.
\<close>
theorem stale_ids_revoke_live_sessions:
  assumes "redis_laws rd" "max_concurrent < length (rd_members rd (user_sessions_key user) s)"
    and "live = sort (live_sessions rd (rd_members rd (user_sessions_key user) s) s)"
    and "length live < max_concurrent" "valid_in rd s j"
  shows "valid_in rd (enforce_session_limit rd user s) j \<longleftrightarrow>
    j \<notin> snd ` set (take (2 * length live - max_concurrent) live)"
proof -
  have "beyond_limit live = map snd (take (2 * length live - max_concurrent) live)"
  proof -
    have "length live - nat (int max_concurrent - int (length live)) = 2 * length live - max_concurrent"
      using assms(4) by simp
    with assms(4) show ?thesis by (simp add: beyond_limit_def slice_to_def)
  qed
  then show ?thesis
    using assms by (simp add: enforce_session_limit_def Let_def revoke_list_valid)
qed

text \<open>A Redis of two maps, for the witnesses.\<close>

definition map_redis :: "((string \<Rightarrow> session option) \<times> (string \<Rightarrow> string list)) redis" where
  "map_redis = \<lparr>rd_get = (\<lambda>k (m, u). m k), rd_setex = (\<lambda>k t d (m, u). (m(k := Some d), u)),
     rd_members = (\<lambda>k (m, u). u k), rd_sadd = (\<lambda>k i (m, u). (m, u(k := List.insert i (u k)))),
     rd_srem = (\<lambda>k i (m, u). (m, u(k := remove1 i (u k)))), rd_expire = (\<lambda>k t s. s),
     rd_delete = (\<lambda>k (m, u). (m, u(k := [])))\<rparr>"

lemma map_redis_laws: "redis_laws map_redis"
  by (auto simp: redis_laws_def map_redis_def)

definition sample_session :: "string \<Rightarrow> session" where
  "sample_session i = \<lparr>se_id = i, se_user = ''u'', se_role = ''viewer'', se_created = 1, se_activity = 1, se_active = True\<rparr>"

definition sample_store :: "string list \<Rightarrow> (string \<Rightarrow> session option) \<times> (string \<Rightarrow> string list)" where
  "sample_store listed = ((\<lambda>k. if k \<in> {session_key ''a'', session_key ''b'', session_key ''c''} then Some (sample_session ''a'') else None),
     (\<lambda>k. listed))"

lemma revoke_all_ends_listed_witness:
  "fst (validate_session map_redis 5 ''a'' (snd (revoke_all_user_sessions map_redis ''u'' (sample_store [''b''])))) \<noteq> None"
proof (rule iffD2 [OF revoke_all_ends_listed [OF map_redis_laws]])
  show "fst (validate_session map_redis 5 ''a'' (sample_store [''b''])) \<noteq> None \<and>
      ''a'' \<notin> set (rd_members map_redis (user_sessions_key ''u'') (sample_store [''b'']))"
    unfolding validate_iff valid_in_get by (simp add: map_redis_def sample_store_def sample_session_def)
qed

lemma stale_ids_revoke_live_sessions_witness:
  "\<not> valid_in map_redis (enforce_session_limit map_redis ''u''
     (sample_store [''a'', ''b'', ''c'', ''x'', ''y'', ''z''])) ''a''"
proof -
  let ?s = "sample_store [''a'', ''b'', ''c'', ''x'', ''y'', ''z'']"
  have live: "live_sessions map_redis (rd_members map_redis (user_sessions_key ''u'') ?s) ?s = [(1, ''a''), (1, ''b''), (1, ''c'')]"
    by (simp add: live_sessions_def map_redis_def sample_store_def sample_session_def)
  show ?thesis
    using stale_ids_revoke_live_sessions [OF map_redis_laws, of "''u''" ?s _ "''a''", OF _ refl]
    unfolding live by (simp add: max_concurrent_def valid_in_get less_prod_def less_eq_prod_def)
      (simp add: map_redis_def sample_store_def sample_session_def)
qed

section \<open>API keys (security/api_keys.py)\<close>

record api_key_row =
  ak_id :: string
  ak_hash :: string
  ak_name :: string
  ak_role :: string
  ak_permissions :: "string list"
  ak_active :: bool
  ak_expires :: "pyfloat option"
  ak_used :: "pyfloat option"

record key_info =
  ki_id :: string
  ki_name :: string
  ki_role :: string
  ki_permissions :: "string list"

definition mask_key :: "string \<Rightarrow> string" where
  "mask_key k = (if 10 < length k then take 8 k @ ''...'' @ take_last 4 k else k)"

definition generate_key :: "string \<Rightarrow> string" where
  \<comment> \<open>from the random \<open>token_hex\<close>\<close>
  "generate_key hex = ''pg_'' @ hex"

definition create_key ::
  "(string \<Rightarrow> string) \<Rightarrow> string \<Rightarrow> string \<Rightarrow> pyfloat \<Rightarrow> string \<Rightarrow> string \<Rightarrow> nat \<Rightarrow> string list \<Rightarrow>
   api_key_row list \<Rightarrow> api_key_row list" where
  \<comment> \<open>digest, the random key and id, the time, name, role, days and permissions. The table rejects
     a second row with the same id or digest, which are random; the author is not recorded here.\<close>
  "create_key sha raw i now name role days perms rows =
     rows @ [\<lparr>ak_id = i, ak_hash = sha raw, ak_name = name, ak_role = role, ak_permissions = perms,
       ak_active = True, ak_expires = Some (now + real days * 86400), ak_used = None\<rparr>]"

definition validate_key ::
  "(string \<Rightarrow> string) \<Rightarrow> pyfloat \<Rightarrow> string \<Rightarrow> api_key_row list \<Rightarrow> key_info option \<times> api_key_row list" where
  "validate_key sha now key rows =
     (if \<not> startswith key ''pg_'' then (None, rows)
      else case find (\<lambda>r. ak_hash r = sha key) rows of
        None \<Rightarrow> (None, rows)
      | Some r \<Rightarrow>
          if \<not> ak_active r then (None, rows)
          else if (case ak_expires r of None \<Rightarrow> False | Some t \<Rightarrow> t < now) then (None, rows)
          else (Some \<lparr>ki_id = ak_id r, ki_name = ak_name r, ki_role = ak_role r, ki_permissions = ak_permissions r\<rparr>,
                map (\<lambda>q. if ak_id q = ak_id r then q\<lparr>ak_used := Some now\<rparr> else q) rows))"

definition deactivate :: "string \<Rightarrow> api_key_row list \<Rightarrow> api_key_row list" where
  "deactivate i rows = map (\<lambda>q. if ak_id q = i then q\<lparr>ak_active := False\<rparr> else q) rows"

datatype db_status = StatusText string | StatusCount int

definition revoke_key :: "db_status \<Rightarrow> string \<Rightarrow> api_key_row list \<Rightarrow> (py_error + bool) \<times> api_key_row list" where
  \<comment> \<open>\<open>result > 0\<close> on what the database driver answers to the update: a status text or a count\<close>
  "revoke_key status i rows =
     ((case status of StatusText t \<Rightarrow> Inl TypeError | StatusCount n \<Rightarrow> Inr (0 < n)), deactivate i rows)"

definition list_keys :: "api_key_row list \<Rightarrow> api_key_row list" where
  \<comment> \<open>newest first; the rows are in the order of their creation. The digest is not selected.\<close>
  "list_keys rows = map (\<lambda>r. r\<lparr>ak_hash := []\<rparr>) (rev rows)"

definition rotate_key ::
  "(string \<Rightarrow> string) \<Rightarrow> string \<Rightarrow> string \<Rightarrow> pyfloat \<Rightarrow> string \<Rightarrow> api_key_row list \<Rightarrow> bool \<times> api_key_row list" where
  \<comment> \<open>the new key gets the default of 365 days\<close>
  "rotate_key sha raw new_id now i rows =
     (case find (\<lambda>r. ak_id r = i) rows of
        None \<Rightarrow> (False, rows)
      | Some r \<Rightarrow> (True, create_key sha raw new_id now (ak_name r @ '' (rotated)'') (ak_role r) 365 (ak_permissions r)
          (deactivate i rows)))"

record auth_identity =
  au_email :: string
  au_role :: string
  au_permissions :: "string list"
  au_key_name :: string

definition authenticate_with_api_key ::
  "(string \<Rightarrow> string) \<Rightarrow> pyfloat \<Rightarrow> string \<Rightarrow> api_key_row list \<Rightarrow> auth_identity option \<times> api_key_row list" where
  \<comment> \<open>the third argument is the \<open>Authorization\<close> header\<close>
  "authenticate_with_api_key sha now header rows =
     (if \<not> startswith header ''Bearer '' then (None, rows)
      else let token = drop 7 header
           in if \<not> startswith token ''pg_'' then (None, rows)
              else (case validate_key sha now token rows of
                (None, rows') \<Rightarrow> (None, rows')
              | (Some k, rows') \<Rightarrow> (Some \<lparr>au_email = ''api-key:'' @ ki_id k, au_role = ki_role k,
                  au_permissions = ki_permissions k, au_key_name = ki_name k\<rparr>, rows')))"

lemma find_map_keep:
  "(\<And>q. ak_hash (g q) = ak_hash q) \<Longrightarrow>
   find (\<lambda>r. ak_hash r = h) (map g rows) = map_option g (find (\<lambda>r. ak_hash r = h) rows)"
  by (induction rows) simp_all

lemma find_append: "find P (xs @ ys) = (case find P xs of None \<Rightarrow> find P ys | Some x \<Rightarrow> Some x)"
  by (induction xs) simp_all

text \<open>
  Rotating a key replaces it: the old key no longer authenticates at any time and the new
  one does, with the old role and permissions, for a year. (The digests of the two keys differ
  and no other key shares them, ids are unique, the new id is fresh.)
\<close>
theorem rotation_replaces_key:
  assumes "find (\<lambda>r. ak_hash r = sha old) rows = Some r" "distinct (map ak_id rows)"
    and "rotate_key sha new new_id now (ak_id r) rows = (True, rows')"
    and "startswith new ''pg_''" "\<forall>q \<in> set rows. ak_hash q \<noteq> sha new" "later \<le> now + 365 * 86400"
  shows "fst (validate_key sha t old rows') = None \<and>
    fst (validate_key sha later new rows') =
      Some \<lparr>ki_id = new_id, ki_name = ak_name r @ '' (rotated)'', ki_role = ak_role r, ki_permissions = ak_permissions r\<rparr>"
proof -
  have r: "r \<in> set rows" using find_SomeD [OF assms(1)] by simp
  obtain q where q: "find (\<lambda>q. ak_id q = ak_id r) rows = Some q"
    using r by (cases "find (\<lambda>q. ak_id q = ak_id r) rows") (auto simp: find_None_iff)
  from find_SomeD [OF q] r assms(2) have "q = r" by (auto simp: distinct_map inj_on_def)
  with q assms(3) have rows': "rows' = create_key sha new new_id now (ak_name r @ '' (rotated)'') (ak_role r) 365
      (ak_permissions r) (deactivate (ak_id r) rows)"
    by (simp add: rotate_key_def)
  let ?off = "\<lambda>q. if ak_id q = ak_id r then q\<lparr>ak_active := False\<rparr> else q"
  have old: "find (\<lambda>q. ak_hash q = sha old) rows' = Some (r\<lparr>ak_active := False\<rparr>)"
    using assms(1) by (simp add: rows' create_key_def deactivate_def find_append find_map_keep [of ?off])
  have "find (\<lambda>q. ak_hash q = sha new) rows = None" using assms(5) by (simp add: find_None_iff)
  then have new: "find (\<lambda>q. ak_hash q = sha new) rows' =
      Some \<lparr>ak_id = new_id, ak_hash = sha new, ak_name = ak_name r @ '' (rotated)'', ak_role = ak_role r,
        ak_permissions = ak_permissions r, ak_active = True, ak_expires = Some (now + real 365 * 86400), ak_used = None\<rparr>"
    by (simp add: rows' create_key_def deactivate_def find_append find_map_keep [of ?off])
  show ?thesis using assms(4,6) by (simp add: validate_key_def old new)
qed

lemma rotation_replaces_key_witness:
  "fst (validate_key (\<lambda>k. k) 5 ''pg_1''
     (snd (rotate_key (\<lambda>k. k) ''pg_2'' ''b'' 0 ''a'' (create_key (\<lambda>k. k) ''pg_1'' ''a'' 0 ''n'' ''viewer'' 1 [] [])))) = None"
proof -
  let ?rows = "create_key (\<lambda>k. k) ''pg_1'' ''a'' 0 ''n'' ''viewer'' 1 [] []"
  let ?r = "\<lparr>ak_id = ''a'', ak_hash = ''pg_1'', ak_name = ''n'', ak_role = ''viewer'', ak_permissions = [],
       ak_active = True, ak_expires = Some 86400, ak_used = None\<rparr>"
  have "find (\<lambda>r. ak_hash r = (\<lambda>k. k) ''pg_1'') ?rows = Some ?r" by (simp add: create_key_def)
  moreover have "rotate_key (\<lambda>k. k) ''pg_2'' ''b'' 0 (ak_id ?r) ?rows =
      (True, snd (rotate_key (\<lambda>k. k) ''pg_2'' ''b'' 0 ''a'' ?rows))"
    by (simp add: create_key_def rotate_key_def)
  ultimately show ?thesis
    using rotation_replaces_key [of "\<lambda>k. k" "''pg_1''" ?rows ?r "''pg_2''" "''b''" 0 _ 0 5]
    by (simp add: create_key_def)
qed

text \<open>A header authenticates only with a key whose digest is stored, active and not expired.\<close>

lemma authenticated_key:
  assumes "fst (authenticate_with_api_key sha now header rows) = Some a"
  shows "\<exists>r \<in> set rows. ak_hash r = sha (drop 7 header) \<and> ak_active r \<and> au_role a = ak_role r \<and>
    (case ak_expires r of None \<Rightarrow> True | Some t \<Rightarrow> now \<le> t)"
proof -
  let ?key = "drop 7 header"
  obtain k where k: "fst (validate_key sha now ?key rows) = Some k" "au_role a = ki_role k"
    using assms by (auto simp: authenticate_with_api_key_def Let_def split: if_splits prod.splits option.splits)
  then obtain r where r: "find (\<lambda>r. ak_hash r = sha ?key) rows = Some r"
    by (auto simp: validate_key_def split: if_splits option.splits)
  with k have "ak_active r" "ki_role k = ak_role r" "case ak_expires r of None \<Rightarrow> True | Some t \<Rightarrow> now \<le> t"
    by (auto simp: validate_key_def split: if_splits option.splits)
  with find_SomeD [OF r] k(2) show ?thesis by auto
qed

text \<open>Revocation takes effect even though it raises: the driver answers with a text.\<close>

lemma revoke_key_deactivates:
  assumes "find (\<lambda>r. ak_hash r = sha key) rows = Some r"
  shows "fst (revoke_key (StatusText t) (ak_id r) rows) = Inl TypeError \<and>
    fst (validate_key sha now key (snd (revoke_key (StatusText t) (ak_id r) rows))) = None"
  using assms
  by (simp add: revoke_key_def deactivate_def validate_key_def
      find_map_keep [of "\<lambda>q. if ak_id q = ak_id r then q\<lparr>ak_active := False\<rparr> else q"])

end
