(* ===== verification/Json_Store.thy ===== *)
theory Json_Store
  imports Py_Prelude
begin

text \<open>
  The way the managers of \<open>services/shared/security\<close> persist their records: a dictionary from
  record ids to records in memory, and a JSON file with the list of its values. A file is read
  back as the records it was written from (\<open>asdict\<close> and the constructor are inverse on fields
  that are texts, numbers, flags and lists), read up to the first record that does not parse, or
  absent. Writing replaces the file, leaves it alone when it cannot be opened, and leaves a
  truncated file when the disk fills up in the middle.
\<close>

datatype 'v stored = NoFile | Corrupt "'v list" | Stored "'v list"
datatype write_outcome = Written | OpenFails | DumpFails

definition dict_of :: "('v \<Rightarrow> 'k) \<Rightarrow> 'v list \<Rightarrow> ('k, 'v) pydict" where
  "dict_of key vs = foldl (\<lambda>d v. dict_set (key v) v d) [] vs"

definition save_file :: "write_outcome \<Rightarrow> 'v list \<Rightarrow> 'v stored \<Rightarrow> 'v stored" where
  "save_file w vs f = (case w of Written \<Rightarrow> Stored vs | OpenFails \<Rightarrow> f | DumpFails \<Rightarrow> Corrupt [])"

definition load_file :: "('v \<Rightarrow> 'k) \<Rightarrow> 'v stored \<Rightarrow> ('k, 'v) pydict" where
  "load_file key f = (case f of NoFile \<Rightarrow> [] | Corrupt vs \<Rightarrow> dict_of key vs | Stored vs \<Rightarrow> dict_of key vs)"

definition keyed :: "('v \<Rightarrow> 'k) \<Rightarrow> ('k, 'v) pydict \<Rightarrow> bool" where
  "keyed key d \<longleftrightarrow> distinct (map fst d) \<and> (\<forall>(k, v) \<in> set d. key v = k)"

lemma keyed_Nil [simp]: "keyed key []"
  by (simp add: keyed_def)

lemma set_dict_set: "set (AList.update k v d) \<subseteq> insert (k, v) (set d)"
  by (induction d) auto

lemma keyed_set: "keyed key d \<Longrightarrow> keyed key (dict_set (key v) v d)"
  using set_dict_set [of "key v" v d] unfolding keyed_def by (auto simp: distinct_update)

lemma map_fst_snd [simp]: "map fst (map (\<lambda>(k, v). (k, g k v)) d) = map fst d"
  by (induction d) auto

lemma keyed_map: "keyed key d \<Longrightarrow> (\<And>v. key (f v) = key v) \<Longrightarrow> keyed key (map (\<lambda>(k, v). (k, f v)) d)"
  unfolding keyed_def map_fst_snd by auto

lemma keyed_dict_of: "keyed key (dict_of key vs)"
  unfolding dict_of_def by (induction vs rule: rev_induct) (simp_all add: keyed_set)

lemma dict_of_append: "dict_of key (xs @ [v]) = dict_set (key v) v (dict_of key xs)"
  by (simp add: dict_of_def)

lemma dict_of_values: "keyed key d \<Longrightarrow> dict_of key (dict_values d) = d"
proof (induction d rule: rev_induct)
  case Nil
  then show ?case by (simp add: dict_of_def dict_values_def)
next
  case (snoc p d)
  obtain k v where p: "p = (k, v)" by (cases p)
  from snoc.prems p have "keyed key d" "key v = k" "k \<notin> set (map fst d)" by (auto simp: keyed_def)
  moreover have "dict_values (d @ [p]) = dict_values d @ [v]" by (simp add: dict_values_def p)
  ultimately show ?case
    using snoc.IH p by (simp add: dict_of_append dict_set_new map_of_eq_None_iff)
qed

lemma load_saved [simp]: "keyed key d \<Longrightarrow> load_file key (save_file Written (dict_values d) f) = d"
  by (simp add: load_file_def save_file_def dict_of_values)

lemma keyed_load: "keyed key (load_file key f)"
  by (simp add: load_file_def keyed_dict_of split: stored.split)

lemma keyed_values: "keyed key d \<Longrightarrow> v \<in> set (dict_values d) \<longleftrightarrow> map_of d (key v) = Some v"
  by (force simp: keyed_def dict_values_def map_of_eq_Some_iff)

text \<open>A change of the record found under an id, as the methods make it through the object.\<close>

definition modify :: "'k \<Rightarrow> ('v \<Rightarrow> 'v) \<Rightarrow> ('k, 'v) pydict \<Rightarrow> ('k, 'v) pydict" where
  "modify k f d = map (\<lambda>(k', v). (k', if k' = k then f v else v)) d"

lemma map_of_modify [simp]: "map_of (modify k f d) k' = (if k' = k then map_option f (map_of d k) else map_of d k')"
  unfolding modify_def by (induction d) auto

lemma keyed_modify: "keyed key d \<Longrightarrow> (\<And>v. key (f v) = key v) \<Longrightarrow> keyed key (modify k f d)"
  unfolding modify_def keyed_def map_fst_snd by auto

lemma keys_modify [simp]: "map fst (modify k f d) = map fst d"
  by (simp only: modify_def map_fst_snd)

lemma modify_none: "map_of d k = None \<Longrightarrow> modify k f d = d"
  unfolding modify_def by (induction d) (auto split: if_splits)

lemma values_set:
  "keyed key d \<Longrightarrow> set (dict_values (dict_set (key v) v d)) = insert v {u \<in> set (dict_values d). key u \<noteq> key v}"
  by (auto simp: keyed_values [where key = key] keyed_values [OF keyed_set] split: if_splits)

lemma values_modify:
  "keyed key d \<Longrightarrow> dict_values (modify k f d) = map (\<lambda>v. if key v = k then f v else v) (dict_values d)"
  unfolding dict_values_def modify_def keyed_def by (auto simp: case_prod_beta intro!: map_cong)

lemma values_map [simp]: "dict_values (map (\<lambda>(k, v). (k, f v)) d) = map f (dict_values d)"
  by (simp add: dict_values_def case_prod_beta)

end
