(* ===== verification/Data_Protection.thy ===== *)
theory Data_Protection
  imports Py_Regex Interfaces Json_Store
begin

text \<open>
  Detection of sensitive data: payment cards (\<open>services/shared/security/pci.py\<close>) and data-loss
  prevention (\<open>services/shared/security/dlp.py\<close>). The text is scanned with the matcher of
  \<open>Py_Regex\<close>; times, random ids and the outcome of each write are arguments.
\<close>

section \<open>Payment cards (security/pci.py)\<close>

subsection \<open>The Luhn check\<close>

definition digit_val :: "char \<Rightarrow> nat" where
  "digit_val c = of_char c - 48"

definition luhn_digit :: "bool \<Rightarrow> nat \<Rightarrow> nat" where
  \<comment> \<open>the first argument: the index counted from the right is odd\<close>
  "luhn_digit dbl d = (if dbl then (if 9 < d * 2 then d * 2 - 9 else d * 2) else d)"

fun luhn_sum :: "bool \<Rightarrow> nat list \<Rightarrow> nat" where
  "luhn_sum dbl [] = 0"
| "luhn_sum dbl (d # ds) = luhn_digit dbl d + luhn_sum (\<not> dbl) ds"

definition luhn_check :: "string \<Rightarrow> bool" where
  "luhn_check s \<longleftrightarrow> list_all is_digit s \<and> \<not> length s < 13 \<and>
     luhn_sum False (rev (map digit_val s)) mod 10 = 0"

subsection \<open>Detection and masking\<close>

definition separators_removed :: "string \<Rightarrow> string" where
  \<comment> \<open>\<open>.replace(" ", "").replace("-", "")\<close>\<close>
  "separators_removed s = filter (\<lambda>c. c \<noteq> CHR '' '' \<and> c \<noteq> CHR ''-'') s"

definition pan_pattern :: rx where
  "pan_pattern = rx_seq [Bound,
     rep_range 13 16 (Seq digit (LazyStar (Cls (\<lambda>c. c = CHR '' '' \<or> c = CHR ''-'')))), Bound]"

definition cvv_pattern :: rx where
  "cvv_pattern = rx_seq [Bound, rep_range 3 4 digit, Bound]"

definition expiry_pattern :: rx where
  "expiry_pattern = rx_seq [Bound,
     Alt (Seq (lit ''0'') (Cls (\<lambda>c. is_digit c \<and> c \<noteq> CHR ''0'')))
         (Seq (lit ''1'') (Cls (\<lambda>c. c \<in> set ''012''))),
     lit ''/'', Alt (rep 2 digit) (rep 4 digit), Bound]"

datatype card_finding =
    PAN string nat nat \<comment> \<open>masked value, position, length\<close>
  | CVV nat
  | Expiry nat

definition pan_findings :: "string \<Rightarrow> card_finding list" where
  "pan_findings content = concat (map (\<lambda>(a, b).
     let pan = separators_removed (take (b - a) (drop a content))
     in if luhn_check pan then [PAN (''****'' @ take_last 4 pan) a (length pan)] else [])
     (finditer pan_pattern content))"

definition detect_card_data :: "string \<Rightarrow> card_finding list" where
  "detect_card_data content =
     pan_findings content @
     map (\<lambda>(a, b). CVV a) (finditer cvv_pattern content) @
     map (\<lambda>(a, b). Expiry a) (finditer expiry_pattern content)"

definition mask_pan :: "string \<Rightarrow> string" where
  "mask_pan pan =
     (let cleaned = separators_removed pan
      in if 13 \<le> length cleaned then ''****'' @ take_last 4 cleaned else pan)"

subsection \<open>Requirements and systems\<close>

record pci_requirement =
  pq_id :: string
  pq_name :: string
  pq_description :: string
  pq_status :: string
  pq_tested :: "string option"
  pq_evidence :: "string option"
  pq_notes :: "string option"

record cde_system =
  cd_name :: string
  cd_in_cde :: bool
  cd_flows :: "string list"
  cd_connected :: "string list option"
  cd_assessed :: "pyfloat option"

record pci_manager =
  pm_reqs :: "(string, pci_requirement) pydict"
  pm_cde :: "(string, cde_system) pydict"
  pm_req_file :: "pci_requirement stored"
  pm_cde_file :: "cde_system stored"

definition requirement :: "string \<Rightarrow> string \<Rightarrow> string \<Rightarrow> string \<Rightarrow> pci_requirement" where
  "requirement i n d s = \<lparr>pq_id = i, pq_name = n, pq_description = d, pq_status = s,
     pq_tested = None, pq_evidence = None, pq_notes = None\<rparr>"

definition initial_requirements :: "pci_requirement list" where
  "initial_requirements = [
     requirement ''1.1'' ''Firewall Configuration'' ''Firewalls at perimeter and between CDE'' ''compliant'',
     requirement ''2.1'' ''Configuration Standards'' ''Configuration standards for all system components'' ''compliant'',
     requirement ''3.4'' ''Cardholder Data Storage'' ''Render PAN unreadable anywhere it is stored'' ''compliant'',
     requirement ''3.5'' ''Key Management'' ''Protect cryptographic keys used for cardholder data'' ''compliant'',
     requirement ''4.1'' ''Transmission Security'' ''Encrypt cardholder data in transit'' ''compliant'',
     requirement ''5.1'' ''Anti-Malware'' ''Deploy anti-malware on all systems'' ''compliant'',
     requirement ''6.2'' ''Vulnerability Management'' ''Patch management and vulnerability scanning'' ''non_compliant'',
     requirement ''7.1'' ''Access Control'' ''Restrict access to cardholder data by business need-to-know'' ''compliant'',
     requirement ''8.1'' ''Authentication'' ''Identify and authenticate users'' ''compliant'',
     requirement ''8.2'' ''Strong Authentication'' ''Strong authentication for administrative access'' ''compliant'',
     requirement ''9.1'' ''Physical Security'' ''Physical security of cardholder data'' ''not_applicable'',
     requirement ''10.2'' ''Audit Trails'' ''Audit trail for all system components'' ''compliant'',
     requirement ''10.5'' ''Audit Trail Protection'' ''Protect audit trails from modification'' ''compliant'',
     requirement ''11.1'' ''Wireless Security'' ''Wireless network security'' ''compliant'',
     requirement ''11.3'' ''Vulnerability Scans'' ''Internal and external vulnerability scans'' ''non_compliant'',
     requirement ''12.1'' ''Security Policy'' ''Information security policy'' ''compliant'']"

definition init_requirements :: "write_outcome \<Rightarrow> pci_manager \<Rightarrow> pci_manager" where
  "init_requirements w m =
     (let reqs = foldl (\<lambda>d r. dict_set (pq_id r) r d) (pm_reqs m) initial_requirements
      in m\<lparr>pm_reqs := reqs, pm_req_file := save_file w (dict_values reqs) (pm_req_file m)\<rparr>)"

definition new_pci_manager :: "write_outcome \<Rightarrow> pci_requirement stored \<Rightarrow> cde_system stored \<Rightarrow> pci_manager" where
  "new_pci_manager w rf cf =
     (let m = \<lparr>pm_reqs = load_file pq_id rf, pm_cde = load_file cd_name cf, pm_req_file = rf, pm_cde_file = cf\<rparr>
      in if pm_reqs m = [] then init_requirements w m else m)"

definition register_cde_system ::
  "write_outcome \<Rightarrow> pyfloat \<Rightarrow> string \<Rightarrow> bool \<Rightarrow> string list \<Rightarrow> pci_manager \<Rightarrow> pci_manager" where
  "register_cde_system w now name in_cde flows m =
     (let c = \<lparr>cd_name = name, cd_in_cde = in_cde, cd_flows = flows, cd_connected = None, cd_assessed = Some now\<rparr>;
          cde = dict_set name c (pm_cde m)
      in m\<lparr>pm_cde := cde, pm_cde_file := save_file w (dict_values cde) (pm_cde_file m)\<rparr>)"

definition with_status :: "string \<Rightarrow> pci_manager \<Rightarrow> nat" where
  "with_status st m = length (filter (\<lambda>r. pq_status r = st) (dict_values (pm_reqs m)))"

definition get_compliance_score :: "pci_manager \<Rightarrow> pyfloat" where
  "get_compliance_score m =
     (let total = length (pm_reqs m) in if total = 0 then 0 else real (with_status ''compliant'' m) / real total)"

record pci_report =
  pt_score :: pyfloat
  pt_total :: nat
  pt_compliant :: nat
  pt_non_compliant :: nat
  pt_not_applicable :: nat
  pt_not_tested :: nat
  pt_requirements :: "pci_requirement list"
  pt_systems :: "cde_system list"

definition get_pci_report :: "pci_manager \<Rightarrow> pci_report" where
  \<comment> \<open>without the constant texts and the time of the report\<close>
  "get_pci_report m = \<lparr>pt_score = get_compliance_score m, pt_total = length (pm_reqs m),
     pt_compliant = with_status ''compliant'' m, pt_non_compliant = with_status ''non_compliant'' m,
     pt_not_applicable = with_status ''not_applicable'' m, pt_not_tested = with_status ''not_tested'' m,
     pt_requirements = dict_values (pm_reqs m), pt_systems = dict_values (pm_cde m)\<rparr>"

subsection \<open>Properties\<close>

lemma digit_val_less: "is_digit c \<Longrightarrow> digit_val c < 10"
  unfolding is_digit_def digit_val_def Let_def by arith

lemma digit_val_inj:
  assumes "is_digit c" "is_digit d"
  shows "digit_val c = digit_val d \<longleftrightarrow> c = d"
proof
  assume "digit_val c = digit_val d"
  with assms have "(of_char c :: nat) = of_char d"
    unfolding is_digit_def digit_val_def Let_def by arith
  then show "c = d" by simp
qed simp

lemma luhn_sum_append:
  "luhn_sum b (xs @ ys) = luhn_sum b xs + luhn_sum (if even (length xs) then b else \<not> b) ys"
  by (induction xs arbitrary: b) auto

lemma below_10: "list_all (\<lambda>b. list_all (\<lambda>d. list_all (P b d) [0..<10]) [0..<10]) [True, False] \<Longrightarrow>
    (d::nat) < 10 \<Longrightarrow> (e::nat) < 10 \<Longrightarrow> P b d e"
  by (cases b) (simp_all add: list_all_iff)

lemma luhn_digit_less: "d < 10 \<Longrightarrow> luhn_digit b d < 10"
  by (cases b) (auto simp: luhn_digit_def)

lemma luhn_digits_differ:
  "list_all (\<lambda>b. list_all (\<lambda>d. list_all (\<lambda>e. luhn_digit b d = luhn_digit b e \<longrightarrow> d = e) [0..<10]) [0..<10]) [True, False]"
  by code_simp

lemmas luhn_digit_inj = luhn_digits_differ [THEN below_10, rule_format]

lemma mod_10_eq: "(m::nat) mod 10 = n mod 10 \<Longrightarrow> m < 20 \<Longrightarrow> n < 20 \<Longrightarrow> m = n \<or> m = n + 10 \<or> n = m + 10"
  by (cases "m < 10"; cases "n < 10") (simp_all add: le_mod_geq)

lemma luhn_digit_swap:
  assumes "d < 10" "e < 10"
    and "(luhn_digit b d + luhn_digit (\<not> b) e) mod 10 = (luhn_digit b e + luhn_digit (\<not> b) d) mod 10"
  shows "d = e \<or> d = 0 \<and> e = 9 \<or> d = 9 \<and> e = 0"
proof -
  have "x = y \<or> x = 0 \<and> y = 9 \<or> x = 9 \<and> y = 0"
    if "(luhn_digit True x + y) mod 10 = (luhn_digit True y + x) mod 10" "x < 10" "y < 10" for x y
  proof -
    have "luhn_digit True x + y < 20" "luhn_digit True y + x < 20"
      using that by (auto simp: luhn_digit_def)
    from mod_10_eq [OF that(1) this] show ?thesis
      using that(2,3) unfolding luhn_digit_def by (simp split: if_splits) arith+
  qed
  from this [of d e] this [of e d] assms show ?thesis
    by (cases b) (auto simp: luhn_digit_def add.commute)
qed
lemma same_rest:
  assumes "(s::nat) + x + t = n" "s + y + t = m" "n mod 10 = 0" "m mod 10 = 0"
  shows "x mod 10 = y mod 10"
proof -
  have "(x + m) mod 10 = (y + n) mod 10" by (simp add: ac_simps flip: assms(1,2))
  with assms(3,4) show ?thesis by (metis add.right_neutral mod_add_right_eq)
qed

text \<open>
  C39: The Luhn check detects the errors it is meant to detect: a number that passes fails after any one digit
  is replaced, and after two neighbouring digits are swapped unless they are equal or 0 and 9.
\<close>
theorem luhn_detects_errors:
  assumes "luhn_check (a @ c # b)"
  shows "(\<forall>e. is_digit e \<and> e \<noteq> c \<longrightarrow> \<not> luhn_check (a @ e # b)) \<and>
    (\<forall>d b'. b = d # b' \<and> c \<noteq> d \<and> {c, d} \<noteq> {CHR ''0'', CHR ''9''} \<longrightarrow> \<not> luhn_check (a @ d # c # b'))"
proof -
  let ?v = "\<lambda>s. rev (map digit_val s)"
  have one: "luhn_sum False (?v (a @ x # b)) = luhn_sum False (?v b) +
      luhn_digit (odd (length b)) (digit_val x) + luhn_sum (even (length b)) (?v a)" for x
    by (simp add: luhn_sum_append)
  have two: "luhn_sum False (?v (a @ x # y # b')) = luhn_sum False (?v b') +
      (luhn_digit (odd (length b')) (digit_val y) + luhn_digit (\<not> odd (length b')) (digit_val x)) +
      luhn_sum (odd (length b')) (?v a)" for x y b'
    by (simp add: luhn_sum_append)
  have sumD: "luhn_sum False (?v s) mod 10 = 0" if "luhn_check s" for s
    using that by (simp add: luhn_check_def)
  from assms have dg: "is_digit c" by (simp add: luhn_check_def)
  have "e = c" if e: "is_digit e" "luhn_check (a @ e # b)" for e
  proof -
    from same_rest [OF one [symmetric] one [symmetric] sumD [OF assms] sumD [OF e(2)]]
    have "luhn_digit (odd (length b)) (digit_val c) = luhn_digit (odd (length b)) (digit_val e)"
      using luhn_digit_less digit_val_less dg e(1) by simp
    then show ?thesis
      using luhn_digit_inj digit_val_less digit_val_inj dg e(1) by metis
  qed
  moreover have "c = d \<or> {c, d} = {CHR ''0'', CHR ''9''}" if b: "b = d # b'" and s: "luhn_check (a @ d # c # b')" for d b'
  proof -
    have dd: "is_digit d" using assms b by (simp add: luhn_check_def)
    from same_rest [OF two [symmetric] two [symmetric] sumD [OF assms [unfolded b]] sumD [OF s]]
    have "digit_val d = digit_val c \<or> digit_val d = 0 \<and> digit_val c = 9 \<or> digit_val d = 9 \<and> digit_val c = 0"
      by (rule luhn_digit_swap [OF digit_val_less [OF dd] digit_val_less [OF dg]])
    moreover have "x = CHR ''0''" if "digit_val x = 0" "is_digit x" for x
      using that digit_val_inj [of x "CHR ''0''"] by (simp add: is_digit_def digit_val_def)
    moreover have "x = CHR ''9''" if "digit_val x = 9" "is_digit x" for x
      using that digit_val_inj [of x "CHR ''9''"] by (simp add: is_digit_def digit_val_def)
    ultimately show ?thesis using dg dd digit_val_inj [OF dd dg] by blast
  qed
  ultimately show ?thesis by blast
qed

theorem luhn_detects_errors_witness:
  "\<not> luhn_check (''411111111111111'' @ CHR ''2'' # [])"
proof -
  have "luhn_check (''411111111111111'' @ CHR ''1'' # [])" by code_simp
  from luhn_detects_errors [OF this] show ?thesis by (simp add: is_digit_def)
qed

text \<open>
  A digit in front of a card number hides it: the pattern takes the digit and the number for one
  longer number, whose check fails.
\<close>
theorem pan_hidden_by_digit:
  "detect_card_data ''378282246310005'' = [PAN ''****0005'' 0 15] \<and>
   pan_findings ''1 378282246310005'' = []"
  by code_simp

lemma compliance_score_1:
  "get_compliance_score m = 1 \<longleftrightarrow> pm_reqs m \<noteq> [] \<and> (\<forall>r \<in> set (dict_values (pm_reqs m)). pq_status r = ''compliant'')"
proof -
  have "length (filter P xs) = length xs \<longleftrightarrow> (\<forall>x \<in> set xs. P x)" for P and xs :: "pci_requirement list"
    by (induction xs) (simp_all, metis length_filter_le Suc_n_not_le_n)
  from this [of "\<lambda>r. pq_status r = ''compliant''" "dict_values (pm_reqs m)"] show ?thesis
    by (auto simp: get_compliance_score_def with_status_def Let_def length_dict_values)
qed

lemma compliance_score_range: "get_compliance_score m \<in> {0..1}"
  by (auto simp: get_compliance_score_def with_status_def Let_def dict_values_def intro!: divide_le_eq_1_pos [THEN iffD2]
      intro: order_trans [OF length_filter_le])

subsection \<open>Restart\<close>

definition pci_step :: "pci_manager \<Rightarrow> pyfloat \<times> string \<times> bool \<times> string list \<Rightarrow> pci_manager" where
  "pci_step m e = (case e of (now, name, in_cde, flows) \<Rightarrow> register_cde_system Written now name in_cde flows m)"

definition pci_saved :: "pci_manager \<Rightarrow> bool" where
  "pci_saved m \<longleftrightarrow> pm_reqs m \<noteq> [] \<and> keyed pq_id (pm_reqs m) \<and> keyed cd_name (pm_cde m) \<and>
     load_file pq_id (pm_req_file m) = pm_reqs m \<and> load_file cd_name (pm_cde_file m) = pm_cde m"

interpretation pci_run: run_invariant pci_step "\<lambda>m e. True" pci_saved
proof unfold_locales
  fix m and e :: "pyfloat \<times> string \<times> bool \<times> string list" assume saved: "pci_saved m"
  obtain now name in_cde flows where e: "e = (now, name, in_cde, flows)" by (cases e) blast
  show "pci_saved (pci_step m e)"
    using saved keyed_set [of cd_name "pm_cde m"
        "\<lparr>cd_name = name, cd_in_cde = in_cde, cd_flows = flows, cd_connected = None, cd_assessed = Some now\<rparr>"]
    by (simp add: pci_saved_def pci_step_def e register_cde_system_def Let_def)
qed

lemma fold_set_keyed: "keyed key d \<Longrightarrow> keyed key (foldl (\<lambda>d r. dict_set (key r) r d) d rs)"
  by (induction rs arbitrary: d) (simp_all add: keyed_set)

lemma fold_set_nonempty: "rs \<noteq> [] \<Longrightarrow> foldl (\<lambda>d r. dict_set (key r) r d) d rs \<noteq> []"
proof (induction rs rule: rev_induct)
  case (snoc r rs)
  then show ?case by (cases "foldl (\<lambda>d r. dict_set (key r) r d) d rs") auto
qed simp

lemma new_pci_saved: "pci_saved (new_pci_manager Written rf cf)"
  by (simp add: pci_saved_def new_pci_manager_def init_requirements_def Let_def keyed_load fold_set_keyed
      fold_set_nonempty initial_requirements_def del: foldl_Cons)

lemma pci_restart:
  assumes "m = foldl pci_step (new_pci_manager Written rf cf) es"
  shows "pm_reqs (new_pci_manager w (pm_req_file m) (pm_cde_file m)) = pm_reqs m \<and>
    pm_cde (new_pci_manager w (pm_req_file m) (pm_cde_file m)) = pm_cde m"
proof -
  have "pci_saved m" unfolding assms by (rule pci_run.run_inv_always [OF new_pci_saved]) simp
  then show ?thesis by (simp add: pci_saved_def new_pci_manager_def)
qed

section \<open>Data-loss prevention (security/dlp.py)\<close>

datatype dlp_action = DlpAllow | DlpBlock | DlpMask | DlpAlert | DlpQuarantine

record dlp_rule =
  dr_name :: string
  dr_pattern :: rx \<comment> \<open>compiled; without groups, so \<open>findall\<close> gives texts\<close>
  dr_action :: dlp_action
  dr_severity :: string
  dr_description :: string
  dr_context :: "string list option"
  dr_enabled :: bool

record dlp_incident =
  in_id :: string
  in_time :: pyfloat
  in_rule :: string
  in_action :: dlp_action
  in_class :: string
  in_source :: string
  in_destination :: string
  in_preview :: string
  in_severity :: string
  in_user :: "string option"
  in_resolved :: bool
  in_notes :: "string option"

record dlp_engine =
  de_rules :: "dlp_rule list"
  de_compiled :: "dlp_rule list"
  de_incidents :: "dlp_incident list"

subsection \<open>The default rules\<close>

definition dlp_rule_of :: "string \<Rightarrow> rx \<Rightarrow> dlp_action \<Rightarrow> string \<Rightarrow> string \<Rightarrow> dlp_rule" where
  "dlp_rule_of n p a s d = \<lparr>dr_name = n, dr_pattern = p, dr_action = a, dr_severity = s, dr_description = d,
     dr_context = None, dr_enabled = True\<rparr>"

definition default_dlp_rules :: "dlp_rule list" where
  "default_dlp_rules = (let d = digit; alnum = (\<lambda>c. is_digit c \<or> is_upper c \<or> is_lower c) in [
     dlp_rule_of ''PCI_Credit_Card''
       (rx_seq [Bound, rep_range 13 16 (Seq d (LazyStar (Cls (\<lambda>c. c = CHR '' '' \<or> c = CHR ''-'')))), Bound])
       DlpBlock ''critical'' ''Credit card number detected in transit'',
     dlp_rule_of ''PHI_SSN''
       (rx_seq [Bound, rep 3 d, lit ''-'', rep 2 d, lit ''-'', rep 4 d, Bound])
       DlpBlock ''critical'' ''Social Security Number detected'',
     dlp_rule_of ''PHI_Canadian_SIN''
       (rx_seq [Bound, rep 3 d, lit ''-'', rep 3 d, lit ''-'', rep 3 d, Bound])
       DlpBlock ''critical'' ''Canadian SIN detected'',
     dlp_rule_of ''PII_Email''
       (rx_seq [Bound, plus1 (Cls (\<lambda>c. alnum c \<or> c \<in> set ''._%+-'')), lit ''@'',
          plus1 (Cls (\<lambda>c. alnum c \<or> c \<in> set ''.-'')), lit ''.'',
          Seq (rep 2 (Cls (\<lambda>c. is_upper c \<or> is_lower c \<or> c = CHR ''|'')))
              (Star (Cls (\<lambda>c. is_upper c \<or> is_lower c \<or> c = CHR ''|''))), Bound])
       DlpMask ''medium'' ''Email address detected'',
     dlp_rule_of ''PII_Phone''
       (let sep = opt (Cls (\<lambda>c. c = CHR ''-'' \<or> c = CHR ''.'' \<or> is_space c))
        in rx_seq [Bound, rep 3 d, sep, rep 3 d, sep, rep 4 d, Bound])
       DlpMask ''medium'' ''Phone number detected'',
     dlp_rule_of ''PII_IP_Address''
       (rx_seq [Bound, rep 3 (Seq (rep_range 1 3 d) (lit ''.'')), rep_range 1 3 d, Bound])
       DlpAlert ''low'' ''IP address detected'',
     dlp_rule_of ''Credential_Leak''
       (ignore_case (rx_seq [Bound, rx_alts [lit ''password'', lit ''secret'', lit ''token'',
            rx_seq [lit ''api'', opt (Cls (\<lambda>c. c \<in> set ''_-'')), lit ''key'']],
          spaces0, Cls (\<lambda>c. c \<in> set '':=''), spaces0, plus1 (Cls (\<lambda>c. \<not> is_space c))]))
       DlpBlock ''critical'' ''Credential leak detected'',
     dlp_rule_of ''PHI_Health_Card''
       (rx_seq [Bound, rep 4 d, lit ''-'', rep 3 d, lit ''-'', rep 3 d, lit ''-'', rep 2 (Cls is_upper), Bound])
       DlpBlock ''critical'' ''Health card number detected''])"

subsection \<open>Operations\<close>

definition add_rule :: "dlp_rule \<Rightarrow> dlp_engine \<Rightarrow> dlp_engine" where
  "add_rule r e = e\<lparr>de_rules := de_rules e @ [r], de_compiled := de_compiled e @ [r]\<rparr>"

definition remove_rule :: "string \<Rightarrow> dlp_engine \<Rightarrow> dlp_engine" where
  "remove_rule n e = e\<lparr>de_rules := filter (\<lambda>r. dr_name r \<noteq> n) (de_rules e),
     de_compiled := filter (\<lambda>r. dr_name r \<noteq> n) (de_compiled e)\<rparr>"

definition new_dlp_engine :: dlp_engine where
  "new_dlp_engine = foldl (\<lambda>e r. add_rule r e) \<lparr>de_rules = [], de_compiled = [], de_incidents = []\<rparr> default_dlp_rules"

definition get_classification :: "dlp_rule \<Rightarrow> string" where
  "get_classification r =
     (if substr ''PHI'' (dr_name r) then ''phi''
      else if substr ''PCI'' (dr_name r) then ''pci''
      else if substr ''PII'' (dr_name r) then ''pii''
      else if substr ''Credential'' (dr_name r) then ''restricted''
      else ''internal'')"

fun context_match :: "(string, string) pydict \<Rightarrow> string list \<Rightarrow> py_error + bool" where
  \<comment> \<open>\<open>all(...)\<close> over the requirements, which stops at the first that fails; the context's values
     are given as \<open>str\<close> shows them\<close>
  "context_match cx [] = Inr True"
| "context_match cx (q # qs) =
     (case split_on (CHR ''='') q of
        k # v # _ \<Rightarrow> (if substr v (dict_get_or cx k []) then context_match cx qs else Inr False)
      | _ \<Rightarrow> Inl IndexError)"

definition applies :: "(string, string) pydict \<Rightarrow> dlp_rule \<Rightarrow> py_error + bool" where
  "applies cx r =
     (if \<not> dr_enabled r then Inr False
      else case dr_context r of None \<Rightarrow> Inr True | Some [] \<Rightarrow> Inr True | Some qs \<Rightarrow> context_match cx qs)"

record transfer =
  tf_source :: string
  tf_destination :: string
  tf_context :: "(string, string) pydict"
  tf_user :: "string option"

definition incident_of :: "(nat \<Rightarrow> string) \<Rightarrow> pyfloat \<Rightarrow> transfer \<Rightarrow> dlp_rule \<Rightarrow> string \<Rightarrow> nat \<Rightarrow> dlp_incident" where
  "incident_of uuid now tf r m n =
     \<lparr>in_id = uuid n, in_time = now, in_rule = dr_name r, in_action = dr_action r, in_class = get_classification r,
      in_source = tf_source tf, in_destination = tf_destination tf, in_preview = take 50 m,
      in_severity = dr_severity r, in_user = tf_user tf, in_resolved = False, in_notes = None\<rparr>"

fun inspect_rules ::
  "(nat \<Rightarrow> string) \<Rightarrow> pyfloat \<Rightarrow> string \<Rightarrow> transfer \<Rightarrow> dlp_rule list \<Rightarrow> dlp_incident list \<Rightarrow> dlp_incident list \<Rightarrow>
   (py_error + dlp_incident list) \<times> dlp_incident list" where
  \<comment> \<open>the incidents found so far, and all incidents of the engine; \<open>uuid n\<close> is the id of its \<open>n\<close>-th\<close>
  "inspect_rules uuid now content tf [] found lg = (Inr found, lg)"
| "inspect_rules uuid now content tf (r # rs) found lg =
     (case applies (tf_context tf) r of
        Inl e \<Rightarrow> (Inl e, lg)
      | Inr False \<Rightarrow> inspect_rules uuid now content tf rs found lg
      | Inr True \<Rightarrow>
          (case findall (dr_pattern r) content of
             [] \<Rightarrow> inspect_rules uuid now content tf rs found lg
           | m # _ \<Rightarrow> (let i = incident_of uuid now tf r m (length lg)
                      in inspect_rules uuid now content tf rs (found @ [i]) (lg @ [i]))))"

definition inspect ::
  "(nat \<Rightarrow> string) \<Rightarrow> pyfloat \<Rightarrow> string \<Rightarrow> transfer \<Rightarrow> dlp_engine \<Rightarrow> (py_error + dlp_incident list) \<times> dlp_engine" where
  "inspect uuid now content tf e =
     (let (res, lg) = inspect_rules uuid now content tf (de_compiled e) [] (de_incidents e)
      in (res, e\<lparr>de_incidents := lg\<rparr>))"

fun dlp_order :: "dlp_action \<Rightarrow> nat" where
  "dlp_order DlpAllow = 0"
| "dlp_order DlpAlert = 1"
| "dlp_order DlpMask = 2"
| "dlp_order DlpQuarantine = 3"
| "dlp_order DlpBlock = 4"

instantiation dlp_action :: linorder
begin

definition less_eq_dlp_action :: "dlp_action \<Rightarrow> dlp_action \<Rightarrow> bool" where
  "less_eq_dlp_action a b \<longleftrightarrow> dlp_order a \<le> dlp_order b"

definition less_dlp_action :: "dlp_action \<Rightarrow> dlp_action \<Rightarrow> bool" where
  "less_dlp_action a b \<longleftrightarrow> dlp_order a < dlp_order b"

instance
proof
  fix a b :: dlp_action
  assume "a \<le> b" "b \<le> a"
  then show "a = b" by (cases a; cases b) (simp_all add: less_eq_dlp_action_def)
qed (auto simp: less_eq_dlp_action_def less_dlp_action_def)

end

fun highest_action :: "dlp_action \<Rightarrow> dlp_action list \<Rightarrow> dlp_action" where
  "highest_action a [] = a"
| "highest_action a (b # bs) = highest_action (if dlp_order a < dlp_order b then b else a) bs"

definition get_action_for_content :: "string \<Rightarrow> dlp_engine \<Rightarrow> dlp_action" where
  \<comment> \<open>the context argument is not used\<close>
  "get_action_for_content content e =
     highest_action DlpAllow (map dr_action
       (filter (\<lambda>r. dr_enabled r \<and> search (dr_pattern r) content) (de_compiled e)))"

definition mask_content :: "string \<Rightarrow> dlp_engine \<Rightarrow> string" where
  "mask_content content e =
     foldl (\<lambda>masked r. if dr_action r = DlpMask \<or> dr_action r = DlpBlock
       then re_sub (dr_pattern r) ''[REDACTED]'' masked else masked) content (de_compiled e)"

definition get_incidents :: "string option \<Rightarrow> bool \<Rightarrow> int \<Rightarrow> dlp_engine \<Rightarrow> dlp_incident list" where
  "get_incidents sev unresolved limit e =
     slice_to limit
       (filter (\<lambda>i. \<not> unresolved \<or> \<not> in_resolved i)
         (filter (\<lambda>i. case sev of None \<Rightarrow> True | Some [] \<Rightarrow> True | Some s \<Rightarrow> in_severity i = s) (de_incidents e)))"

fun resolve_first :: "string \<Rightarrow> string \<Rightarrow> dlp_incident list \<Rightarrow> bool \<times> dlp_incident list" where
  "resolve_first n notes [] = (False, [])"
| "resolve_first n notes (i # is) =
     (if in_id i = n then (True, i\<lparr>in_resolved := True, in_notes := Some notes\<rparr> # is)
      else let (b, is') = resolve_first n notes is in (b, i # is'))"

definition resolve_incident :: "string \<Rightarrow> string \<Rightarrow> dlp_engine \<Rightarrow> bool \<times> dlp_engine" where
  "resolve_incident n notes e =
     (let (b, lg) = resolve_first n notes (de_incidents e) in (b, e\<lparr>de_incidents := lg\<rparr>))"

record dlp_stats =
  ds_total :: nat
  ds_unresolved :: nat
  ds_rules :: nat
  ds_by_severity :: "(string, nat) pydict"
  ds_by_action :: "(dlp_action, nat) pydict"

definition get_dlp_stats :: "dlp_engine \<Rightarrow> dlp_stats" where
  "get_dlp_stats e =
     \<lparr>ds_total = length (de_incidents e),
      ds_unresolved = length (filter (\<lambda>i. \<not> in_resolved i) (de_incidents e)),
      ds_rules = length (de_rules e),
      ds_by_severity = count_by in_severity (de_incidents e) [],
      ds_by_action = count_by in_action (de_incidents e) []\<rparr>"


subsection \<open>Properties\<close>

interpretation dlp_max: strictest dlp_order highest_action
  by unfold_locales simp_all

lemma highest_action_Max: "highest_action a bs = Max (insert a (set bs))"
proof -
  have "highest_action a bs = fold max bs a"
  proof (induction bs arbitrary: a)
    case (Cons b bs)
    have "max b a = (if dlp_order a < dlp_order b then b else a)"
      by (cases "a = b") (auto simp: max_def less_eq_dlp_action_def not_less antisym_conv dest: leD)
    with Cons show ?case by simp
  qed simp
  then show ?thesis by (simp add: Max.set_eq_fold [of a bs, simplified])
qed

text \<open>The action for a text is the greatest action of the enabled rules that match it.\<close>

lemma action_is_greatest:
  "get_action_for_content content e =
     Max (insert DlpAllow (dr_action ` {r \<in> set (de_compiled e). dr_enabled r \<and> search (dr_pattern r) content}))"
  by (simp add: get_action_for_content_def highest_action_Max)

definition hits :: "(string, string) pydict \<Rightarrow> string \<Rightarrow> dlp_rule \<Rightarrow> bool" where
  "hits cx content r \<longleftrightarrow> applies cx r = Inr True \<and> search (dr_pattern r) content"

lemma inspect_rules_found:
  "fst (inspect_rules uuid now content tf rs found lg) = Inr res \<Longrightarrow>
   \<exists>new. res = found @ new \<and> snd (inspect_rules uuid now content tf rs found lg) = lg @ new \<and>
     map in_action new = map dr_action (filter (hits (tf_context tf) content) rs) \<and>
     map in_rule new = map dr_name (filter (hits (tf_context tf) content) rs) \<and>
     map in_id new = map uuid [length lg..<length lg + length new]"
proof (induction rs arbitrary: found lg)
  case Nil
  then show ?case by simp
next
  case (Cons r rs)
  from Cons.prems consider (no) "applies (tf_context tf) r = Inr False" | (yes) "applies (tf_context tf) r = Inr True"
    by (auto split: sum.splits bool.splits)
  then show ?case
  proof cases
    case no
    with Cons.prems Cons.IH [of found lg] show ?thesis by (simp add: hits_def)
  next
    case yes
    show ?thesis
    proof (cases "findall (dr_pattern r) content")
      case Nil
      with yes Cons.prems Cons.IH [of found lg] show ?thesis by (simp add: hits_def search_findall)
    next
      case (Cons m ms)
      let ?i = "incident_of uuid now tf r m (length lg)"
      from yes Cons Cons.prems Cons.IH [of "found @ [?i]" "lg @ [?i]"] obtain new where
        "res = found @ ?i # new" "snd (inspect_rules uuid now content tf (r # rs) found lg) = lg @ ?i # new"
        "map in_action new = map dr_action (filter (hits (tf_context tf) content) rs)"
        "map in_rule new = map dr_name (filter (hits (tf_context tf) content) rs)"
        "map in_id new = map uuid [length (lg @ [?i])..<length (lg @ [?i]) + length new]"
        by (auto simp: Let_def simp del: upt_Suc)
      moreover have "hits (tf_context tf) content r" using yes Cons by (simp add: hits_def search_findall)
      ultimately show ?thesis
        by (intro exI [of _ "?i # new"]) (simp add: upt_conv_Cons incident_of_def del: upt_Suc)
    qed
  qed
qed

text \<open>
  Inspection and the decision about a text agree. The action decided for a text is at least as
  strict as that of every incident an inspection of it reports, whatever the context; it is the
  strictest of them when no rule asks for a context. The log grows by exactly the incidents
  reported, one for each enabled rule that matches, in the order of the rules.
\<close>
theorem inspection_agrees_with_action:
  assumes "inspect uuid now content tf e = (Inr found, e')"
  shows "(\<forall>i \<in> set found. dlp_order (in_action i) \<le> dlp_order (get_action_for_content content e)) \<and>
    ((\<forall>r \<in> set (de_compiled e). dr_context r \<in> {None, Some []}) \<longrightarrow>
       get_action_for_content content e = highest_action DlpAllow (map in_action found)) \<and>
    map in_rule found = map dr_name (filter (hits (tf_context tf) content) (de_compiled e)) \<and>
    de_incidents e' = de_incidents e @ found"
proof -
  let ?hit = "hits (tf_context tf) content" and ?on = "\<lambda>r. dr_enabled r \<and> search (dr_pattern r) content"
  from assms have "fst (inspect_rules uuid now content tf (de_compiled e) [] (de_incidents e)) = Inr found"
    and e': "de_incidents e' = snd (inspect_rules uuid now content tf (de_compiled e) [] (de_incidents e))"
    by (auto simp: inspect_def Let_def split: prod.splits)
  from inspect_rules_found [OF this(1)] have
    acts: "map in_action found = map dr_action (filter ?hit (de_compiled e))"
    and rest: "map in_rule found = map dr_name (filter ?hit (de_compiled e))"
      "snd (inspect_rules uuid now content tf (de_compiled e) [] (de_incidents e)) = de_incidents e @ found"
    by auto
  have on: "?on r" if "?hit r" for r
    using that by (auto simp: hits_def applies_def split: if_splits)
  have "dlp_order (in_action i) \<le> dlp_order (get_action_for_content content e)" if "i \<in> set found" for i
  proof -
    from that have "in_action i \<in> set (map in_action found)" by simp
    with acts on have "in_action i \<in> set (map dr_action (filter ?on (de_compiled e)))" by auto
    then show ?thesis unfolding get_action_for_content_def by (rule dlp_max.rank_pick_item)
  qed
  moreover have "filter ?hit (de_compiled e) = filter ?on (de_compiled e)"
    if "\<forall>r \<in> set (de_compiled e). dr_context r \<in> {None, Some []}"
    using that by (intro filter_cong) (auto simp: hits_def applies_def)
  ultimately show ?thesis
    using acts rest e' by (simp add: get_action_for_content_def)
qed

theorem inspection_agrees_with_action_witness:
  "get_action_for_content ''SSN 123-45-6789'' new_dlp_engine =
     highest_action DlpAllow (map in_action (case fst (inspect (\<lambda>n. ''i'') 0 ''SSN 123-45-6789''
       \<lparr>tf_source = ''api'', tf_destination = ''x'', tf_context = [], tf_user = None\<rparr> new_dlp_engine) of
         Inr is \<Rightarrow> is | Inl e \<Rightarrow> []))"
proof -
  let ?tf = "\<lparr>tf_source = ''api'', tf_destination = ''x'', tf_context = [], tf_user = None\<rparr>"
  let ?r = "inspect (\<lambda>n. ''i'') 0 ''SSN 123-45-6789'' ?tf new_dlp_engine"
  have "isl (fst ?r) = False" by code_simp
  then obtain found e' where r: "?r = (Inr found, e')"
    by (cases ?r; cases "fst ?r") auto
  have "\<forall>r \<in> set (de_compiled new_dlp_engine). dr_context r \<in> {None, Some []}" by code_simp
  with inspection_agrees_with_action [OF r] r show ?thesis by simp
qed

text \<open>The statistics add up: the incidents by severity and by action sum to the total.\<close>

lemma dlp_stats_add_up:
  "sum_list (map snd (ds_by_severity (get_dlp_stats e))) = ds_total (get_dlp_stats e) \<and>
   sum_list (map snd (ds_by_action (get_dlp_stats e))) = ds_total (get_dlp_stats e) \<and>
   ds_unresolved (get_dlp_stats e) \<le> ds_total (get_dlp_stats e)"
  by (simp add: get_dlp_stats_def sum_count_by)

text \<open>A disabled rule neither decides nor reports, but it still masks.\<close>

lemma disabled_rule_masks:
  "de_compiled e' = map (\<lambda>r. r\<lparr>dr_enabled := f r\<rparr>) (de_compiled e) \<Longrightarrow> mask_content content e' = mask_content content e"
  by (simp add: mask_content_def foldl_map cong: if_cong)

end
