(* ===== verification/Data_Governance.thy ===== *)
theory Data_Governance
  imports Py_Regex Interfaces Json_Store
begin

text \<open>
  The compliance managers of \<open>services/shared/security\<close>: consent records (\<open>consent.py\<close>), breach
  records with their notification deadlines (\<open>breach_notification.py\<close>) and the classification of
  texts (\<open>data_classification.py\<close>). Both managers keep their records in a JSON file
  (\<open>Json_Store\<close>); random ids, the time in seconds and the outcome of each write are arguments.
\<close>

section \<open>Consent (security/consent.py)\<close>

record consent =
  cn_id :: string
  cn_user :: string
  cn_purpose :: string
  cn_status :: string
  cn_granted :: pyfloat
  cn_expires :: "pyfloat option"
  cn_withdrawn :: "pyfloat option"
  cn_categories :: "string list"
  cn_methods :: "string list"
  cn_sharing :: bool
  cn_version :: string
  cn_ip :: "string option"
  cn_agent :: "string option"

record consent_manager =
  cm_records :: "(string, consent) pydict"
  cm_file :: "consent stored"

definition new_consent_manager :: "consent stored \<Rightarrow> consent_manager" where
  "new_consent_manager f = \<lparr>cm_records = load_file cn_id f, cm_file = f\<rparr>"

definition save_consents :: "write_outcome \<Rightarrow> consent_manager \<Rightarrow> consent_manager" where
  "save_consents w m = m\<lparr>cm_file := save_file w (dict_values (cm_records m)) (cm_file m)\<rparr>"

record consent_request =
  cg_user :: string
  cg_purpose :: string
  cg_categories :: "string list"
  cg_methods :: "string list option"
  cg_sharing :: bool
  cg_ttl :: "int option"
  cg_ip :: "string option"
  cg_agent :: "string option"

definition expiry_of :: "pyfloat \<Rightarrow> int option \<Rightarrow> pyfloat option" where
  \<comment> \<open>\<open>... if ttl_days else None\<close>: no expiry for \<open>None\<close> and for 0\<close>
  "expiry_of now ttl = (case ttl of None \<Rightarrow> None | Some d \<Rightarrow> if d = 0 then None else Some (now + of_int d * 86400))"

definition consent_for :: "string \<Rightarrow> pyfloat \<Rightarrow> consent_request \<Rightarrow> consent" where
  "consent_for i now q =
     \<lparr>cn_id = i, cn_user = cg_user q, cn_purpose = cg_purpose q, cn_status = ''granted'', cn_granted = now,
      cn_expires = expiry_of now (cg_ttl q), cn_withdrawn = None, cn_categories = cg_categories q,
      cn_methods = (case cg_methods q of Some (x # xs) \<Rightarrow> x # xs | _ \<Rightarrow> [''storage'']),
      cn_sharing = cg_sharing q, cn_version = ''1.0'', cn_ip = cg_ip q, cn_agent = cg_agent q\<rparr>"

definition grant_consent ::
  "write_outcome \<Rightarrow> string \<Rightarrow> pyfloat \<Rightarrow> consent_request \<Rightarrow> consent_manager \<Rightarrow> consent \<times> consent_manager" where
  "grant_consent w i now q m =
     (let r = consent_for i now q
      in (r, save_consents w (m\<lparr>cm_records := dict_set (cn_id r) r (cm_records m)\<rparr>)))"

definition withdrawn :: "pyfloat \<Rightarrow> consent \<Rightarrow> consent" where
  "withdrawn now r = r\<lparr>cn_status := ''withdrawn'', cn_withdrawn := Some now\<rparr>"

definition withdraw_consent :: "write_outcome \<Rightarrow> pyfloat \<Rightarrow> string \<Rightarrow> consent_manager \<Rightarrow> bool \<times> consent_manager" where
  "withdraw_consent w now i m =
     (case dict_get (cm_records m) i of
        None \<Rightarrow> (False, m)
      | Some r \<Rightarrow> if cn_status r \<noteq> ''granted'' then (False, m)
          else (True, save_consents w (m\<lparr>cm_records := modify i (withdrawn now) (cm_records m)\<rparr>)))"

definition withdraw_all_user_consent ::
  "write_outcome \<Rightarrow> pyfloat \<Rightarrow> string \<Rightarrow> consent_manager \<Rightarrow> nat \<times> consent_manager" where
  "withdraw_all_user_consent w now user m =
     (let open_ones = (\<lambda>r. cn_user r = user \<and> cn_status r = ''granted'');
          n = length (filter open_ones (dict_values (cm_records m)));
          m1 = m\<lparr>cm_records := map (\<lambda>(k, r). (k, if open_ones r then withdrawn now r else r)) (cm_records m)\<rparr>
      in (n, if 0 < n then save_consents w m1 else m1))"

definition has_expired :: "pyfloat \<Rightarrow> consent \<Rightarrow> bool" where
  "has_expired now r = (case cn_expires r of None \<Rightarrow> False | Some t \<Rightarrow> t < now)"

definition covers :: "pyfloat \<Rightarrow> string \<Rightarrow> string \<Rightarrow> string \<Rightarrow> consent \<Rightarrow> bool" where
  "covers now user purpose cat r \<longleftrightarrow>
     cn_user r = user \<and> cn_purpose r = purpose \<and> cn_status r = ''granted'' \<and>
     cat \<in> set (cn_categories r) \<and> \<not> has_expired now r"

definition check_consent :: "pyfloat \<Rightarrow> string \<Rightarrow> string \<Rightarrow> string \<Rightarrow> consent_manager \<Rightarrow> bool" where
  "check_consent now user purpose cat m = list_ex (covers now user purpose cat) (dict_values (cm_records m))"

definition get_user_consents :: "string \<Rightarrow> consent_manager \<Rightarrow> consent list" where
  "get_user_consents user m = filter (\<lambda>r. cn_user r = user) (dict_values (cm_records m))"

definition get_expired_consents :: "pyfloat \<Rightarrow> consent_manager \<Rightarrow> consent list" where
  "get_expired_consents now m =
     filter (\<lambda>r. cn_status r = ''granted'' \<and> has_expired now r) (dict_values (cm_records m))"

record consent_stats =
  cx_total :: nat
  cx_granted :: nat
  cx_withdrawn :: nat
  cx_expired :: nat
  cx_users :: nat

definition get_consent_stats :: "pyfloat \<Rightarrow> consent_manager \<Rightarrow> consent_stats" where
  "get_consent_stats now m =
     (let rs = dict_values (cm_records m) in
      \<lparr>cx_total = length rs, cx_granted = length (filter (\<lambda>r. cn_status r = ''granted'') rs),
       cx_withdrawn = length (filter (\<lambda>r. cn_status r = ''withdrawn'') rs),
       cx_expired = length (get_expired_consents now m),
       cx_users = card (set (map cn_user rs))\<rparr>)"

subsection \<open>The contract: a set of grants\<close>

text \<open>
  What the manager promises, without records, statuses and files: a set of grants, to which a
  grant is added and from which withdrawals take grants away.
\<close>

record grant =
  gr_id :: string
  gr_user :: string
  gr_purpose :: string
  gr_categories :: "string set"
  gr_expires :: "pyfloat option"

datatype consent_op =
    Grant string pyfloat consent_request
  | Withdraw pyfloat string
  | WithdrawAll pyfloat string

fun consent_step :: "consent_manager \<Rightarrow> write_outcome \<times> consent_op \<Rightarrow> consent_manager" where
  "consent_step m (w, Grant i now q) = snd (grant_consent w i now q m)"
| "consent_step m (w, Withdraw now i) = snd (withdraw_consent w now i m)"
| "consent_step m (w, WithdrawAll now user) = snd (withdraw_all_user_consent w now user m)"

fun grants_step :: "grant set \<Rightarrow> write_outcome \<times> consent_op \<Rightarrow> grant set" where
  "grants_step G (w, Grant i now q) =
     insert \<lparr>gr_id = i, gr_user = cg_user q, gr_purpose = cg_purpose q, gr_categories = set (cg_categories q),
             gr_expires = expiry_of now (cg_ttl q)\<rparr> {g \<in> G. gr_id g \<noteq> i}"
| "grants_step G (w, Withdraw now i) = {g \<in> G. gr_id g \<noteq> i}"
| "grants_step G (w, WithdrawAll now user) = {g \<in> G. gr_user g \<noteq> user}"

definition grant_of :: "consent \<Rightarrow> grant" where
  "grant_of r = \<lparr>gr_id = cn_id r, gr_user = cn_user r, gr_purpose = cn_purpose r,
     gr_categories = set (cn_categories r), gr_expires = cn_expires r\<rparr>"

definition grants_of :: "consent_manager \<Rightarrow> grant set" where
  "grants_of m = grant_of ` {r \<in> set (dict_values (cm_records m)). cn_status r = ''granted''}"

definition permits :: "pyfloat \<Rightarrow> string \<Rightarrow> string \<Rightarrow> string \<Rightarrow> grant set \<Rightarrow> bool" where
  "permits now user purpose cat G \<longleftrightarrow> (\<exists>g \<in> G. gr_user g = user \<and> gr_purpose g = purpose \<and>
     cat \<in> gr_categories g \<and> (case gr_expires g of None \<Rightarrow> True | Some t \<Rightarrow> now \<le> t))"

lemma withdrawn_simps [simp]:
  "cn_id (withdrawn now r) = cn_id r" "cn_status (withdrawn now r) = ''withdrawn''"
  by (simp_all add: withdrawn_def)

lemma records_simps [simp]:
  "cm_records (save_consents w m) = cm_records m"
  "cn_id (consent_for i now q) = i" "cn_status (consent_for i now q) = ''granted''"
  by (simp_all add: save_consents_def consent_for_def)

lemma grant_of_simps [simp]:
  "gr_id (grant_of r) = cn_id r" "gr_user (grant_of r) = cn_user r"
  by (simp_all add: grant_of_def)

lemma grant_of_new: "grant_of (consent_for i now q) =
    \<lparr>gr_id = i, gr_user = cg_user q, gr_purpose = cg_purpose q, gr_categories = set (cg_categories q),
     gr_expires = expiry_of now (cg_ttl q)\<rparr>"
  by (simp add: grant_of_def consent_for_def)

definition consents_ok :: "consent_manager \<Rightarrow> bool" where
  "consents_ok m \<longleftrightarrow> keyed cn_id (cm_records m)"

lemma consents_ok_step: "consents_ok m \<Longrightarrow> consents_ok (consent_step m e)"
  by (cases "(m, e)" rule: consent_step.cases)
    (auto simp: consents_ok_def grant_consent_def withdraw_consent_def withdraw_all_user_consent_def Let_def
      intro: keyed_set [of cn_id _ "consent_for _ _ _", simplified] keyed_modify keyed_map split: option.split)

lemma grants_simulate:
  assumes "consents_ok m"
  shows "grants_of (consent_step m (w, op)) = grants_step (grants_of m) (w, op)"
proof (cases op)
  case (Grant i now q)
  from assms have "set (dict_values (dict_set i (consent_for i now q) (cm_records m))) =
      insert (consent_for i now q) {u \<in> set (dict_values (cm_records m)). cn_id u \<noteq> i}"
    using values_set [of cn_id "cm_records m" "consent_for i now q"] by (simp add: consents_ok_def)
  then show ?thesis
    by (auto simp: Grant grants_of_def grant_consent_def Let_def simp flip: grant_of_new)
next
  case (Withdraw now i)
  note vm = values_modify [OF assms [unfolded consents_ok_def]]
  show ?thesis
  proof (cases "dict_get (cm_records m) i")
    case None
    then have "\<forall>u \<in> set (dict_values (cm_records m)). cn_id u \<noteq> i"
      using assms by (auto simp: consents_ok_def keyed_values)
    with None show ?thesis by (auto simp: Withdraw grants_of_def withdraw_consent_def)
  next
    case (Some r)
    with assms have only: "u = r" if "u \<in> set (dict_values (cm_records m))" "cn_id u = i" for u
      using that by (auto simp: consents_ok_def keyed_values)
    show ?thesis
      using Some only by (auto simp: Withdraw grants_of_def withdraw_consent_def vm image_iff
        split: if_splits)
  qed
next
  case (WithdrawAll now user)
  then show ?thesis
    by (auto simp: grants_of_def withdraw_all_user_consent_def Let_def image_iff split: if_splits)
qed

interpretation consent_spec: refinement consent_step "\<lambda>m e. True" consents_ok grants_step grants_of
  by unfold_locales (auto simp: consents_ok_step grants_simulate)

lemma new_consents_ok: "consents_ok (new_consent_manager f)"
  by (simp add: consents_ok_def new_consent_manager_def keyed_load)

lemma check_is_permits: "check_consent now user purpose cat m = permits now user purpose cat (grants_of m)"
  by (auto simp: check_consent_def permits_def grants_of_def grant_of_def covers_def has_expired_def list_ex_iff
      not_less split: option.splits)

text \<open>
  C16: The manager implements its contract: after any sequence of grants and withdrawals, whatever
  became of the writes, the answer of the consent check is what the set of grants says, which
  starts from the records loaded at start-up, gains each grant and loses what is withdrawn.
\<close>
theorem consent_refines_grants:
  "check_consent now user purpose cat (foldl consent_step (new_consent_manager f) es) =
     permits now user purpose cat (foldl grants_step (grants_of (new_consent_manager f)) es)"
  by (simp add: check_is_permits consent_spec.abs_run_always [OF new_consents_ok])

text \<open>A restart keeps what is saved, and a failed write loses it.\<close>

definition consents_saved :: "consent_manager \<Rightarrow> bool" where
  "consents_saved m \<longleftrightarrow> consents_ok m \<and> load_file cn_id (cm_file m) = cm_records m"

lemma save_saved: "keyed cn_id (cm_records m) \<Longrightarrow> consents_saved (save_consents Written m)"
  by (simp add: consents_saved_def consents_ok_def save_consents_def)

interpretation consent_files: run_invariant consent_step "\<lambda>m e. fst e = Written" consents_saved
proof unfold_locales
  fix m and e :: "write_outcome \<times> consent_op" assume m: "consents_saved m" and e: "fst e = Written"
  then have k: "keyed cn_id (cm_records m)" by (simp add: consents_saved_def consents_ok_def)
  obtain op where op: "e = (Written, op)" using e by (cases e) simp
  show "consents_saved (consent_step m e)"
  proof (cases op)
    case (Grant i now q)
    show ?thesis
      using keyed_set [OF k, of "consent_for i now q"]
      by (simp add: op Grant grant_consent_def Let_def save_saved)
  next
    case (Withdraw now i)
    with m k show ?thesis
      by (auto simp: op withdraw_consent_def intro!: save_saved keyed_modify split: option.split)
  next
    case (WithdrawAll now user)
    show ?thesis
    proof (cases "filter (\<lambda>r. cn_user r = user \<and> cn_status r = ''granted'') (dict_values (cm_records m)) = []")
      case True
      then have "(if cn_user r = user \<and> cn_status r = ''granted'' then withdrawn now r else r) = r"
        if "(i, r) \<in> set (cm_records m)" for i r
        using that by (auto simp: filter_empty_conv dict_values_def)
      then have "map (\<lambda>(k, r). (k, if cn_user r = user \<and> cn_status r = ''granted'' then withdrawn now r else r))
          (cm_records m) = cm_records m"
        by (intro map_idI) auto
      with True m show ?thesis by (simp add: op WithdrawAll withdraw_all_user_consent_def Let_def)
    next
      case False
      with k show ?thesis
        by (auto simp: op WithdrawAll withdraw_all_user_consent_def Let_def intro!: save_saved keyed_map)
    qed
  qed
qed

text \<open>
  Consents survive a restart: if every write succeeds, a manager that starts from the file has
  the records of the one that wrote it, after any sequence of grants and withdrawals.
\<close>
theorem consents_survive_restart:
  assumes "\<forall>e \<in> set es. fst e = Written" and "m = foldl consent_step (new_consent_manager f) es"
  shows "cm_records (new_consent_manager (cm_file m)) = cm_records m"
proof -
  have "consents_saved (new_consent_manager f)"
    using new_consents_ok by (simp add: consents_saved_def new_consent_manager_def)
  then have "consents_saved m" unfolding assms(2) by (rule consent_files.run_inv_always) (use assms(1) in blast)
  then show ?thesis by (simp add: consents_saved_def new_consent_manager_def)
qed

definition sample_request :: consent_request where
  "sample_request = \<lparr>cg_user = ''u'', cg_purpose = ''marketing'', cg_categories = [''email''], cg_methods = None,
     cg_sharing = False, cg_ttl = Some 365, cg_ip = None, cg_agent = None\<rparr>"

theorem consents_survive_restart_witness:
  "cm_records (new_consent_manager (cm_file (foldl consent_step (new_consent_manager NoFile)
     [(Written, Grant ''a'' 0 sample_request), (Written, Withdraw 1 ''a'')]))) =
   [(''a'', withdrawn 1 (consent_for ''a'' 0 sample_request))]"
  using consents_survive_restart [of "[(Written, Grant ''a'' 0 sample_request), (Written, Withdraw 1 ''a'')]" _ NoFile, OF _ refl]
  by (simp add: new_consent_manager_def load_file_def grant_consent_def withdraw_consent_def Let_def
      save_consents_def modify_def)

text \<open>
  A withdrawal that is not written comes back: if the file cannot be opened, the withdrawal is
  reported as done, and after a restart the consent is valid again. If the write breaks off, all
  consents are gone after a restart.
\<close>
theorem unwritten_withdrawal_returns:
  assumes "consents_saved m" and "check_consent now user purpose cat m" and "dict_get (cm_records m) i = Some r"
    and "cn_status r = ''granted''"
  shows "fst (withdraw_consent w t i m) \<and>
    check_consent now user purpose cat (new_consent_manager (cm_file (snd (withdraw_consent OpenFails t i m)))) \<and>
    \<not> check_consent now' user' purpose' cat' (new_consent_manager (cm_file (snd (withdraw_consent DumpFails t i m))))"
  using assms
  by (simp add: withdraw_consent_def save_consents_def new_consent_manager_def save_file_def load_file_def
      consents_saved_def check_consent_def dict_of_def dict_values_def)

theorem unwritten_withdrawal_returns_witness:
  "check_consent 1 ''u'' ''marketing'' ''email'' (new_consent_manager (cm_file (snd (withdraw_consent OpenFails 1 ''a''
     (snd (grant_consent Written ''a'' 0 sample_request (new_consent_manager NoFile)))))))"
proof -
  let ?m = "snd (grant_consent Written ''a'' 0 sample_request (new_consent_manager NoFile))"
  have "consents_saved ?m" "dict_get (cm_records ?m) ''a'' = Some (consent_for ''a'' 0 sample_request)"
    by (simp_all add: consents_saved_def consents_ok_def grant_consent_def Let_def save_consents_def
        new_consent_manager_def load_file_def save_file_def dict_of_def dict_values_def keyed_def)
  moreover have "check_consent 1 ''u'' ''marketing'' ''email'' ?m"
    by (simp add: grant_consent_def Let_def new_consent_manager_def load_file_def check_consent_def dict_values_def
        covers_def has_expired_def consent_for_def sample_request_def expiry_of_def)
  ultimately show ?thesis using unwritten_withdrawal_returns [of ?m] by simp
qed

lemma stats_partition:
  "cx_granted (get_consent_stats now m) + cx_withdrawn (get_consent_stats now m) \<le> cx_total (get_consent_stats now m) \<and>
   cx_expired (get_consent_stats now m) \<le> cx_granted (get_consent_stats now m)"
proof -
  have "length (filter P xs) + length (filter Q xs) \<le> length xs" if "\<And>x. P x \<Longrightarrow> \<not> Q x" for P Q and xs :: "consent list"
    using that by (induction xs) auto
  from this [of "\<lambda>r. cn_status r = ''granted''" "\<lambda>r. cn_status r = ''withdrawn''"]
  have "length (filter (\<lambda>r. cn_status r = ''granted'') xs) + length (filter (\<lambda>r. cn_status r = ''withdrawn'') xs)
      \<le> length xs" for xs :: "consent list" by auto
  moreover have "length (filter (\<lambda>x. P x \<and> Q x) xs) \<le> length (filter P xs)" for P Q and xs :: "consent list"
    by (induction xs) auto
  ultimately show ?thesis by (simp add: get_consent_stats_def get_expired_consents_def Let_def)
qed

section \<open>Breach notification (security/breach\_notification.py)\<close>

record breach =
  br_id :: string
  br_detected :: pyfloat
  br_type :: string
  br_severity :: string
  br_status :: string
  br_class :: string
  br_affected :: int
  br_categories :: "string list"
  br_description :: string
  br_cause :: "string option"
  br_containment :: "string list"
  br_deadline :: "pyfloat option"
  br_notified :: "pyfloat option"
  br_bodies :: "string list"
  br_resolved :: "pyfloat option"
  br_lessons :: "string option"

record breach_manager =
  bm_breaches :: "(string, breach) pydict"
  bm_file :: "breach stored"

definition new_breach_manager :: "breach stored \<Rightarrow> breach_manager" where
  "new_breach_manager f = \<lparr>bm_breaches = load_file br_id f, bm_file = f\<rparr>"

definition save_breaches :: "write_outcome \<Rightarrow> breach_manager \<Rightarrow> breach_manager" where
  "save_breaches w m = m\<lparr>bm_file := save_file w (dict_values (bm_breaches m)) (bm_file m)\<rparr>"

definition notification_deadline :: "string \<Rightarrow> string \<Rightarrow> nat" where
  \<comment> \<open>in hours\<close>
  "notification_deadline sev cls =
     (if sev = ''critical'' \<and> cls \<in> {''phi'', ''pci'', ''restricted''} then 24
      else if sev = ''high'' then 48
      else if sev = ''medium'' then 72
      else 168)"

record breach_report =
  bp_type :: string
  bp_severity :: string
  bp_class :: string
  bp_description :: string
  bp_affected :: int
  bp_categories :: "string list"

definition breach_for :: "string \<Rightarrow> pyfloat \<Rightarrow> breach_report \<Rightarrow> breach" where
  "breach_for i now q =
     \<lparr>br_id = i, br_detected = now, br_type = bp_type q, br_severity = bp_severity q, br_status = ''detected'',
      br_class = bp_class q, br_affected = bp_affected q, br_categories = bp_categories q,
      br_description = bp_description q, br_cause = None, br_containment = [],
      br_deadline = Some (now + real (notification_deadline (bp_severity q) (bp_class q)) * 3600),
      br_notified = None, br_bodies = [], br_resolved = None, br_lessons = None\<rparr>"

definition report_breach ::
  "write_outcome \<Rightarrow> string \<Rightarrow> pyfloat \<Rightarrow> breach_report \<Rightarrow> breach_manager \<Rightarrow> breach \<times> breach_manager" where
  "report_breach w i now q m =
     (let r = breach_for i now q
      in (r, save_breaches w (m\<lparr>bm_breaches := dict_set (br_id r) r (bm_breaches m)\<rparr>)))"

definition updated_breach :: "pyfloat \<Rightarrow> string \<Rightarrow> string \<Rightarrow> breach \<Rightarrow> breach" where
  \<comment> \<open>the last but one argument is the notes, empty when there are none\<close>
  "updated_breach now status nts r =
     (let r1 = r\<lparr>br_status := status\<rparr>;
          r2 = (if status = ''resolved'' then r1\<lparr>br_resolved := Some now\<rparr> else r1);
          r3 = (if nts \<noteq> [] \<and> status = ''investigating'' then r2\<lparr>br_cause := Some nts\<rparr> else r2);
          r4 = (if nts \<noteq> [] \<and> status = ''contained'' then r3\<lparr>br_containment := br_containment r3 @ [nts]\<rparr> else r3)
      in if nts \<noteq> [] \<and> status = ''resolved'' then r4\<lparr>br_lessons := Some nts\<rparr> else r4)"

definition update_breach_status ::
  "write_outcome \<Rightarrow> pyfloat \<Rightarrow> string \<Rightarrow> string \<Rightarrow> string \<Rightarrow> breach_manager \<Rightarrow> breach_manager" where
  "update_breach_status w now i status nts m =
     (case dict_get (bm_breaches m) i of
        None \<Rightarrow> m
      | Some _ \<Rightarrow> save_breaches w (m\<lparr>bm_breaches := modify i (updated_breach now status nts) (bm_breaches m)\<rparr>))"

definition notified_breach :: "pyfloat \<Rightarrow> string \<Rightarrow> breach \<Rightarrow> breach" where
  "notified_breach now body r =
     r\<lparr>br_status := ''notified'', br_notified := Some now, br_bodies := br_bodies r @ [body]\<rparr>"

definition mark_notified :: "write_outcome \<Rightarrow> pyfloat \<Rightarrow> string \<Rightarrow> string \<Rightarrow> breach_manager \<Rightarrow> breach_manager" where
  "mark_notified w now i body m =
     (case dict_get (bm_breaches m) i of
        None \<Rightarrow> m
      | Some _ \<Rightarrow> save_breaches w (m\<lparr>bm_breaches := modify i (notified_breach now body) (bm_breaches m)\<rparr>))"

definition is_overdue :: "pyfloat \<Rightarrow> breach \<Rightarrow> bool" where
  "is_overdue now r \<longleftrightarrow> br_status r \<in> {''detected'', ''investigating'', ''contained''} \<and>
     (case br_deadline r of None \<Rightarrow> False | Some t \<Rightarrow> t < now)"

definition get_overdue_notifications :: "pyfloat \<Rightarrow> breach_manager \<Rightarrow> breach list" where
  "get_overdue_notifications now m = filter (is_overdue now) (dict_values (bm_breaches m))"

definition get_active_breaches :: "breach_manager \<Rightarrow> breach list" where
  "get_active_breaches m = filter (\<lambda>r. br_status r \<noteq> ''resolved'') (dict_values (bm_breaches m))"

record breach_stats =
  bs_total :: nat
  bs_active :: nat
  bs_overdue :: nat
  bs_by_severity :: "(string, nat) pydict"
  bs_by_type :: "(string, nat) pydict"

definition get_breach_stats :: "pyfloat \<Rightarrow> breach_manager \<Rightarrow> breach_stats" where
  "get_breach_stats now m =
     \<lparr>bs_total = length (bm_breaches m), bs_active = length (get_active_breaches m),
      bs_overdue = length (get_overdue_notifications now m),
      bs_by_severity = count_by br_severity (dict_values (bm_breaches m)) [],
      bs_by_type = count_by br_type (dict_values (bm_breaches m)) []\<rparr>"

subsection \<open>Runs\<close>

datatype breach_op =
    ReportBreach string pyfloat breach_report
  | UpdateBreach pyfloat string string string
  | NotifyBreach pyfloat string string

fun breach_step :: "breach_manager \<Rightarrow> write_outcome \<times> breach_op \<Rightarrow> breach_manager" where
  "breach_step m (w, ReportBreach i now q) = snd (report_breach w i now q m)"
| "breach_step m (w, UpdateBreach now i status nts) = update_breach_status w now i status nts m"
| "breach_step m (w, NotifyBreach now i body) = mark_notified w now i body m"

definition deadline_kept :: "breach \<Rightarrow> bool" where
  "deadline_kept r \<longleftrightarrow>
     br_deadline r = Some (br_detected r + real (notification_deadline (br_severity r) (br_class r)) * 3600) \<and>
     (br_bodies r = [] \<longleftrightarrow> br_notified r = None)"

definition breaches_ok :: "breach_manager \<Rightarrow> bool" where
  "breaches_ok m \<longleftrightarrow> keyed br_id (bm_breaches m) \<and> (\<forall>r \<in> set (dict_values (bm_breaches m)). deadline_kept r)"

lemma breach_simps [simp]:
  "bm_breaches (save_breaches w m) = bm_breaches m"
  "br_id (breach_for i now q) = i"
  "br_id (updated_breach now status nts r) = br_id r"
  "br_id (notified_breach now body r) = br_id r"
  "deadline_kept (breach_for i now q)"
  "deadline_kept r \<Longrightarrow> deadline_kept (notified_breach now body r)"
  by (simp_all add: save_breaches_def breach_for_def updated_breach_def notified_breach_def Let_def deadline_kept_def)

lemma deadline_updated: "deadline_kept r \<Longrightarrow> deadline_kept (updated_breach now status nts r)"
  by (auto simp: deadline_kept_def updated_breach_def Let_def)

interpretation breach_run: run_invariant breach_step "\<lambda>m e. True" breaches_ok
proof unfold_locales
  fix m and e :: "write_outcome \<times> breach_op" assume m: "breaches_ok m"
  then have k: "keyed br_id (bm_breaches m)" by (simp add: breaches_ok_def)
  have mod: "breaches_ok (save_breaches w (m\<lparr>bm_breaches := modify i f (bm_breaches m)\<rparr>))"
    if "\<And>r. br_id (f r) = br_id r" "\<And>r. deadline_kept r \<Longrightarrow> deadline_kept (f r)" for f w i
    using m that by (auto simp: breaches_ok_def keyed_modify values_modify)
  obtain w op where e: "e = (w, op)" by (cases e)
  show "breaches_ok (breach_step m e)"
  proof (cases op)
    case (ReportBreach i now q)
    have "keyed br_id (dict_set i (breach_for i now q) (bm_breaches m))"
      and "set (dict_values (dict_set i (breach_for i now q) (bm_breaches m))) \<subseteq>
        insert (breach_for i now q) (set (dict_values (bm_breaches m)))"
      using keyed_set [OF k, of "breach_for i now q"] values_set [OF k, of "breach_for i now q"] by auto
    with m show ?thesis
      by (auto simp: e ReportBreach report_breach_def Let_def breaches_ok_def)
  next
    case (UpdateBreach now i status nts)
    with m show ?thesis
      by (auto simp: e update_breach_status_def intro!: mod deadline_updated split: option.split)
  next
    case (NotifyBreach now i body)
    with m show ?thesis by (auto simp: e mark_notified_def intro!: mod split: option.split)
  qed
qed

text \<open>
  The notification deadline of a breach is fixed when it is reported: after any sequence of
  reports, updates and notifications a breach is overdue exactly when its status is still one of
  the three open ones and the hours for its severity and classification have passed since it was
  detected.
\<close>
theorem overdue_by_detection:
  assumes "m = foldl breach_step (new_breach_manager NoFile) es"
  shows "r \<in> set (get_overdue_notifications now m) \<longleftrightarrow> r \<in> set (dict_values (bm_breaches m)) \<and>
    br_status r \<in> {''detected'', ''investigating'', ''contained''} \<and>
    br_detected r + real (notification_deadline (br_severity r) (br_class r)) * 3600 < now"
proof -
  have "breaches_ok (new_breach_manager NoFile)"
    by (simp add: breaches_ok_def new_breach_manager_def load_file_def dict_values_def)
  then have "breaches_ok m" unfolding assms by (rule breach_run.run_inv_always) simp
  then have "deadline_kept r" if "r \<in> set (dict_values (bm_breaches m))"
    using that by (simp add: breaches_ok_def)
  then show ?thesis
    by (auto simp: get_overdue_notifications_def is_overdue_def deadline_kept_def)
qed

definition sample_breach :: breach_report where
  "sample_breach = \<lparr>bp_type = ''phishing'', bp_severity = ''high'', bp_class = ''pii'', bp_description = '''',
     bp_affected = 3, bp_categories = []\<rparr>"

theorem overdue_by_detection_witness:
  "breach_for ''a'' 0 sample_breach \<in> set (get_overdue_notifications 172801
     (foldl breach_step (new_breach_manager NoFile) [(Written, ReportBreach ''a'' 0 sample_breach)]))"
  by (rule overdue_by_detection [OF refl, THEN iffD2])
    (simp add: new_breach_manager_def load_file_def report_breach_def Let_def dict_values_def breach_for_def
      sample_breach_def notification_deadline_def)

text \<open>
  The deadline is not monotone in the severity: a critical breach of data that is not health, card
  or restricted data has a week, longer than a high (two days) or a medium one (three days).
\<close>
theorem critical_deadline_longest:
  assumes "cls \<notin> {''phi'', ''pci'', ''restricted''}"
  shows "notification_deadline ''critical'' cls = notification_deadline ''low'' cls \<and>
    notification_deadline ''high'' cls < notification_deadline ''medium'' cls \<and>
    notification_deadline ''medium'' cls < notification_deadline ''critical'' cls"
  using assms by (simp add: notification_deadline_def)

theorem critical_deadline_longest_witness:
  "notification_deadline ''medium'' ''pii'' < notification_deadline ''critical'' ''pii''"
  using critical_deadline_longest [of "''pii''"] by simp

text \<open>Resolving hides a breach that was never notified, and a late notification reopens it.\<close>

lemma resolved_not_overdue:
  assumes "keyed br_id (bm_breaches m)" "dict_get (bm_breaches m) i = Some r"
  shows "updated_breach t ''resolved'' nts r \<notin> set (get_overdue_notifications now (update_breach_status w t i ''resolved'' nts m))"
    and "notified_breach t body r \<in> set (get_active_breaches (mark_notified w t i body m))"
  using assms keyed_values [OF keyed_modify [OF assms(1), of "notified_breach t body" i], of "notified_breach t body r"]
    keyed_values [OF assms(1), of r]
  by (auto simp: get_overdue_notifications_def is_overdue_def updated_breach_def Let_def get_active_breaches_def
      mark_notified_def keyed_def) (auto simp: notified_breach_def dest: map_of_SomeD)

section \<open>Classification (security/data\_classification.py)\<close>

datatype data_class = ClPublic | ClInternal | ClConfidential | ClRestricted | ClPHI | ClPII | ClPCI

fun value_order :: "data_class \<Rightarrow> nat" where
  "value_order ClPublic = 0"
| "value_order ClInternal = 1"
| "value_order ClConfidential = 2"
| "value_order ClRestricted = 3"
| "value_order ClPII = 4"
| "value_order ClPHI = 5"
| "value_order ClPCI = 6"

definition ssn_pattern :: rx where
  "ssn_pattern = rx_seq [Bound, rep 3 digit, lit ''-'', rep 2 digit, lit ''-'', rep 4 digit, Bound]"

definition classification_patterns :: "(data_class \<times> (rx \<times> string) list) list" where
  "classification_patterns = (let d = digit; up = Cls is_upper; alnum = (\<lambda>c. is_digit c \<or> is_upper c \<or> is_lower c);
      sep = opt (Cls (\<lambda>c. c \<in> set ''_-'')) in [
    (ClPHI, [
      (ssn_pattern, ''SSN''),
      (rx_seq [Bound, rep 3 d, lit ''-'', rep 3 d, lit ''-'', rep 3 d, Bound], ''Canadian_SIN''),
      (rx_seq [Bound, rep 4 d, lit ''-'', rep 3 d, lit ''-'', rep 3 d, lit ''-'', rep 2 up, Bound], ''Health_Card''),
      (rx_seq [Bound, rep 2 up, rep 6 d, Bound], ''Passport''),
      (rx_seq [Bound, up, rep 4 d, lit ''-'', rep 5 d, lit ''-'', rep 5 d, Bound], ''Drivers_License''),
      (ssn_pattern, ''US_SSN'')]),
    (ClPII, [
      (rx_seq [Bound, plus1 (Cls (\<lambda>c. alnum c \<or> c \<in> set ''._%+-'')), lit ''@'',
         plus1 (Cls (\<lambda>c. alnum c \<or> c \<in> set ''.-'')), lit ''.'',
         Seq (rep 2 (Cls (\<lambda>c. is_upper c \<or> is_lower c \<or> c = CHR ''|'')))
             (Star (Cls (\<lambda>c. is_upper c \<or> is_lower c \<or> c = CHR ''|''))), Bound], ''Email''),
      (let s = opt (Cls (\<lambda>c. c = CHR ''-'' \<or> c = CHR ''.'' \<or> is_space c))
       in rx_seq [Bound, rep 3 d, s, rep 3 d, s, rep 4 d, Bound], ''Phone''),
      (rx_seq [Bound, rep 3 (Seq (rep_range 1 3 d) (lit ''.'')), rep_range 1 3 d, Bound], ''IP_Address''),
      (rx_seq [Bound, rep 5 d, opt (Seq (lit ''-'') (rep 4 d)), Bound], ''ZIP_Code'')]),
    (ClPCI, [
      (rx_seq [Bound, rep_range 13 16 (Seq d (LazyStar (Cls (\<lambda>c. c = CHR '' '' \<or> c = CHR ''-'')))), Bound], ''Credit_Card''),
      (rx_seq [Bound, rep_range 3 4 d, Bound], ''CVV'')]),
    (ClConfidential, [
      (ignore_case (rx_seq [Bound, rx_alts [lit ''password'', lit ''secret'', lit ''token'',
           rx_seq [lit ''api'', sep, lit ''key''], rx_seq [lit ''private'', sep, lit ''key'']],
         spaces0, Cls (\<lambda>c. c \<in> set '':=''), spaces0, plus1 (Cls (\<lambda>c. \<not> is_space c))]), ''Credential''),
      (ignore_case (rx_seq [Bound, rx_alts [lit ''confidential'', lit ''proprietary'',
         rx_seq [lit ''trade'', sep, lit ''secret'']], Bound]), ''Confidential_Marker'')])])"

definition class_rules :: "(data_class \<times> rx \<times> string) list" where
  \<comment> \<open>the two nested loops over the table\<close>
  "class_rules = concat (map (\<lambda>(c, ps). map (\<lambda>(r, l). (c, r, l)) ps) classification_patterns)"

fun base_confidence :: "data_class \<Rightarrow> pyfloat" where
  "base_confidence ClPHI = 95/100"
| "base_confidence ClPCI = 90/100"
| "base_confidence ClPII = 85/100"
| "base_confidence ClConfidential = 80/100"
| "base_confidence ClRestricted = 75/100"
| "base_confidence ClInternal = 60/100"
| "base_confidence ClPublic = 50/100"

definition get_confidence :: "data_class \<Rightarrow> nat \<Rightarrow> pyfloat" where
  "get_confidence c n = min 1 (base_confidence c + real n * 2/100)"

definition any_in :: "string list \<Rightarrow> string \<Rightarrow> bool" where
  "any_in ws s \<longleftrightarrow> list_ex (\<lambda>w. substr w s) ws"

definition classify_by_context :: "(string, string) pydict \<Rightarrow> data_class" where
  "classify_by_context cx =
     (let source = lower (dict_get_or cx ''source'' []); fld = lower (dict_get_or cx ''field'' []) in
      if any_in [''healthcare'', ''hospital'', ''clinic'', ''medical'', ''ehr'', ''emr''] source then ClPHI
      else if any_in [''diagnosis'', ''treatment'', ''patient'', ''medical_record'', ''lab_result''] fld then ClPHI
      else if any_in [''payment'', ''billing'', ''finance'', ''banking''] source then ClPCI
      else if any_in [''credit_card'', ''cvv'', ''pan'', ''card_number'', ''bank_account''] fld then ClPCI
      else if any_in [''hr'', ''human_resources'', ''employee'', ''payroll''] source then ClConfidential
      else ClInternal)"

definition mask_class :: "string \<Rightarrow> data_class \<Rightarrow> string" where
  "mask_class text c =
     foldl (\<lambda>masked (c', r, l). if value_order c' \<le> value_order c then re_sub r ''[REDACTED]'' masked else masked)
       text class_rules"

fun retention_days :: "data_class \<Rightarrow> nat option" where
  "retention_days ClPHI = Some 2555"
| "retention_days ClPCI = Some 365"
| "retention_days ClPII = Some 730"
| "retention_days ClConfidential = Some 365"
| "retention_days ClInternal = Some 180"
| "retention_days ClPublic = None"
| "retention_days ClRestricted = Some 90"

definition is_sensitive :: "data_class \<Rightarrow> bool" where
  "is_sensitive c \<longleftrightarrow> c \<in> {ClPHI, ClPII, ClPCI, ClRestricted, ClConfidential}"

record classified =
  cl_value :: string
  cl_class :: data_class
  cl_confidence :: pyfloat
  cl_patterns :: "string list"
  cl_masked :: "string option"
  cl_encrypt :: bool
  cl_consent :: bool
  cl_retention :: "nat option"

record class_scan =
  sc_class :: data_class
  sc_confidence :: pyfloat
  sc_patterns :: "string list"

definition class_step :: "string \<Rightarrow> class_scan \<Rightarrow> data_class \<times> rx \<times> string \<Rightarrow> class_scan" where
  "class_step text s p = (case p of (c, r, l) \<Rightarrow>
     let n = length (findall r text) in
     if n = 0 then s
     else let s1 = s\<lparr>sc_patterns := sc_patterns s @ [l @ '':'' @ show_nat n]\<rparr>
          in if value_order (sc_class s) < value_order c
             then s1\<lparr>sc_class := c, sc_confidence := get_confidence c n\<rparr> else s1)"

definition scan_classes :: "string \<Rightarrow> class_scan" where
  "scan_classes text = foldl (class_step text) \<lparr>sc_class = ClPublic, sc_confidence = 0, sc_patterns = []\<rparr> class_rules"

definition classify :: "string \<Rightarrow> (string, string) pydict option \<Rightarrow> classified" where
  "classify text context =
     (if text = [] then
        \<lparr>cl_value = text, cl_class = ClPublic, cl_confidence = 1, cl_patterns = [], cl_masked = None,
         cl_encrypt = False, cl_consent = False, cl_retention = None\<rparr>
      else
        (let s = scan_classes text;
             s1 = (case context of None \<Rightarrow> s | Some [] \<Rightarrow> s | Some cx \<Rightarrow>
               (let c = classify_by_context cx
                in if value_order (sc_class s) < value_order c then s\<lparr>sc_class := c, sc_confidence := 8/10\<rparr> else s));
             enc = sc_class s1 \<in> {ClPHI, ClPII, ClPCI, ClRestricted}
         in \<lparr>cl_value = text, cl_class = sc_class s1,
             cl_confidence = (if sc_confidence s1 = 0 then 1 else sc_confidence s1), cl_patterns = sc_patterns s1,
             cl_masked = (if enc then Some (mask_class text (sc_class s1)) else None),
             cl_encrypt = enc, cl_consent = sc_class s1 \<in> {ClPHI, ClPII},
             cl_retention = retention_days (sc_class s1)\<rparr>))"

definition mask_sensitive_data :: "string \<Rightarrow> string" where
  "mask_sensitive_data text = (case cl_masked (classify text None) of None \<Rightarrow> text | Some [] \<Rightarrow> text | Some m \<Rightarrow> m)"

subsection \<open>Properties\<close>

fun highest_class :: "data_class \<Rightarrow> data_class list \<Rightarrow> data_class" where
  "highest_class c [] = c"
| "highest_class c (d # ds) = highest_class (if value_order c < value_order d then d else c) ds"

interpretation class_max: strictest value_order highest_class
  by unfold_locales simp_all

lemma scan_class:
  "sc_class (foldl (class_step text) s rs) =
     highest_class (sc_class s) (map fst (filter (\<lambda>(c, r, l). search r text) rs))"
  by (induction rs arbitrary: s) (auto simp: class_step_def Let_def search_findall)

definition class_evidence :: "string \<Rightarrow> (string, string) pydict option \<Rightarrow> data_class set" where
  "class_evidence text context = {c. \<exists>r l. (c, r, l) \<in> set class_rules \<and> search r text} \<union>
     (case context of Some (p # cx) \<Rightarrow> {classify_by_context (p # cx)} | _ \<Rightarrow> {})"

lemma value_order_inj: "value_order c = value_order d \<Longrightarrow> c = d"
  by (cases c; cases d) simp_all

text \<open>
  The class of a text is the highest in the order of the levels among those of the patterns that
  match it and the one its context suggests, whatever the order of the patterns; public if there
  is none.
\<close>
theorem classification_highest:
  assumes "text \<noteq> []"
  shows "cl_class (classify text context) \<in> insert ClPublic (class_evidence text context) \<and>
    (\<forall>c \<in> class_evidence text context. value_order c \<le> value_order (cl_class (classify text context)))"
proof -
  let ?ms = "map fst (filter (\<lambda>(c, r, l). search r text) class_rules)"
  let ?cx = "case context of Some (p # cx) \<Rightarrow> [classify_by_context (p # cx)] | _ \<Rightarrow> []"
  have append: "highest_class b (xs @ ys) = highest_class (highest_class b xs) ys" for b xs ys
    by (induction xs arbitrary: b) simp_all
  have "cl_class (classify text context) = highest_class ClPublic (?ms @ ?cx)"
    using assms by (simp add: classify_def Let_def scan_classes_def scan_class append split: option.split list.split)
  moreover have "set (?ms @ ?cx) = class_evidence text context"
    by (force simp: class_evidence_def split: option.split list.split)
  ultimately show ?thesis
    using class_max.pick_mem [of ClPublic "?ms @ ?cx"] class_max.rank_pick_item [of _ "?ms @ ?cx" ClPublic] by simp
qed

theorem classification_highest_witness:
  "ClPHI \<in> class_evidence ''x'' (Some [(''source'', ''clinic'')]) \<and>
   value_order ClPHI \<le> value_order (cl_class (classify ''x'' (Some [(''source'', ''clinic'')])))"
proof -
  have "classify_by_context [(''source'', ''clinic'')] = ClPHI" by code_simp
  then have "ClPHI \<in> class_evidence ''x'' (Some [(''source'', ''clinic'')])" by (simp add: class_evidence_def)
  moreover from classification_highest [of "''x''" "Some [(''source'', ''clinic'')]"] this
  have "value_order ClPHI \<le> value_order (cl_class (classify ''x'' (Some [(''source'', ''clinic'')])))" by blast
  ultimately show ?thesis by blast
qed

lemma boundary_in_text:
  "is_word (s ! i) \<Longrightarrow> \<not> is_word (s ! Suc i) \<Longrightarrow> Suc i < length s \<Longrightarrow> boundary_at s (Suc i)"
  by (simp add: boundary_at_def word_at_def)

lemma digit_is_word: "is_digit c \<Longrightarrow> is_word c"
  by (simp add: is_word_def)

lemma ssn_has_cvv:
  assumes "search ssn_pattern s"
  shows "search (rx_seq [Bound, rep_range 3 4 digit, Bound]) s"
proof -
  from assms obtain i where i: "i \<le> length s" "boundary_at s i" "i + 3 < length s"
      "is_digit (s ! i)" "is_digit (s ! Suc i)" "is_digit (s ! Suc (Suc i))" "s ! Suc (Suc (Suc i)) = CHR ''-''"
    unfolding search_iff ssn_pattern_def
    by (auto simp: rmatch_simps digit_def lit_def numeral_eq_Suc)
  have "\<not> is_word (CHR ''-'')" by code_simp
  with i have b: "boundary_at s (Suc (Suc (Suc i)))"
    by (intro boundary_in_text) (simp_all add: digit_is_word)
  from i b show ?thesis
    unfolding search_iff by (intro exI [of _ i] exI [of _ "Suc (Suc (Suc i))"])
      (simp add: rmatch_simps rep_range_def digit_def numeral_eq_Suc)
qed

text \<open>
  A social security number makes a text card data: its groups of three and four digits match the
  pattern for card verification values, whose class is higher than that of health and personal
  data. So the text is not marked as needing consent, and is kept for one year instead of seven.
\<close>
theorem ssn_classified_as_card:
  assumes "search ssn_pattern text"
  shows "cl_class (classify text context) = ClPCI \<and> \<not> cl_consent (classify text context) \<and>
    cl_retention (classify text context) = Some 365"
proof -
  have ne: "text \<noteq> []"
    using assms by (auto simp: search_iff ssn_pattern_def rmatch_simps digit_def numeral_eq_Suc)
  have "(ClPCI, rx_seq [Bound, rep_range 3 4 digit, Bound], ''CVV'') \<in> set class_rules"
    by (simp add: class_rules_def classification_patterns_def Let_def)
  with ssn_has_cvv [OF assms] have "ClPCI \<in> class_evidence text context" by (auto simp: class_evidence_def)
  with classification_highest [OF ne, of "context"] have "value_order ClPCI \<le> value_order (cl_class (classify text context))"
    by blast
  then have c: "cl_class (classify text context) = ClPCI" by (cases "cl_class (classify text context)") simp_all
  then show ?thesis using ne by (auto simp: classify_def Let_def)
qed

theorem ssn_classified_as_card_witness:
  "\<not> cl_consent (classify ''SSN 123-45-6789'' (Some [(''source'', ''clinic'')]))"
proof -
  have "search ssn_pattern ''SSN 123-45-6789''" by code_simp
  from ssn_classified_as_card [OF this] show ?thesis by simp
qed

text \<open>Credentials are confidential but not masked.\<close>

lemma confidential_unmasked:
  "cl_class (classify text None) = ClConfidential \<Longrightarrow> mask_sensitive_data text = text"
  by (auto simp: mask_sensitive_data_def classify_def Let_def split: if_splits)

lemma password_matches: "map fst (filter (\<lambda>(c, r, l). search r ''token=a'') class_rules) = [ClConfidential]"
  by code_simp

lemma password_unmasked: "mask_sensitive_data ''token=a'' = ''token=a''"
  by (rule confidential_unmasked) (simp add: classify_def Let_def scan_classes_def scan_class password_matches)

end
