(* ===== verification/Hallucination.thy ===== *)
theory Hallucination
  imports Py_Regex Interfaces
begin

text \<open>
  The hallucination detector (\<open>services/hallucination-detector/hd_cascade\<close>): the rule-based
  pre-filter (\<open>prefilter.py\<close>), the ensemble of two entailment models (\<open>nli_ensemble.py\<close>), the debate
  of two language models (\<open>self_debate.py\<close>), the cascade that tries them in turn
  (\<open>cascade_orchestrator.py\<close>), the correction of a response (\<open>metacognitive.py\<close>) and the service that
  turns a verdict into an action (\<open>main.py\<close>). The models are parameters: a function from the text
  they are given to labels with scores, or from a prompt to the outcome of the HTTP call. The
  explanations are modelled where they are fixed texts or quote the model.
\<close>

section \<open>Stage 1: the pre-filter (prefilter.py)\<close>

datatype prefilter_verdict = PreSafe | PreHallucinated | PreAmbiguous

datatype prefilter_detail =
    MissingContext | EmptyResponse | ShortResponse
  | RefusalPattern string | HallucinationPattern string
  | LengthRatio pyfloat | PrefilterPassed

record prefilter_result =
  pf_verdict :: prefilter_verdict
  pf_confidence :: pyfloat
  pf_detail :: prefilter_detail

definition pf_score :: "prefilter_result \<Rightarrow> pyfloat" where
  "pf_score r = (case pf_verdict r of PreSafe \<Rightarrow> 0 | PreHallucinated \<Rightarrow> 1 | PreAmbiguous \<Rightarrow> 1/2)"

abbreviation "ws \<equiv> lit '' ''"

definition words_of :: "string list \<Rightarrow> rx" where
  \<comment> \<open>words separated by single blanks\<close>
  "words_of vs = rx_seq (concat (map (\<lambda>w. [ws, lit w]) vs))"

definition i_am :: rx where
  "i_am = Alt (lit [CHR 0x27, CHR ''m'']) (lit '' am'')"

definition refusal_patterns :: "rx list" where
  "refusal_patterns = map (\<lambda>r. ignore_case (rx_seq [Bound, r, Bound])) [
     rx_seq [lit ''i don'', lit [CHR 0x27], lit ''t know''],
     rx_seq [lit ''i'', i_am, lit '' not sure''],
     rx_seq [lit ''i cannot '', lits [''answer'', ''respond'', ''provide'']],
     rx_seq [lit ''i'', i_am, ws, lits [''unable'', ''not able''], lit '' to''],
     rx_seq [lit ''no information '', lits [''about'', ''on'', ''regarding'']],
     rx_seq [lit ''not '', lits [''mentioned'', ''discussed'', ''covered'', ''addressed'']],
     rx_seq [lit ''based '', opt (lit ''solely ''), lit ''on the '', lits [''context'', ''provided information'']],
     rx_seq [lit ''insufficient '', lits [''information'', ''context'', ''data'']],
     rx_seq [lit ''cannot '', lits [''verify'', ''confirm'', ''determine'']],
     rx_seq [lit ''the context does not '', lits [''contain'', ''include'', ''mention'', ''specify'']],
     rx_seq [lit ''the '', opt (lit ''provided ''), lit ''context '',
       Alt (lit ''does not'') (rx_seq [lit ''doesn'', lit [CHR 0x27], lit ''t'']), ws, lits [''say'', ''state'', ''indicate'']]]"

definition hallucination_patterns :: "rx list" where
  "hallucination_patterns = map (\<lambda>r. ignore_case (rx_seq [Bound, r, Bound])) [
     rx_seq [lit ''according to '', lits [''our'', ''my''], ws, lits [''database'', ''records'', ''analysis'']],
     rx_seq [lit ''as of '', lits [''my last'', ''our most recent'']],
     rx_seq [lit ''I '', opt (Alt (lit ''have '') (lit ''have '')), opt (lit ''personally ''),
       lits [''reviewed'', ''analyzed'', ''examined'']],
     rx_seq [lit ''the '', lits [''data'', ''research'', ''study''], ws, lits [''shows'', ''indicates'', ''suggests'', ''proves'']],
     rx_seq [lit ''in '', lits [''my'', ''our''], ws, lits [''extensive'', ''professional'', ''expert''], ws,
       lits [''experience'', ''opinion'', ''view'']]]"

fun first_text :: "rx list \<Rightarrow> string \<Rightarrow> string option" where
  \<comment> \<open>the text of the first pattern that matches\<close>
  "first_text [] s = None"
| "first_text (r # rs) s = (case match_text r s of None \<Rightarrow> first_text rs s | Some m \<Rightarrow> Some m)"

definition prefilter_check :: "string \<Rightarrow> string \<Rightarrow> prefilter_result" where
  "prefilter_check cx response =
     (if strip cx = [] then \<lparr>pf_verdict = PreAmbiguous, pf_confidence = 0, pf_detail = MissingContext\<rparr>
      else if strip response = [] then \<lparr>pf_verdict = PreSafe, pf_confidence = 9/10, pf_detail = EmptyResponse\<rparr>
      else if length (strip response) < 10 then \<lparr>pf_verdict = PreSafe, pf_confidence = 7/10, pf_detail = ShortResponse\<rparr>
      else case first_text refusal_patterns response of
        Some m \<Rightarrow> \<lparr>pf_verdict = PreSafe, pf_confidence = 85/100, pf_detail = RefusalPattern m\<rparr>
      | None \<Rightarrow> (case first_text hallucination_patterns response of
          Some m \<Rightarrow> \<lparr>pf_verdict = PreHallucinated, pf_confidence = 75/100, pf_detail = HallucinationPattern m\<rparr>
        | None \<Rightarrow>
            if length cx * 5 < length response \<and> length cx < 200
            then \<lparr>pf_verdict = PreAmbiguous, pf_confidence = 6/10,
                  pf_detail = LengthRatio (py_round (real (length response) / real (max (length cx) 1)) 1)\<rparr>
            else \<lparr>pf_verdict = PreAmbiguous, pf_confidence = 5/10, pf_detail = PrefilterPassed\<rparr>))"

section \<open>Stage 2: the ensemble (nli\_ensemble.py)\<close>

datatype confidence_level = High | Medium | Low

record nli_result =
  nr_score :: pyfloat
  nr_hallucination :: bool
  nr_confidence :: confidence_level
  nr_a :: pyfloat
  nr_b :: pyfloat
  nr_min :: pyfloat

type_synonym nli_model = "string \<Rightarrow> string + (string \<times> pyfloat) list" \<comment> \<open>an error, or labels with scores\<close>

datatype nli_loading =
    ModelsLoaded nli_model nli_model
  | NoTransformers \<comment> \<open>\<open>ImportError\<close>\<close>
  | LoadRaises string \<comment> \<open>any other exception, which \<open>predict\<close> does not catch\<close>

record nli_ensemble =
  ne_high :: pyfloat
  ne_medium :: pyfloat
  ne_models :: nli_loading

fun contradiction_score :: "(string \<times> pyfloat) list \<Rightarrow> pyfloat" where
  "contradiction_score [] = 0"
| "contradiction_score ((l, s) # rs) = (if substr ''CONTRADICTION'' (upper l) then s else contradiction_score rs)"

definition nli_unavailable :: nli_result where
  "nli_unavailable = \<lparr>nr_score = 1/2, nr_hallucination = False, nr_confidence = Low, nr_a = 0, nr_b = 0, nr_min = 0\<rparr>"

definition nli_level :: "nli_ensemble \<Rightarrow> pyfloat \<Rightarrow> confidence_level \<times> bool" where
  "nli_level e m =
     (if ne_high e \<le> m then (High, True)
      else if ne_medium e \<le> m then (Medium, True)
      else if ne_high e \<le> 1 - m then (High, False)
      else (Low, False))"

definition nli_predict :: "nli_ensemble \<Rightarrow> string \<Rightarrow> string \<Rightarrow> string + nli_result" where
  "nli_predict e claim evidence =
     (case ne_models e of
        NoTransformers \<Rightarrow> Inr nli_unavailable
      | LoadRaises msg \<Rightarrow> Inl msg
      | ModelsLoaded a b \<Rightarrow>
          (let p = ''premise: '' @ evidence @ '' hypothesis: '' @ claim in
           case a p of Inl _ \<Rightarrow> Inr nli_unavailable
           | Inr ra \<Rightarrow> (case b p of Inl _ \<Rightarrow> Inr nli_unavailable
              | Inr rb \<Rightarrow>
                  (let sa = contradiction_score ra; sb = contradiction_score rb; m = min sa sb; (c, h) = nli_level e m
                   in Inr \<lparr>nr_score = py_round m 4, nr_hallucination = h, nr_confidence = c,
                           nr_a = py_round sa 4, nr_b = py_round sb 4, nr_min = py_round m 4\<rparr>))))"

section \<open>Stages 3 and 4: the debate (self\_debate.py)\<close>

datatype llm_http = LlmStatus nat | LlmAnswer string | LlmRaises
  \<comment> \<open>a status other than 200; the \<open>response\<close> text of a 200 answer; an exception\<close>

type_synonym llm_post = "string \<Rightarrow> string \<Rightarrow> string \<Rightarrow> llm_http" \<comment> \<open>URL, model, prompt\<close>

definition call_llm :: "llm_post \<Rightarrow> string \<Rightarrow> string \<Rightarrow> string \<Rightarrow> string" where
  "call_llm post url model prompt =
     (case post url model prompt of LlmAnswer t \<Rightarrow> t | LlmStatus _ \<Rightarrow> [] | LlmRaises \<Rightarrow> [])"

record debate_detector =
  sf_url_a :: string
  sf_url_b :: string
  sf_model_a :: string
  sf_model_b :: string
  sf_post :: llm_post

abbreviation "nl \<equiv> [CHR 0x0A]"

fun verdict_line :: "(string \<times> 'v) list \<Rightarrow> string list \<Rightarrow> 'v option" where
  \<comment> \<open>the loop over the lines, last one first\<close>
  "verdict_line table [] = None"
| "verdict_line table (l # ls) =
     (case map_of table (strip l) of Some v \<Rightarrow> Some v | None \<Rightarrow> verdict_line table ls)"

definition lines_of :: "string \<Rightarrow> string list" where
  "lines_of t = rev (split_on (CHR 0x0A) (strip (upper t)))"

definition extract_verdict :: "string \<Rightarrow> bool option" where
  \<comment> \<open>\<open>True\<close> for a hallucination\<close>
  "extract_verdict t =
     (if t = [] then None
      else case verdict_line [(''YES'', False), (''NO'', True)] (lines_of t) of
        Some v \<Rightarrow> Some v
      | None \<Rightarrow>
          (let u = upper t in
           if substr ''YES'' u \<and> \<not> substr ''NO'' u then Some False
           else if substr ''NO'' u \<and> \<not> substr ''YES'' u then Some True
           else if substr ''YES'' u \<and> substr ''NO'' u then
             (case (rfind ''YES'' u, rfind ''NO'' u) of (Some y, Some n) \<Rightarrow> Some (y < n) | _ \<Rightarrow> None)
           else None))"

datatype fact_verdict = Supported | Contradicted | NotEnough

definition extract_fact_verdict :: "string \<Rightarrow> fact_verdict option" where
  \<comment> \<open>\<open>_extract_lightweight_verdict\<close>\<close>
  "extract_fact_verdict t =
     (if t = [] then None
      else case verdict_line [(''SUPPORTED'', Supported), (''CONTRADICTED'', Contradicted), (''NOT_ENOUGH_EVIDENCE'', NotEnough)]
          (lines_of t) of
        Some v \<Rightarrow> Some v
      | None \<Rightarrow>
          (let u = upper t in
           if substr ''CONTRADICTED'' u then Some Contradicted
           else if substr ''SUPPORTED'' u then Some Supported
           else if substr ''NOT_ENOUGH_EVIDENCE'' u then Some NotEnough
           else None))"

record debate_result =
  db_score :: pyfloat
  db_confidence :: pyfloat
  db_hallucination :: bool
  db_verdict :: fact_verdict
  db_trace :: string

record legacy_debate =
  lg_score :: pyfloat
  lg_confidence :: pyfloat
  lg_judgements :: "string list"
  lg_a :: "bool option"
  lg_b :: "bool option"

definition legacy_final :: "bool option \<Rightarrow> bool option \<Rightarrow> bool \<times> pyfloat" where
  "legacy_final a b =
     (case (a, b) of
        (None, None) \<Rightarrow> (True, 3/10)
      | (None, Some y) \<Rightarrow> (y, 5/10)
      | (Some x, None) \<Rightarrow> (x, 5/10)
      | (Some x, Some y) \<Rightarrow> if x \<noteq> y then (True, 4/10) else (x, 85/100))"

definition detect_legacy :: "debate_detector \<Rightarrow> string \<Rightarrow> string \<Rightarrow> legacy_debate" where
  \<comment> \<open>\<open>detect\<close>, the first version with two judges\<close>
  "detect_legacy d cx response =
     (let head = ''Context: '' @ cx @ nl @ nl @ ''Response: '' @ response @ nl @ nl;
          ja = call_llm (sf_post d) (sf_url_a d) (sf_model_a d)
            (head @ ''Is this response factually correct based ONLY on the context? '' @
             ''Explain your reasoning, then output YES or NO.'');
          jb = call_llm (sf_post d) (sf_url_b d) (sf_model_b d)
            (head @ ''Another judge said: '' @ ja @ nl @ nl @ ''Now provide your own independent verdict: YES or NO.'');
          (final, conf) = legacy_final (extract_verdict ja) (extract_verdict jb)
      in \<lparr>lg_score = (if final then 1 else 0), lg_confidence = conf, lg_judgements = [take 500 ja, take 500 jb],
          lg_a = extract_verdict ja, lg_b = extract_verdict jb\<rparr>)"

definition detect_lightweight :: "debate_detector \<Rightarrow> string \<Rightarrow> string \<Rightarrow> debate_result" where
  "detect_lightweight d claim evidence =
     (let t = call_llm (sf_post d) (sf_url_a d) (sf_model_a d)
        (''You are a fact-checking expert. First argue that the claim is TRUE, '' @
         ''then argue that the claim is FALSE. Then decide.'' @ nl @ nl @
         ''Claim: '' @ claim @ nl @ ''Evidence: '' @ evidence @ nl @ nl @
         ''First, why this claim could be TRUE:'' @ nl @ ''Then, why this claim could be FALSE:'' @ nl @
         ''Finally, your verdict (SUPPORTED / CONTRADICTED / NOT_ENOUGH_EVIDENCE):'')
      in case extract_fact_verdict t of
        Some Contradicted \<Rightarrow> \<lparr>db_score = 85/100, db_confidence = 75/100, db_hallucination = True,
          db_verdict = Contradicted, db_trace = take 500 t\<rparr>
      | Some Supported \<Rightarrow> \<lparr>db_score = 15/100, db_confidence = 75/100, db_hallucination = False,
          db_verdict = Supported, db_trace = take 500 t\<rparr>
      | _ \<Rightarrow> \<lparr>db_score = 1/2, db_confidence = 1/2, db_hallucination = False,
          db_verdict = NotEnough, db_trace = take 500 t\<rparr>)"

fun verdict_priority :: "fact_verdict option \<Rightarrow> nat" where
  "verdict_priority (Some Contradicted) = 3"
| "verdict_priority (Some NotEnough) = 2"
| "verdict_priority (Some Supported) = 1"
| "verdict_priority None = 0"

record high_stakes_result =
  hs_score :: pyfloat
  hs_confidence :: pyfloat
  hs_hallucination :: bool
  hs_verdict :: "fact_verdict option"
  hs_disagreement :: bool
  hs_a :: "fact_verdict option"
  hs_b :: "fact_verdict option"

definition judge_pair :: "fact_verdict option \<Rightarrow> fact_verdict option \<Rightarrow> high_stakes_result" where
  "judge_pair a b =
     (if a \<noteq> b then
        (let final = (if verdict_priority b \<le> verdict_priority a then a else b); h = (final = Some Contradicted)
         in \<lparr>hs_score = (if h then 7/10 else 3/10), hs_confidence = 5/10, hs_hallucination = h, hs_verdict = final,
             hs_disagreement = True, hs_a = a, hs_b = b\<rparr>)
      else
        (let final = (case a of None \<Rightarrow> NotEnough | Some v \<Rightarrow> v); h = (final = Contradicted)
         in \<lparr>hs_score = (if h then 95/100 else 5/100), hs_confidence = 9/10, hs_hallucination = h,
             hs_verdict = Some final, hs_disagreement = False, hs_a = a, hs_b = b\<rparr>))"

definition detect_high_stakes :: "debate_detector \<Rightarrow> string \<Rightarrow> string \<Rightarrow> string \<Rightarrow> high_stakes_result" where
  "detect_high_stakes d claim evidence dmn =
     (let head = ''Domain: '' @ dmn @ nl @ nl @ ''Evidence: '' @ evidence @ nl @ nl @ ''Claim: '' @ claim @ nl @ nl;
          ja = call_llm (sf_post d) (sf_url_a d) (sf_model_a d)
            (head @ ''Based ONLY on the evidence above, is this claim factually correct?'' @ nl @
             ''Explain your reasoning step by step, then output your final verdict '' @
             ''on a new line as either: SUPPORTED or CONTRADICTED or NOT_ENOUGH_EVIDENCE'');
          jb = call_llm (sf_post d) (sf_url_b d) (sf_model_b d)
            (head @ ''Fact-check this claim against the evidence. Consider alternative interpretations.'' @ nl @
             ''Output your final verdict on a new line as: SUPPORTED or CONTRADICTED or NOT_ENOUGH_EVIDENCE'')
      in judge_pair (extract_fact_verdict ja) (extract_fact_verdict jb))"

section \<open>The cascade (cascade\_orchestrator.py)\<close>

definition high_stakes_domains :: "string list" where
  "high_stakes_domains = [''healthcare'', ''finance'', ''legal'', ''medical'', ''compliance'']"

record escalation =
  es_nli_high :: pyfloat
  es_nli_medium :: pyfloat
  es_debate :: pyfloat

definition escalation_thresholds :: "(string, escalation) pydict" where
  "escalation_thresholds = (let e = (\<lambda>h m d. \<lparr>es_nli_high = h, es_nli_medium = m, es_debate = d\<rparr>) in [
     (''general'', e (85/100) (65/100) (7/10)), (''healthcare'', e (90/100) (70/100) (8/10)),
     (''finance'', e (88/100) (68/100) (75/100)), (''legal'', e (92/100) (72/100) (85/100)),
     (''medical'', e (90/100) (70/100) (8/10)), (''compliance'', e (88/100) (68/100) (75/100))])"

definition thresholds_for :: "string \<Rightarrow> escalation" where
  "thresholds_for dmn = dict_get_or escalation_thresholds dmn
     (dict_get_or escalation_thresholds ''general'' \<lparr>es_nli_high = 0, es_nli_medium = 0, es_debate = 0\<rparr>)"

datatype cascade_stage = Prefilter | NliEnsemble | LightDebate | FullDebate

record cascade_result =
  cd_score :: pyfloat
  cd_confidence :: pyfloat
  cd_hallucination :: bool
  cd_stage :: nat
  cd_path :: "cascade_stage list"

record debater =
  dbt_light :: "string \<Rightarrow> string \<Rightarrow> string + debate_result"
  dbt_full :: "string \<Rightarrow> string \<Rightarrow> string \<Rightarrow> string + high_stakes_result"

definition full_debate :: "debater option \<Rightarrow> string \<Rightarrow> string \<Rightarrow> string \<Rightarrow> cascade_result" where
  \<comment> \<open>stage 4 and the fallback\<close>
  "full_debate db dmn cx response =
     (let path = [Prefilter, NliEnsemble, LightDebate, FullDebate];
          fallback = \<lparr>cd_score = 1/2, cd_confidence = 3/10, cd_hallucination = False, cd_stage = 0, cd_path = path\<rparr>
      in case db of None \<Rightarrow> fallback
         | Some d \<Rightarrow> (case dbt_full d response cx dmn of
             Inl _ \<Rightarrow> fallback
           | Inr r \<Rightarrow> \<lparr>cd_score = hs_score r, cd_confidence = hs_confidence r, cd_hallucination = hs_hallucination r,
                       cd_stage = 4, cd_path = path\<rparr>))"

definition light_debate :: "debater option \<Rightarrow> string \<Rightarrow> string \<Rightarrow> string \<Rightarrow> cascade_result" where
  \<comment> \<open>from stage 3 on\<close>
  "light_debate db dmn cx response =
     (case db of None \<Rightarrow> full_debate db dmn cx response
      | Some d \<Rightarrow> (case dbt_light d response cx of
          Inl _ \<Rightarrow> full_debate db dmn cx response
        | Inr r \<Rightarrow>
            if dmn \<in> set high_stakes_domains then full_debate db dmn cx response
            else if es_debate (thresholds_for dmn) \<le> db_confidence r
            then \<lparr>cd_score = db_score r, cd_confidence = db_confidence r, cd_hallucination = db_hallucination r,
                  cd_stage = 3, cd_path = [Prefilter, NliEnsemble, LightDebate]\<rparr>
            else full_debate db dmn cx response))"

definition cascade_detect ::
  "(string \<Rightarrow> string \<Rightarrow> string + nli_result) \<Rightarrow> debater option \<Rightarrow> string \<Rightarrow> string \<Rightarrow> string \<Rightarrow> cascade_result" where
  "cascade_detect predict db cx response dmn =
     (let p = prefilter_check cx response in
      if pf_verdict p = PreSafe then
        \<lparr>cd_score = 0, cd_confidence = pf_confidence p, cd_hallucination = False, cd_stage = 1, cd_path = [Prefilter]\<rparr>
      else if pf_verdict p = PreHallucinated then
        \<lparr>cd_score = 1, cd_confidence = pf_confidence p, cd_hallucination = True, cd_stage = 1, cd_path = [Prefilter]\<rparr>
      else case predict response cx of
        Inl _ \<Rightarrow> light_debate db dmn cx response
      | Inr r \<Rightarrow>
          if nr_confidence r = High then
            \<lparr>cd_score = nr_score r, cd_confidence = nr_min r, cd_hallucination = nr_hallucination r, cd_stage = 2,
             cd_path = [Prefilter, NliEnsemble]\<rparr>
          else light_debate db dmn cx response)"

definition debater_of :: "debate_detector \<Rightarrow> debater" where
  "debater_of d = \<lparr>dbt_light = (\<lambda>claim evidence. Inr (detect_lightweight d claim evidence)),
     dbt_full = (\<lambda>claim evidence dmn. Inr (detect_high_stakes d claim evidence dmn))\<rparr>"

section \<open>The service (main.py)\<close>

record domain_config =
  dc_threshold :: "pyfloat option"
  dc_action :: "string option"
  dc_review :: "bool option"

record stored_check =
  st_trace :: string
  st_toxic :: bool
  st_score :: pyfloat
  st_domain :: string
  st_confidence :: pyfloat

record detect_response =
  dt_score :: pyfloat
  dt_confidence :: pyfloat
  dt_action :: string
  dt_review :: bool
  dt_stored :: "stored_check option" \<comment> \<open>the row written, when there is a trace id and a database\<close>

definition config_for :: "(string, domain_config) pydict \<Rightarrow> string \<Rightarrow> domain_config" where
  "config_for configs dmn =
     dict_get_or configs dmn (dict_get_or configs ''general'' \<lparr>dc_threshold = None, dc_action = None, dc_review = None\<rparr>)"

definition choose_action :: "domain_config \<Rightarrow> cascade_result \<Rightarrow> string" where
  "choose_action c r =
     (let threshold = (case dc_threshold c of None \<Rightarrow> 7/10 | Some t \<Rightarrow> t);
          act = (case dc_action c of None \<Rightarrow> ''flag_with_warning'' | Some a \<Rightarrow> a)
      in if 0 < cd_score r then
           (if threshold \<le> cd_confidence r then ''block''
            else if threshold * (7/10) \<le> cd_confidence r then ''flag_with_warning''
            else ''log_only'')
         else act)"

definition detect_hallucination ::
  "(string \<Rightarrow> string \<Rightarrow> string \<Rightarrow> cascade_result) option \<Rightarrow> (string, domain_config) pydict \<Rightarrow> bool \<Rightarrow>
   string \<Rightarrow> string \<Rightarrow> string \<Rightarrow> string option \<Rightarrow> py_error + detect_response" where
  \<comment> \<open>orchestrator, thresholds, whether there is a database; context, response, domain, trace id\<close>
  "detect_hallucination orch configs database cx response dmn trace =
     (case orch of
        None \<Rightarrow> Inl (HTTPException 503 ''Cascade orchestrator not initialized'')
      | Some run \<Rightarrow>
          (let r = run cx response dmn; c = config_for configs dmn; act = choose_action c r
           in Inr \<lparr>dt_score = cd_score r, dt_confidence = cd_confidence r, dt_action = act,
                dt_review = ((case dc_review c of None \<Rightarrow> False | Some b \<Rightarrow> b) \<or> act = ''block''),
                dt_stored = (case trace of Some (x # xs) \<Rightarrow>
                    if database then Some \<lparr>st_trace = x # xs, st_toxic = cd_hallucination r, st_score = cd_score r,
                      st_domain = dmn, st_confidence = cd_confidence r\<rparr> else None
                  | _ \<Rightarrow> None)\<rparr>))"

record correction_row =
  co_trace :: string
  co_llm_verdict :: bool
  co_llm_confidence :: pyfloat
  co_human_verdict :: bool
  co_corrected :: "string option"
  co_domain :: string

definition human_override :: "bool \<Rightarrow> correction_row \<Rightarrow> correction_row list \<Rightarrow> py_error + correction_row list" where
  "human_override database row rows =
     (if \<not> database then Inl (HTTPException 503 ''Database not initialized'') else Inr (rows @ [row]))"

record override_stats =
  os_total :: nat
  os_flagged :: nat
  os_overrides :: nat
  os_corrections :: nat
  os_rate :: pyfloat

definition get_override_stats :: "correction_row list \<Rightarrow> override_stats" where
  "get_override_stats rows =
     (let total = length rows; over = length (filter (\<lambda>r. co_llm_verdict r \<noteq> co_human_verdict r) rows)
      in \<lparr>os_total = total, os_flagged = length (filter co_llm_verdict rows), os_overrides = over,
          os_corrections = length (filter (\<lambda>r. co_corrected r \<noteq> None) rows),
          os_rate = py_round (real over / real (max total 1) * 100) 1\<rparr>)"

section \<open>Correction (metacognitive.py)\<close>

record correction =
  mc_response :: "string option"
  mc_diagnosis :: string
  mc_confidence :: pyfloat
  mc_error :: "string option"

definition correct_response :: "(string \<Rightarrow> string) \<Rightarrow> string \<Rightarrow> string \<Rightarrow> string \<Rightarrow> correction" where
  \<comment> \<open>the first argument is the call of the model, empty when it fails\<close>
  "correct_response llm prompt response err =
     (let diagnosis = llm (''Original prompt: '' @ prompt @ nl @ nl @ ''My response: '' @ response @ nl @ nl @
            ''The error type was: '' @ err @ nl @
            ''(e.g., factual contradiction, unsupported claim, fabricated information)'' @ nl @ nl @
            ''Explain why this response is incorrect. Be specific about what facts '' @
            ''were wrong or what claims were unsupported.'')
      in if diagnosis = [] then
           \<lparr>mc_response = None, mc_diagnosis = ''Failed to generate diagnosis'', mc_confidence = 0,
            mc_error = Some ''LLM call failed during diagnosis''\<rparr>
         else
           (let corrected = llm (''Original prompt: '' @ prompt @ nl @ nl @
                ''My previous incorrect response: '' @ response @ nl @ nl @
                ''Why it was wrong: '' @ diagnosis @ nl @ nl @
                ''Now provide a corrected response that is fully grounded in facts. '' @
                ''Be careful to only include information that is directly supported '' @
                ''by the original prompt context. If you are unsure about something, '' @
                ''say so explicitly.'')
            in if corrected = [] then
                 \<lparr>mc_response = None, mc_diagnosis = diagnosis, mc_confidence = 0,
                  mc_error = Some ''LLM call failed during correction''\<rparr>
               else \<lparr>mc_response = Some corrected, mc_diagnosis = diagnosis, mc_confidence = 7/10, mc_error = None\<rparr>))"

section \<open>What the cascade returns\<close>

definition stage_path :: "nat \<Rightarrow> cascade_stage list" where
  \<comment> \<open>the stages that a result of the given stage has been through\<close>
  "stage_path n = (if n = 0 then [Prefilter, NliEnsemble, LightDebate, FullDebate]
     else take n [Prefilter, NliEnsemble, LightDebate, FullDebate])"

definition staged :: "string \<Rightarrow> cascade_result \<Rightarrow> bool" where
  "staged dmn r \<longleftrightarrow> cd_path r = stage_path (cd_stage r) \<and>
     (cd_stage r = 3 \<longrightarrow> dmn \<notin> set high_stakes_domains \<and> es_debate (thresholds_for dmn) \<le> cd_confidence r) \<and>
     (cd_stage r = 0 \<longrightarrow> \<not> cd_hallucination r)"

lemma full_debate_staged: "staged dmn (full_debate db dmn cx response)"
  "cd_stage (full_debate db dmn cx response) \<in> {0, 4}"
  "cd_stage (full_debate db dmn cx response) = 0 \<longleftrightarrow>
     (case db of None \<Rightarrow> True | Some d \<Rightarrow> \<exists>e. dbt_full d response cx dmn = Inl e)"
  by (auto simp: full_debate_def staged_def stage_path_def Let_def split: option.splits sum.splits)

lemma light_debate_staged: "staged dmn (light_debate db dmn cx response)"
  "cd_stage (light_debate db dmn cx response) \<in> {0, 3, 4}"
  using full_debate_staged [where db = db and dmn = dmn and cx = cx and response = response]
  by (auto simp: light_debate_def staged_def stage_path_def Let_def split: option.splits sum.splits)

text \<open>
  The order of the stages: the path of a result is the prefix of the four stages up to the one
  that resolved it (all four for the fallback, stage 0); stage 1 resolves exactly the requests on
  which the pre-filter is not ambiguous, stage 2 exactly those of the rest on which the ensemble
  has high confidence; stage 3 never resolves a high-stakes domain and needs the confidence of
  the domain's table; the fallback never flags.
\<close>
theorem cascade_stages:
  "staged dmn (cascade_detect predict db cx response dmn) \<and>
   (cd_stage (cascade_detect predict db cx response dmn) = 1 \<longleftrightarrow> pf_verdict (prefilter_check cx response) \<noteq> PreAmbiguous) \<and>
   (cd_stage (cascade_detect predict db cx response dmn) = 2 \<longleftrightarrow> pf_verdict (prefilter_check cx response) = PreAmbiguous \<and>
       (\<exists>n. predict response cx = Inr n \<and> nr_confidence n = High))"
  using light_debate_staged [where db = db and dmn = dmn and cx = cx and response = response]
  by (auto simp: cascade_detect_def staged_def stage_path_def Let_def
      split: sum.splits prefilter_verdict.splits) (metis prefilter_verdict.exhaust)+

section \<open>The pre-filter\<close>

lemma first_text_search: "list_ex (\<lambda>r. search r s) rs \<Longrightarrow> \<exists>m. first_text rs s = Some m"
  by (induction rs) (auto split: option.splits simp: match_text_def search_from_def search_def match_at_def
      first_match_None list_ex_iff simp del: upt_Suc)

text \<open>
  One refusal phrase anywhere in a response of at least ten characters settles the verdict: it
  is safe with confidence 0.85 at stage 1, in every domain, and neither the models nor the
  judges are asked, whatever else the response says.
\<close>
theorem refusal_phrase_clears:
  assumes "strip cx \<noteq> []" "10 \<le> length (strip response)"
    and "list_ex (\<lambda>r. search r response) refusal_patterns"
  shows "cascade_detect predict db cx response dmn =
    \<lparr>cd_score = 0, cd_confidence = 85/100, cd_hallucination = False, cd_stage = 1, cd_path = [Prefilter]\<rparr>"
proof -
  from first_text_search [OF assms(3)] obtain m where "first_text refusal_patterns response = Some m" by blast
  with assms(1,2) show ?thesis by (auto simp: cascade_detect_def prefilter_check_def Let_def)
qed

lemma refusal_phrase_clears_witness:
  "cascade_detect (\<lambda>_ _. Inl ''down'') None ''Report''
     ''It is cancer. I am not sure.'' ''medical'' =
    \<lparr>cd_score = 0, cd_confidence = 85/100, cd_hallucination = False, cd_stage = 1, cd_path = [Prefilter]\<rparr>"
  by (rule refusal_phrase_clears) code_simp+

section \<open>The ensemble\<close>

lemma entailment_labels:
  "contradiction_score [(''contradiction'', x)] = x" "contradiction_score [(''entailment'', x)] = 0"
proof -
  have "substr ''CONTRADICTION'' (upper ''contradiction'')" "\<not> substr ''CONTRADICTION'' (upper ''entailment'')"
    by code_simp+
  then show "contradiction_score [(''contradiction'', x)] = x" "contradiction_score [(''entailment'', x)] = 0" by simp_all
qed

text \<open>
  With both models loaded and answering, a response is a hallucination exactly when both models
  give at least the medium threshold. The verdict has high confidence when both give the high
  threshold, or when one of them alone gives at most one minus that threshold: for "factual",
  the models need not agree, and the other one may be certain of a contradiction.
\<close>
theorem nli_aggregation:
  assumes "ne_models e = ModelsLoaded a b"
    and "a (''premise: '' @ evidence @ '' hypothesis: '' @ claim) = Inr ra"
    and "b (''premise: '' @ evidence @ '' hypothesis: '' @ claim) = Inr rb"
    and "1 - ne_high e < ne_medium e" "ne_medium e \<le> ne_high e"
  shows "\<exists>r. nli_predict e claim evidence = Inr r \<and>
    (nr_hallucination r \<longleftrightarrow> ne_medium e \<le> contradiction_score ra \<and> ne_medium e \<le> contradiction_score rb) \<and>
    (nr_confidence r = High \<longleftrightarrow>
      ne_high e \<le> contradiction_score ra \<and> ne_high e \<le> contradiction_score rb \<or>
      contradiction_score ra \<le> 1 - ne_high e \<or> contradiction_score rb \<le> 1 - ne_high e)"
proof -
  let ?m = "min (contradiction_score ra) (contradiction_score rb)"
  have "(snd (nli_level e ?m) \<longleftrightarrow> ne_medium e \<le> ?m) \<and>
      (fst (nli_level e ?m) = High \<longleftrightarrow> ne_high e \<le> ?m \<or> ?m \<le> 1 - ne_high e)"
    using assms(4,5) by (auto simp: nli_level_def)
  then show ?thesis using assms(1,2,3)
    by (auto simp: nli_predict_def Let_def split: prod.splits)
qed

lemma nli_aggregation_witness:
  "\<exists>r. nli_predict \<lparr>ne_high = 85/100, ne_medium = 65/100,
      ne_models = ModelsLoaded (\<lambda>_. Inr [(''contradiction'', 99/100)]) (\<lambda>_. Inr [(''entailment'', 9/10)])\<rparr>
      ''the dose is 500 mg'' ''the dose is 50 mg'' = Inr r \<and> \<not> nr_hallucination r \<and> nr_confidence r = High"
  using nli_aggregation [of "\<lparr>ne_high = 85/100, ne_medium = 65/100,
      ne_models = ModelsLoaded (\<lambda>_. Inr [(''contradiction'', 99/100)]) (\<lambda>_. Inr [(''entailment'', 9/10)])\<rparr>"
      "\<lambda>_. Inr [(''contradiction'', 99/100)]" "\<lambda>_. Inr [(''entailment'', 9/10)]" "''the dose is 50 mg''"
      "''the dose is 500 mg''" "[(''contradiction'', 99/100)]" "[(''entailment'', 9/10)]"]
  by (auto simp: entailment_labels simp del: contradiction_score.simps)

section \<open>The debate\<close>

text \<open>
  Two judges: the pair is a hallucination exactly when at least one judge finds the claim
  contradicted, whatever the other answers, and the confidence is 0.9 exactly when they give the
  same answer - no answer at all from both counts as agreement - and 0.5 otherwise.
\<close>
theorem judges_conservative:
  "(hs_hallucination (judge_pair a b) \<longleftrightarrow> a = Some Contradicted \<or> b = Some Contradicted) \<and>
   hs_confidence (judge_pair a b) = (if a = b then 9/10 else 5/10) \<and>
   (hs_disagreement (judge_pair a b) \<longleftrightarrow> a \<noteq> b) \<and>
   (1/2 < hs_score (judge_pair a b) \<longleftrightarrow> hs_hallucination (judge_pair a b))"
proof -
  have "hs_hallucination (judge_pair a b) \<longleftrightarrow> a = Some Contradicted \<or> b = Some Contradicted"
    by (cases a rule: verdict_priority.cases; cases b rule: verdict_priority.cases)
      (simp_all add: judge_pair_def Let_def)
  then show ?thesis by (auto simp: judge_pair_def Let_def)
qed

lemma legacy_conservative:
  "fst (legacy_final a b) \<longleftrightarrow> a = Some True \<or> b = Some True \<or> a = None \<and> b = None"
  by (auto simp: legacy_final_def split: option.splits)

text \<open>
  The answer of a judge that concludes "unsupported" or "not supported" in a sentence of its own
  is read as "supported": the fallback looks for the word anywhere in the text.
\<close>
theorem unsupported_read_as_supported:
  assumes "verdict_line [(''SUPPORTED'', Supported), (''CONTRADICTED'', Contradicted),
      (''NOT_ENOUGH_EVIDENCE'', NotEnough)] (lines_of t) = None"
    and "substr ''UNSUPPORTED'' (upper t) \<or> substr ''NOT SUPPORTED'' (upper t)"
    and "\<not> substr ''CONTRADICTED'' (upper t)"
  shows "extract_fact_verdict t = Some Supported"
proof -
  have "substr ''SUPPORTED'' ''UNSUPPORTED''" "substr ''SUPPORTED'' ''NOT SUPPORTED''" by code_simp+
  with assms(2) have s: "substr ''SUPPORTED'' (upper t)" by (meson sublist_order.order.trans)
  from assms(2) have "t \<noteq> []" by (auto simp: upper_def)
  with s assms(1,3) show ?thesis by (simp add: extract_fact_verdict_def Let_def)
qed

lemma unsupported_read_as_supported_witness:
  "extract_fact_verdict ''The claim is unsupported.'' = Some Supported"
  by (rule unsupported_read_as_supported) code_simp+

lemma no_answer: "(\<And>t. post url model prompt \<noteq> LlmAnswer t) \<Longrightarrow> call_llm post url model prompt = []"
  by (auto simp: call_llm_def split: llm_http.splits)

lemma cascade_outage:
  assumes "pf_verdict (prefilter_check cx response) = PreAmbiguous"
    and "\<And>n. predict response cx = Inr n \<Longrightarrow> nr_confidence n \<noteq> High"
    and "\<And>url model prompt t. sf_post d url model prompt \<noteq> LlmAnswer t"
    and "1/2 < es_debate (thresholds_for dmn)"
  shows "cascade_detect predict (Some (debater_of d)) cx response dmn =
    \<lparr>cd_score = 5/100, cd_confidence = 9/10, cd_hallucination = False, cd_stage = 4,
     cd_path = [Prefilter, NliEnsemble, LightDebate, FullDebate]\<rparr>"
proof -
  have "call_llm (sf_post d) url model prompt = []" for url model prompt
    using assms(3) by (rule no_answer)
  then have "full_debate (Some (debater_of d)) dmn cx response = \<lparr>cd_score = 5/100, cd_confidence = 9/10,
      cd_hallucination = False, cd_stage = 4, cd_path = [Prefilter, NliEnsemble, LightDebate, FullDebate]\<rparr>"
    and "db_confidence (detect_lightweight d response cx) = 1/2"
    by (simp_all add: full_debate_def debater_of_def detect_high_stakes_def detect_lightweight_def
        extract_fact_verdict_def judge_pair_def Let_def)
  with assms(1,2,4) show ?thesis
    by (auto simp: cascade_detect_def light_debate_def debater_of_def Let_def split: sum.splits)
qed

lemma debate_threshold: "1/2 < es_debate (thresholds_for dmn)"
  by (auto simp: thresholds_for_def escalation_thresholds_def dict_get_or_def Let_def)

text \<open>
  When the language models are unreachable, an ambiguous response that the ensemble does not
  settle is reported as "not a hallucination" with score 0.05 and confidence 0.9, and the service,
  which reads the score and the confidence but not the verdict, blocks it and asks for a review.
\<close>
theorem debate_outage_blocks:
  assumes "pf_verdict (prefilter_check cx response) = PreAmbiguous"
    and "\<And>n. predict response cx = Inr n \<Longrightarrow> nr_confidence n \<noteq> High"
    and "\<And>url model prompt t. sf_post d url model prompt \<noteq> LlmAnswer t"
  shows "\<not> cd_hallucination (cascade_detect predict (Some (debater_of d)) cx response dmn) \<and>
    cd_confidence (cascade_detect predict (Some (debater_of d)) cx response dmn) = 9/10 \<and>
    (\<exists>out. detect_hallucination (Some (cascade_detect predict (Some (debater_of d)))) [] database cx response dmn trace
      = Inr out \<and> dt_score out = 5/100 \<and> dt_action out = ''block'' \<and> dt_review out)"
  using cascade_outage [OF assms(1-3) debate_threshold]
  by (simp_all add: detect_hallucination_def choose_action_def config_for_def dict_get_or_def Let_def)

lemma debate_outage_blocks_witness:
  "\<not> cd_hallucination (cascade_detect (\<lambda>_ _. Inl ''no model'')
      (Some (debater_of \<lparr>sf_url_a = ''a'', sf_url_b = ''b'', sf_model_a = ''m'', sf_model_b = ''n'', sf_post = (\<lambda>_ _ _. LlmRaises)\<rparr>))
      ''2 + 2 = 4'' ''2 + 2 = 22'' ''general'')"
  by (rule debate_outage_blocks [THEN conjunct1]) (code_simp, simp_all)

section \<open>Correction and statistics\<close>

lemma correction_outcome:
  "mc_error (correct_response llm prompt response err) = None \<longleftrightarrow> mc_response (correct_response llm prompt response err) \<noteq> None"
  "mc_confidence (correct_response llm prompt response err) =
     (if mc_response (correct_response llm prompt response err) = None then 0 else 7/10)"
  by (simp_all add: correct_response_def Let_def)

lemma override_stats_rows: "os_overrides (get_override_stats rows) \<le> os_total (get_override_stats rows)"
  "os_flagged (get_override_stats rows) \<le> os_total (get_override_stats rows)"
  "0 \<le> os_rate (get_override_stats rows)"
  by (simp_all add: get_override_stats_def Let_def py_round_nonneg)

end
