(* ===== verification/Auth_Roles.thy ===== *)
theory Auth_Roles
  imports Interfaces
begin

text \<open>
  Who may do what: bearer tokens (\<open>services/shared/security/auth.py\<close>), roles, permissions and user
  accounts (\<open>services/shared/security/rbac.py\<close>). The JWT library and \<open>bcrypt.checkpw\<close> are
  parameters; \<open>jwt_laws\<close> states what the code relies on. The set of revoked tokens is the state
  of the token functions, the table \<open>users\<close> is the list of its rows.
\<close>

section \<open>Tokens (security/auth.py)\<close>

datatype claim = Text string | Texts "string list" | Time pyfloat

type_synonym claims = "(string, claim) pydict"

record 't jwt =
  jw_encode :: "claims \<Rightarrow> 't"
  jw_decode :: "pyfloat \<Rightarrow> 't \<Rightarrow> claims option" \<comment> \<open>\<open>None\<close> for a \<open>JWTError\<close>\<close>

definition unexpired :: "pyfloat \<Rightarrow> claims \<Rightarrow> bool" where
  \<comment> \<open>the library compares whole seconds\<close>
  "unexpired now c = (case dict_get c ''exp'' of Some (Time t) \<Rightarrow> \<lfloor>now\<rfloor> \<le> \<lfloor>t\<rfloor> | _ \<Rightarrow> True)"

fun stored_claim :: "claim \<Rightarrow> claim" where
  "stored_claim (Time t) = Time (of_int \<lfloor>t\<rfloor>)"
| "stored_claim c = c"

definition jwt_laws :: "'t jwt \<Rightarrow> bool" where
  \<comment> \<open>a token of the library decodes to its claims until it expires\<close>
  "jwt_laws J \<longleftrightarrow> (\<forall>now c. jw_decode J now (jw_encode J c) =
     (if unexpired now c then Some (map (\<lambda>(k, v). (k, stored_claim v)) c) else None))"

definition jwt_issuer :: string where "jwt_issuer = ''polarisgate''"

definition create_access_token :: "'t jwt \<Rightarrow> pyfloat \<Rightarrow> claims \<Rightarrow> nat option \<Rightarrow> 't" where
  "create_access_token J now data minutes =
     (let expire = (case minutes of Some (Suc m) \<Rightarrow> now + real (Suc m) * 60 | _ \<Rightarrow> now + 24 * 3600)
      in jw_encode J (dict_merge data [(''exp'', Time expire), (''iss'', Text jwt_issuer)]))"

definition refresh_days :: nat where "refresh_days = 7"

definition create_refresh_token :: "'t jwt \<Rightarrow> pyfloat \<Rightarrow> claims \<Rightarrow> 't" where
  "create_refresh_token J now data =
     jw_encode J (dict_merge data [(''exp'', Time (now + real refresh_days * 86400)), (''iss'', Text jwt_issuer),
       (''type'', Text ''refresh'')])"

definition verify_jwt :: "'t jwt \<Rightarrow> pyfloat \<Rightarrow> 't \<Rightarrow> claims option" where
  "verify_jwt J now t = jw_decode J now t"

definition blacklist_token :: "'t \<Rightarrow> 't set \<Rightarrow> 't set" where
  \<comment> \<open>also \<open>revoke_token\<close>\<close>
  "blacklist_token t revoked = insert t revoked"

definition is_token_blacklisted :: "'t \<Rightarrow> 't set \<Rightarrow> bool" where
  "is_token_blacklisted t revoked \<longleftrightarrow> t \<in> revoked"

definition refresh_access_token :: "'t jwt \<Rightarrow> pyfloat \<Rightarrow> 't \<Rightarrow> 't set \<Rightarrow> 't option \<times> 't set" where
  "refresh_access_token J now t revoked =
     (case verify_jwt J now t of
        None \<Rightarrow> (None, revoked)
      | Some payload \<Rightarrow>
          if dict_get payload ''type'' \<noteq> Some (Text ''refresh'') then (None, revoked)
          else if is_token_blacklisted t revoked then (None, revoked)
          else (Some (create_access_token J now
                  (filter (\<lambda>(k, v). k \<notin> {''exp'', ''type'', ''iss''}) payload) None),
                blacklist_token t revoked))"

record auth_user =
  aw_email :: claim
  aw_role :: "string option" \<comment> \<open>\<open>None\<close> when the key is missing\<close>
  aw_name :: claim
  aw_permissions :: claim

fun claim_text :: "claim \<Rightarrow> string" where
  \<comment> \<open>the service writes the role of a token as a text\<close>
  "claim_text (Text s) = s"
| "claim_text _ = []"

definition user_of :: "claims \<Rightarrow> auth_user option" where
  "user_of payload =
     (case dict_get payload ''sub'' of
        None \<Rightarrow> None
      | Some email \<Rightarrow> Some \<lparr>aw_email = email,
          aw_role = Some (claim_text (dict_get_or payload ''role'' (Text ''viewer''))),
          aw_name = dict_get_or payload ''name'' (Text []),
          aw_permissions = dict_get_or payload ''permissions'' (Texts [])\<rparr>)"

definition get_current_user :: "'t jwt \<Rightarrow> pyfloat \<Rightarrow> 't option \<Rightarrow> auth_user option" where
  "get_current_user J now credentials =
     (case credentials of None \<Rightarrow> None
      | Some t \<Rightarrow> (case jw_decode J now t of None \<Rightarrow> None | Some payload \<Rightarrow> user_of payload))"

definition require_one_of :: "string list \<Rightarrow> string \<Rightarrow> auth_user option \<Rightarrow> py_error + auth_user" where
  "require_one_of roles msg user =
     (case user of
        None \<Rightarrow> Inl (HTTPException 401 ''Authentication required'')
      | Some u \<Rightarrow>
          if aw_role u \<in> Some ` set roles then Inr u else Inl (HTTPException 403 msg))"

definition require_admin :: "auth_user option \<Rightarrow> py_error + auth_user" where
  "require_admin = require_one_of [''admin''] ''Admin role required''"

definition require_operator :: "auth_user option \<Rightarrow> py_error + auth_user" where
  "require_operator = require_one_of [''admin'', ''operator''] ''Operator or admin role required''"

definition require_auditor :: "auth_user option \<Rightarrow> py_error + auth_user" where
  "require_auditor = require_one_of [''admin'', ''auditor''] ''Auditor or admin role required''"

section \<open>Roles and permissions (security/rbac.py)\<close>

definition role_permissions :: "(string, string list) pydict" where
  "role_permissions = [
     (''admin'', [''auth:manage'', ''auth:login'', ''dashboard:view'', ''policies:read'', ''policies:write'',
        ''agents:read'', ''agents:write'', ''agents:kill'', ''guardrails:check'', ''guardrails:reload'',
        ''audit:read'', ''audit:export'', ''audit:verify'', ''logs:read'', ''events:read'', ''settings:read'',
        ''settings:write'', ''budget:read'', ''budget:write'', ''hallucination:read'', ''hallucination:write'',
        ''opa:read'', ''opa:evaluate'', ''opa:reload'', ''data:delete'', ''data:export'', ''users:manage'',
        ''compliance:read'', ''compliance:export'', ''setup:configure'']),
     (''operator'', [''auth:login'', ''dashboard:view'', ''policies:read'', ''agents:read'', ''agents:write'',
        ''agents:kill'', ''guardrails:check'', ''audit:read'', ''logs:read'', ''events:read'', ''settings:read'',
        ''budget:read'', ''hallucination:read'', ''hallucination:write'', ''opa:read'', ''opa:evaluate'',
        ''compliance:read'']),
     (''auditor'', [''auth:login'', ''dashboard:view'', ''policies:read'', ''agents:read'', ''audit:read'',
        ''audit:export'', ''audit:verify'', ''logs:read'', ''events:read'', ''compliance:read'', ''compliance:export'']),
     (''viewer'', [''auth:login'', ''dashboard:view'', ''policies:read'', ''agents:read'', ''audit:read'',
        ''logs:read'', ''events:read'', ''compliance:read''])]"

definition role_of :: "auth_user \<Rightarrow> string" where
  "role_of u = (case aw_role u of None \<Rightarrow> ''viewer'' | Some r \<Rightarrow> r)"

definition has_permission :: "auth_user option \<Rightarrow> string \<Rightarrow> bool" where
  "has_permission user permission =
     (case user of
        None \<Rightarrow> False
      | Some u \<Rightarrow>
          (let perms = dict_get_or role_permissions (role_of u) []
           in if role_of u = ''admin'' then True else permission \<in> set perms))"

definition require_permission ::
  "string \<Rightarrow> auth_user option \<Rightarrow> (auth_user \<Rightarrow> py_error + 'a) \<Rightarrow> py_error + 'a" where
  \<comment> \<open>the wrapper around the handler\<close>
  "require_permission permission user handler =
     (case user of
        None \<Rightarrow> Inl (HTTPException 401 ''Authentication required'')
      | Some u \<Rightarrow>
          if \<not> has_permission user permission
          then Inl (HTTPException 403 (''Insufficient permissions. Required: '' @ permission))
          else handler u)"

definition role_hierarchy :: "(string, nat) pydict" where
  "role_hierarchy = [(''admin'', 4), (''operator'', 3), (''auditor'', 2), (''viewer'', 1)]"

definition role_level :: "string \<Rightarrow> nat" where
  "role_level r = dict_get_or role_hierarchy r 0"

definition role_text :: "auth_user \<Rightarrow> string" where
  "role_text u = (case aw_role u of None \<Rightarrow> ''unknown'' | Some r \<Rightarrow> r)"

definition require_role :: "string \<Rightarrow> auth_user option \<Rightarrow> py_error + auth_user" where
  "require_role required user =
     (case user of
        None \<Rightarrow> Inl (HTTPException 401 ''Authentication required'')
      | Some u \<Rightarrow>
          if role_level (role_of u) < role_level required
          then Inl (HTTPException 403 (''Role '' @ [CHR 0x27] @ required @ [CHR 0x27] @
            '' or higher required. Current role: '' @ [CHR 0x27] @ role_text u @ [CHR 0x27]))
          else Inr u)"

section \<open>User accounts (security/rbac.py)\<close>

record user_row =
  ur_email :: string
  ur_hash :: string
  ur_role :: string
  ur_active :: bool
  ur_created :: pyfloat
  ur_updated :: pyfloat
  ur_login :: "pyfloat option"

definition update_user :: "string \<Rightarrow> (user_row \<Rightarrow> user_row) \<Rightarrow> user_row list \<Rightarrow> user_row list" where
  \<comment> \<open>\<open>UPDATE users SET ... WHERE email = ...\<close>\<close>
  "update_user email f rows = map (\<lambda>r. if ur_email r = email then f r else r) rows"

definition create_user :: "pyfloat \<Rightarrow> string \<Rightarrow> string \<Rightarrow> string \<Rightarrow> user_row list \<Rightarrow> user_row list" where
  "create_user now email hash role rows =
     (if list_ex (\<lambda>r. ur_email r = email) rows
      then update_user email (\<lambda>r. r\<lparr>ur_hash := hash, ur_role := role, ur_updated := now\<rparr>) rows
      else rows @ [\<lparr>ur_email = email, ur_hash = hash, ur_role = role, ur_active = True, ur_created = now,
             ur_updated = now, ur_login = None\<rparr>])"

definition get_user :: "string \<Rightarrow> user_row list \<Rightarrow> user_row option" where
  "get_user email rows = find (\<lambda>r. ur_email r = email) rows"

definition list_users :: "user_row list \<Rightarrow> user_row list" where
  "list_users rows = rev (sort_key ur_created rows)"

definition update_role :: "pyfloat \<Rightarrow> string \<Rightarrow> string \<Rightarrow> user_row list \<Rightarrow> user_row list" where
  "update_role now email role rows = update_user email (\<lambda>r. r\<lparr>ur_role := role, ur_updated := now\<rparr>) rows"

definition deactivate_user :: "pyfloat \<Rightarrow> string \<Rightarrow> user_row list \<Rightarrow> user_row list" where
  "deactivate_user now email rows = update_user email (\<lambda>r. r\<lparr>ur_active := False, ur_updated := now\<rparr>) rows"

definition authenticate ::
  "(string \<Rightarrow> string \<Rightarrow> bool) \<Rightarrow> pyfloat \<Rightarrow> string \<Rightarrow> string \<Rightarrow> user_row list \<Rightarrow> (string \<times> string) option \<times> user_row list" where
  "authenticate checkpw now email password rows =
     (case get_user email rows of
        None \<Rightarrow> (None, rows)
      | Some r \<Rightarrow>
          if ur_active r \<and> checkpw password (ur_hash r)
          then (Some (ur_email r, ur_role r), update_user email (\<lambda>r. r\<lparr>ur_login := Some now\<rparr>) rows)
          else (None, rows))"

section \<open>What a token is good for\<close>

definition stored_claims :: "claims \<Rightarrow> claims" where
  "stored_claims c = map (\<lambda>(k, v). (k, stored_claim v)) c"

lemma jwt_decode:
  "jwt_laws J \<Longrightarrow> jw_decode J now (jw_encode J c) = (if unexpired now c then Some (stored_claims c) else None)"
  by (simp add: jwt_laws_def stored_claims_def)

lemma dict_get_stored [simp]: "dict_get (stored_claims c) k = map_option stored_claim (dict_get c k)"
  unfolding stored_claims_def by simp

lemma dict_get_merge_Cons [simp]: "dict_merge d ((k, v) # e) = dict_merge (dict_set k v d) e" "dict_merge d [] = d"
  by (simp_all add: dict_merge_def)

lemma user_of_cong:
  "(\<And>k. k \<in> {''sub'', ''role'', ''name'', ''permissions''} \<Longrightarrow> dict_get c k = dict_get d k) \<Longrightarrow> user_of c = user_of d"
  unfolding user_of_def dict_get_or_def by (simp cong: option.case_cong)

lemma refresh_token_claims:
  assumes "jwt_laws J"
  shows "jw_decode J later (create_refresh_token J now data) =
    (if \<lfloor>later\<rfloor> \<le> \<lfloor>now + 604800\<rfloor>
     then Some (stored_claims (dict_merge data [(''exp'', Time (now + 604800)), (''iss'', Text jwt_issuer), (''type'', Text ''refresh'')]))
     else None)"
  using assms by (simp add: create_refresh_token_def jwt_decode unexpired_def refresh_days_def)

text \<open>
  An access token gives the identity of its data back, with the role, the name and the
  permissions it was issued for, until the second its 24 hours end, and nothing afterwards.
\<close>
theorem issued_token_identifies:
  assumes "jwt_laws J"
  shows "get_current_user J later (Some (create_access_token J now data None)) =
    (if \<lfloor>later\<rfloor> \<le> \<lfloor>now + 86400\<rfloor> then user_of (stored_claims data) else None)"
  using assms by (simp add: get_current_user_def create_access_token_def jwt_decode unexpired_def)
    (auto intro!: user_of_cong)

definition transparent_jwt :: "claims jwt" where
  "transparent_jwt = \<lparr>jw_encode = (\<lambda>c. c), jw_decode = (\<lambda>now c. if unexpired now c then Some (stored_claims c) else None)\<rparr>"

lemma transparent_jwt_laws: "jwt_laws transparent_jwt"
  by (simp add: jwt_laws_def transparent_jwt_def stored_claims_def)

lemma issued_token_identifies_witness:
  "get_current_user transparent_jwt 3600 (Some (create_access_token transparent_jwt 0 [(''sub'', Text ''a@b'')] None)) =
    Some \<lparr>aw_email = Text ''a@b'', aw_role = Some ''viewer'', aw_name = Text [], aw_permissions = Texts []\<rparr>"
  using issued_token_identifies [OF transparent_jwt_laws, of 3600 0 "[(''sub'', Text ''a@b'')]"]
  by (simp add: user_of_def dict_get_or_def)

text \<open>Runs of the functions that change the set of revoked tokens.\<close>

datatype 't token_op = RevokeToken 't | RefreshToken pyfloat 't

fun token_step :: "'t jwt \<Rightarrow> 't set \<Rightarrow> 't token_op \<Rightarrow> 't set" where
  "token_step J revoked (RevokeToken t) = blacklist_token t revoked"
| "token_step J revoked (RefreshToken now t) = snd (refresh_access_token J now t revoked)"

lemma revoked_stays: "t \<in> revoked \<Longrightarrow> t \<in> token_step J revoked op"
  by (cases op) (auto simp: blacklist_token_def refresh_access_token_def split: option.splits)

interpretation revocation: run_invariant "token_step J" "\<lambda>_ _. True" "\<lambda>revoked. t \<in> revoked" for J t
  by unfold_locales (rule revoked_stays)

text \<open>
  C27: A refresh token is exchanged at most once: after a successful exchange, whatever tokens are
  revoked or exchanged in between, the same token is refused, at any time.
\<close>
theorem refresh_once:
  assumes "refresh_access_token J now t revoked = (Some new, revoked')"
  shows "fst (refresh_access_token J later t (foldl (token_step J) revoked' ops)) = None"
proof -
  from assms have "t \<in> revoked'"
    by (auto simp: refresh_access_token_def blacklist_token_def split: option.splits if_splits)
  then have "t \<in> foldl (token_step J) revoked' ops" by (rule revocation.run_inv_always) simp
  then show ?thesis by (auto simp: refresh_access_token_def is_token_blacklisted_def split: option.splits)
qed

lemma refresh_succeeds:
  assumes "jwt_laws J" "\<lfloor>later\<rfloor> \<le> \<lfloor>now + 604800\<rfloor>" "create_refresh_token J now data \<notin> revoked"
  shows "\<exists>new. refresh_access_token J later (create_refresh_token J now data) revoked =
    (Some new, insert (create_refresh_token J now data) revoked)"
  using assms by (simp add: refresh_access_token_def verify_jwt_def refresh_token_claims is_token_blacklisted_def blacklist_token_def)

lemma refresh_once_witness:
  "fst (refresh_access_token transparent_jwt 9 (create_refresh_token transparent_jwt 0 [])
     (foldl (token_step transparent_jwt)
       (insert (create_refresh_token transparent_jwt 0 []) {}) [RevokeToken [], RefreshToken 2 []])) = None"
proof -
  from refresh_succeeds [OF transparent_jwt_laws, of 1 0 "[]" "{}"]
  obtain new where "refresh_access_token transparent_jwt 1 (create_refresh_token transparent_jwt 0 []) {} =
    (Some new, insert (create_refresh_token transparent_jwt 0 []) {})" by auto
  then show ?thesis by (rule refresh_once)
qed

text \<open>
  The check of a request reads neither the type of a token nor the revoked ones: a refresh token
  authenticates like an access token for its seven days, also after it was exchanged and revoked.
\<close>
theorem spent_refresh_token_admits:
  assumes "jwt_laws J" "\<lfloor>later\<rfloor> \<le> \<lfloor>now + 604800\<rfloor>" "create_refresh_token J now data \<notin> revoked"
  shows "\<exists>new revoked'. refresh_access_token J later (create_refresh_token J now data) revoked = (Some new, revoked') \<and>
    is_token_blacklisted (create_refresh_token J now data) revoked' \<and>
    get_current_user J later (Some (create_refresh_token J now data)) = user_of (stored_claims data)"
proof -
  have "get_current_user J later (Some (create_refresh_token J now data)) = user_of (stored_claims data)"
    using assms(1,2) by (simp add: get_current_user_def refresh_token_claims) (auto intro!: user_of_cong)
  with refresh_succeeds [OF assms] show ?thesis by (auto simp: is_token_blacklisted_def)
qed

lemma spent_refresh_token_admits_witness:
  "get_current_user transparent_jwt 604800 (Some (create_refresh_token transparent_jwt 0 [(''sub'', Text ''a@b'')])) \<noteq> None"
  using spent_refresh_token_admits [OF transparent_jwt_laws, of 604800 0 "[(''sub'', Text ''a@b'')]" "{}"]
  by (auto simp: user_of_def)

section \<open>Roles\<close>

lemma permission_rows:
  "has_permission (Some u) p \<longleftrightarrow> role_of u = ''admin'' \<or> p \<in> set (dict_get_or role_permissions (role_of u) [])"
  by (simp add: has_permission_def Let_def)

text \<open>
  The order of the roles is not the order of their permissions: an operator passes the check for
  the auditor's role although it lacks permissions of the auditor, and the check of
  \<open>auth.py\<close> for the same role refuses it.
\<close>
theorem operator_passes_as_auditor:
  assumes "aw_role u = Some ''operator''" and "aw_role v = Some ''auditor''"
  shows "require_role ''auditor'' (Some u) = Inr u \<and>
    has_permission (Some v) ''audit:verify'' \<and> \<not> has_permission (Some u) ''audit:verify'' \<and>
    (\<exists>msg. require_auditor (Some u) = Inl (HTTPException 403 msg))"
  using assms by (simp add: require_role_def role_of_def role_level_def role_hierarchy_def dict_get_or_def
      permission_rows role_permissions_def require_auditor_def require_one_of_def)

lemma operator_passes_as_auditor_witness:
  "\<not> has_permission (Some \<lparr>aw_email = Text ''o'', aw_role = Some ''operator'', aw_name = Text [], aw_permissions = Texts []\<rparr>)
     ''audit:verify''"
  using operator_passes_as_auditor [of "\<lparr>aw_email = Text ''o'', aw_role = Some ''operator'', aw_name = Text [], aw_permissions = Texts []\<rparr>"
      "\<lparr>aw_email = Text ''a'', aw_role = Some ''auditor'', aw_name = Text [], aw_permissions = Texts []\<rparr>"] by simp

text \<open>
  A required role that is not one of the four has level 0, so the check admits every user.
\<close>
theorem unknown_role_admits:
  assumes "required \<notin> {''admin'', ''operator'', ''auditor'', ''viewer''}"
  shows "require_role required (Some u) = Inr u"
  using assms by (simp add: require_role_def role_level_def role_hierarchy_def dict_get_or_def)

lemma unknown_role_admits_witness:
  "require_role ''superadmin'' (Some \<lparr>aw_email = Text ''v'', aw_role = None, aw_name = Text [], aw_permissions = Texts []\<rparr>) =
   Inr \<lparr>aw_email = Text ''v'', aw_role = None, aw_name = Text [], aw_permissions = Texts []\<rparr>"
  by (rule unknown_role_admits) simp

section \<open>Accounts\<close>

datatype user_op =
    CreateUser pyfloat string string string
  | UpdateRole pyfloat string string
  | DeactivateUser pyfloat string
  | Login pyfloat string string

fun user_step :: "(string \<Rightarrow> string \<Rightarrow> bool) \<Rightarrow> user_row list \<Rightarrow> user_op \<Rightarrow> user_row list" where
  "user_step checkpw rows (CreateUser now email hash role) = create_user now email hash role rows"
| "user_step checkpw rows (UpdateRole now email role) = update_role now email role rows"
| "user_step checkpw rows (DeactivateUser now email) = deactivate_user now email rows"
| "user_step checkpw rows (Login now email password) = snd (authenticate checkpw now email password rows)"

definition locked_out :: "string \<Rightarrow> user_row list \<Rightarrow> bool" where
  "locked_out email rows \<longleftrightarrow> email \<in> ur_email ` set rows \<and> (\<forall>r \<in> set rows. ur_email r = email \<longrightarrow> \<not> ur_active r)"

lemma emails_update:
  assumes "\<And>r. ur_email (f r) = ur_email r"
  shows "ur_email ` set (update_user e f rows) = ur_email ` set rows"
proof -
  have "map ur_email (update_user e f rows) = map ur_email rows"
    using assms by (simp add: update_user_def)
  then show ?thesis by (metis set_map)
qed

lemma locked_out_update:
  assumes "locked_out email rows" and "\<And>r. ur_email (f r) = ur_email r" and "\<And>r. ur_active (f r) \<Longrightarrow> ur_active r"
  shows "locked_out email (update_user e f rows)"
  using assms(1) unfolding locked_out_def emails_update [OF assms(2)]
  by (auto simp: update_user_def assms(2) dest: assms(3))

lemma locked_out_create: "locked_out email rows \<Longrightarrow> locked_out email (create_user now e hash role rows)"
proof (cases "list_ex (\<lambda>r. ur_email r = e) rows")
  case True
  then show "locked_out email rows \<Longrightarrow> ?thesis" by (simp add: create_user_def) (rule locked_out_update, simp_all)
next
  case False
  then show "locked_out email rows \<Longrightarrow> ?thesis" by (auto simp: create_user_def locked_out_def list_ex_iff)
qed

lemma locked_out_step: "locked_out email rows \<Longrightarrow> locked_out email (user_step checkpw rows op)"
  by (cases op) (auto simp: locked_out_create update_role_def deactivate_user_def authenticate_def
      split: option.splits intro!: locked_out_update)

interpretation lock_out: run_invariant "user_step checkpw" "\<lambda>_ _. True" "locked_out email" for checkpw email
  by unfold_locales (rule locked_out_step)

lemma locked_out_refused: "locked_out email rows \<Longrightarrow> fst (authenticate checkpw now email password rows) = None"
  by (auto simp: locked_out_def authenticate_def get_user_def split: option.splits dest!: find_SomeD)

text \<open>
  C26: Deactivation is final: no sequence of later operations - creating the account again, changing
  its role, other logins - lets the user log in again, with any password. There is no operation
  that activates an account.
\<close>
theorem deactivation_final:
  assumes "get_user email rows \<noteq> None"
  shows "fst (authenticate checkpw later email password
    (foldl (user_step checkpw) (deactivate_user now email rows) ops)) = None"
proof -
  from assms have "locked_out email (deactivate_user now email rows)"
    by (simp add: locked_out_def get_user_def deactivate_user_def find_None_iff emails_update)
      (auto simp: update_user_def)
  then show ?thesis by (intro locked_out_refused lock_out.run_inv_always) simp_all
qed

lemma deactivation_final_witness:
  "fst (authenticate (\<lambda>p h. p = h) 9 ''u'' ''new''
    (foldl (user_step (\<lambda>p h. p = h)) (deactivate_user 2 ''u'' (create_user 1 ''u'' ''old'' ''viewer'' []))
      [CreateUser 3 ''u'' ''new'' ''admin''])) = None"
  by (rule deactivation_final) (simp add: create_user_def get_user_def)

lemma authenticate_iff:
  "fst (authenticate checkpw now email password rows) = Some (e, role) \<longleftrightarrow>
   (\<exists>r. get_user email rows = Some r \<and> ur_active r \<and> checkpw password (ur_hash r) \<and> e = ur_email r \<and> role = ur_role r)"
  by (auto simp: authenticate_def split: option.splits)

end
