(* ===== verification/Gateway_Limits.thy ===== *)
theory Gateway_Limits
  imports Interfaces
begin

text \<open>
  What the gateway counts and cuts: the context windows of the models and the trimming of a
  conversation (\<open>services/gateway/app/providers/context_limits.py\<close>), the usage log with its anomaly
  score (\<open>services/shared/token_counter.py\<close>), budget alerts (\<open>services/shared/budget_alerts.py\<close>)
  and feature flags (\<open>services/shared/feature_flags.py\<close>). Texts are ASCII, so the UTF-8 length of
  a text is its length and it has no surrogates to strip. The table \<open>usage_logs\<close> is the list of its
  rows; whether the database answers, and the time, are arguments.
\<close>

section \<open>Context windows (providers/context\_limits.py)\<close>

definition model_context_limits :: "(string, nat) pydict" where
  "model_context_limits = [
     (''llama3.2:1b'', 131072), (''llama3.2:3b'', 131072), (''llama3.1:8b'', 131072), (''llama3:70b'', 32768),
     (''tinyllama'', 2048), (''mistral'', 32768), (''mixtral'', 32768), (''phi3'', 4096), (''phi3:mini'', 4096),
     (''qwen2.5'', 32768), (''qwen2'', 32768), (''gemma2'', 8192), (''deepseek-r1'', 131072),
     (''deepseek-coder'', 16384), (''nomic'', 8192), (''llama-guard'', 4096),
     (''gpt-4o'', 128000), (''gpt-4o-mini'', 128000), (''gpt-4-turbo'', 128000), (''gpt-4'', 8192),
     (''gpt-3.5-turbo'', 16385), (''o1-'', 200000), (''o1-mini'', 128000), (''o3-'', 200000), (''o3-mini'', 200000),
     (''o4-mini'', 200000),
     (''claude-sonnet-4'', 200000), (''claude-sonnet-3.5'', 200000), (''claude-opus-4'', 200000),
     (''claude-opus-3'', 200000), (''claude-haiku'', 200000), (''claude-3.5-sonnet'', 200000),
     (''gemini-2.5-pro'', 2097152), (''gemini-2.5-flash'', 1048576), (''gemini-2.0-flash'', 1048576),
     (''gemini-1.5-pro'', 2097152), (''gemini-1.5-flash'', 1048576),
     (''command-r-plus'', 128000), (''command-r'', 128000), (''command'', 4096),
     (''mistral-large'', 131072), (''mistral-small'', 32768), (''codestral'', 32768), (''ministral'', 32768),
     (''grok-3'', 1000000), (''grok-2'', 131072),
     (''deepseek-chat'', 65536), (''deepseek-reasoner'', 65536),
     (''llama-3.3-70b'', 8192), (''mixtral-8x7b'', 32768), (''gemma2-9b'', 8192)]"

definition provider_context_limits :: "(string, nat) pydict" where
  "provider_context_limits = [
     (''mock'', 999999), (''ollama'', 8192), (''openai'', 128000), (''anthropic'', 200000), (''google'', 1048576),
     (''cohere'', 4096), (''mistral'', 32768), (''groq'', 8192), (''deepseek'', 65536), (''xai'', 131072),
     (''together'', 32768)]"

definition default_context_limit :: nat where "default_context_limit = 8192"

definition get_context_limit :: "string \<Rightarrow> string \<Rightarrow> nat" where
  "get_context_limit provider model =
     (let provider = strip (lower provider); m = lower model;
          fallback = dict_get_or provider_context_limits provider default_context_limit
      in if model = [] then fallback
         else case dict_get model_context_limits m of
           Some l \<Rightarrow> l
         | None \<Rightarrow>
             (case find (\<lambda>(k, l). startswith m k) model_context_limits of
                Some (k, l) \<Rightarrow> l
              | None \<Rightarrow> fallback))"

record message =
  ms_role :: string
  ms_content :: string

definition estimated_tokens :: "string \<Rightarrow> nat" where
  "estimated_tokens t = max 1 (length t div 4)"

definition message_tokens :: "message \<Rightarrow> nat" where
  "message_tokens m = estimated_tokens (ms_content m)"

fun trim_loop :: "int \<Rightarrow> nat \<Rightarrow> message list \<Rightarrow> message list \<Rightarrow> message list" where
  \<comment> \<open>the last argument is the rest of the messages, newest first\<close>
  "trim_loop limit used trimmed [] = trimmed"
| "trim_loop limit used trimmed (m # ms) =
     (if limit < int (used + message_tokens m) \<and> trimmed \<noteq> [] then trimmed
      else trim_loop limit (used + message_tokens m) (m # trimmed) ms)"

definition history_limit :: "string \<Rightarrow> string \<Rightarrow> pyfloat \<Rightarrow> int" where
  "history_limit provider model reserve = py_int (real (get_context_limit provider model) * (1 - reserve))"

definition trim_history :: "message list \<Rightarrow> string \<Rightarrow> string \<Rightarrow> pyfloat \<Rightarrow> message list" where
  "trim_history messages provider model reserve =
     (if messages = [] then messages
      else trim_loop (history_limit provider model reserve) 0 [] (rev messages))"

section \<open>Usage (token\_counter.py)\<close>

record usage_row =
  ul_user :: string
  ul_team :: string
  ul_provider :: string
  ul_model :: string
  ul_input :: int
  ul_output :: int
  ul_total :: int
  ul_cost :: pyfloat
  ul_created :: pyfloat

record llm_usage =
  lu_user :: string
  lu_team :: string
  lu_provider :: string
  lu_model :: string
  lu_input :: int
  lu_output :: int
  lu_cost :: pyfloat

definition record_usage :: "bool \<Rightarrow> pyfloat \<Rightarrow> llm_usage \<Rightarrow> usage_row list \<Rightarrow> bool \<times> usage_row list" where
  "record_usage db_ok now u rows =
     (if db_ok
      then (True, rows @ [\<lparr>ul_user = lu_user u, ul_team = lu_team u, ul_provider = lu_provider u, ul_model = lu_model u,
        ul_input = lu_input u, ul_output = lu_output u, ul_total = lu_input u + lu_output u,
        ul_cost = py_round (lu_cost u) 6, ul_created = now\<rparr>])
      else (False, rows))"

definition team_rows :: "pyfloat \<Rightarrow> nat \<Rightarrow> string \<Rightarrow> usage_row list \<Rightarrow> usage_row list" where
  "team_rows now days team rows = filter (\<lambda>r. ul_team r = team \<and> now - real days * 86400 \<le> ul_created r) rows"

record provider_usage =
  pu_provider :: string
  pu_tokens :: int
  pu_cost :: pyfloat

record team_usage =
  tu_tokens :: int
  tu_cost :: pyfloat
  tu_requests :: nat
  tu_providers :: "provider_usage list"

definition get_team_usage :: "bool \<Rightarrow> pyfloat \<Rightarrow> string \<Rightarrow> nat \<Rightarrow> usage_row list \<Rightarrow> team_usage option" where
  \<comment> \<open>\<open>None\<close> for the answer with an error; the order of the groups is the database's\<close>
  "get_team_usage db_ok now team days rows =
     (let rs = team_rows now days team rows in
      if \<not> db_ok then None
      else Some \<lparr>tu_tokens = sum_list (map ul_total rs), tu_cost = py_round (sum_list (map ul_cost rs)) 4,
        tu_requests = length rs,
        tu_providers = map (\<lambda>p. let g = filter (\<lambda>r. ul_provider r = p) rs in
          \<lparr>pu_provider = p, pu_tokens = sum_list (map ul_total g), pu_cost = py_round (sum_list (map ul_cost g)) 4\<rparr>)
          (remdups (map ul_provider rs))\<rparr>)"

definition day_of :: "pyfloat \<Rightarrow> int" where
  "day_of t = \<lfloor>t / 86400\<rfloor>"

definition daily_tokens :: "pyfloat \<Rightarrow> string \<Rightarrow> usage_row list \<Rightarrow> int list" where
  "daily_tokens now team rows =
     (let rs = team_rows now 14 team rows
      in map (\<lambda>d. sum_list (map ul_total (filter (\<lambda>r. day_of (ul_created r) = d) rs)))
           (sorted_list_of_set (set (map (\<lambda>r. day_of (ul_created r)) rs))))"

definition mean_of :: "int list \<Rightarrow> pyfloat" where
  "mean_of vs = real_of_int (sum_list vs) / real (length vs)"

definition variance_of :: "int list \<Rightarrow> pyfloat" where
  "variance_of vs = sum_list (map (\<lambda>v. (real_of_int v - mean_of vs)\<^sup>2) vs) / real (length vs)"

definition anomaly_of :: "int list \<Rightarrow> pyfloat option" where
  \<comment> \<open>the score of the days' sums\<close>
  "anomaly_of vs =
     (if length vs < 7 then None
      else if sqrt (variance_of vs) = 0 then Some 0
      else Some (py_round ((real_of_int (last vs) - mean_of vs) / sqrt (variance_of vs)) 2))"

definition get_anomaly_score :: "bool \<Rightarrow> pyfloat \<Rightarrow> string \<Rightarrow> usage_row list \<Rightarrow> pyfloat option" where
  "get_anomaly_score db_ok now team rows = (if db_ok then anomaly_of (daily_tokens now team rows) else None)"

section \<open>Budget alerts (budget\_alerts.py)\<close>

record team_budget =
  tb_webhook :: string \<comment> \<open>empty when there is none\<close>
  tb_threshold :: pyfloat

record alert_state =
  al_alerted :: "(string \<times> nat) list" \<comment> \<open>the team and the level of a key of \<open>_alerted\<close>\<close>
  al_log :: "(string \<times> nat \<times> pyfloat) list" \<comment> \<open>team, level and percentage of each alert logged\<close>

fun alert_levels :: "string \<Rightarrow> pyfloat \<Rightarrow> pyfloat \<Rightarrow> nat list \<Rightarrow> alert_state \<Rightarrow> alert_state" where
  "alert_levels team pct threshold [] s = s"
| "alert_levels team pct threshold (t # ts) s =
     alert_levels team pct threshold ts
       (if real t \<le> pct \<and> threshold \<le> real t \<and> (team, t) \<notin> set (al_alerted s)
        then s\<lparr>al_alerted := al_alerted s @ [(team, t)], al_log := al_log s @ [(team, t, pct)]\<rparr>
        else s)"

definition check_and_alert ::
  "(string \<Rightarrow> team_budget option) option \<Rightarrow> string \<Rightarrow> pyfloat \<Rightarrow> pyfloat \<Rightarrow> alert_state \<Rightarrow> bool \<times> alert_state" where
  \<comment> \<open>the table of budgets, \<open>None\<close> when the database fails\<close>
  "check_and_alert budgets team spend budget s =
     (if budget \<le> 0 then (False, s)
      else case budgets of
        None \<Rightarrow> (False, s)
      | Some table \<Rightarrow>
          (case table team of
             None \<Rightarrow> (False, s)
           | Some b \<Rightarrow>
               if tb_webhook b = [] then (False, s)
               else (True, alert_levels team (spend / budget * 100) (tb_threshold b) [80, 90, 100] s)))"

section \<open>Feature flags (feature\_flags.py)\<close>

datatype feature_flag =
    COST_TRACKING | BUDGET_ENFORCEMENT | COST_DASHBOARDS | ANOMALY_DETECTION | AGENT_HOSTING | MCP_SERVERS
  | RAG_PIPELINE | GRAPH_RAG | ACCURACY_MONITORING | RESPONSIBLE_AI | MULTI_TENANT | SSO_OKTA | SSO_AZURE_AD
  | SSO_LDAP | DATA_CLASSIFICATION | GDPR_ERASURE | INCIDENT_RESPONSE

definition flag_names :: "(feature_flag \<times> string) list" where
  "flag_names = [(COST_TRACKING, ''cost_tracking''), (BUDGET_ENFORCEMENT, ''budget_enforcement''),
     (COST_DASHBOARDS, ''cost_dashboards''), (ANOMALY_DETECTION, ''anomaly_detection''),
     (AGENT_HOSTING, ''agent_hosting''), (MCP_SERVERS, ''mcp_servers''), (RAG_PIPELINE, ''rag_pipeline''),
     (GRAPH_RAG, ''graph_rag''), (ACCURACY_MONITORING, ''accuracy_monitoring''), (RESPONSIBLE_AI, ''responsible_ai''),
     (MULTI_TENANT, ''multi_tenant''), (SSO_OKTA, ''sso_okta''), (SSO_AZURE_AD, ''sso_azure_ad''),
     (SSO_LDAP, ''sso_ldap''), (DATA_CLASSIFICATION, ''data_classification''), (GDPR_ERASURE, ''gdpr_erasure''),
     (INCIDENT_RESPONSE, ''incident_response'')]"

definition flag_defaults :: "(feature_flag, bool) pydict" where
  "flag_defaults = map (\<lambda>f. (f, True)) [COST_TRACKING, COST_DASHBOARDS, ANOMALY_DETECTION, MULTI_TENANT,
     DATA_CLASSIFICATION, GDPR_ERASURE, INCIDENT_RESPONSE]"

definition flag_override :: "string \<Rightarrow> bool option" where
  "flag_override v =
     (if lower v \<in> {''true'', ''1'', ''yes''} then Some True
      else if lower v \<in> {''false'', ''0'', ''no''} then Some False
      else None)"

definition flag_overrides :: "(feature_flag \<Rightarrow> string) \<Rightarrow> (feature_flag, bool) pydict" where
  \<comment> \<open>from the environment, the empty text for an unset variable\<close>
  "flag_overrides env = foldl (\<lambda>d (f, _). case flag_override (env f) of None \<Rightarrow> d | Some b \<Rightarrow> dict_set f b d) [] flag_names"

definition is_enabled :: "(feature_flag, bool) pydict \<Rightarrow> feature_flag \<Rightarrow> bool" where
  "is_enabled overrides f = dict_get_or overrides f (dict_get_or flag_defaults f False)"

definition get_all_flags :: "(feature_flag, bool) pydict \<Rightarrow> (string, bool) pydict" where
  "get_all_flags overrides = map (\<lambda>(f, n). (n, is_enabled overrides f)) flag_names"

section \<open>Properties of the trimming\<close>

abbreviation tokens_of :: "message list \<Rightarrow> nat" where
  "tokens_of ms \<equiv> sum_list (map message_tokens ms)"

lemma message_tokens_pos: "0 < message_tokens m"
  by (simp add: message_tokens_def estimated_tokens_def)

definition fits :: "int \<Rightarrow> message list \<Rightarrow> bool" where
  \<comment> \<open>a history that may be sent: within the limit, or the newest message alone\<close>
  "fits limit ms \<longleftrightarrow> int (tokens_of ms) \<le> limit \<or> length ms \<le> 1"

lemma trim_loop_spec:
  assumes "fits limit acc" "used = tokens_of acc"
  shows "\<exists>n. trim_loop limit used acc ms = rev (take n ms) @ acc \<and> n \<le> length ms \<and>
    fits limit (trim_loop limit used acc ms) \<and>
    (\<forall>k \<le> length ms. n < k \<longrightarrow> \<not> fits limit (rev (take k ms) @ acc))"
  using assms
proof (induction ms arbitrary: used acc)
  case Nil
  then show ?case by simp
next
  case (Cons m ms)
  show ?case
  proof (cases "limit < int (used + message_tokens m) \<and> acc \<noteq> []")
    case True
    have "\<not> fits limit (rev (take k (m # ms)) @ acc)" if "0 < k" for k
    proof -
      from that obtain j where "k = Suc j" by (cases k) auto
      with True Cons.prems(2) show ?thesis by (cases acc) (auto simp: fits_def)
    qed
    with True Cons.prems show ?thesis by (intro exI [of _ 0]) simp
  next
    case False
    with Cons.prems have "fits limit (m # acc)" by (auto simp: fits_def)
    from Cons.IH [OF this, of "used + message_tokens m"] Cons.prems(2)
    obtain n where n: "trim_loop limit (used + message_tokens m) (m # acc) ms = rev (take n ms) @ m # acc"
      "n \<le> length ms" "fits limit (rev (take n ms) @ m # acc)"
      "\<forall>k \<le> length ms. n < k \<longrightarrow> \<not> fits limit (rev (take k ms) @ m # acc)"
      by auto
    have "\<not> fits limit (rev (take k (m # ms)) @ acc)" if "k \<le> length (m # ms)" "Suc n < k" for k
      using n(4) that by (cases k) auto
    with n False show ?thesis by (intro exI [of _ "Suc n"]) (auto simp del: trim_loop.simps simp: trim_loop.simps(2))
  qed
qed

lemma trim_history_loop: "trim_history ms provider model reserve = trim_loop (history_limit provider model reserve) 0 [] (rev ms)"
  by (simp add: trim_history_def)

lemma trim_longest:
  fixes provider model reserve ms
  defines "t \<equiv> trim_history ms provider model reserve" and "S \<equiv> {zs. suffix zs ms \<and> fits (history_limit provider model reserve) zs}"
  shows "t \<in> S" and "finite S" and "zs \<in> S \<Longrightarrow> length zs \<le> length t"
proof -
  let ?l = "history_limit provider model reserve"
  have "fits ?l []" by (simp add: fits_def)
  from trim_loop_spec [OF this, of 0 "rev ms"] obtain n where
    n: "t = rev (take n (rev ms))" "n \<le> length ms" "fits ?l t"
    "\<forall>k \<le> length ms. n < k \<longrightarrow> \<not> fits ?l (rev (take k (rev ms)))"
    unfolding t_def trim_history_loop by fastforce
  have rt: "rev (take k (rev ms)) = drop (length ms - k) ms" for k by (simp add: rev_take)
  have "suffix t ms" unfolding n(1) rt by (rule suffix_drop)
  with n(3) show "t \<in> S" by (simp add: S_def)
  have "S \<subseteq> set (suffixes ms)" by (auto simp: S_def)
  then show "finite S" by (rule finite_subset) simp
  show "length zs \<le> length t" if "zs \<in> S"
  proof -
    from that have "zs = drop (length ms - length zs) ms" "length zs \<le> length ms" "fits ?l zs"
      by (auto simp: suffix_def S_def)
    with n(4) have "\<not> n < length zs" by (metis rt)
    with n(1,2) show ?thesis by simp
  qed
qed

text \<open>
  C32: The trimmed history is the longest suffix of the conversation that fits: within the limit for
  the model less the reserve, or the newest message alone. In particular the newest message is
  always kept and nothing is dropped from a conversation that fits.
\<close>
theorem trim_is_longest_fit:
  "suffix (trim_history ms provider model reserve) ms \<and>
   fits (history_limit provider model reserve) (trim_history ms provider model reserve) \<and>
   length (trim_history ms provider model reserve) =
     Max (length ` {zs. suffix zs ms \<and> fits (history_limit provider model reserve) zs})"
  using trim_longest [where ms = ms and provider = provider and model = model and reserve = reserve]
  by (auto intro!: Max_eqI [symmetric])

lemma trim_keeps_newest: "ms \<noteq> [] \<Longrightarrow> trim_history ms provider model reserve \<noteq> []"
proof -
  assume "ms \<noteq> []"
  then have "suffix [last ms] ms" by (metis append_butlast_last_id suffixI)
  then have "length [last ms] \<le> length (trim_history ms provider model reserve)"
    by (intro trim_longest(3)) (simp add: fits_def)
  then show ?thesis by auto
qed

lemma listed_prefix_limit:
  assumes "m \<noteq> []" "dict_get model_context_limits (lower m) = None"
    and "find (\<lambda>(k, l). startswith (lower m) k) model_context_limits = Some (k, l)"
  shows "get_context_limit p m = l"
  using assms by (simp add: get_context_limit_def Let_def)

text \<open>
  A model name with a version suffix gets the window of the first listed name it starts with, not
  of the longest: o1-mini with a version gets the 200000 tokens of the other o1 models although
  its own window is listed as 128000, and a conversation that overflows it is sent untrimmed.
\<close>
theorem versioned_model_overflows:
  "dict_get model_context_limits ''o1-mini'' = Some 128000 \<and>
   (\<exists>ms. 128000 < tokens_of ms \<and> trim_history ms p ''o1-mini-2024-09-12'' (3/10) = ms)"
proof
  show "dict_get model_context_limits ''o1-mini'' = Some 128000" by (simp add: model_context_limits_def)
  have "lower ''o1-mini-2024-09-12'' = ''o1-mini-2024-09-12''" by code_simp
  then have "get_context_limit p ''o1-mini-2024-09-12'' = 200000"
    by (intro listed_prefix_limit [of _ "''o1-''"]) (simp_all add: model_context_limits_def)
  then have l: "history_limit p ''o1-mini-2024-09-12'' (3/10) = 140000"
    by (simp add: history_limit_def py_int_def)
  let ?m = "\<lparr>ms_role = ''user'', ms_content = replicate 280000 (CHR ''a'')\<rparr>"
  have t: "message_tokens ?m = 70000" by (simp add: message_tokens_def estimated_tokens_def)
  have "trim_history [?m, ?m] p ''o1-mini-2024-09-12'' (3/10) = [?m, ?m]"
    using l t by (simp add: trim_history_def)
  with t show "\<exists>ms. 128000 < tokens_of ms \<and> trim_history ms p ''o1-mini-2024-09-12'' (3/10) = ms"
    by (intro exI [of _ "[?m, ?m]"]) simp
qed

section \<open>Properties of the anomaly score\<close>

lemma sum_list_deviation: "vs \<noteq> [] \<Longrightarrow> sum_list (map (\<lambda>v. real_of_int v - mean_of vs) vs) = 0"
proof -
  assume "vs \<noteq> []"
  have "sum_list (map (\<lambda>v. real_of_int v - c) vs) = real_of_int (sum_list vs) - real (length vs) * c" for c
    by (induction vs) (simp_all add: algebra_simps)
  with \<open>vs \<noteq> []\<close> show ?thesis by (simp add: mean_of_def)
qed

lemma square_sum_le: "(sum_list xs)\<^sup>2 \<le> real (length xs) * sum_list (map (\<lambda>x. x\<^sup>2) xs)" for xs :: "real list"
proof (induction xs)
  case Nil
  then show ?case by simp
next
  case (Cons x xs)
  let ?s = "sum_list xs" and ?q = "sum_list (map (\<lambda>x. x\<^sup>2) xs)" and ?n = "real (length xs)"
  have "2 * x * ?s \<le> ?n * x\<^sup>2 + ?q"
  proof (cases "xs = []")
    case False
    then have n: "0 < ?n" by simp
    have "0 \<le> (?n * x - ?s)\<^sup>2" by simp
    then have "2 * (?n * x * ?s) \<le> ?n\<^sup>2 * x\<^sup>2 + ?s\<^sup>2" by (simp add: power2_eq_square algebra_simps)
    with Cons have "?n * (2 * x * ?s) \<le> ?n * (?n * x\<^sup>2 + ?q)" by (simp add: power2_eq_square algebra_simps)
    with n show ?thesis by (simp only: mult_le_cancel_left_pos)
  qed simp
  with Cons show ?case by (simp add: power2_eq_square algebra_simps)
qed

lemma deviation_bound:
  assumes "vs \<noteq> []"
  shows "(real_of_int (last vs) - mean_of vs)\<^sup>2 \<le> (real (length vs) - 1) * variance_of vs"
proof -
  obtain ys y where ys: "vs = ys @ [y]" using assms by (metis append_butlast_last_id)
  define m where "m = mean_of vs"
  let ?d = "\<lambda>v. real_of_int v - m"
  let ?S = "sum_list (map (\<lambda>v. (?d v)\<^sup>2) vs)"
  have n: "real (length vs) = real (length ys) + 1" and S: "?S = sum_list (map (\<lambda>v. (?d v)\<^sup>2) ys) + (?d y)\<^sup>2"
    by (simp_all add: ys)
  have "sum_list (map ?d ys) + ?d y = 0"
    using sum_list_deviation [OF assms] unfolding m_def [symmetric] by (simp add: ys)
  then have "?d y = - sum_list (map ?d ys)" by simp
  then have "(?d y)\<^sup>2 = (sum_list (map ?d ys))\<^sup>2" by simp
  also have "\<dots> \<le> real (length ys) * sum_list (map (\<lambda>v. (?d v)\<^sup>2) ys)"
    using square_sum_le [of "map ?d ys"] by (simp add: comp_def)
  also have "\<dots> = (real (length vs) - 1) * (?S - (?d y)\<^sup>2)" using n S by simp
  finally have "real (length vs) * (?d y)\<^sup>2 \<le> (real (length vs) - 1) * ?S" by (simp add: algebra_simps)
  moreover have "0 < real (length vs)" using assms by simp
  ultimately have "(?d y)\<^sup>2 \<le> (real (length vs) - 1) * (?S / real (length vs))" by (simp add: field_simps)
  then show ?thesis by (simp add: variance_of_def m_def [symmetric]) (simp add: ys)
qed

lemma anomaly_le_sqrt:
  assumes "anomaly_of vs = Some z"
  shows "z \<le> py_round (sqrt (real (length vs) - 1)) 2"
proof -
  let ?s = "sqrt (variance_of vs)" and ?e = "real_of_int (last vs) - mean_of vs"
  from assms have len: "7 \<le> length vs" by (auto simp: anomaly_of_def split: if_splits)
  have v: "0 \<le> variance_of vs"
    by (auto simp: variance_of_def intro!: divide_nonneg_nonneg sum_list_nonneg)
  show ?thesis
  proof (cases "?s = 0")
    case True
    with assms len have "z = 0" by (simp add: anomaly_of_def)
    with len show ?thesis by (simp add: py_round_nonneg)
  next
    case False
    with v have s: "0 < ?s" by simp
    from len have "vs \<noteq> []" by auto
    from deviation_bound [OF this] have "?e \<le> sqrt ((real (length vs) - 1) * variance_of vs)"
      by (intro real_le_rsqrt)
    also have "\<dots> = sqrt (real (length vs) - 1) * ?s" by (simp add: real_sqrt_mult)
    finally have "?e / ?s \<le> sqrt (real (length vs) - 1)" using s by (simp add: field_simps)
    with assms len False show ?thesis by (auto simp: anomaly_of_def intro: py_round_mono)
  qed
qed

text \<open>
  The score is bounded by the number of days alone: with n days of usage it is at most the
  rounded square root of n - 1, whatever the usage. With up to ten days it never exceeds the
  documented anomaly limit of 3, and with two weeks it never exceeds 3.75.
\<close>
theorem anomaly_score_bounded:
  assumes "get_anomaly_score db_ok now team rows = Some z"
  shows "z \<le> py_round (sqrt (real (length (daily_tokens now team rows)) - 1)) 2 \<and>
    (length (daily_tokens now team rows) \<le> 10 \<longrightarrow> z \<le> 3)"
proof -
  let ?n = "length (daily_tokens now team rows)"
  from assms have z: "z \<le> py_round (sqrt (real ?n - 1)) 2"
    by (intro anomaly_le_sqrt) (simp add: get_anomaly_score_def split: if_splits)
  have "z \<le> 3" if "?n \<le> 10"
  proof -
    have "sqrt (real ?n - 1) \<le> sqrt (3\<^sup>2)" using that by (intro real_sqrt_le_mono) simp
    then have "sqrt (real ?n - 1) \<le> 3" by simp
    with z have "z \<le> py_round 3 2" using py_round_mono order_trans by blast
    also have "py_round 3 2 = 3" using round_half_even_of_int [of 300] by (simp add: py_round_def)
    finally show ?thesis .
  qed
  with z show ?thesis by blast
qed

lemma anomaly_score_bounded_witness:
  "\<exists>z. get_anomaly_score True 1000000 ''t'' (map (\<lambda>i. \<lparr>ul_user = ''u'', ul_team = ''t'', ul_provider = ''p'', ul_model = ''m'',
     ul_input = 1, ul_output = 1, ul_total = 2, ul_cost = 0, ul_created = real i * 86400\<rparr>) [4..<11]) = Some z \<and> z \<le> 3"
proof -
  let ?rows = "map (\<lambda>i. \<lparr>ul_user = ''u'', ul_team = ''t'', ul_provider = ''p'', ul_model = ''m'',
     ul_input = 1, ul_output = 1, ul_total = 2, ul_cost = 0, ul_created = real i * 86400\<rparr>) [4..<11]"
  have "team_rows 1000000 14 ''t'' ?rows = ?rows" by (simp add: team_rows_def upt_rec)
  moreover have "sorted_list_of_set {4::int, 5, 6, 7, 8, 9, 10} = [4, 5, 6, 7, 8, 9, 10]" by simp
  ultimately have d: "daily_tokens 1000000 ''t'' ?rows = [2, 2, 2, 2, 2, 2, 2]"
    by (simp add: daily_tokens_def day_of_def upt_rec)
  then have "get_anomaly_score True 1000000 ''t'' ?rows = Some 0"
    by (simp add: get_anomaly_score_def anomaly_of_def variance_of_def mean_of_def)
  from anomaly_score_bounded [OF this] this show ?thesis by simp
qed

section \<open>Properties of the alerts\<close>

definition alerts_ok :: "alert_state \<Rightarrow> bool" where
  "alerts_ok s \<longleftrightarrow> distinct (al_alerted s) \<and> map (\<lambda>(team, t, _). (team, t)) (al_log s) = al_alerted s"

lemma alert_levels_ok: "alerts_ok s \<Longrightarrow> alerts_ok (alert_levels team pct threshold ts s)"
  by (induction ts arbitrary: s) (simp_all add: alerts_ok_def)

lemma alert_levels_alerted:
  "set (al_alerted (alert_levels team pct threshold ts s)) =
   set (al_alerted s) \<union> {(team, t) | t. t \<in> set ts \<and> real t \<le> pct \<and> threshold \<le> real t}"
  by (induction ts arbitrary: s) auto

record alert_check =
  ac_budgets :: "(string \<Rightarrow> team_budget option) option"
  ac_team :: string
  ac_spend :: pyfloat
  ac_budget :: pyfloat

definition alert_step :: "alert_state \<Rightarrow> alert_check \<Rightarrow> alert_state" where
  "alert_step s c = snd (check_and_alert (ac_budgets c) (ac_team c) (ac_spend c) (ac_budget c) s)"

definition crosses :: "alert_check \<Rightarrow> nat \<Rightarrow> bool" where
  \<comment> \<open>the check sees its team at the level\<close>
  "crosses c t \<longleftrightarrow> t \<in> {80, 90, 100} \<and> 0 < ac_budget c \<and> real t \<le> ac_spend c / ac_budget c * 100 \<and>
     (case ac_budgets c of None \<Rightarrow> False | Some table \<Rightarrow>
        (case table (ac_team c) of None \<Rightarrow> False | Some b \<Rightarrow> tb_webhook b \<noteq> [] \<and> tb_threshold b \<le> real t))"

lemma alert_step_ok: "alerts_ok s \<Longrightarrow> alerts_ok (alert_step s c)"
  by (simp add: alert_step_def check_and_alert_def alert_levels_ok split: option.splits del: alert_levels.simps)

lemma alert_step_alerted: "set (al_alerted (alert_step s c)) = set (al_alerted s) \<union> {(ac_team c, t) | t. crosses c t}"
  by (auto simp: alert_step_def check_and_alert_def alert_levels_alerted crosses_def
      split: option.splits simp del: alert_levels.simps)

interpretation alerts: run_invariant alert_step "\<lambda>_ _. True" alerts_ok
  by unfold_locales (rule alert_step_ok)

lemma alerts_of_run:
  "set (al_alerted (foldl alert_step s cs)) = set (al_alerted s) \<union> {(ac_team c, t) | c t. c \<in> set cs \<and> crosses c t}"
  by (induction cs arbitrary: s) (auto simp: alert_step_alerted)

text \<open>
  However often the spend of the teams is checked, the alerts logged are, once each, the levels
  of 80, 90 and 100 percent at which some check has seen a team with a webhook whose budget asks
  for that level. The memory of the alerts is never cleared: a crossing in a later month is silent.
\<close>
theorem alerts_once:
  "distinct (map (\<lambda>(team, t, _). (team, t)) (al_log (foldl alert_step \<lparr>al_alerted = [], al_log = []\<rparr> cs))) \<and>
   set (map (\<lambda>(team, t, _). (team, t)) (al_log (foldl alert_step \<lparr>al_alerted = [], al_log = []\<rparr> cs))) =
     {(ac_team c, t) | c t. c \<in> set cs \<and> crosses c t}"
proof -
  have "alerts_ok (foldl alert_step \<lparr>al_alerted = [], al_log = []\<rparr> cs)"
    by (rule alerts.run_inv_always) (simp_all add: alerts_ok_def)
  then show ?thesis using alerts_of_run [of "\<lparr>al_alerted = [], al_log = []\<rparr>" cs] by (simp add: alerts_ok_def)
qed

section \<open>Properties of the flags\<close>

lemma flag_overrides_get:
  "dict_get (foldl (\<lambda>d (f, _). case flag_override (env f) of None \<Rightarrow> d | Some b \<Rightarrow> dict_set f b d) d fs) f =
   (if f \<in> fst ` set fs \<and> flag_override (env f) \<noteq> None then flag_override (env f) else dict_get d f)"
  by (induction fs arbitrary: d) (auto split: option.splits)

lemma flag_names_all: "f \<in> fst ` set flag_names"
  by (cases f) (simp_all add: flag_names_def)

lemma enabled_iff:
  "is_enabled (flag_overrides env) f \<longleftrightarrow> flag_override (env f) = Some True \<or>
     flag_override (env f) = None \<and> dict_get_or flag_defaults f False"
  using flag_names_all [of f]
  by (auto simp: is_enabled_def flag_overrides_def flag_overrides_get dict_get_or_def split: option.splits)

end
