(* ===== verification/Fairness.thy ===== *)
theory Fairness
  imports Interfaces
begin

text \<open>
  The statistics the platform reports about its classifiers: fairness metrics over groups
  (\<open>services/shared/fairness.py\<close>), the bias tests (\<open>services/shared/bias_testing.py\<close>) and the
  evaluation of classifiers on labelled cases (\<open>services/shared/model_evaluator.py\<close>). Rates and
  scores are real numbers; texts that only format a number are constructors that carry it. The
  shuffled order of the cross-validation and the classifiers are arguments.
\<close>

section \<open>Fairness metrics (fairness.py)\<close>

definition calculate_fairness_score :: "int \<Rightarrow> int \<Rightarrow> int \<Rightarrow> pyfloat" where
  "calculate_fairness_score traces toxic leaks =
     (if traces = 0 then 1
      else
        (let tox_penalty = min (real_of_int toxic / real_of_int traces * 5) 1;
             pii_penalty = min (real_of_int leaks / real_of_int traces * 10) 1;
             score = 1 - (tox_penalty * (6/10) + pii_penalty * (4/10))
         in py_round (max 0 score) 4))"

definition get_fairness_note :: "pyfloat \<Rightarrow> string" where
  "get_fairness_note score =
     (if 9/10 \<le> score then ''Fairness metrics indicate low risk of bias.''
      else if 7/10 \<le> score then ''Fairness metrics indicate moderate risk. Consider further investigation.''
      else ''Fairness metrics indicate elevated risk. Bias audit recommended.'')"

datatype fairness_warning =
    NeedTwoGroups | NeedGroupData | PrivilegedRateZero
  | ParityViolation pyfloat | SevereParity
  | OpportunityIssue pyfloat | SevereOpportunity

definition reference_rate :: "string option \<Rightarrow> (string, pyfloat) pydict \<Rightarrow> pyfloat" where
  \<comment> \<open>the rate of the privileged group, the highest rate without one\<close>
  "reference_rate privileged rates =
     (case privileged of
        Some (c # cs) \<Rightarrow> dict_get_or rates (c # cs) (Max (set (dict_values rates)))
      | _ \<Rightarrow> Max (set (dict_values rates)))"

definition demographic_parity_ratio ::
  "(string, pyfloat) pydict \<Rightarrow> string option \<Rightarrow> pyfloat \<times> pyfloat \<times> fairness_warning list" where
  "demographic_parity_ratio rates privileged =
     (if length rates < 2 then (1, 1, [NeedTwoGroups])
      else
        (let p = reference_rate privileged rates in
         if p = 0 then (0, 0, [PrivilegedRateZero])
         else
           (let min_ratio = Min (set (dict_values rates)) / p; max_ratio = Max (set (dict_values rates)) / p
            in (py_round min_ratio 4, py_round max_ratio 4,
                (if min_ratio < 8/10 then [ParityViolation min_ratio] else []) @
                (if min_ratio < 5/10 then [SevereParity] else [])))))"

definition equal_opportunity_difference ::
  "(string, pyfloat) pydict \<Rightarrow> string option \<Rightarrow> pyfloat \<times> fairness_warning list" where
  "equal_opportunity_difference rates privileged =
     (if length rates < 2 then (0, [NeedTwoGroups])
      else
        (let p = reference_rate privileged rates; d = Max (set (map (\<lambda>r. \<bar>r - p\<bar>) (dict_values rates)))
         in (py_round d 4,
             (if 1/10 < d then [OpportunityIssue d] else []) @ (if 2/10 < d then [SevereOpportunity] else []))))"

type_synonym contingency = "(string, (string, int) pydict) pydict"

definition cell :: "contingency \<Rightarrow> string \<Rightarrow> string \<Rightarrow> int" where
  "cell table g h = dict_get_or (dict_get_or table g []) h 0"

definition expected_count :: "contingency \<Rightarrow> int \<Rightarrow> string \<Rightarrow> string \<Rightarrow> pyfloat" where
  "expected_count table n g h =
     (let row = sum_list (dict_values (dict_get_or table g [])); col = sum_list (map (\<lambda>k. cell table k h) (map fst table))
      in real_of_int (row * col) / real_of_int n)"

definition chi_term :: "pyfloat \<Rightarrow> pyfloat \<Rightarrow> pyfloat" where
  "chi_term observed expected = (if 0 < expected then (observed - expected)\<^sup>2 / expected else 0)"

definition chi2_statistic :: "contingency \<Rightarrow> string list \<Rightarrow> int \<Rightarrow> pyfloat" where
  "chi2_statistic table outcomes n = sum_list (map (\<lambda>g. sum_list (map (\<lambda>h.
     chi_term (real_of_int (cell table g h)) (expected_count table n g h)) outcomes)) (map fst table))"

definition chi_squared_approximation :: "contingency \<Rightarrow> py_error + pyfloat \<times> pyfloat \<times> string" where
  "chi_squared_approximation table =
     (case table of
        [] \<Rightarrow> Inl IndexError
      | (_, first) # _ \<Rightarrow>
          (let groups = map fst table; outcomes = map fst first;
               n = sum_list (map (\<lambda>g. sum_list (map (cell table g) outcomes)) groups)
           in if n = 0 then Inr (0, 1, ''No data available'')
              else
                (let chi2 = chi2_statistic table outcomes n;
                     dof = (int (length groups) - 1) * (int (length outcomes) - 1);
                     p = (if dof = 1 then exp (- chi2 / 2) else 1/2)
                 in Inr (py_round chi2 4, py_round p 4, ''Approximate test (scipy not available)''))))"

record group_stats =
  gs_total :: int
  gs_toxic :: int
  gs_pii :: int

datatype recommendation =
    CollectAttributes | SufficientSamples
  | ThoroughAudit | AddressParity | InvestigateOpportunity | ContinueCollecting | RegularAudits

record fairness_metrics =
  fm_parity_ratio :: pyfloat
  fm_opportunity :: pyfloat
  fm_odds :: pyfloat
  fm_impact_ratio :: pyfloat
  fm_parity_difference :: pyfloat
  fm_score :: pyfloat
  fm_interval :: "pyfloat \<times> pyfloat"
  fm_samples :: int
  fm_warnings :: "fairness_warning list"
  fm_recommendations :: "recommendation list"

definition default_metrics :: fairness_metrics where
  "default_metrics = \<lparr>fm_parity_ratio = 1, fm_opportunity = 0, fm_odds = 0, fm_impact_ratio = 1, fm_parity_difference = 0,
     fm_score = 1, fm_interval = (0, 1), fm_samples = 0, fm_warnings = [], fm_recommendations = []\<rparr>"

definition positive_rates :: "(string, group_stats) pydict \<Rightarrow> (string, pyfloat) pydict" where
  "positive_rates stats = map (\<lambda>(g, s). (g, 1 - real_of_int (gs_toxic s) / real_of_int (gs_total s)))
     (filter (\<lambda>(g, s). 0 < gs_total s) stats)"

definition flag_rates :: "(string, group_stats) pydict \<Rightarrow> (string, pyfloat) pydict" where
  \<comment> \<open>called true positive rates in the code\<close>
  "flag_rates stats = map (\<lambda>(g, s). (g, real_of_int (gs_toxic s) / real_of_int (gs_total s)))
     (filter (\<lambda>(g, s). 0 < gs_total s) stats)"

definition sample_total :: "(string, group_stats) pydict \<Rightarrow> int" where
  "sample_total stats = sum_list (map (\<lambda>(g, s). gs_total s) stats)"

definition confidence_interval :: "pyfloat \<Rightarrow> int \<Rightarrow> pyfloat \<times> pyfloat" where
  "confidence_interval score n =
     (if 0 < n
      then (let se = sqrt (score * (1 - score) / real_of_int n)
            in (py_round (max 0 (score - 196/100 * se)) 4, py_round (min 1 (score + 196/100 * se)) 4))
      else (0, 1))"

definition overall_score :: "pyfloat \<Rightarrow> pyfloat \<Rightarrow> pyfloat" where
  "overall_score min_ratio eod = py_round (max 0 (min 1 (min_ratio * (6/10) + max 0 (1 - eod * 5) * (4/10)))) 4"

definition assess_demographic_parity ::
  "(string, group_stats) pydict \<Rightarrow> string option \<Rightarrow> py_error + fairness_metrics" where
  "assess_demographic_parity stats privileged =
     (if length stats < 2
      then Inr (default_metrics\<lparr>fm_warnings := [NeedGroupData], fm_recommendations := [CollectAttributes, SufficientSamples]\<rparr>)
      else if positive_rates stats = [] then Inl ValueError \<comment> \<open>the maximum of no rates\<close>
      else
        (let pos = positive_rates stats;
             (min_ratio, max_ratio, dp_warnings) = demographic_parity_ratio pos privileged;
             spd = py_round (reference_rate privileged pos - Min (set (dict_values pos))) 4;
             (eod, eod_warnings) = equal_opportunity_difference (flag_rates stats) privileged;
             score = overall_score min_ratio eod
         in Inr \<lparr>fm_parity_ratio = min_ratio, fm_opportunity = eod, fm_odds = py_round ((spd + eod) / 2) 4,
              fm_impact_ratio = min_ratio, fm_parity_difference = spd, fm_score = score,
              fm_interval = confidence_interval score (sample_total stats), fm_samples = sample_total stats,
              fm_warnings = dp_warnings @ eod_warnings,
              fm_recommendations =
                (if score < 8/10 then [ThoroughAudit] else []) @ (if min_ratio < 8/10 then [AddressParity] else []) @
                (if 1/10 < eod then [InvestigateOpportunity] else []) @ [ContinueCollecting, RegularAudits]\<rparr>))"

section \<open>Bias tests (bias\_testing.py)\<close>

datatype bias_detail =
    InsufficientGroups
  | ParityDetail "(string, pyfloat) pydict" "(string, pyfloat) pydict" pyfloat pyfloat
  | OddsDetail "(string, pyfloat) pydict" pyfloat
  | ImpactDetail "(string, pyfloat) pydict" "(string, pyfloat) pydict" string pyfloat

record bias_result =
  bt_name :: string
  bt_attribute :: string
  bt_groups :: "string list"
  bt_samples :: int
  bt_disparity :: pyfloat
  bt_threshold :: pyfloat
  bt_passed :: bool
  bt_details :: bias_detail

definition rates_by :: "(group_stats \<Rightarrow> int) \<Rightarrow> (string, group_stats) pydict \<Rightarrow> (string, pyfloat) pydict" where
  "rates_by f stats = map (\<lambda>(g, s). (g, real_of_int (f s) / real_of_int (max (gs_total s) 1))) stats"

definition spread :: "(string, pyfloat) pydict \<Rightarrow> pyfloat" where
  "spread rates = Max (set (dict_values rates)) - Min (set (dict_values rates))"

definition insufficient_groups :: "string \<Rightarrow> pyfloat \<Rightarrow> string \<Rightarrow> (string, group_stats) pydict \<Rightarrow> bias_result" where
  "insufficient_groups name threshold attribute stats =
     \<lparr>bt_name = name, bt_attribute = attribute, bt_groups = map fst stats, bt_samples = sample_total stats,
      bt_disparity = 0, bt_threshold = threshold, bt_passed = True, bt_details = InsufficientGroups\<rparr>"

definition test_demographic_parity :: "pyfloat \<Rightarrow> string \<Rightarrow> (string, group_stats) pydict \<Rightarrow> bias_result" where
  "test_demographic_parity threshold attribute stats =
     (if length stats < 2 then insufficient_groups ''demographic_parity'' threshold attribute stats
      else
        (let tox = rates_by gs_toxic stats; pii = rates_by gs_pii stats; d = max (spread tox) (spread pii)
         in \<lparr>bt_name = ''demographic_parity'', bt_attribute = attribute, bt_groups = map fst stats,
             bt_samples = sample_total stats, bt_disparity = py_round d 4, bt_threshold = threshold,
             bt_passed = (d \<le> threshold),
             bt_details = ParityDetail tox pii (py_round (spread tox) 4) (py_round (spread pii) 4)\<rparr>))"

definition test_equalized_odds :: "pyfloat \<Rightarrow> string \<Rightarrow> (string, group_stats) pydict \<Rightarrow> bias_result" where
  "test_equalized_odds threshold attribute stats =
     (if length stats < 2 then insufficient_groups ''equalized_odds'' threshold attribute stats
      else
        (let pos = rates_by gs_toxic stats; d = spread pos
         in \<lparr>bt_name = ''equalized_odds'', bt_attribute = attribute, bt_groups = map fst stats,
             bt_samples = sample_total stats, bt_disparity = py_round d 4, bt_threshold = threshold,
             bt_passed = (d \<le> threshold), bt_details = OddsDetail pos (py_round d 4)\<rparr>))"

definition impact_ratios :: "(string, pyfloat) pydict \<Rightarrow> (string, pyfloat) pydict" where
  "impact_ratios rates =
     (let m = Max (set (dict_values rates)) in map (\<lambda>(g, r). (g, if 0 < m then r / m else 1)) rates)"

definition highest_rate_group :: "(string, pyfloat) pydict \<Rightarrow> string" where
  \<comment> \<open>the first group with the highest rate\<close>
  "highest_rate_group rates =
     (case find (\<lambda>(g, r). r = Max (set (dict_values rates))) rates of Some (g, r) \<Rightarrow> g | None \<Rightarrow> [])"

definition test_disparate_impact :: "pyfloat \<Rightarrow> string \<Rightarrow> (string, group_stats) pydict \<Rightarrow> bias_result" where
  "test_disparate_impact threshold attribute stats =
     (if length stats < 2 then insufficient_groups ''disparate_impact'' threshold attribute stats
      else
        (let tox = rates_by gs_toxic stats; ratios = impact_ratios tox; m = Min (set (dict_values ratios))
         in \<lparr>bt_name = ''disparate_impact'', bt_attribute = attribute, bt_groups = map fst stats,
             bt_samples = sample_total stats, bt_disparity = py_round (1 - m) 4, bt_threshold = 2/10,
             bt_passed = (8/10 \<le> m),
             bt_details = ImpactDetail tox ratios (highest_rate_group tox) (py_round m 4)\<rparr>))"

record bias_suite =
  su_results :: "bias_result list"
  su_score :: pyfloat

definition run_full_suite :: "pyfloat \<Rightarrow> (string, (string, group_stats) pydict) pydict \<Rightarrow> bias_suite" where
  "run_full_suite threshold data =
     (let results = concat (map (\<lambda>(a, stats). [test_demographic_parity threshold a stats,
            test_equalized_odds threshold a stats, test_disparate_impact threshold a stats]) data)
      in \<lparr>su_results = results,
          su_score = (if results \<noteq> [] then py_round (real (length (filter bt_passed results)) / real (length results)) 4 else 1)\<rparr>)"

definition passed_all :: "bias_suite \<Rightarrow> bool" where
  "passed_all s = list_all bt_passed (su_results s)"

record suite_summary =
  sy_total :: nat
  sy_passed :: nat
  sy_failed :: nat
  sy_score :: pyfloat

definition suite_summary_of :: "bias_suite \<Rightarrow> suite_summary" where
  "suite_summary_of s = \<lparr>sy_total = length (su_results s), sy_passed = length (filter bt_passed (su_results s)),
     sy_failed = length (filter (\<lambda>r. \<not> bt_passed r) (su_results s)), sy_score = su_score s\<rparr>"

section \<open>Evaluation of classifiers (model\_evaluator.py)\<close>

record class_metrics =
  me_accuracy :: pyfloat
  me_precision :: pyfloat
  me_recall :: pyfloat
  me_f1 :: pyfloat
  me_specificity :: pyfloat
  me_tp :: nat
  me_tn :: nat
  me_fp :: nat
  me_fn :: nat
  me_samples :: nat
  me_support :: "(string, nat) pydict"

definition rate :: "nat \<Rightarrow> nat \<Rightarrow> pyfloat" where
  \<comment> \<open>\<open>a / b if b > 0 else 0.0\<close>\<close>
  "rate a b = (if 0 < b then real a / real b else 0)"

definition count_pairs :: "bool \<Rightarrow> bool \<Rightarrow> bool list \<Rightarrow> bool list \<Rightarrow> nat" where
  "count_pairs t p ts ps = length (filter (\<lambda>x. x = (t, p)) (zip ts ps))"

definition f1_of :: "pyfloat \<Rightarrow> pyfloat \<Rightarrow> pyfloat" where
  "f1_of precision recall = (if 0 < precision + recall then 2 * (precision * recall) / (precision + recall) else 0)"

definition compute_metrics :: "bool list \<Rightarrow> bool list \<Rightarrow> class_metrics" where
  "compute_metrics ts ps =
     (if ts = [] \<or> ps = []
      then \<lparr>me_accuracy = 0, me_precision = 0, me_recall = 0, me_f1 = 0, me_specificity = 0, me_tp = 0, me_tn = 0,
            me_fp = 0, me_fn = 0, me_samples = length ts, me_support = []\<rparr>
      else
        (let tp = count_pairs True True ts ps; tn = count_pairs False False ts ps;
             fp = count_pairs False True ts ps; fn = count_pairs True False ts ps;
             precision = rate tp (tp + fp); recall = rate tp (tp + fn)
         in \<lparr>me_accuracy = rate (tp + tn) (tp + tn + fp + fn), me_precision = precision, me_recall = recall,
             me_f1 = f1_of precision recall, me_specificity = rate tn (tn + fp), me_tp = tp, me_tn = tn,
             me_fp = fp, me_fn = fn, me_samples = length ts,
             me_support = [(''positive'', tp + fn), (''negative'', tn + fp)]\<rparr>))"

type_synonym classifier = "string \<Rightarrow> string + bool \<times> pyfloat" \<comment> \<open>an exception, or verdict and score\<close>

definition fold_indices :: "nat \<Rightarrow> nat list \<Rightarrow> nat \<Rightarrow> nat list" where
  \<comment> \<open>the test indices of one fold, of the shuffled order\<close>
  "fold_indices n idx k =
     (let size = length idx div n; start = k * size; stop = (if k < n - 1 then start + size else length idx)
      in take (stop - start) (drop start idx))"

fun answered :: "classifier \<Rightarrow> (string \<times> bool) list \<Rightarrow> (bool \<times> bool \<times> pyfloat) list" where
  \<comment> \<open>label, verdict and score of each case on which the classifier does not raise\<close>
  "answered f [] = []"
| "answered f ((t, label) # cases) =
     (case f t of Inl _ \<Rightarrow> answered f cases | Inr (p, s) \<Rightarrow> (label, p, s) # answered f cases)"

definition fold_metrics :: "classifier \<Rightarrow> (string \<times> bool) list \<Rightarrow> nat list \<Rightarrow> class_metrics option" where
  "fold_metrics f cases idx =
     (let out = answered f (map ((!) cases) idx)
      in if out = [] then None else Some (compute_metrics (map fst out) (map (\<lambda>(l, p, s). p) out)))"

definition mean :: "pyfloat list \<Rightarrow> pyfloat" where
  "mean vs = sum_list vs / real (length vs)"

definition deviation :: "pyfloat list \<Rightarrow> pyfloat" where
  "deviation vs = sqrt (sum_list (map (\<lambda>v. (v - mean vs)\<^sup>2) vs) / real (length vs))"

definition metric_names :: "(string \<times> (class_metrics \<Rightarrow> pyfloat)) list" where
  "metric_names = [(''accuracy'', me_accuracy), (''precision'', me_precision), (''recall'', me_recall),
     (''f1_score'', me_f1), (''specificity'', me_specificity)]"

definition cross_validate ::
  "classifier \<Rightarrow> (string \<times> bool) list \<Rightarrow> nat \<Rightarrow> nat list \<Rightarrow> py_error + (string, pyfloat) pydict" where
  \<comment> \<open>the last argument is the shuffled list of the indices\<close>
  "cross_validate f cases folds idx =
     (let n = (if length cases < folds then max 2 (length cases) else folds) in
      if n = 0 then Inl ZeroDivisionError
      else
        (let ms = List.map_filter (\<lambda>k. fold_metrics f cases (fold_indices n idx k)) [0..<n] in
         if ms = [] then Inr (map (\<lambda>(name, g). (name, 0)) metric_names)
         else Inr (concat (map (\<lambda>(name, g). let vs = map g ms in
           [(name, py_round (mean vs) 4),
            (name @ ''_std'', if 1 < length vs then py_round (deviation vs) 4 else 0)]) metric_names))))"

record classifier_evaluation =
  ev_metrics :: class_metrics
  ev_toxic :: nat
  ev_clean :: nat
  ev_threshold :: pyfloat

definition evaluate_classifier :: "classifier \<Rightarrow> (string \<times> bool) list \<Rightarrow> pyfloat \<Rightarrow> classifier_evaluation option" where
  \<comment> \<open>\<open>None\<close> for the answer "No valid test cases"; the code rounds the metrics of the answer to four digits\<close>
  "evaluate_classifier f cases threshold =
     (let out = answered f cases; ts = map fst out; ps = map (\<lambda>(l, p, s). threshold \<le> s) out in
      if ts = [] then None
      else
        (let m = compute_metrics ts ps
         in Some \<lparr>ev_metrics = m\<lparr>me_accuracy := py_round (me_accuracy m) 4, me_precision := py_round (me_precision m) 4,
                me_recall := py_round (me_recall m) 4, me_f1 := py_round (me_f1 m) 4,
                me_specificity := py_round (me_specificity m) 4\<rparr>,
              ev_toxic = length (filter (\<lambda>t. t) ts), ev_clean = length (filter Not ts), ev_threshold = threshold\<rparr>))"

definition benchmark_classifiers ::
  "(string, classifier) pydict \<Rightarrow> (string \<times> bool) list \<Rightarrow> (string, classifier_evaluation option) pydict" where
  "benchmark_classifiers fs cases = map (\<lambda>(name, f). (name, evaluate_classifier f cases (1/2))) fs"

section \<open>Properties of the fairness metrics\<close>

lemma penalty_mono:
  fixes a b c d :: real
  assumes "a \<le> b" "c \<le> d"
  shows "max 0 (1 - (min (b * 5) 1 * (6/10) + min (d * 10) 1 * (4/10))) \<le>
    max 0 (1 - (min (a * 5) 1 * (6/10) + min (c * 10) 1 * (4/10)))"
proof -
  have "min (a * 5) 1 \<le> min (b * 5) 1" "min (c * 10) 1 \<le> min (d * 10) 1" using assms by (auto intro: min.mono)
  then show ?thesis by (intro max.mono) linarith+
qed

lemma penalty_le_1:
  fixes a c :: real
  assumes "0 \<le> a" "0 \<le> c"
  shows "max 0 (1 - (min (a * 5) 1 * (6/10) + min (c * 10) 1 * (4/10))) \<le> 1"
proof -
  have "0 \<le> min (a * 5) 1" "0 \<le> min (c * 10) 1" using assms by simp_all
  then show ?thesis by (intro max.boundedI) linarith+
qed

text \<open>
  The proxy score of a positive number of traces lies between 0 and 1, and more flagged
  toxicity or more leaks never raise it.
\<close>
theorem fairness_score_antitone:
  assumes "0 < traces" "0 \<le> toxic" "toxic \<le> toxic'" "0 \<le> leaks" "leaks \<le> leaks'"
  shows "0 \<le> calculate_fairness_score traces toxic' leaks' \<and>
    calculate_fairness_score traces toxic' leaks' \<le> calculate_fairness_score traces toxic leaks \<and>
    calculate_fairness_score traces toxic leaks \<le> 1"
proof -
  let ?t = "real_of_int traces"
  have le: "real_of_int toxic / ?t \<le> real_of_int toxic' / ?t" "real_of_int leaks / ?t \<le> real_of_int leaks' / ?t"
    and pos: "0 \<le> real_of_int toxic / ?t" "0 \<le> real_of_int leaks / ?t"
    using assms by (simp_all add: divide_right_mono)
  from penalty_mono [OF le] penalty_le_1 [OF pos] assms(1) show ?thesis
    by (simp add: calculate_fairness_score_def Let_def py_round_mono py_round_le_1 py_round_nonneg)
qed

lemma fairness_score_antitone_witness:
  "calculate_fairness_score 10 2 0 \<le> calculate_fairness_score 10 1 0"
  using fairness_score_antitone [of 10 1 2 0 0] by simp

lemma rates_complement: "positive_rates stats = map (\<lambda>(g, r). (g, 1 - r)) (flag_rates stats)"
  by (simp add: positive_rates_def flag_rates_def case_prod_unfold)

lemma Max_complement: "finite S \<Longrightarrow> S \<noteq> {} \<Longrightarrow> Max ((\<lambda>r. 1 - r) ` S) = 1 - Min S" for S :: "real set"
  by (rule Max_eqI) (auto intro!: imageI Min_in)

lemma Min_complement: "finite S \<Longrightarrow> S \<noteq> {} \<Longrightarrow> Min ((\<lambda>r. 1 - r) ` S) = 1 - Max S" for S :: "real set"
  by (rule Min_eqI) (auto intro!: imageI Max_in)

lemma Max_distance: "finite S \<Longrightarrow> S \<noteq> {} \<Longrightarrow> Max ((\<lambda>r. \<bar>r - Max S\<bar>) ` S) = Max S - Min S" for S :: "real set"
proof (rule Max_eqI)
  assume S: "finite S" "S \<noteq> {}"
  then have "Min S \<in> S" "Min S \<le> Max S" by simp_all
  then show "Max S - Min S \<in> (\<lambda>r. \<bar>r - Max S\<bar>) ` S" by force
  show "y \<le> Max S - Min S" if "y \<in> (\<lambda>r. \<bar>r - Max S\<bar>) ` S" for y
    using that S by auto
qed simp

text \<open>
  Without a privileged group the three difference metrics of an assessment are one number: the
  equal opportunity difference and the equalized odds difference restate the parity difference,
  because the flag rate stands in for the true positive rate.
\<close>
theorem opportunity_restates_parity:
  assumes "assess_demographic_parity stats None = Inr m"
  shows "fm_opportunity m = fm_parity_difference m \<and> fm_odds m = fm_parity_difference m"
proof (cases "length stats < 2")
  case True
  with assms show ?thesis by (auto simp: assess_demographic_parity_def default_metrics_def)
next
  case False
  let ?F = "snd ` set (flag_rates stats)" and ?pos = "positive_rates stats"
  from False assms have ne: "flag_rates stats \<noteq> []"
    by (auto simp: assess_demographic_parity_def rates_complement split: if_splits)
  have pos: "set (dict_values ?pos) = (\<lambda>r. 1 - r) ` ?F" and flag: "set (dict_values (flag_rates stats)) = ?F"
    by (force simp: dict_values_def rates_complement image_iff)+
  have F: "finite ?F" "?F \<noteq> {}" using ne by simp_all
  have spd: "reference_rate None ?pos - Min (set (dict_values ?pos)) = Max ?F - Min ?F"
    unfolding reference_rate_def pos using Max_complement [OF F] Min_complement [OF F] by simp
  have "fst (equal_opportunity_difference (flag_rates stats) None) = py_round (Max ?F - Min ?F) 4"
  proof (cases "length (flag_rates stats) < 2")
    case True
    with ne obtain x where "flag_rates stats = [x]" by (cases "flag_rates stats") auto
    with True show ?thesis by (simp add: equal_opportunity_difference_def)
  next
    case False
    then show ?thesis using Max_distance [OF F]
      by (simp add: equal_opportunity_difference_def reference_rate_def flag Let_def)
  qed
  with assms False ne spd show ?thesis
    by (auto simp: assess_demographic_parity_def Let_def split: prod.splits if_splits)
qed

lemma opportunity_restates_parity_witness:
  "\<exists>m. assess_demographic_parity [(''a'', \<lparr>gs_total = 10, gs_toxic = 1, gs_pii = 0\<rparr>), (''b'', \<lparr>gs_total = 10, gs_toxic = 4, gs_pii = 0\<rparr>)] None
     = Inr m \<and> fm_opportunity m = fm_parity_difference m"
proof -
  let ?s = "[(''a'', \<lparr>gs_total = 10, gs_toxic = 1, gs_pii = 0\<rparr>), (''b'', \<lparr>gs_total = 10, gs_toxic = 4, gs_pii = 0\<rparr>)]"
  obtain m where "assess_demographic_parity ?s None = Inr m"
    by (simp add: assess_demographic_parity_def positive_rates_def Let_def case_prod_unfold)
  with opportunity_restates_parity [OF this] show ?thesis by blast
qed

text \<open>
  An assessment fails exactly when at least two groups are given and none of them has data; any
  other one has a score in the unit interval, inside its confidence interval.
\<close>
theorem assessment_outcome:
  "(\<exists>e. assess_demographic_parity stats p = Inl e) = (2 \<le> length stats \<and> list_all (\<lambda>(g, s). gs_total s \<le> 0) stats) \<and>
   list_all (\<lambda>m. 0 \<le> fst (fm_interval m) \<and> fst (fm_interval m) \<le> fm_score m \<and> fm_score m \<le> snd (fm_interval m) \<and>
     snd (fm_interval m) \<le> 1) (case assess_demographic_parity stats p of Inl _ \<Rightarrow> [] | Inr m \<Rightarrow> [m])"
proof -
  have interval: "0 \<le> fst (confidence_interval s n) \<and> fst (confidence_interval s n) \<le> s \<and>
      s \<le> snd (confidence_interval s n) \<and> snd (confidence_interval s n) \<le> 1"
    if s: "py_round s 4 = s" "0 \<le> s" "s \<le> 1" for s n
  proof -
    let ?se = "sqrt (s * (1 - s) / real_of_int n)"
    have se: "0 \<le> ?se" if "0 < n" using s that by simp
    have "py_round (max 0 (s - 196/100 * ?se)) 4 \<le> py_round s 4" if "0 < n"
      using s se [OF that] by (intro py_round_mono) simp
    moreover have "py_round s 4 \<le> py_round (min 1 (s + 196/100 * ?se)) 4" if "0 < n"
      using s se [OF that] by (intro py_round_mono) simp
    ultimately show ?thesis using s by (auto simp: confidence_interval_def Let_def py_round_nonneg py_round_le_1)
  qed
  have "py_round (overall_score a b) 4 = overall_score a b" "0 \<le> overall_score a b" "overall_score a b \<le> 1" for a b
    by (simp_all add: overall_score_def py_round_nonneg py_round_le_1)
  note range = interval [OF this]
  have "positive_rates stats = [] \<longleftrightarrow> list_all (\<lambda>(g, s). gs_total s \<le> 0) stats"
    by (auto simp: positive_rates_def filter_empty_conv list_all_iff)
  then show ?thesis
    by (auto simp: assess_demographic_parity_def default_metrics_def Let_def range split: prod.splits)
qed

lemma parity_ratio_range:
  assumes "2 \<le> length rates" "\<And>r. r \<in> set (dict_values rates) \<Longrightarrow> 0 \<le> r"
  shows "0 \<le> fst (demographic_parity_ratio rates None)" "fst (demographic_parity_ratio rates None) \<le> 1"
proof -
  let ?S = "set (dict_values rates)"
  have S: "finite ?S" "?S \<noteq> {}" using assms(1) by (auto simp: dict_values_def)
  then have "0 \<le> Min ?S" "Min ?S \<le> Max ?S" using assms(2) by simp_all
  then show "0 \<le> fst (demographic_parity_ratio rates None)" "fst (demographic_parity_ratio rates None) \<le> 1"
    by (auto simp: demographic_parity_ratio_def reference_rate_def Let_def py_round_nonneg py_round_le_1 divide_le_eq_1)
qed

lemma chi2_nonneg: "0 \<le> chi2_statistic table outcomes n"
  unfolding chi2_statistic_def by (auto simp: chi_term_def intro!: sum_list_nonneg)

lemma chi_squared_range:
  assumes "chi_squared_approximation table = Inr (c, p, msg)"
  shows "0 \<le> c" "0 \<le> p" "p \<le> 1"
  using assms chi2_nonneg
  by (auto simp: chi_squared_approximation_def Let_def py_round_nonneg intro!: py_round_le_1 split: list.splits if_splits)

section \<open>Properties of the bias tests\<close>

lemma passed_odds: "bt_passed (test_demographic_parity t a s) \<Longrightarrow> bt_passed (test_equalized_odds t a s)"
  by (auto simp: test_demographic_parity_def test_equalized_odds_def Let_def insufficient_groups_def split: if_splits)

text \<open>
  The suite passes exactly when all parity tests and all impact tests pass: the test of equalized
  odds uses the toxicity rates of the parity test and never decides.
\<close>
theorem suite_verdict:
  "passed_all (run_full_suite t data) \<longleftrightarrow>
   list_all (\<lambda>(a, s). bt_passed (test_demographic_parity t a s) \<and> bt_passed (test_disparate_impact t a s)) data"
  unfolding passed_all_def run_full_suite_def Let_def bias_suite.simps
  by (induction data) (auto dest: passed_odds)

text \<open>
  A group without any flagged response fails the impact test as soon as another group has one,
  however small the rates are: the ratio compares the rates of the adverse outcome with the highest.
\<close>
theorem clean_group_fails_impact:
  assumes "(g, s) \<in> set stats" "gs_toxic s = 0" "(h, r) \<in> set stats" "0 < gs_toxic r"
  shows "\<not> bt_passed (test_disparate_impact t a stats)"
proof -
  let ?tox = "rates_by gs_toxic stats"
  have "length stats \<noteq> 1" using assms by (cases stats) auto
  with assms(1) have two: "\<not> length stats < 2" by (cases stats) auto
  have "(h, real_of_int (gs_toxic r) / real_of_int (max (gs_total r) 1)) \<in> set ?tox"
    using assms(3) by (force simp: rates_by_def)
  then have "real_of_int (gs_toxic r) / real_of_int (max (gs_total r) 1) \<le> Max (set (dict_values ?tox))"
    by (intro Max_ge) (force simp: dict_values_def)+
  moreover have "0 < real_of_int (gs_toxic r) / real_of_int (max (gs_total r) 1)" using assms(4) by simp
  ultimately have m: "0 < Max (set (dict_values ?tox))" by linarith
  have "(g, 0) \<in> set ?tox" using assms(1,2) by (force simp: rates_by_def)
  with m have "(g, 0) \<in> set (impact_ratios ?tox)" by (force simp: impact_ratios_def)
  then have "Min (set (dict_values (impact_ratios ?tox))) \<le> 0"
    by (intro Min_le) (force simp: dict_values_def)+
  with two show ?thesis by (simp add: test_disparate_impact_def Let_def)
qed

lemma clean_group_fails_impact_witness:
  "\<not> bt_passed (test_disparate_impact (1/10) ''region''
     [(''a'', \<lparr>gs_total = 1000, gs_toxic = 0, gs_pii = 0\<rparr>), (''b'', \<lparr>gs_total = 1000, gs_toxic = 1, gs_pii = 0\<rparr>)])"
  by (rule clean_group_fails_impact [of "''a''" "\<lparr>gs_total = 1000, gs_toxic = 0, gs_pii = 0\<rparr>" _
      "''b''" "\<lparr>gs_total = 1000, gs_toxic = 1, gs_pii = 0\<rparr>"]) simp_all

section \<open>Properties of the evaluation\<close>

lemma rate_bounds: "a \<le> b \<Longrightarrow> 0 \<le> rate a b" "a \<le> b \<Longrightarrow> rate a b \<le> 1"
  by (simp_all add: rate_def)

lemma count_pairs_sum:
  "count_pairs True True ts ps + count_pairs False False ts ps + count_pairs False True ts ps + count_pairs True False ts ps
   = min (length ts) (length ps)"
  unfolding count_pairs_def
proof (induction ts ps rule: list_induct2')
  case (4 x xs y ys)
  then show ?case by (cases x; cases y) simp_all
qed simp_all

lemma count_pairs_agree: "count_pairs True True ts ps + count_pairs False False ts ps \<le> min (length ts) (length ps)"
  by (simp only: count_pairs_sum [symmetric] le_add1 add.assoc)

lemma f1_dice: "f1_of (rate tp (tp + fp)) (rate tp (tp + fn)) = rate (2 * tp) (2 * tp + fp + fn)"
proof (cases "tp = 0")
  case True
  then show ?thesis by (simp add: f1_of_def rate_def)
next
  case False
  then have "real tp / real (tp + fp) + real tp / real (tp + fn) > 0"
    by (intro add_pos_pos) simp_all
  moreover have "2 * (real tp / real (tp + fp) * (real tp / real (tp + fn))) / (real tp / real (tp + fp) + real tp / real (tp + fn))
    = real (2 * tp) / real (2 * tp + fp + fn)"
    using False by (simp add: field_simps add_nonneg_eq_0_iff)
  ultimately show ?thesis using False by (simp add: f1_of_def rate_def)
qed

text \<open>
  The confusion matrix counts every compared pair once, the five metrics lie between 0 and 1, and
  the F1 score, computed from precision and recall, is the fraction 2 TP / (2 TP + FP + FN).
\<close>
theorem metrics_consistent:
  "me_tp (compute_metrics ts ps) + me_tn (compute_metrics ts ps) + me_fp (compute_metrics ts ps) + me_fn (compute_metrics ts ps) = min (length ts) (length ps) \<and>
    me_f1 (compute_metrics ts ps) = rate (2 * me_tp (compute_metrics ts ps)) (2 * me_tp (compute_metrics ts ps) + me_fp (compute_metrics ts ps) + me_fn (compute_metrics ts ps)) \<and>
    list_all (\<lambda>(name, g). 0 \<le> g (compute_metrics ts ps) \<and> g (compute_metrics ts ps) \<le> 1) metric_names"
proof (cases "ts = [] \<or> ps = []")
  case True
  then show ?thesis by (auto simp: compute_metrics_def metric_names_def rate_def)
next
  case False
  then show ?thesis
    by (simp add: compute_metrics_def metric_names_def Let_def count_pairs_sum f1_dice rate_bounds rate_bounds [OF count_pairs_agree])
qed

lemma folds_concat:
  assumes "k < n" "n > 0"
  shows "concat (map (fold_indices n idx) [0..<k]) = take (k * (length idx div n)) idx"
  using assms
proof (induction k)
  case (Suc k)
  then have "k < n - 1" by simp
  then have "fold_indices n idx k = take (length idx div n) (drop (k * (length idx div n)) idx)"
    by (simp add: fold_indices_def Let_def)
  with Suc show ?case by (simp add: take_add add.commute [of "length idx div n"])
qed simp

text \<open>
  The test parts of the folds, one after the other, are the shuffled list: every case is tested
  in exactly one fold, the last fold taking the remainder.
\<close>
theorem folds_partition:
  assumes "0 < n"
  shows "concat (map (fold_indices n idx) [0..<n]) = idx"
proof -
  from assms obtain k where k: "n = Suc k" by (cases n) auto
  have "fold_indices n idx k = drop (k * (length idx div n)) idx"
    by (simp add: fold_indices_def k Let_def)
  with folds_concat [of k n idx] k show ?thesis by simp
qed

lemma folds_partition_witness: "concat (map (fold_indices 3 [4, 0, 2, 1, 3]) [0..<3]) = [4, 0, 2, 1, 3]"
  by (rule folds_partition) simp

lemma count_threshold_mono:
  "t1 \<le> t2 \<Longrightarrow> count_pairs b True (map fst out) (map (\<lambda>(l, p, s). t2 \<le> s) out) \<le>
     count_pairs b True (map fst out) (map (\<lambda>(l, p, s). t1 \<le> s) out)"
  for out :: "(bool \<times> bool \<times> pyfloat) list"
  unfolding count_pairs_def by (induction out) auto

lemma count_label:
  "count_pairs b True (map fst out) (map g out) + count_pairs b False (map fst out) (map g out)
   = length (filter (\<lambda>x. fst x = b) out)"
  unfolding count_pairs_def by (induction out) auto

lemma rate_mono: "a \<le> b \<Longrightarrow> rate a n \<le> rate b n"
  by (simp add: rate_def divide_right_mono)

text \<open>
  Raising the threshold of an evaluation never raises the recall and never lowers the specificity.
\<close>
theorem threshold_monotone:
  assumes "evaluate_classifier f cases t1 = Some e1" "evaluate_classifier f cases t2 = Some e2" "t1 \<le> t2"
  shows "me_recall (ev_metrics e2) \<le> me_recall (ev_metrics e1) \<and>
    me_specificity (ev_metrics e1) \<le> me_specificity (ev_metrics e2)"
proof -
  let ?out = "answered f cases" let ?ts = "map fst ?out" and ?ps = "\<lambda>t. map (\<lambda>(l, p, s). t \<le> s) ?out"
  let ?c = "\<lambda>b p t. count_pairs b p ?ts (?ps t)"
  have le: "?c b True t2 \<le> ?c b True t1" for b using assms(3) by (rule count_threshold_mono)
  have eq: "?c b True t2 + ?c b False t2 = ?c b True t1 + ?c b False t1" for b by (simp only: count_label)
  have "rate (?c True True t2) (?c True True t2 + ?c True False t2) \<le> rate (?c True True t1) (?c True True t1 + ?c True False t1)"
    unfolding eq by (rule rate_mono) (rule le)
  moreover have "rate (?c False False t1) (?c False False t1 + ?c False True t1) \<le>
      rate (?c False False t2) (?c False False t2 + ?c False True t2)"
    using eq [of False] le [of False] by (simp only: add.commute) (rule rate_mono, simp)
  moreover have "?out \<noteq> []" using assms(1) by (auto simp: evaluate_classifier_def Let_def split: if_splits)
  ultimately show ?thesis using assms(1,2)
    by (auto simp: evaluate_classifier_def compute_metrics_def Let_def py_round_mono split: if_splits)
qed

lemma threshold_monotone_witness:
  "\<exists>e1 e2. evaluate_classifier (\<lambda>t. Inr (True, real (length t))) [(''a'', True), (''bc'', False)] 1 = Some e1 \<and>
     evaluate_classifier (\<lambda>t. Inr (True, real (length t))) [(''a'', True), (''bc'', False)] 2 = Some e2 \<and>
     me_recall (ev_metrics e2) \<le> me_recall (ev_metrics e1)"
proof -
  let ?e = "evaluate_classifier (\<lambda>t. Inr (True, real (length t))) [(''a'', True), (''bc'', False)]"
  obtain e1 e2 where "?e 1 = Some e1" "?e 2 = Some e2" by (simp add: evaluate_classifier_def Let_def)
  with threshold_monotone [OF this] show ?thesis by auto
qed

end
