(* ===== verification/Legacy_Injection.thy ===== *)
theory Legacy_Injection
  imports Injection
begin

text \<open>
  The older injection detector (\<open>services/shared/prompt_injection_detector.py\<close>), which the
  guardrails service still runs on every prompt: size checks, removal of control characters, and
  48 patterns in six weighted categories. Unicode normalisation is a parameter; the formatted text
  of the field \<open>details\<close> is left out. Characters beyond Latin-1, which three of the classes name,
  do not occur in the model's texts.
\<close>

section \<open>Patterns\<close>

datatype legacy_pattern =
    AtStart rx \<comment> \<open>with the anchor \<open>^\<close>\<close>
  | Anywhere rx

definition ci :: "rx \<Rightarrow> legacy_pattern" where "ci r = Anywhere (ignore_case r)"
definition ci_start :: "rx \<Rightarrow> legacy_pattern" where "ci_start r = AtStart (ignore_case r)"

fun legacy_matches :: "legacy_pattern \<Rightarrow> string \<Rightarrow> nat" where
  \<comment> \<open>the number of matches that \<open>findall\<close> returns\<close>
  "legacy_matches (AtStart r) s = (if ends r s 0 = [] then 0 else 1)"
| "legacy_matches (Anywhere r) s = length (findall r s)"

definition dan_patterns :: "legacy_pattern list" where
  "dan_patterns = map ci [
     rx_seq [Bound, lit ''DAN'', Bound],
     phrase [''do'', ''anything'', ''now''],
     rx_seq [phrase [''you'', ''are''], sp, opt_word ''now'', lit ''free'', sp, opt_word ''from'', opt_word ''your'',
       lits [''restrictions'', ''constraints'', ''rules'', ''guidelines'']],
     rx_seq [lit ''ignore'', sp, opt_word ''all'', lits [''previous'', ''prior'', ''above''], sp,
       lits [''instructions'', ''directives'', ''commands'', ''rules'', ''constraints'']],
     rx_seq [lit ''you'', sp, rx_alts [rx_seq [lit ''don'', apos, lit ''t''], phrase [''do'', ''not'']], sp,
       rx_alts [phrase [''have'', ''to''], phrase [''need'', ''to'']], sp,
       rx_alts [lit ''follow'', lit ''obey'', phrase [''abide'', ''by'']]],
     rx_seq [phrase [''act'', ''as''], sp, rx_alts [phrase [''if'', ''you'', ''are''], phrase [''if'', ''you'', ''were'']], sp,
       opt_word ''not'', opt (Seq an_opt sp),
       rx_alts [lit ''AI'', lit ''assistant'', lit ''chatbot'', phrase [''language'', ''model'']]],
     rx_seq [lit ''pretend'', sp, rx_alts [phrase [''to'', ''be''], phrase [''you'', ''are'']]],
     rx_seq [lit ''role'', spaces0, lit ''play''],
     rx_seq [lit ''jail'', spaces0, lit ''break''],
     rx_seq [lit ''no'', sp, lits [''restrictions'', ''limits'', ''boundaries'', ''filter'', ''safety'']],
     rx_seq [lit ''you'', sp, lits [''can'', ''could'', ''may''], sp, opt_word ''now'',
       lits [''say'', ''do'', ''write'', ''respond'', ''answer''], sp, lits [''anything'', ''whatever'', ''everything'']],
     rx_seq [lit ''remove'', sp, opt_word ''all'', opt_word ''your'',
       lits [''filter'', ''restrictions'', ''limitations'', ''boundaries'']],
     rx_seq [phrase [''you'', ''are''], sp, rx_alts [phrase [''no'', ''longer''], phrase [''not'', ''bound'', ''by'']]],
     rx_seq [phrase [''new'', ''character''], spaces0, lit '':''],
     rx_seq [phrase [''from'', ''now'', ''on''], spaces0, lit '','', spaces0, phrase [''you'', ''are'']],
     rx_seq [phrase [''you'', ''will''], sp, opt_word ''now'', lit ''simulate'']]"

definition tag_pattern :: "string \<Rightarrow> rx" where
  "tag_pattern w = rx_seq [lit ''<'', spaces0, lit w, spaces0, lit ''>'']"

definition prefix_patterns :: "legacy_pattern list" where
  "prefix_patterns =
     map ci_start [
       rx_seq [lits [''system'', ''user'', ''assistant'', ''human'', ''ai''], spaces0, lit '':''],
       lit ''[INST]'', lit ''<|'', tag_pattern ''system'', tag_pattern ''user'', tag_pattern ''assistant''] @
     map ci [
       rx_seq [lit ''ignore'', sp, opt_word ''the'', lit ''above'', sp, opt_word ''and'',
         lits [''say'', ''respond'', ''answer'', ''write'', ''output'']],
       rx_seq [lit ''forget'', sp, opt_word ''all'', lits [''previous'', ''prior''], sp, lits [''instructions'', ''directions'']],
       rx_seq [lit ''disregard'', sp, opt_word ''all'', lits [''previous'', ''prior''], sp,
         lits [''instructions'', ''directions'', ''content'']]]"

definition attention_patterns :: "legacy_pattern list" where
  "attention_patterns = map ci [
     rx_seq [phrase [''by'', ''the'', ''way''], spaces0, lit '',''],
     rx_seq [lit ''oh'', sp, lit '','', spaces0, lit ''and'', sp, rx_alts [lit ''also'', phrase [''another'', ''thing'']]],
     rx_seq [phrase [''one'', ''more'', ''thing''], spaces0, lit '':''],
     rx_seq [lit ''actually'', spaces0, lit '',''],
     rx_seq [phrase [''never'', ''mind''], sp, opt_word ''the'', lits [''above'', ''previous'']],
     rx_seq [lit ''forget'', sp, opt (Seq (phrase [''what'', ''I'']) sp), opt_word ''just'', lit ''said''],
     rx_seq [lit ''but'', sp, lits [''seriously'', ''honestly'', ''realistically'']],
     rx_seq [phrase [''let'', ''me''], sp, lits [''rephrase'', ''reframe'', ''restate'']]]"

definition payload_patterns :: "legacy_pattern list" where
  "payload_patterns = map ci [
     rx_seq [rx_alts [phrase [''first'', ''part''], phrase [''part'', ''1''], phrase [''step'', ''1'']], spaces0, lit '':''],
     rx_seq [lit ''continue'', sp, opt_word ''in'', opt_word ''the'', lits [''next'', ''following''], sp,
       lits [''message'', ''response'', ''part'']],
     rx_seq [lit ''i'', apos, lit ''ll'', sp, lits [''tell'', ''give'', ''provide''], sp, lit ''you'', sp, opt_word ''the'',
       lits [''first'', ''second'', ''next''], sp, lits [''part'', ''piece'', ''section'']],
     rx_seq [lit ''let'', apos, lit ''s'', sp, opt (Seq (phrase [''do'', ''it'']) sp),
       rx_alts [phrase [''step'', ''by'', ''step''], phrase [''one'', ''step'', ''at'', ''a'', ''time'']]],
     rx_seq [phrase [''we'', ''will''], sp, lits [''start'', ''begin''], sp, lit ''with'']]"

definition base64_char :: "char \<Rightarrow> bool" where
  "base64_char c = (is_digit c \<or> is_upper c \<or> is_lower c \<or> c = CHR ''+'' \<or> c = CHR ''/'')"

definition hex_char :: "char \<Rightarrow> bool" where
  "hex_char c = (is_digit c \<or> c \<in> set ''abcdefABCDEF'')"

definition at_least :: "nat \<Rightarrow> rx \<Rightarrow> rx" where
  \<comment> \<open>\<open>r{n,}\<close>\<close>
  "at_least n r = Seq (rep n r) (Star r)"

definition encoding_patterns :: "legacy_pattern list" where
  "encoding_patterns = [
     Anywhere (Seq (at_least 40 (Cls base64_char)) (rep_upto 2 (lit ''=''))),
     Anywhere (at_least 40 (Cls hex_char)),
     ci (rx_seq [Bound, lits [''h4ck'', ''h@ck'', ''1337'', ''l33t'', ''tr0ll'', ''pwn'', ''0wn''], Bound]),
     Anywhere (Cls (\<lambda>_. False))]"

definition smuggling_patterns :: "legacy_pattern list" where
  "smuggling_patterns = map ci [
     rx_seq [lit ''decode'', sp, opt_word ''the'', lits [''following'', ''below'', ''this'']],
     rx_seq [phrase [''what'', ''does''], sp, rx_alts [lit ''this'', phrase [''the'', ''following'']], sp,
       rx_alts [lit ''say'', lit ''mean'', phrase [''decode'', ''to'']]],
     rx_seq [lit ''translate'', sp, rx_alts [lit ''this'', phrase [''the'', ''following'']], sp, opt_word ''from''],
     rx_seq [phrase [''this'', ''is''], sp, opt_word ''a'', lits [''test'', ''sample'', ''example'', ''code'']],
     rx_seq [lit ''don'', apos, lit ''t'', sp, rx_alts [lit ''worry'', phrase [''be'', ''alarmed''], phrase [''be'', ''concerned'']]],
     rx_seq [phrase [''this'', ''is''], sp, opt_word ''not'', lits [''harmful'', ''dangerous'', ''malicious'', ''bad'']]]"

record legacy_category =
  lc_name :: string
  lc_patterns :: "legacy_pattern list"
  lc_severity :: string
  lc_weight :: pyfloat

definition legacy_categories :: "legacy_category list" where
  "legacy_categories = [
     \<lparr>lc_name = ''dan_jailbreak'', lc_patterns = dan_patterns, lc_severity = ''critical'', lc_weight = 1\<rparr>,
     \<lparr>lc_name = ''prefix_injection'', lc_patterns = prefix_patterns, lc_severity = ''high'', lc_weight = 8/10\<rparr>,
     \<lparr>lc_name = ''attention_shift'', lc_patterns = attention_patterns, lc_severity = ''medium'', lc_weight = 5/10\<rparr>,
     \<lparr>lc_name = ''payload_split'', lc_patterns = payload_patterns, lc_severity = ''medium'', lc_weight = 6/10\<rparr>,
     \<lparr>lc_name = ''encoding_obfuscation'', lc_patterns = encoding_patterns, lc_severity = ''high'', lc_weight = 7/10\<rparr>,
     \<lparr>lc_name = ''token_smuggling'', lc_patterns = smuggling_patterns, lc_severity = ''medium'', lc_weight = 5/10\<rparr>]"

section \<open>Sanitising\<close>

definition max_input_length :: nat where "max_input_length = 10000"
definition max_input_bytes :: nat where "max_input_bytes = 50000"

definition control_char :: "char \<Rightarrow> bool" where
  "control_char c = (let n = of_char c :: nat in n \<le> 8 \<or> n = 11 \<or> n = 12 \<or> 14 \<le> n \<and> n \<le> 31 \<or> 127 \<le> n \<and> n \<le> 159)"

definition sanitize_input :: "(string \<Rightarrow> string) \<Rightarrow> string \<Rightarrow> string" where
  "sanitize_input nfkc t =
     (if t = [] then []
      else take max_input_length (filter (\<lambda>c. \<not> control_char c) (nfkc t)))"

definition utf8_length :: "string \<Rightarrow> nat" where
  "utf8_length t = sum_list (map (\<lambda>c. if (of_char c :: nat) < 128 then 1 else 2) t)"

definition validate_input_size :: "string \<Rightarrow> string option" where
  \<comment> \<open>\<open>None\<close> for a valid size\<close>
  "validate_input_size t =
     (if t = [] then None
      else if max_input_length < length t
      then Some (''Input exceeds maximum length of '' @ show_nat max_input_length @ '' characters'')
      else if max_input_bytes < utf8_length t
      then Some (''Input exceeds maximum size of '' @ show_nat (max_input_bytes div 1024) @ ''KB'')
      else None)"

section \<open>Detection\<close>

record legacy_result =
  li_detected :: bool
  li_confidence :: pyfloat
  li_severity :: string
  li_categories :: "string list"
  li_patterns :: "string list"

definition severity_order :: "string \<Rightarrow> nat" where
  "severity_order s = dict_get_or [(''none'', 0), (''low'', 1), (''medium'', 2), (''high'', 3), (''critical'', 4)] s 0"

record legacy_scan =
  ls_categories :: "string list"
  ls_patterns :: "string list"
  ls_weight :: pyfloat
  ls_severity :: string

definition match_count :: "string \<Rightarrow> legacy_category \<Rightarrow> nat" where
  "match_count text c = sum_list (map (\<lambda>p. legacy_matches p text) (lc_patterns c))"

definition legacy_step :: "string \<Rightarrow> legacy_scan \<Rightarrow> legacy_category \<Rightarrow> legacy_scan" where
  "legacy_step text s c =
     (let n = match_count text c in
      if n = 0 then s
      else \<lparr>ls_categories = ls_categories s @ [lc_name c],
            ls_patterns = ls_patterns s @ [lc_name c @ '': matched '' @ show_nat n @ '' pattern(s)''],
            ls_weight = (if ls_weight s < lc_weight c then lc_weight c else ls_weight s),
            ls_severity = (if severity_order (ls_severity s) < severity_order (lc_severity c) then lc_severity c
              else ls_severity s)\<rparr>)"

definition legacy_confidence :: "pyfloat \<Rightarrow> nat \<Rightarrow> pyfloat" where
  "legacy_confidence w n =
     (if n = 0 then 0
      else
        (let c1 = w; c2 = (if 2 \<le> n then min 1 (c1 + 15/100) else c1); c3 = (if 3 \<le> n then min 1 (c2 + 1/10) else c2)
         in min (95/100) c3))"

definition empty_scan :: legacy_scan where
  "empty_scan = \<lparr>ls_categories = [], ls_patterns = [], ls_weight = 0, ls_severity = ''none''\<rparr>"

definition legacy_detect :: "string \<Rightarrow> legacy_result" where
  "legacy_detect text =
     (if strip text = []
      then \<lparr>li_detected = False, li_confidence = 0, li_severity = ''none'', li_categories = [], li_patterns = []\<rparr>
      else
        (let s = foldl (legacy_step text) empty_scan legacy_categories;
             c = legacy_confidence (ls_weight s) (length (ls_categories s));
             hit = (3/10 \<le> c)
         in \<lparr>li_detected = hit, li_confidence = py_round c 2, li_severity = (if hit then ls_severity s else ''none''),
             li_categories = ls_categories s, li_patterns = ls_patterns s\<rparr>))"

definition detect_and_sanitize :: "(string \<Rightarrow> string) \<Rightarrow> string \<Rightarrow> string \<times> legacy_result" where
  "detect_and_sanitize nfkc text = (let t = sanitize_input nfkc text in (t, legacy_detect t))"

definition check_injection :: "(string \<Rightarrow> string) \<Rightarrow> string \<Rightarrow> legacy_result" where
  "check_injection nfkc text = snd (detect_and_sanitize nfkc text)"

section \<open>Properties\<close>

text \<open>The categories that match a text, by the six conditions.\<close>

definition hit :: "legacy_pattern list \<Rightarrow> string \<Rightarrow> bool" where
  "hit ps text \<longleftrightarrow> list_ex (\<lambda>p. legacy_matches p text \<noteq> 0) ps"

lemma match_count_hit: "match_count text c \<noteq> 0 \<longleftrightarrow> hit (lc_patterns c) text"
  by (auto simp: match_count_def hit_def list_ex_iff)

lemma scan_categories:
  "ls_categories (foldl (legacy_step text) s cs) = ls_categories s @ map lc_name (filter (\<lambda>c. hit (lc_patterns c) text) cs)"
  by (induction cs arbitrary: s) (auto simp: legacy_step_def Let_def match_count_hit [symmetric])

lemma scan_weight:
  "ls_weight (foldl (legacy_step text) s cs) =
     foldl (\<lambda>w c. if hit (lc_patterns c) text then max w (lc_weight c) else w) (ls_weight s) cs"
  by (induction cs arbitrary: s) (auto simp: legacy_step_def Let_def match_count_hit [symmetric] max_def not_less)

lemma scan_severity:
  "ls_severity (foldl (legacy_step text) s cs) =
     foldl (\<lambda>v c. if hit (lc_patterns c) text \<and> severity_order v < severity_order (lc_severity c)
                  then lc_severity c else v) (ls_severity s) cs"
  by (induction cs arbitrary: s) (auto simp: legacy_step_def Let_def match_count_hit [symmetric])

lemma severity_order_values [simp]:
  "severity_order ''none'' = 0" "severity_order ''medium'' = 2" "severity_order ''high'' = 3" "severity_order ''critical'' = 4"
  by (simp_all add: severity_order_def dict_get_or_def)

definition legacy_scan_of :: "string \<Rightarrow> legacy_scan" where
  "legacy_scan_of text = foldl (legacy_step text) empty_scan legacy_categories"

lemma scan_count:
  "length (ls_categories (legacy_scan_of text)) = length (filter (\<lambda>ps. hit ps text)
     [dan_patterns, prefix_patterns, attention_patterns, payload_patterns, encoding_patterns, smuggling_patterns])"
  unfolding legacy_scan_of_def scan_categories by (simp add: empty_scan_def legacy_categories_def)

lemma scan_max_weight:
  "ls_weight (legacy_scan_of text) = (if hit dan_patterns text then 1 else if hit prefix_patterns text then 8/10
     else if hit encoding_patterns text then 7/10 else if hit payload_patterns text then 6/10
     else if hit attention_patterns text \<or> hit smuggling_patterns text then 5/10 else 0)"
  unfolding legacy_scan_of_def scan_weight by (simp add: empty_scan_def legacy_categories_def)

lemma scan_max_severity:
  "ls_severity (legacy_scan_of text) = (if hit dan_patterns text then ''critical''
     else if hit prefix_patterns text \<or> hit encoding_patterns text then ''high''
     else if hit payload_patterns text \<or> hit attention_patterns text \<or> hit smuggling_patterns text then ''medium''
     else ''none'')"
  unfolding legacy_scan_of_def scan_severity by (simp add: empty_scan_def legacy_categories_def)

lemma hit_some_category:
  "(\<exists>c \<in> set legacy_categories. hit (lc_patterns c) text) \<longleftrightarrow>
     hit dan_patterns text \<or> hit prefix_patterns text \<or> hit encoding_patterns text \<or>
     hit payload_patterns text \<or> hit attention_patterns text \<or> hit smuggling_patterns text"
  by (auto simp: legacy_categories_def)

text \<open>The confidence before it is rounded, as a function of the six conditions.\<close>

definition raw_confidence :: "string \<Rightarrow> pyfloat" where
  "raw_confidence text = legacy_confidence (ls_weight (legacy_scan_of text)) (length (ls_categories (legacy_scan_of text)))"

lemma legacy_detect_scan:
  "strip text \<noteq> [] \<Longrightarrow> legacy_detect text =
     \<lparr>li_detected = (3/10 \<le> raw_confidence text), li_confidence = py_round (raw_confidence text) 2,
      li_severity = (if 3/10 \<le> raw_confidence text then ls_severity (legacy_scan_of text) else ''none''),
      li_categories = ls_categories (legacy_scan_of text), li_patterns = ls_patterns (legacy_scan_of text)\<rparr>"
  by (simp add: legacy_detect_def legacy_scan_of_def raw_confidence_def Let_def)

lemma raw_confidence_cases:
  "raw_confidence text =
    (if hit dan_patterns text then 95/100
     else let n = length (ls_categories (legacy_scan_of text)) in
       if hit prefix_patterns text then (if 2 \<le> n then 95/100 else 8/10)
       else if hit encoding_patterns text then (if 3 \<le> n then 95/100 else if n = 2 then 85/100 else 7/10)
       else if hit payload_patterns text then (if 3 \<le> n then 85/100 else if n = 2 then 75/100 else 6/10)
       else if n = 2 then 65/100 else if n = 1 then 5/10 else 0)"
  unfolding raw_confidence_def scan_max_weight scan_count
  by (simp add: legacy_confidence_def)

definition block_worthy :: "string \<Rightarrow> bool" where
  \<comment> \<open>the guardrails service refuses to generate from confidence 0.7 on\<close>
  "block_worthy text = (7/10 \<le> li_confidence (legacy_detect text))"

text \<open>
  a text is detected exactly when it is not blank and one of the six categories matches: the
  threshold 0.3 never decides, because every category weighs more. The severity reported is that of
  the worst matching category.
\<close>

theorem any_match_detects:
  "(li_detected (legacy_detect text) \<longleftrightarrow> strip text \<noteq> [] \<and> (\<exists>c \<in> set legacy_categories. hit (lc_patterns c) text)) \<and>
   (strip text \<noteq> [] \<longrightarrow> li_severity (legacy_detect text) =
     (if hit dan_patterns text then ''critical''
      else if hit prefix_patterns text \<or> hit encoding_patterns text then ''high''
      else if hit payload_patterns text \<or> hit attention_patterns text \<or> hit smuggling_patterns text then ''medium''
      else ''none''))"
proof (cases "strip text = []")
  case True
  then show ?thesis by (simp add: legacy_detect_def)
next
  case False
  then show ?thesis
    by (simp add: legacy_detect_scan hit_some_category raw_confidence_cases scan_count scan_max_severity Let_def)
qed

lemma block_worthy_cases:
  "block_worthy text \<longleftrightarrow> strip text \<noteq> [] \<and>
     (hit dan_patterns text \<or> hit prefix_patterns text \<or> hit encoding_patterns text \<or>
      hit payload_patterns text \<and> (hit attention_patterns text \<or> hit smuggling_patterns text))"
proof (cases "strip text = []")
  case True
  then show ?thesis by (simp add: block_worthy_def legacy_detect_def)
next
  case False
  then show ?thesis
    by (simp add: block_worthy_def legacy_detect_scan raw_confidence_cases scan_count Let_def py_round_def
        round_half_even_def)
qed

text \<open>
  the service refuses to generate (confidence at least 0.7) exactly when a jailbreak, a prefix
  or an encoding pattern matches, or a payload pattern together with an attention or a smuggling
  pattern. Attention and smuggling patterns together reach 0.65 only and never block.
\<close>

theorem blocking_categories:
  "block_worthy text \<longleftrightarrow> strip text \<noteq> [] \<and>
     (hit dan_patterns text \<or> hit prefix_patterns text \<or> hit encoding_patterns text \<or>
      hit payload_patterns text \<and> (hit attention_patterns text \<or> hit smuggling_patterns text))"
  by (rule block_worthy_cases)

lemma hit_Anywhere: "Anywhere r \<in> set ps \<Longrightarrow> search r text \<Longrightarrow> hit ps text"
  unfolding hit_def list_ex_iff by (rule bexI [of _ "Anywhere r"]) (simp_all add: search_findall)

lemma strip_ne: "c \<in> set s \<Longrightarrow> \<not> is_space c \<Longrightarrow> strip s \<noteq> []"
  by (auto simp: strip_def dropWhile_eq_Nil_conv) (metis UnE set_append set_dropWhileD set_rev takeWhile_dropWhile_id set_takeWhileD)

text \<open>
  every text that holds 40 characters in a row of the base64 alphabet (a SHA-1 or SHA-256
  digest, a long identifier) is refused, whatever else it says.
\<close>

theorem digest_refused:
  assumes "length w = 40" and "list_all base64_char w"
  shows "block_worthy (u @ w @ v)"
proof -
  let ?t = "u @ w @ v"
  have w: "length u + k < length ?t \<and> base64_char (?t ! (length u + k))" if "k < 40" for k
    using that assms by (auto simp: nth_append list_all_iff)
  have "rmatch (rep 40 (Cls base64_char)) ?t (length u) (length u + 40)"
    using w by (rule rmatch_rep_Cls)
  then have "rmatch (at_least 40 (Cls base64_char)) ?t (length u) (length u + 40)"
    by (auto simp: at_least_def rmatch_simps intro: rmatch.intros)
  moreover have "rmatch (rep_upto 2 (lit ''='')) ?t j j" for j
    by (auto simp: numeral_2_eq_2 rmatch_simps)
  ultimately have "rmatch (Seq (at_least 40 (Cls base64_char)) (rep_upto 2 (lit ''=''))) ?t (length u) (length u + 40)"
    by (rule rmatch.intros(3))
  then have "search (Seq (at_least 40 (Cls base64_char)) (rep_upto 2 (lit ''=''))) ?t"
    unfolding search_iff by (intro exI [of _ "length u"] exI) simp
  moreover have "Anywhere (Seq (at_least 40 (Cls base64_char)) (rep_upto 2 (lit ''=''))) \<in> set encoding_patterns"
    unfolding encoding_patterns_def by (rule list.set_intros(1))
  ultimately have e: "hit encoding_patterns ?t" by (intro hit_Anywhere)
  have "base64_char (hd w)" "hd w \<in> set w" using assms by (auto simp: list_all_iff intro!: hd_in_set)
  then have "strip ?t \<noteq> []"
    by (intro strip_ne [of "hd w"]) (auto simp: base64_char_def is_space_def is_digit_def is_upper_def is_lower_def Let_def)
  with e show ?thesis by (simp add: block_worthy_cases)
qed

lemma digest_refused_witness:
  "block_worthy (''commit '' @ replicate 40 (CHR ''a'') @ '' is fine'')"
  by (rule digest_refused) (simp_all add: base64_char_def is_lower_def list_all_iff)

end
