(* ===== verification/Pii_Detector.thy ===== *)
theory Pii_Detector
  imports Legacy_Injection Data_Protection
begin

text \<open>
  The text scanners of the guardrails: toxic keywords (\<open>services/shared/toxic_keywords.py\<close>),
  personal data (\<open>services/shared/pii_detector.py\<close>) and masking (\<open>services/shared/rewriter.py\<close>).
  Unicode normalisation, the language model's answer and JSON parsing are parameters. The
  keywords' look-around conditions \<open>(?<!\w)\<close> and \<open>(?!\w)\<close> are word boundaries here, which is the same
  because every keyword starts and ends with a letter. The zero-width characters that
  \<open>sanitize_input\<close> of this module also removes lie beyond the model's character set, so the function is
  the one of \<open>Legacy_Injection\<close>.
\<close>

section \<open>Toxic keywords (toxic_keywords.py)\<close>

definition toxic_keywords :: "(string, string list) pydict" where
  "toxic_keywords = [
     (''severe'', [''kill'', ''murder'', ''torture'', ''terrorist'', ''bomb'', ''massacre'', ''execute'', ''slaughter'',
        ''genocide'', ''assassinate'', ''behead'', ''pedophile'', ''rapist'', ''molest'', ''suicide bomb'']),
     (''high'', [''hate'', ''racist'', ''nazi'', ''white supremacist'', ''kkk'', ''fascist'', ''ethnic cleansing'',
        ''hate crime'', ''lynch'', ''deport them all'', ''exterminate'', ''inferior race'', ''racial purity'']),
     (''medium'', [''idiot'', ''idiots'', ''stupid'', ''moron'', ''loser'', ''worthless'', ''retard'', ''imbecile'',
        ''ignorant'', ''scumbag'', ''trash'', ''garbage human'', ''destroy'', ''shoot'', ''stab'', ''hang'', ''drown'',
        ''poison'', ''hurt myself'', ''self-harm'', ''self harm'', ''kill myself'', ''hurt yourself'', ''hurt themselves'']),
     (''low'', [''screw'', ''damn'', ''crap'', ''hell'', ''bastard'', ''jerk'', ''asshole'', ''dumb'', ''shut up'',
        ''piss off'', ''sucks'', ''pathetic'', ''useless'', ''annoying'', ''shut your mouth'', ''get lost'', ''go away''])]"

definition severity_score :: "string \<Rightarrow> pyfloat" where
  "severity_score s = dict_get_or [(''severe'', 0.95), (''high'', 0.85), (''medium'', 0.75), (''low'', 0.65)] s 0"

definition severity_category :: "string \<Rightarrow> string" where
  "severity_category s = dict_get_or [(''severe'', ''threat''), (''high'', ''hate_speech''), (''medium'', ''harassment''),
     (''low'', ''profanity'')] s []"

definition keyword_pattern :: "string \<Rightarrow> rx" where
  "keyword_pattern kw = rx_seq [Bound, lit kw, Bound]"

definition severity_on :: "string list option \<Rightarrow> string \<Rightarrow> bool" where
  "severity_on enabled severity \<longleftrightarrow>
     (case enabled of None \<Rightarrow> True | Some cs \<Rightarrow> severity_category severity \<in> set cs)"

definition check_toxic_keywords :: "string \<Rightarrow> string list option \<Rightarrow> bool \<times> pyfloat \<times> string" where
  "check_toxic_keywords text enabled =
     (case find (\<lambda>(severity, kws). severity_on enabled severity \<and>
          list_ex (\<lambda>kw. search (keyword_pattern kw) (lower text)) kws) toxic_keywords of
        Some (severity, _) \<Rightarrow> (True, severity_score severity, ''keyword ('' @ severity @ '')'')
      | None \<Rightarrow> (False, 0, ''unknown''))"

section \<open>Personal data (pii_detector.py)\<close>

definition sin_formatted :: rx where
  "sin_formatted = rx_seq [Bound, rep 3 digit, lit ''-'', rep 3 digit, lit ''-'', rep 3 digit, Bound]"

definition sin_unformatted :: rx where
  "sin_unformatted = rx_seq [Bound, rep 9 digit, Bound]"

definition health_card :: rx where
  "health_card = rx_seq [Bound, rep 4 digit, lit ''-'', rep 3 digit, lit ''-'', rep 3 digit, lit ''-'',
     rep 2 (Cls is_upper), Bound]"

definition phone_separator :: rx where
  \<comment> \<open>\<open>[-.\s]?\<close>\<close>
  "phone_separator = opt (Cls (\<lambda>c. c = CHR ''-'' \<or> c = CHR ''.'' \<or> is_space c))"

definition phone :: rx where
  "phone = rx_alts [
     rx_seq [opt (rx_seq [opt (lit ''+''), Cls (\<lambda>c. c \<in> set ''123456789''), rep_upto 2 digit, phone_separator]),
       opt (lit ''(''), Cls (\<lambda>c. c \<in> set ''23456789''), rep 2 digit, opt (lit '')''), phone_separator,
       rep 3 digit, phone_separator, rep 4 digit,
       opt (rx_seq [spaces0, rx_alts [lit ''ext'', lit ''x''], spaces0, plus1 digit])],
     rx_seq [Bound, rep_range 10 15 digit, Bound]]"

definition credit_card :: rx where
  "credit_card = rx_seq [Bound,
     rep_range 13 16 (Seq digit (LazyStar (Cls (\<lambda>c. c = CHR '' '' \<or> c = CHR ''-'')))), Bound]"

definition driver_license :: rx where
  "driver_license = rx_seq [Bound, Cls is_upper, rep 4 digit, lit ''-'', rep 5 digit, lit ''-'', rep 5 digit, Bound]"

definition passport :: rx where
  "passport = rx_seq [Bound, rep 2 (Cls is_upper), rep 6 digit, Bound]"

definition is_letter :: "char \<Rightarrow> bool" where
  "is_letter c \<longleftrightarrow> is_upper c \<or> is_lower c"

definition email_address :: rx where
  "email_address = rx_seq [Bound, plus1 (Cls (\<lambda>c. is_letter c \<or> is_digit c \<or> c \<in> set ''._%+-'')), lit ''@'',
     plus1 (Cls (\<lambda>c. is_letter c \<or> is_digit c \<or> c \<in> set ''.-'')), lit ''.'',
     Seq (rep 2 (Cls is_letter)) (Star (Cls is_letter)), Bound]"

definition no_separators :: "string \<Rightarrow> string" where
  \<comment> \<open>\<open>s.replace('-', '').replace(' ', '')\<close>\<close>
  "no_separators s = filter (\<lambda>c. c \<noteq> CHR ''-'' \<and> c \<noteq> CHR '' '') s"

fun every_other :: "'a list \<Rightarrow> 'a list" where
  \<comment> \<open>\<open>xs[::2]\<close>\<close>
  "every_other [] = []"
| "every_other [x] = [x]"
| "every_other (x # y # xs) = x # every_other xs"

definition pii_luhn_check :: "string \<Rightarrow> bool" where
  "pii_luhn_check number =
     (let s = no_separators number in
      if \<not> list_all is_digit s then False
      else
        (let digits = rev (map digit_val s);
             checksum = sum_list (every_other digits) +
               sum_list (map (\<lambda>d. d * 2 div 10 + d * 2 mod 10) (every_other (drop 1 digits)))
         in checksum mod 10 = 0))"

definition add_found :: "string \<Rightarrow> rx \<Rightarrow> string \<Rightarrow> (string, nat) pydict \<Rightarrow> (string, nat) pydict" where
  "add_found name r text findings =
     (if search r text then dict_set name (length (findall r text)) findings else findings)"

definition valid_card :: "string \<Rightarrow> bool" where
  "valid_card m = (let cleaned = no_separators m in
     13 \<le> length cleaned \<and> length cleaned \<le> 19 \<and> pii_luhn_check cleaned)"

definition pii_scan :: "(string \<Rightarrow> string) \<Rightarrow> string \<Rightarrow> (string, nat) pydict" where
  "pii_scan nfkc raw =
     (let t = sanitize_input nfkc raw;
          f1 = add_found ''SIN'' sin_formatted t [];
          f2 = foldl (\<lambda>f m. if pii_luhn_check m then dict_set ''SIN'' (dict_get_or f ''SIN'' 0 + 1) f else f) f1
                 (findall sin_unformatted t);
          f3 = add_found ''health_card'' health_card t f2;
          f4 = add_found ''phone'' phone t f3;
          n = length (filter valid_card (findall credit_card t));
          f5 = (if 0 < n then dict_set ''credit_card'' n f4 else f4);
          f6 = add_found ''driver_license'' driver_license t f5;
          f7 = add_found ''passport'' passport t f6
      in add_found ''email'' email_address t f7)"

section \<open>Verification by the language model\<close>

fun fenced :: "string \<Rightarrow> string" where
  \<comment> \<open>the text up to the next fence\<close>
  "fenced [] = []"
| "fenced (c # s) = (if prefix ''```'' (c # s) then [] else c # fenced s)"

definition unfence :: "string \<Rightarrow> string" where
  "unfence raw =
     (if prefix ''```'' raw
      then (let s = fenced (drop 3 raw) in if prefix ''json'' s then drop 4 s else s)
      else raw)"

datatype json_value = JsonError | JsonList "string list" | JsonOther

datatype llm_reply = LlmText string | LlmStatus | LlmRaises

definition confirm_types :: "(string \<Rightarrow> json_value) \<Rightarrow> llm_reply \<Rightarrow> string list \<Rightarrow> string list" where
  \<comment> \<open>\<open>verify_with_llm\<close>; the members of a JSON list that are not strings equal no type and are left out\<close>
  "confirm_types loads reply pii_types =
     (if pii_types = [] then []
      else case reply of
        LlmText r \<Rightarrow>
          (let raw = unfence (strip r) in
           case loads raw of
             JsonList confirmed \<Rightarrow> filter (\<lambda>t. t \<in> set pii_types) confirmed
           | JsonOther \<Rightarrow> []
           | JsonError \<Rightarrow> filter (\<lambda>t. substr (lower t) (lower raw)) pii_types)
      | LlmStatus \<Rightarrow> []
      | LlmRaises \<Rightarrow> [])"

definition verified_pii :: "(string \<Rightarrow> json_value) \<Rightarrow> bool \<Rightarrow> llm_reply \<Rightarrow> (string, nat) pydict \<Rightarrow> (string, nat) pydict" where
  \<comment> \<open>how \<open>enforce_check\<close> of the worker uses the answer\<close>
  "verified_pii loads enabled reply pii =
     (if enabled \<and> pii \<noteq> []
      then (let confirmed = confirm_types loads reply (map fst pii) in
            if confirmed = [] then pii else filter (\<lambda>(k, v). k \<in> set confirmed) pii)
      else pii)"

section \<open>Masking (rewriter.py)\<close>

definition mask_categories :: "(string, rx list) pydict \<Rightarrow> string \<Rightarrow> string" where
  "mask_categories pats text =
     foldl (\<lambda>t (category, rs). foldl (\<lambda>u r. re_sub r (''['' @ upper category @ '']'') u) t rs) text pats"

definition rewrite_toxic :: "llm_reply \<Rightarrow> string \<Rightarrow> string" where
  "rewrite_toxic reply text =
     (case reply of
        LlmText r \<Rightarrow> (let rewritten = strip r in if 0 < length rewritten \<and> rewritten \<noteq> text then rewritten else text)
      | LlmStatus \<Rightarrow> text | LlmRaises \<Rightarrow> text)"

section \<open>Properties\<close>

lemma every_other_luhn:
  assumes "list_all (\<lambda>d. d < 10) ds"
  shows "luhn_sum False ds = sum_list (every_other ds) +
           sum_list (map (\<lambda>d. d * 2 div 10 + d * 2 mod 10) (every_other (drop 1 ds)))"
proof -
  have "list_all (\<lambda>d. luhn_digit True d = d * 2 div 10 + d * 2 mod 10) [0..<10]" by code_simp
  then have "\<forall>d \<in> set [0..<10]. luhn_digit True d = d * 2 div 10 + d * 2 mod 10" by (simp only: list_all_iff)
  then have two: "luhn_digit True d = d * 2 div 10 + d * 2 mod 10" if "d < 10" for d :: nat
    using that by (metis atLeastLessThan_iff le0 set_upt)
  show ?thesis using assms
  proof (induction ds rule: every_other.induct)
    case (3 x y xs)
    then show ?case using two [of y] by (cases xs) (auto simp: luhn_digit_def)
  qed (simp_all add: luhn_digit_def)
qed

lemma no_separators_digits: "list_all is_digit s \<Longrightarrow> no_separators s = s"
  by (auto simp: no_separators_def list_all_iff is_digit_def Let_def filter_id_conv)

text \<open>
  the Luhn check of the PII detector agrees with that of the payment-card module: on the numbers
  with at least 13 digits and no separators they answer the same, and the latter rejects all others.
\<close>

theorem luhn_implementations_agree:
  "luhn_check s \<longleftrightarrow> list_all is_digit s \<and> 13 \<le> length s \<and> pii_luhn_check s"
proof (cases "list_all is_digit s")
  case True
  have "list_all (\<lambda>d. d < 10) (rev (map digit_val s))"
    using True by (auto simp: list_all_iff intro!: digit_val_less)
  from every_other_luhn [OF this] True show ?thesis
    by (auto simp: luhn_check_def pii_luhn_check_def Let_def no_separators_digits)
next
  case False
  then show ?thesis by (simp add: luhn_check_def)
qed

text \<open>When a keyword counts: it occurs with no word character on either side.\<close>

definition occurs_as_word :: "string \<Rightarrow> string \<Rightarrow> bool" where
  "occurs_as_word kw t \<longleftrightarrow>
     (\<exists>i \<le> length t. prefix kw (drop i t) \<and> boundary_at t i \<and> boundary_at t (i + length kw))"

lemma search_keyword: "search (keyword_pattern kw) t \<longleftrightarrow> occurs_as_word kw t"
  by (auto simp: search_iff keyword_pattern_def rmatch_simps rmatch_lit occurs_as_word_def)

definition keyword_hit :: "string \<Rightarrow> string \<Rightarrow> bool" where
  "keyword_hit severity t \<longleftrightarrow> (\<exists>kw \<in> set (dict_get_or toxic_keywords severity []). occurs_as_word kw t)"

definition severities :: "string list" where
  "severities = [''severe'', ''high'', ''medium'', ''low'']"

text \<open>
  the keyword check flags a text exactly when a keyword of a severity that the enabled
  categories admit occurs in it as a word; the score is that of the gravest such severity.
\<close>

theorem keywords_gravest:
  "fst (check_toxic_keywords text en) = (\<exists>v \<in> set severities. severity_on en v \<and> keyword_hit v (lower text)) \<and>
   fst (snd (check_toxic_keywords text en)) =
     Max (insert 0 (severity_score ` {v \<in> set severities. severity_on en v \<and> keyword_hit v (lower text)}))"
proof -
  define on where "on v \<longleftrightarrow> severity_on en v \<and> keyword_hit v (lower text)" for v
  have score: "severity_score ''severe'' = 0.95" "severity_score ''high'' = 0.85" "severity_score ''medium'' = 0.75"
    "severity_score ''low'' = 0.65"
    by (simp_all add: severity_score_def dict_get_or_def)
  have "check_toxic_keywords text en =
      (if on ''severe'' then (True, 0.95, ''keyword (severe)'') else if on ''high'' then (True, 0.85, ''keyword (high)'')
       else if on ''medium'' then (True, 0.75, ''keyword (medium)'') else if on ''low'' then (True, 0.65, ''keyword (low)'')
       else (False, 0, ''unknown''))"
    unfolding check_toxic_keywords_def on_def keyword_hit_def dict_get_or_def search_keyword list_ex_iff
    by (simp add: toxic_keywords_def score del: bex_simps ball_simps list.set)
  moreover have "{v \<in> set severities. on v} = (if on ''severe'' then {''severe''} else {}) \<union>
      (if on ''high'' then {''high''} else {}) \<union> (if on ''medium'' then {''medium''} else {}) \<union>
      (if on ''low'' then {''low''} else {})"
    by (auto simp: severities_def)
  ultimately show ?thesis unfolding on_def [symmetric]
    by (auto simp: severities_def score)
qed

text \<open>
  whatever the language model answers, verification keeps a subset of the types found, with
  their counts, and never clears a text: the answer that nothing is personal data (an empty list)
  is taken for a failure, and everything found is kept.
\<close>

theorem verification_never_clears:
  "set (verified_pii loads en reply pii) \<subseteq> set pii \<and> (verified_pii loads en reply pii = [] \<longleftrightarrow> pii = []) \<and>
   verified_pii (\<lambda>_. JsonList []) en reply pii = pii"
proof -
  have sub: "set (confirm_types loads reply ts) \<subseteq> set ts" for ts
  proof (cases reply)
    case (LlmText r)
    then show ?thesis by (cases "loads (unfence (strip r))") (auto simp: confirm_types_def Let_def)
  qed (simp_all add: confirm_types_def)
  have "filter (\<lambda>(k, v). k \<in> set (confirm_types loads reply (map fst pii))) pii \<noteq> []"
    if "confirm_types loads reply (map fst pii) \<noteq> []"
    using that sub [of "map fst pii"] by (fastforce simp: filter_empty_conv neq_Nil_conv)
  moreover have "confirm_types (\<lambda>_. JsonList []) reply ts = []" for ts
    by (simp add: confirm_types_def Let_def split: llm_reply.splits)
  ultimately show ?thesis by (auto simp: verified_pii_def Let_def)
qed

end
