(* ===== verification/Sanitizer.thy ===== *)
theory Sanitizer
  imports Py_Regex
begin

text \<open>
  Input sanitisation (\<open>services/shared/security/sanitizer.py\<close>): the 21 attack patterns, the
  functions that clean strings and dictionaries, and the decisions of the middleware. The
  application behind the middleware is a parameter. \<open>query_params.items()\<close> yields each key with the
  last of its values, a string.
\<close>

section \<open>Attack patterns\<close>

definition any_char :: rx where
  \<comment> \<open>the dot\<close>
  "any_char = Cls (\<lambda>c. c \<noteq> CHR 0x0A)"

definition sp0 :: rx where "sp0 = Star (Cls is_space)"

definition sql_injection_patterns :: "rx list" where
  "sql_injection_patterns = [
     rx_seq [Bound, lits [''UNION'', ''SELECT'', ''INSERT'', ''UPDATE'', ''DELETE'', ''DROP'', ''ALTER'', ''CREATE'',
       ''TRUNCATE'', ''EXEC'', ''EXECUTE''], Bound],
     rx_seq [Bound, lits [''OR'', ''AND''], plus1 (Cls is_space), plus1 digit, sp0, lit ''='', sp0, plus1 digit],
     lits [''--'', ''#'', ''/*'', ''*/''],
     rx_seq [Bound, lits [''WAITFOR'', ''DELAY'', ''SLEEP'', ''BENCHMARK''], Bound, Star any_char, lit ''('']]"

definition html_tag :: "string \<Rightarrow> rx" where
  \<comment> \<open>\<open><name[^>]*>\<close>\<close>
  "html_tag name = rx_seq [lit ''<'', lit name, Star (Cls (\<lambda>c. c \<noteq> CHR ''>'')), lit ''>'']"

definition xss_patterns :: "rx list" where
  "xss_patterns = [
     rx_seq [html_tag ''script'', LazyStar any_char, lit ''</script>''],
     rx_seq [lit ''javascript:'', sp0],
     rx_alts (map (\<lambda>e. rx_seq [lit e, sp0, lit ''='']) [''onerror'', ''onload'', ''onclick'', ''onmouseover'']),
     html_tag ''iframe'', html_tag ''embed'', html_tag ''object'', html_tag ''svg'',
     rx_seq [lit ''expression'', sp0, lit ''('', Star any_char, lit '')'']]"

definition backslash :: string where "backslash = [CHR 0x5C]"

definition path_traversal_patterns :: "rx list" where
  "path_traversal_patterns = [
     lits [''../'', ''..'' @ backslash],
     lits [''~/'', ''~'' @ backslash],
     rx_alts [lit ''/etc/passwd'', lit ''/etc/shadow'', rx_seq [lit ''/windows/win'', any_char, lit ''ini'']]]"

definition commands :: rx where
  "commands = lits [''rm'', ''cat'', ''bash'', ''sh'', ''powershell'', ''cmd'', ''wget'', ''curl'']"

definition cmd_injection_patterns :: "rx list" where
  "cmd_injection_patterns = [
     rx_seq [lit '';'', sp0, commands, Cls is_space],
     rx_seq [lit ''|'', opt (lit ''|''), sp0, commands, Cls is_space],
     rx_seq [lit ''`'', plus1 (Cls (\<lambda>c. c \<noteq> CHR ''`'')), lit ''`''],
     rx_seq [lit ''${'', Star any_char, lit ''}'']]"

definition nosql_injection_patterns :: "rx list" where
  "nosql_injection_patterns = [
     lits [''$ne'', ''$gt'', ''$lt'', ''$gte'', ''$lte'', ''$regex'', ''$where'', ''$exists''],
     rx_seq [lit ''{'', sp0, opt (lit [CHR 0x22]), lit ''$'', plus1 (Cls is_lower), opt (lit [CHR 0x22]), sp0, lit '':'']]"

definition attack_categories :: "(string \<times> rx list) list" where
  "attack_categories = [
     (''sql_injection'', map ignore_case sql_injection_patterns),
     (''xss'', map ignore_case xss_patterns),
     (''path_traversal'', map ignore_case path_traversal_patterns),
     (''cmd_injection'', map ignore_case cmd_injection_patterns),
     (''nosql_injection'', map ignore_case nosql_injection_patterns)]"

definition attack_patterns :: "rx list" where
  "attack_patterns = concat (map snd attack_categories)"

definition detect_attack_patterns :: "string \<Rightarrow> string option" where
  "detect_attack_patterns v =
     (case List.map_filter (\<lambda>p. match_text p v) attack_patterns of
        [] \<Rightarrow> None
      | m # _ \<Rightarrow>
          (case find (\<lambda>(category, ps). list_ex (\<lambda>p. ends p m 0 \<noteq> []) ps) attack_categories of
             Some (category, _) \<Rightarrow> Some category
           | None \<Rightarrow> Some ''unknown_attack''))"

section \<open>Cleaning\<close>

definition strip_html :: "string \<Rightarrow> string" where
  "strip_html text = re_sub (rx_seq [lit ''<'', plus1 (Cls (\<lambda>c. c \<noteq> CHR ''>'')), lit ''>'']) [] text"

definition sanitize_string :: "nat \<Rightarrow> string \<Rightarrow> string" where
  \<comment> \<open>for a string argument\<close>
  "sanitize_string max_length v = take max_length (strip_html (filter (\<lambda>c. c \<noteq> CHR 0x00) v))"

datatype js =
    JStr string
  | JDict "(string \<times> js) list"
  | JList "js list"
  | JAtom string \<comment> \<open>number, boolean or null\<close>

definition sanitize_item :: "nat \<Rightarrow> js \<Rightarrow> js" where
  "sanitize_item n v = (case v of JStr s \<Rightarrow> JStr (sanitize_string n s) | _ \<Rightarrow> v)"

function sanitize_dict :: "int \<Rightarrow> int \<Rightarrow> nat \<Rightarrow> (string \<times> js) list \<Rightarrow> (string \<times> js) list" where
  \<comment> \<open>\<open>max_depth\<close>, \<open>current_depth\<close> and \<open>max_string_length\<close>\<close>
  "sanitize_dict max_depth current_depth n d =
     (if max_depth < current_depth then []
      else foldl (\<lambda>acc (key, v). dict_set (sanitize_string 255 key) v acc) []
        (map (\<lambda>(key, v). (key, case v of
             JStr s \<Rightarrow> JStr (sanitize_string n s)
           | JDict e \<Rightarrow> JDict (sanitize_dict max_depth (current_depth + 1) n e)
           | JList xs \<Rightarrow> JList (map (sanitize_item n) xs)
           | JAtom a \<Rightarrow> JAtom a)) d))"
  by pat_completeness auto
termination
  by (relation "measure (\<lambda>(max_depth, current_depth, n, d). nat (max_depth + 1 - current_depth))") auto

declare sanitize_dict.simps [simp del]

section \<open>The middleware\<close>

datatype body = NotJson | Body js | Unreadable

record web_request =
  hr_path :: string
  hr_method :: string
  hr_query :: "(string \<times> string) list"
  hr_headers :: "(string \<times> string) list"
  hr_body :: body

datatype sanitizer_answer =
    Rejected string "string option" \<comment> \<open>status 400: the attack type, and the parameter or field\<close>
  | RejectedHeader string
  | Forwarded

definition exempt_paths :: "string list" where
  "exempt_paths = [''/health'', ''/api/docs'', ''/api/redoc'', ''/api/openapi.json'']"

definition first_attack :: "(string \<times> string) list \<Rightarrow> (string \<times> string) option" where
  \<comment> \<open>the first of the texts that is an attack, with its key and type\<close>
  "first_attack kvs = (case List.map_filter (\<lambda>(k, v). map_option (\<lambda>a. (k, a)) (detect_attack_patterns v)) kvs of
     [] \<Rightarrow> None | x # _ \<Rightarrow> Some x)"

definition query_texts :: "(string \<times> string) list \<Rightarrow> (string \<times> string) list" where
  \<comment> \<open>\<open>for value in values\<close>, where \<open>values\<close> is a string\<close>
  "query_texts q = concat (map (\<lambda>(k, vs). map (\<lambda>c. (k, [c])) vs) q)"

definition dangerous_headers :: "string list" where
  "dangerous_headers = [''x-forwarded-for'', ''x-real-ip'', ''user-agent'', ''referer'']"

definition body_texts :: "body \<Rightarrow> (string \<times> string) list" where
  "body_texts b = (case b of Body (JDict d) \<Rightarrow>
     List.map_filter (\<lambda>(k, v). case v of JStr s \<Rightarrow> Some (k, s) | _ \<Rightarrow> None) d | _ \<Rightarrow> [])"

definition sanitizer_dispatch :: "web_request \<Rightarrow> sanitizer_answer" where
  "sanitizer_dispatch r =
     (if hr_path r \<in> set exempt_paths then Forwarded
      else case first_attack (query_texts (hr_query r)) of
        Some (k, a) \<Rightarrow> Rejected a (Some k)
      | None \<Rightarrow>
          (case first_attack (filter (\<lambda>(k, v). lower k \<in> set dangerous_headers) (hr_headers r)) of
             Some (k, a) \<Rightarrow> RejectedHeader a
           | None \<Rightarrow>
               if hr_method r \<in> {''POST'', ''PUT'', ''PATCH''}
               then (case first_attack (body_texts (hr_body r)) of
                   Some (k, a) \<Rightarrow> Rejected a (Some k) | None \<Rightarrow> Forwarded)
               else Forwarded))"

section \<open>Properties\<close>

lemma detect_iff: "detect_attack_patterns v \<noteq> None \<longleftrightarrow> (\<exists>p \<in> set attack_patterns. search p v)"
proof -
  have m: "match_text p v = None \<longleftrightarrow> \<not> search p v" for p
    by (auto simp: match_text_def search_from_def search_def match_at_def list_ex_iff first_match_None simp del: upt_Suc)
  have n: "List.map_filter f xs = [] \<longleftrightarrow> (\<forall>x \<in> set xs. f x = None)" for f :: "rx \<Rightarrow> string option" and xs
    by (induction xs) (auto simp: map_filter_simps split: option.splits)
  show ?thesis
    using n [of "\<lambda>p. match_text p v" attack_patterns] m
    by (auto simp: detect_attack_patterns_def split: list.splits option.splits)
qed

lemma first_attack_iff:
  "first_attack kvs \<noteq> None \<longleftrightarrow> (\<exists>(k, v) \<in> set kvs. detect_attack_patterns v \<noteq> None)"
proof -
  have "List.map_filter (\<lambda>(k, v). map_option (\<lambda>a. (k, a)) (detect_attack_patterns v)) kvs = [] \<longleftrightarrow>
      (\<forall>(k, v) \<in> set kvs. detect_attack_patterns v = None)"
    by (induction kvs) (auto simp: map_filter_simps split: option.splits)
  then show ?thesis by (auto simp: first_attack_def split: list.splits)
qed

text \<open>A single character is an attack only if it is a number sign.\<close>

lemma pattern_lengths:
  "map (\<lambda>p. 2 \<le> rx_min p) attack_patterns = replicate 2 True @ [False] @ replicate 18 True"
  by (simp add: attack_patterns_def attack_categories_def sql_injection_patterns_def xss_patterns_def path_traversal_patterns_def cmd_injection_patterns_def nosql_injection_patterns_def html_tag_def lit_def lits_def plus1_def rep_range_def opt_def commands_def any_char_def sp0_def digit_def backslash_def numeral_eq_Suc)

lemma search_Alt: "search (Alt a b) s \<longleftrightarrow> search a s \<or> search b s"
  by (auto simp: search_iff rmatch_simps)

lemma hash_case: "lower_char c = CHR ''#'' \<longleftrightarrow> c = CHR ''#''" "upper_char c = CHR ''#'' \<longleftrightarrow> c = CHR ''#''"
proof -
  have r: "of_char c < (256::nat)" by simp
  have eq: "char_of n = CHR ''#'' \<longleftrightarrow> n = 35" if "n < 256" for n :: nat
    using that by (simp add: char_of_eq_iff take_bit_eq_mod)
  show "lower_char c = CHR ''#'' \<longleftrightarrow> c = CHR ''#''" "upper_char c = CHR ''#'' \<longleftrightarrow> c = CHR ''#''"
    using r by (auto simp: lower_char_def upper_char_def is_lower_def Let_def eq)
qed

lemma comment_single: "search (attack_patterns ! 2) [c] \<longleftrightarrow> c = CHR ''#''"
proof -
  have "attack_patterns ! 2 = Alt (ignore_case (lit ''--'')) (Alt (ignore_case (lit ''#''))
      (Alt (ignore_case (lit ''/*'')) (ignore_case (lit ''*/''))))"
    by (simp add: attack_patterns_def attack_categories_def sql_injection_patterns_def lits_def)
  moreover have "search (ignore_case (lit ''#'')) [c] \<longleftrightarrow> c = CHR ''#''"
    by (auto simp: search_iff lit_def rmatch_simps hash_case intro!: exI [of _ 0])
  ultimately show ?thesis
    using short_no_search [of "[c]" "ignore_case (lit ''--'')"] short_no_search [of "[c]" "ignore_case (lit ''/*'')"]
      short_no_search [of "[c]" "ignore_case (lit ''*/'')"]
    by (simp add: search_Alt lit_def)
qed

lemma single_attack: "detect_attack_patterns [c] \<noteq> None \<longleftrightarrow> c = CHR ''#''"
proof -
  have len: "length attack_patterns = 21" using arg_cong [OF pattern_lengths, of length] by simp
  have "rx_min (attack_patterns ! i) \<ge> 2" if "i < 21" "i \<noteq> 2" for i
  proof -
    have "(2 \<le> rx_min (attack_patterns ! i)) = (replicate 2 True @ [False] @ replicate 18 True) ! i"
      using that len arg_cong [OF pattern_lengths, of "\<lambda>l. l ! i"] by (simp only: nth_map)
    with that show ?thesis by (auto simp: nth_append)
  qed
  then have "search (attack_patterns ! i) [c] \<longleftrightarrow> i = 2 \<and> c = CHR ''#''" if "i < 21" for i
    using that short_no_search [of "[c]" "attack_patterns ! i"] comment_single [of c] by (cases "i = 2") force+
  note at = this
  show ?thesis unfolding detect_iff
  proof
    assume "\<exists>p \<in> set attack_patterns. search p [c]"
    then obtain i where "i < 21" "search (attack_patterns ! i) [c]" using len by (auto simp: in_set_conv_nth)
    with at show "c = CHR ''#''" by blast
  next
    assume "c = CHR ''#''"
    with at [of 2] len show "\<exists>p \<in> set attack_patterns. search p [c]" by (intro bexI [of _ "attack_patterns ! 2"]) simp_all
  qed
qed

lemma query_attack:
  "(\<exists>(k, v) \<in> set (query_texts q). P v) \<longleftrightarrow> (\<exists>(k, v) \<in> set q. \<exists>c \<in> set v. P [c])"
proof (induction q)
  case (Cons x q)
  have "query_texts (x # q) = map (\<lambda>c. (fst x, [c])) (snd x) @ query_texts q"
    by (simp add: query_texts_def split_beta)
  then show ?case using Cons.IH by (simp add: bex_Un split_beta)
qed (simp add: query_texts_def)

lemma bex_eq_char: "(\<exists>c \<in> set v. c = d) \<longleftrightarrow> d \<in> set v"
  by blast

text \<open>
  which requests the middleware stops. The loop over the values of a query parameter visits the
  characters of its last value, so that of the 21 patterns only the number sign is ever found there;
  of the body only the texts at the top level are looked at.
\<close>

theorem sanitizer_blocks_iff:
  "sanitizer_dispatch r \<noteq> Forwarded \<longleftrightarrow>
     hr_path r \<notin> set exempt_paths \<and>
     ((\<exists>(k, v) \<in> set (hr_query r). CHR ''#'' \<in> set v) \<or>
      (\<exists>(k, v) \<in> set (hr_headers r). lower k \<in> set dangerous_headers \<and> (\<exists>p \<in> set attack_patterns. search p v)) \<or>
      (hr_method r \<in> {''POST'', ''PUT'', ''PATCH''} \<and>
       (\<exists>d. hr_body r = Body (JDict d) \<and> (\<exists>(k, v) \<in> set d. \<exists>s. v = JStr s \<and> (\<exists>p \<in> set attack_patterns. search p s)))))"
proof -
  have q: "first_attack (query_texts (hr_query r)) \<noteq> None \<longleftrightarrow> (\<exists>(k, v) \<in> set (hr_query r). CHR ''#'' \<in> set v)"
  proof -
    have "first_attack (query_texts q) \<noteq> None \<longleftrightarrow> (\<exists>(k, v) \<in> set q. \<exists>c \<in> set v. detect_attack_patterns [c] \<noteq> None)" for q
      unfolding first_attack_iff query_attack by (rule refl)
    then show ?thesis by (simp only: single_attack bex_eq_char)
  qed
  have h: "first_attack (filter (\<lambda>(k, v). lower k \<in> set dangerous_headers) (hr_headers r)) \<noteq> None \<longleftrightarrow>
      (\<exists>(k, v) \<in> set (hr_headers r). lower k \<in> set dangerous_headers \<and> (\<exists>p \<in> set attack_patterns. search p v))"
    unfolding first_attack_iff detect_iff by auto
  have texts: "(k, s) \<in> set (List.map_filter (\<lambda>(k, v). case v of JStr s \<Rightarrow> Some (k, s) | _ \<Rightarrow> None) d) \<longleftrightarrow>
      (k, JStr s) \<in> set d" for k s d
    by (induction d) (auto simp: map_filter_simps split: option.splits js.splits)
  have b: "first_attack (body_texts (hr_body r)) \<noteq> None \<longleftrightarrow>
      (\<exists>d. hr_body r = Body (JDict d) \<and> (\<exists>(k, v) \<in> set d. \<exists>s. v = JStr s \<and> (\<exists>p \<in> set attack_patterns. search p s)))"
  proof (cases "\<exists>d. hr_body r = Body (JDict d)")
    case True
    then obtain d where d: "hr_body r = Body (JDict d)" by blast
    have "first_attack (body_texts (hr_body r)) \<noteq> None \<longleftrightarrow>
        (\<exists>k s. (k, JStr s) \<in> set d \<and> (\<exists>p \<in> set attack_patterns. search p s))"
      unfolding first_attack_iff detect_iff by (simp add: d body_texts_def texts split_beta Bex_def)
    with d show ?thesis by auto
  next
    case False
    then have "body_texts (hr_body r) = []" by (auto simp: body_texts_def split: body.splits js.splits)
    moreover have "first_attack [] = None" by (simp add: first_attack_def map_filter_simps)
    ultimately show ?thesis using False by simp
  qed
  show ?thesis
    unfolding q [symmetric] h [symmetric] b [symmetric]
    by (auto simp: sanitizer_dispatch_def split: option.splits)
qed

lemma rmatch_ignore_case_lit:
  "length w = length x \<Longrightarrow> prefix w (drop i s) \<Longrightarrow> upper w = x \<Longrightarrow> i \<le> length s \<Longrightarrow>
   rmatch (ignore_case (lit x)) s i (i + length x)"
proof (induction w x arbitrary: i rule: list_induct2)
  case Nil
  then show ?case by (simp add: lit_def rmatch_simps)
next
  case (Cons c w d x)
  then obtain zs where z: "drop i s = c # w @ zs" by (auto simp: prefix_def)
  then have "i < length s" by (metis drop_all list.distinct(1) not_le)
  moreover have "drop (Suc i) s = w @ zs" using z by (simp add: drop_Suc drop_tl)
  ultimately have i: "i < length s" "s ! i = c" "upper_char c = d" "prefix w (drop (Suc i) s)"
    using Cons.prems z by (auto simp: upper_def nth_via_drop)
  with Cons.prems have "rmatch (ignore_case (lit x)) s (Suc i) (Suc i + length x)"
    by (intro Cons.IH) (simp_all add: upper_def)
  with i show ?case by (cases x) (auto simp: lit_def rmatch_simps)
qed

definition sql_words :: "string list" where
  "sql_words = [''UNION'', ''SELECT'', ''INSERT'', ''UPDATE'', ''DELETE'', ''DROP'', ''ALTER'', ''CREATE'',
     ''TRUNCATE'', ''EXEC'', ''EXECUTE'']"

lemma rmatch_alts: "r \<in> set rs \<Longrightarrow> rmatch r s i j \<Longrightarrow> rmatch (rx_alts rs) s i j"
  by (induction rs rule: rx_alts.induct) (auto simp: rmatch_simps)

lemma ignore_case_alts: "ignore_case (rx_alts rs) = rx_alts (map ignore_case rs)" if "rs \<noteq> []"
  using that by (induction rs rule: rx_alts.induct) auto

text \<open>
  an ordinary sentence with one of eleven English words in it (\<open>select\<close>, \<open>update\<close>, \<open>create\<close>,
  in any case) between blanks counts as an attack.
\<close>

theorem prose_is_attack:
  assumes "upper w \<in> set sql_words"
  shows "detect_attack_patterns (u @ '' '' @ w @ '' '' @ v) \<noteq> None"
proof -
  let ?t = "u @ '' '' @ w @ '' '' @ v" and ?i = "Suc (length u)"
  have len: "length (upper w) = length w" "w \<noteq> []" using assms by (auto simp: upper_def sql_words_def)
  have letters: "list_all (\<lambda>x. list_all is_upper x) sql_words" by code_simp
  have "is_word c" if "c \<in> set w" for c
  proof -
    have "is_upper (upper_char c)" using letters assms that by (auto simp: list_all_iff upper_def)
    then show ?thesis by (auto simp: upper_char_def is_word_def split: if_splits)
  qed
  then have ends_word: "is_word (hd w)" "is_word (last w)" using len(2) by simp_all
  have at: "?t ! ?i = hd w" "?t ! (length u + length w) = last w" "?t ! length u = CHR '' ''"
      "?t ! (?i + length w) = CHR '' ''"
    using len(2) by (simp_all add: nth_append hd_conv_nth last_conv_nth nth_Cons')
  have blank: "\<not> is_word (CHR '' '')" by (simp add: is_word_def is_digit_def is_upper_def is_lower_def)
  have b: "boundary_at ?t ?i" "boundary_at ?t (?i + length w)"
    using at len(2) ends_word blank by (auto simp: boundary_at_def word_at_def)
  have "rmatch (ignore_case (lit (upper w))) ?t ?i (?i + length w)"
    using rmatch_ignore_case_lit [of w "upper w" ?i ?t] len(1) by simp
  then have "rmatch (rx_alts (map ignore_case (map lit sql_words))) ?t ?i (?i + length w)"
    using assms by (intro rmatch_alts) auto
  moreover have "sql_words \<noteq> []" by (simp add: sql_words_def)
  ultimately have "rmatch (ignore_case (lits sql_words)) ?t ?i (?i + length w)"
    by (simp add: lits_def ignore_case_alts)
  with b have "search (ignore_case (rx_seq [Bound, lits sql_words, Bound])) ?t"
    unfolding search_iff by (intro exI [of _ ?i] exI [of _ "?i + length w"]) (auto simp: rmatch_simps)
  moreover have "ignore_case (rx_seq [Bound, lits sql_words, Bound]) \<in> set attack_patterns"
    by (simp add: attack_patterns_def attack_categories_def sql_injection_patterns_def sql_words_def)
  ultimately show ?thesis unfolding detect_iff by blast
qed

lemma prose_is_attack_witness: "detect_attack_patterns (''Please'' @ '' '' @ ''update'' @ '' '' @ ''my address'') \<noteq> None"
  by (rule prose_is_attack) code_simp

text \<open>What a cleaned value looks like.\<close>

definition clean_text :: "nat \<Rightarrow> string \<Rightarrow> bool" where
  "clean_text n s \<longleftrightarrow> length s \<le> n \<and> CHR 0x00 \<notin> set s"

fun clean_value :: "nat \<Rightarrow> nat \<Rightarrow> js \<Rightarrow> bool" where
  \<comment> \<open>at most \<open>k\<close> levels of dictionaries; the members of a list that are no texts are arbitrary\<close>
  "clean_value k n (JStr s) = clean_text n s"
| "clean_value 0 n (JDict d) = (d = [])"
| "clean_value (Suc k) n (JDict d) =
     (distinct (map fst d) \<and> (\<forall>(key, v) \<in> set d. clean_text 255 key \<and> clean_value k n v))"
| "clean_value k n (JList xs) = (\<forall>x \<in> set xs. \<forall>s. x = JStr s \<longrightarrow> clean_text n s)"
| "clean_value k n (JAtom a) = True"

lemma set_splice: "set (splice repl s i spans) \<subseteq> set s \<union> set repl"
  by (induction repl s i spans rule: splice.induct) (auto dest: in_set_takeD in_set_dropD)

lemma clean_sanitized: "clean_text n (sanitize_string n s)"
proof -
  have "set (strip_html t) \<subseteq> set t" for t
    using set_splice [of "[]" t] by (fastforce simp: strip_html_def re_sub_def)
  then show ?thesis by (fastforce simp: clean_text_def sanitize_string_def dest: in_set_takeD)
qed

lemma clean_dict_set:
  "clean_value (Suc k) n (JDict acc) \<Longrightarrow> clean_value k n v \<Longrightarrow>
   clean_value (Suc k) n (JDict (dict_set (sanitize_string 255 key) v acc))"
  using clean_sanitized [of 255 key] by (auto simp: distinct_update dest!: dict_set_mem)

fun tidy_value :: "nat \<Rightarrow> nat \<Rightarrow> js \<Rightarrow> bool" where
  \<comment> \<open>nothing in the value needs cleaning, and it has at most \<open>k\<close> levels of dictionaries\<close>
  "tidy_value k n (JStr s) = (sanitize_string n s = s)"
| "tidy_value 0 n (JDict d) = (d = [])"
| "tidy_value (Suc k) n (JDict d) =
     (distinct (map fst d) \<and> (\<forall>(key, v) \<in> set d. sanitize_string 255 key = key \<and> tidy_value k n v))"
| "tidy_value k n (JList xs) = (\<forall>x \<in> set xs. sanitize_item n x = x)"
| "tidy_value k n (JAtom a) = True"

lemma clean_fold:
  "clean_value (Suc k) n (JDict acc) \<Longrightarrow> (\<And>v. v \<in> snd ` set kvs \<Longrightarrow> clean_value k n v) \<Longrightarrow>
   clean_value (Suc k) n (JDict (foldl (\<lambda>acc (key, v). dict_set (sanitize_string 255 key) v acc) acc kvs))"
proof (induction kvs arbitrary: acc)
  case (Cons kv kvs)
  obtain key v where kv: "kv = (key, v)" by force
  have "clean_value (Suc k) n (JDict (dict_set (sanitize_string 255 key) v acc))"
    using Cons.prems by (intro clean_dict_set) (auto simp: kv)
  then have "clean_value (Suc k) n (JDict (foldl (\<lambda>acc (key, v). dict_set (sanitize_string 255 key) v acc)
      (dict_set (sanitize_string 255 key) v acc) kvs))"
    by (rule Cons.IH) (use Cons.prems(2) in simp)
  then show ?case by (simp add: kv del: clean_value.simps)
qed simp

lemma dict_set_fresh: "key \<notin> fst ` set acc \<Longrightarrow> dict_set key v acc = acc @ [(key, v)]"
  by (induction acc) auto

lemma tidy_fold:
  "distinct (map fst (acc @ kvs)) \<Longrightarrow> (\<And>key. key \<in> fst ` set kvs \<Longrightarrow> sanitize_string 255 key = key) \<Longrightarrow>
   foldl (\<lambda>acc (key, v). dict_set (sanitize_string 255 key) v acc) acc kvs = acc @ kvs"
proof (induction kvs arbitrary: acc)
  case (Cons kv kvs)
  obtain key v where kv: "kv = (key, v)" by force
  have "key \<notin> fst ` set acc" using Cons.prems(1) by (auto simp: kv)
  then have "dict_set (sanitize_string 255 key) v acc = acc @ [(key, v)]"
    using Cons.prems(2) dict_set_fresh by (simp add: kv)
  with Cons.IH [of "acc @ [(key, v)]"] Cons.prems show ?case by (simp add: kv)
qed simp

text \<open>
  C34: A cleaned dictionary has, of the dictionaries nested directly in one another, at most
  \<open>max_depth + 1\<close> levels with entries (deeper ones are emptied), its keys are distinct and of at
  most 255 characters, and every text in it, or directly in one of its lists, is within the
  length limit and free of null characters; and a dictionary of at most that many levels in
  which no key and no text needs cleaning is returned as it is. Dictionaries inside lists are
  exempt from all of it: they are passed on as they came, to any depth.
\<close>
theorem sanitized_dict_clean:
  "clean_value (nat (max_depth + 1)) n (JDict (sanitize_dict max_depth 0 n d)) \<and>
   (tidy_value (nat (max_depth + 1)) n (JDict d) \<longrightarrow> sanitize_dict max_depth 0 n d = d)"
proof -
  have "clean_value (nat (max_depth + 1 - current)) n (JDict (sanitize_dict max_depth current n d)) \<and>
     (tidy_value (nat (max_depth + 1 - current)) n (JDict d) \<longrightarrow> sanitize_dict max_depth current n d = d)" for current
  proof (induction max_depth current n d rule: sanitize_dict.induct)
    case (1 max_depth current n d)
    let ?k = "nat (max_depth + 1 - (current + 1))"
    let ?f = "\<lambda>v. case v of JStr s \<Rightarrow> JStr (sanitize_string n s)
           | JDict e \<Rightarrow> JDict (sanitize_dict max_depth (current + 1) n e)
           | JList xs \<Rightarrow> JList (map (sanitize_item n) xs) | JAtom a \<Rightarrow> JAtom a"
    show ?case
    proof (cases "max_depth < current")
      case True
      then show ?thesis by (simp add: sanitize_dict.simps)
    next
      case False
      then have k: "nat (max_depth + 1 - current) = Suc ?k" by simp
      have eq: "sanitize_dict max_depth current n d =
          foldl (\<lambda>acc (key, v). dict_set (sanitize_string 255 key) v acc) [] (map (\<lambda>(key, v). (key, ?f v)) d)"
        using False by (simp add: sanitize_dict.simps [of max_depth current])
      have IH: "clean_value ?k n (JDict (sanitize_dict max_depth (current + 1) n e)) \<and>
          (tidy_value ?k n (JDict e) \<longrightarrow> sanitize_dict max_depth (current + 1) n e = e)" if "(key, JDict e) \<in> set d" for key e
        using 1 [OF False that refl refl] by simp
      have "clean_value ?k n (?f v)" if "(key, v) \<in> set d" for key v
        using IH [of key] that by (cases v) (auto simp: clean_sanitized sanitize_item_def split: js.splits)
      then have "clean_value (Suc ?k) n (JDict (sanitize_dict max_depth current n d))"
        unfolding eq by (intro clean_fold) auto
      moreover have "sanitize_dict max_depth current n d = d" if t: "tidy_value (Suc ?k) n (JDict d)"
      proof -
        have "?f v = v" if "(key, v) \<in> set d" for key v
        proof -
          have "tidy_value ?k n v" using that t by auto
          with IH [of key] that show ?thesis by (cases v) (auto intro: map_idI)
        qed
        then have "map (\<lambda>(key, v). (key, ?f v)) d = d" by (intro map_idI) auto
        with t tidy_fold [of "[]" d] show ?thesis unfolding eq by fastforce
      qed
      ultimately show ?thesis unfolding k by blast
    qed
  qed
  from this [of 0] show ?thesis by simp
qed

lemma sanitized_dict_clean_witness:
  "sanitize_dict 1 0 9 [(''a'', JDict [(''b'', JStr ''x''), (''c'', JList [JDict [(''d'', JDict [(''e'', JStr ''<b>'')])]])])] =
   [(''a'', JDict [(''b'', JStr ''x''), (''c'', JList [JDict [(''d'', JDict [(''e'', JStr ''<b>'')])]])])]"
  by (rule sanitized_dict_clean [THEN conjunct2, rule_format]) code_simp

end
