(* ===== verification/Guardrails.thy ===== *)
theory Guardrails
  imports Pii_Detector Policy_Engines Auth_Roles
begin

text \<open>
  The guardrails service (\<open>services/guardrails/worker.py\<close>, \<open>app/cache.py\<close>, \<open>app/models.py\<close>,
  \<open>app/classifiers\<close>): the two classifiers and their lazy loading, the ensemble, the endpoints
  \<open>generate\<close>, \<open>check\<close> and \<open>feedback\<close>, the response cache, the escalation of repeated violations and
  the stream worker. The models are parameters (a function from a text to labelled scores, \<open>None\<close>
  when it raises), and so are the language model's answers, Unicode normalisation, the digest of the cache and the
  parsing of JSON. Redis lists are lists, newest first. Log messages and counters are left out, and so is
  the number of the injection detector's details in the text of a rejection.
\<close>

section \<open>Classifiers (bert_toxic.py, roberta_toxic.py)\<close>

type_synonym model = "string \<Rightarrow> (string \<times> pyfloat) list option"

record prediction =
  pd_score :: pyfloat
  pd_flagged :: bool
  pd_reason :: string
  pd_labels :: "(string, pyfloat) pydict"

definition label_details :: "(string \<times> pyfloat) list \<Rightarrow> (string, pyfloat) pydict" where
  "label_details results = foldl (\<lambda>d (label, score). dict_set (lower label) (py_round score 4) d) [] results"

definition bert_score :: "(string \<times> pyfloat) list \<Rightarrow> pyfloat" where
  "bert_score results =
     foldl (\<lambda>m (label, score). if lower label \<in> {''toxic'', ''hate''} then max m score else m) 0 results"

definition roberta_score :: "(string \<times> pyfloat) list \<Rightarrow> pyfloat" where
  "roberta_score results = foldl (\<lambda>m (label, score). if lower label = ''toxic'' then score else m) 0 results"

definition clean_prediction :: "string \<Rightarrow> prediction" where
  "clean_prediction reason = \<lparr>pd_score = 0, pd_flagged = False, pd_reason = reason, pd_labels = []\<rparr>"

definition predict :: "((string \<times> pyfloat) list \<Rightarrow> pyfloat) \<Rightarrow> string \<Rightarrow> pyfloat \<Rightarrow> model option \<Rightarrow> string \<Rightarrow> prediction option" where
  \<comment> \<open>\<open>predict\<close> of both classifiers, which differ in the score and in the name within the reason;
     the confidence within the reason is left out\<close>
  "predict score name threshold pipeline text =
     (case pipeline of
        None \<Rightarrow> None
      | Some model \<Rightarrow>
          if strip text = [] then Some (clean_prediction ''empty'')
          else if length (strip text) < 10 then Some (clean_prediction ''too_short'')
          else (case model text of
              None \<Rightarrow> None
            | Some results \<Rightarrow>
                let s = score results; flagged = (threshold \<le> s) in
                Some \<lparr>pd_score = py_round s 4, pd_flagged = flagged,
                  pd_reason = name @ '' classifier: '' @ (if flagged then ''toxic'' else ''not toxic''),
                  pd_labels = label_details results\<rparr>))"

definition bert_predict :: "model option \<Rightarrow> string \<Rightarrow> prediction option" where
  "bert_predict = predict bert_score ''BERT'' (1/2)"

definition roberta_predict :: "model option \<Rightarrow> string \<Rightarrow> prediction option" where
  "roberta_predict = predict roberta_score ''RoBERTa'' (1/2)"

section \<open>Lazy loading (models.py)\<close>

record loader =
  ld_enable_bert :: bool
  ld_enable_roberta :: bool
  ld_bert :: "model option"
  ld_roberta :: "model option"

definition new_loader :: "bool \<Rightarrow> bool \<Rightarrow> loader" where
  "new_loader b r = \<lparr>ld_enable_bert = b, ld_enable_roberta = r, ld_bert = None, ld_roberta = None\<rparr>"

definition get_bert :: "model option \<Rightarrow> loader \<Rightarrow> model option \<times> loader" where
  \<comment> \<open>the first argument is the outcome of loading, should the model have to be loaded\<close>
  "get_bert load m =
     (if ld_bert m = None \<and> ld_enable_bert m then (load, m\<lparr>ld_bert := load\<rparr>) else (ld_bert m, m))"

definition get_roberta :: "model option \<Rightarrow> loader \<Rightarrow> model option \<times> loader" where
  "get_roberta load m =
     (if ld_roberta m = None \<and> ld_enable_roberta m then (load, m\<lparr>ld_roberta := load\<rparr>) else (ld_roberta m, m))"

definition reload_bert :: "model option \<Rightarrow> loader \<Rightarrow> model option \<times> loader" where
  "reload_bert load m = get_bert load (m\<lparr>ld_bert := None\<rparr>)"

definition reload_roberta :: "model option \<Rightarrow> loader \<Rightarrow> model option \<times> loader" where
  "reload_roberta load m = get_roberta load (m\<lparr>ld_roberta := None\<rparr>)"

section \<open>The ensemble (worker.py)\<close>

record loads =
  lo_roberta :: "model option"
  lo_bert :: "model option" \<comment> \<open>the first attempt\<close>
  lo_bert_again :: "model option" \<comment> \<open>the second\<close>

record verdict =
  te_toxic :: bool
  te_score :: pyfloat
  te_reason :: string
  te_source :: string
  te_labels :: "(string, pyfloat) pydict"

definition bert_or_keyword :: "model option \<Rightarrow> (string, pyfloat) pydict \<Rightarrow> loader \<Rightarrow> string \<Rightarrow> verdict \<times> loader" where
  \<comment> \<open>steps 2 and 3\<close>
  "bert_or_keyword load labels m text =
     (case get_bert load m of (bert, m1) \<Rightarrow>
        (case (if bert = None then None else bert_predict bert text) of
           Some r \<Rightarrow>
             if pd_flagged r
             then (\<lparr>te_toxic = True, te_score = pd_score r, te_reason = pd_reason r, te_source = ''bert'', te_labels = pd_labels r\<rparr>, m1)
             else (case check_toxic_keywords text None of (toxic, score, reason) \<Rightarrow>
               (\<lparr>te_toxic = toxic, te_score = score, te_reason = reason, te_source = ''keyword'', te_labels = labels\<rparr>, m1))
         | None \<Rightarrow> (case check_toxic_keywords text None of (toxic, score, reason) \<Rightarrow>
               (\<lparr>te_toxic = toxic, te_score = score, te_reason = reason, te_source = ''keyword'', te_labels = labels\<rparr>, m1))))"

definition detect_toxicity_ensemble :: "loads \<Rightarrow> loader \<Rightarrow> string \<Rightarrow> verdict \<times> loader" where
  "detect_toxicity_ensemble lo m text =
     (case get_roberta (lo_roberta lo) m of (roberta, m1) \<Rightarrow>
        (case (if roberta = None then None else roberta_predict roberta text) of
           None \<Rightarrow> bert_or_keyword (lo_bert lo) [] m1 text
         | Some r \<Rightarrow>
             if 7/10 \<le> pd_score r
             then (\<lparr>te_toxic = pd_flagged r, te_score = pd_score r, te_reason = pd_reason r,
                     te_source = ''roberta_high'', te_labels = pd_labels r\<rparr>, m1)
             else if 5/10 \<le> pd_score r
             then
               (case get_bert (lo_bert lo) m1 of (bert, m2) \<Rightarrow>
                  if bert = None then bert_or_keyword (lo_bert_again lo) (pd_labels r) m2 text
                  else (case bert_predict bert text of
                      Some b \<Rightarrow>
                        if pd_flagged b
                        then (\<lparr>te_toxic = True, te_score = max (pd_score r) (pd_score b),
                                te_reason = ''Ensemble (RoBERTa + BERT)'',
                                te_source = ''ensemble_roberta_bert'', te_labels = dict_merge (pd_labels r) (pd_labels b)\<rparr>, m2)
                        else bert_or_keyword (lo_bert_again lo) (pd_labels r) m2 text
                    | None \<Rightarrow>
                        if pd_flagged r
                        then (\<lparr>te_toxic = True, te_score = pd_score r, te_reason = ''RoBERTa flagged (BERT unavailable)'',
                                te_source = ''roberta_conservative'', te_labels = pd_labels r\<rparr>, m2)
                        else bert_or_keyword (lo_bert_again lo) (pd_labels r) m2 text))
             else bert_or_keyword (lo_bert lo) (pd_labels r) m1 text))"

section \<open>The response cache (cache.py)\<close>

record 'r response_cache =
  rc_entries :: "(string, 'r \<times> pyfloat) pydict"
  rc_max :: nat
  rc_ttl :: pyfloat

definition new_cache :: "'r response_cache" where
  "new_cache = \<lparr>rc_entries = [], rc_max = 10000, rc_ttl = 300\<rparr>"

definition cache_get :: "(string \<Rightarrow> string) \<Rightarrow> pyfloat \<Rightarrow> string \<Rightarrow> 'r response_cache \<Rightarrow> 'r option \<times> 'r response_cache" where
  "cache_get digest now text c =
     (case dict_get (rc_entries c) (digest text) of
        None \<Rightarrow> (None, c)
      | Some (r, stamp) \<Rightarrow>
          if rc_ttl c < now - stamp then (None, c\<lparr>rc_entries := dict_del (digest text) (rc_entries c)\<rparr>)
          else (Some r, c))"

fun oldest :: "(string, 'r \<times> pyfloat) pydict \<Rightarrow> string option" where
  \<comment> \<open>\<open>min\<close> over the keys by their time stamps: the first of the least\<close>
  "oldest [] = None"
| "oldest ((k, r, t) # d) =
     (case oldest d of None \<Rightarrow> Some k
      | Some k' \<Rightarrow> if (case map_of d k' of Some (_, t') \<Rightarrow> t' < t | None \<Rightarrow> False) then Some k' else Some k)"

definition cache_set :: "(string \<Rightarrow> string) \<Rightarrow> pyfloat \<Rightarrow> string \<Rightarrow> 'r \<Rightarrow> 'r response_cache \<Rightarrow> 'r response_cache" where
  "cache_set digest now text r c =
     (let es = (if rc_max c \<le> length (rc_entries c)
                then (case oldest (rc_entries c) of Some k \<Rightarrow> dict_del k (rc_entries c) | None \<Rightarrow> [])
                else rc_entries c)
      in c\<lparr>rc_entries := dict_set (digest text) (r, now) es\<rparr>)"

record cache_stats =
  cs_size :: nat
  cs_max :: nat
  cs_ttl :: pyfloat
  cs_oldest :: "pyfloat option"
  cs_newest :: "pyfloat option"

definition cache_statistics :: "pyfloat \<Rightarrow> 'r response_cache \<Rightarrow> cache_stats" where
  \<comment> \<open>one reading of the clock for all entries\<close>
  "cache_statistics now c =
     (let ages = map (\<lambda>(_, _, t). now - t) (rc_entries c) in
      \<lparr>cs_size = length (rc_entries c), cs_max = rc_max c, cs_ttl = rc_ttl c,
       cs_oldest = (if ages = [] then None else Some (py_round (Max (set ages)) 1)),
       cs_newest = (if ages = [] then None else Some (py_round (Min (set ages)) 1))\<rparr>)"

section \<open>Generation\<close>

datatype ollama_call = Answer string | HttpFailure string | Raises py_error

datatype generated = Generated string | BlockedOutput

definition token_limit :: "int option \<Rightarrow> int" where
  \<comment> \<open>\<open>None\<close>: not an integer\<close>
  "token_limit n = (case n of Some k \<Rightarrow> if k < 1 \<or> 2048 < k then 50 else k | None \<Rightarrow> 50)"

definition generate ::
  "(string \<Rightarrow> string) \<Rightarrow> (string \<Rightarrow> int \<Rightarrow> ollama_call) \<Rightarrow> loads \<Rightarrow> loader \<Rightarrow> string \<Rightarrow> int option \<Rightarrow>
   (py_error + generated) \<times> loader" where
  "generate nfkc ollama lo m prompt max_tokens =
     (if prompt = [] then (Inl (HTTPException 400 ''Missing prompt''), m)
      else
        (case detect_and_sanitize nfkc prompt of (t, found) \<Rightarrow>
           (case validate_input_size t of
              Some e \<Rightarrow> (Inl (HTTPException 400 e), m)
            | None \<Rightarrow>
                if li_detected found \<and> 7/10 \<le> li_confidence found
                then (Inl (HTTPException 400 ''Input rejected''), m)
                else (case ollama t (token_limit max_tokens) of
                    HttpFailure e \<Rightarrow> (Inl (HTTPException 500 (''Ollama error: '' @ e)), m)
                  | Raises e \<Rightarrow> (Inl e, m)
                  | Answer response \<Rightarrow>
                      (case detect_toxicity_ensemble lo m response of (v, m1) \<Rightarrow>
                         if te_toxic v \<or> pii_scan nfkc response \<noteq> []
                         then (Inr BlockedOutput, m1)
                         else (Inr (Generated response), m1))))))"

section \<open>The check endpoint\<close>

record check_response =
  cp_action :: string
  cp_reason :: "string option"
  cp_rewritten :: "string option"
  cp_toxic :: bool
  cp_score :: pyfloat
  cp_pii :: "string list option"
  cp_source :: string
  cp_labels :: "(string, pyfloat) pydict option"

definition check_context_of :: "verdict \<Rightarrow> string list \<Rightarrow> string \<Rightarrow> guard_context" where
  "check_context_of v pii text = \<lparr>gc_text = text, gc_toxic = te_toxic v, gc_score = te_score v, gc_pii = map Some pii\<rparr>"

definition check_text ::
  "(string \<Rightarrow> string) \<Rightarrow> (string \<Rightarrow> json_value) \<Rightarrow> bool \<Rightarrow> llm_reply \<Rightarrow> content_rule list \<Rightarrow> loads \<Rightarrow> loader \<Rightarrow> string \<Rightarrow>
   check_response \<times> loader" where
  \<comment> \<open>\<open>enforce_check\<close> after a cache miss\<close>
  "check_text nfkc loads_json verify reply rules lo m text =
     (let pii = map fst (verified_pii loads_json verify reply (pii_scan nfkc text)) in
      case detect_toxicity_ensemble lo m text of (v, m1) \<Rightarrow>
        (let d = evaluate_policies rules (check_context_of v pii text) in
         (\<lparr>cp_action = pr_action d, cp_reason = pr_reason d, cp_rewritten = pr_text d, cp_toxic = te_toxic v,
           cp_score = te_score v, cp_pii = (if pii = [] then None else Some pii), cp_source = te_source v,
           cp_labels = (if te_labels v = [] then None else Some (te_labels v))\<rparr>, m1)))"

definition enforce_check ::
  "(string \<Rightarrow> string) \<Rightarrow> (string \<Rightarrow> string) \<Rightarrow> (string \<Rightarrow> json_value) \<Rightarrow> bool \<Rightarrow> pyfloat \<Rightarrow> pyfloat \<Rightarrow> llm_reply \<Rightarrow>
   content_rule list \<Rightarrow> loads \<Rightarrow> loader \<Rightarrow> string \<Rightarrow> check_response response_cache \<Rightarrow>
   (py_error + check_response) \<times> loader \<times> check_response response_cache" where
  \<comment> \<open>the two times are those of the lookup and of the store\<close>
  "enforce_check digest nfkc loads_json verify t1 t2 reply rules lo m text c =
     (if text = [] then (Inl (HTTPException 400 ''Missing text''), m, c)
      else (case cache_get digest t1 text c of
          (Some r, c1) \<Rightarrow> (Inr r, m, c1)
        | (None, c1) \<Rightarrow>
            (case check_text nfkc loads_json verify reply rules lo m text of (r, m1) \<Rightarrow>
               (Inr r, m1, cache_set digest t2 text r c1))))"

section \<open>Feedback (worker.py)\<close>

record feedback =
  fb_text :: string
  fb_flagged :: bool
  fb_toxic :: bool
  fb_correct :: bool
  fb_time :: pyfloat

record online_eval =
  oe_total :: nat
  oe_right :: nat
  oe_fp :: nat
  oe_fn :: nat
  oe_history :: "feedback list"

definition new_online_eval :: online_eval where
  "new_online_eval = \<lparr>oe_total = 0, oe_right = 0, oe_fp = 0, oe_fn = 0, oe_history = []\<rparr>"

definition max_history :: nat where "max_history = 1000"

definition ratio :: "nat \<Rightarrow> nat \<Rightarrow> pyfloat option" where
  \<comment> \<open>\<open>round(a / b, 4) if b > 0 else None\<close>\<close>
  "ratio a b = (if 0 < b then Some (py_round (real a / real b) 4) else None)"

definition submit_feedback :: "pyfloat \<Rightarrow> string \<Rightarrow> bool \<Rightarrow> bool \<Rightarrow> online_eval \<Rightarrow> (nat \<times> pyfloat) \<times> online_eval" where
  \<comment> \<open>the reply is the total and the running accuracy\<close>
  "submit_feedback now text flagged toxic e =
     (let e1 = e\<lparr>oe_total := oe_total e + 1\<rparr>;
          e2 = (if flagged = toxic then e1\<lparr>oe_right := oe_right e1 + 1\<rparr>
                else if flagged \<and> \<not> toxic then e1\<lparr>oe_fp := oe_fp e1 + 1\<rparr>
                else if \<not> flagged \<and> toxic then e1\<lparr>oe_fn := oe_fn e1 + 1\<rparr>
                else e1);
          entry = \<lparr>fb_text = take 100 text, fb_flagged = flagged, fb_toxic = toxic, fb_correct = (flagged = toxic), fb_time = now\<rparr>;
          h = oe_history e2 @ [entry];
          e3 = e2\<lparr>oe_history := (if max_history < length h then take_last 500 h else h)\<rparr>
      in ((oe_total e3, if 0 < oe_total e3 then py_round (real (oe_right e3) / real (oe_total e3)) 4 else 0), e3))"

record eval_status =
  es_total :: nat
  es_accuracy :: "pyfloat option"
  es_precision :: "pyfloat option"
  es_recall :: "pyfloat option"
  es_fp :: nat
  es_fn :: nat
  es_recent :: "feedback list"

definition get_evaluation_status :: "online_eval \<Rightarrow> eval_status" where
  "get_evaluation_status e =
     \<lparr>es_total = oe_total e, es_accuracy = ratio (oe_right e) (oe_total e),
      es_precision = ratio (oe_right e) (oe_right e + oe_fp e),
      es_recall = ratio (oe_right e) (oe_right e + oe_fn e),
      es_fp = oe_fp e, es_fn = oe_fn e, es_recent = take_last 10 (oe_history e)\<rparr>"

section \<open>Escalation and model selection (worker.py)\<close>

record escalation_threshold =
  et_count :: nat
  et_window :: pyfloat
  et_action :: string

definition violation_thresholds :: "(string, escalation_threshold) pydict" where
  "violation_thresholds = [
     (''toxicity'', \<lparr>et_count = 10, et_window = 300, et_action = ''notify_admin''\<rparr>),
     (''pii_leak'', \<lparr>et_count = 5, et_window = 300, et_action = ''block_model''\<rparr>),
     (''critical'', \<lparr>et_count = 3, et_window = 60, et_action = ''immediate_block''\<rparr>)]"

definition threshold_of :: "string \<Rightarrow> escalation_threshold" where
  "threshold_of vtype = dict_get_or violation_thresholds vtype \<lparr>et_count = 10, et_window = 300, et_action = ''notify_admin''\<rparr>"

record escalation_state =
  sc_lists :: "string \<Rightarrow> pyfloat list \<times> pyfloat" \<comment> \<open>per key: the newest times first, and the expiry time\<close>
  sc_log :: "string \<Rightarrow> (string \<times> string) list" \<comment> \<open>\<open>escalations:{model}\<close>: types and actions, newest first\<close>
  sc_hooks :: "(string \<times> string \<times> string) list" \<comment> \<open>webhook calls made\<close>

definition violation_key :: "string \<Rightarrow> string \<Rightarrow> string" where
  "violation_key m vtype = ''escalation:'' @ m @ '':'' @ vtype"

definition live_list :: "pyfloat \<Rightarrow> pyfloat list \<times> pyfloat \<Rightarrow> pyfloat list" where
  \<comment> \<open>Redis drops the key once its expiry time is reached\<close>
  "live_list now e = (if snd e \<le> now then [] else fst e)"

definition escalate :: "bool \<Rightarrow> string \<Rightarrow> string \<Rightarrow> escalation_threshold \<Rightarrow> escalation_state \<Rightarrow> escalation_state" where
  \<comment> \<open>the first argument: a webhook is configured; its failures are swallowed\<close>
  "escalate hook m vtype th s =
     s\<lparr>sc_log := (sc_log s)(m := take 50 ((vtype, et_action th) # sc_log s m)),
       sc_hooks := (if hook then sc_hooks s @ [(m, vtype, et_action th)] else sc_hooks s)\<rparr>"

definition record_violation :: "bool \<Rightarrow> pyfloat \<Rightarrow> string \<Rightarrow> string \<Rightarrow> escalation_state \<Rightarrow> bool \<times> escalation_state" where
  "record_violation hook now m vtype s =
     (let key = violation_key m vtype;
          times = take 100 (now # live_list now (sc_lists s key));
          s1 = s\<lparr>sc_lists := (sc_lists s)(key := (times, now + 3600))\<rparr>;
          th = threshold_of vtype;
          recent = length (filter (\<lambda>v. now - et_window th < v) times)
      in if et_count th \<le> recent then (True, escalate hook m vtype th s1) else (False, s1))"

record model_selector =
  ms_primary :: string
  ms_fallback :: string
  ms_latencies :: "pyfloat list"
  ms_fallback_until :: "int option" \<comment> \<open>the Redis value \<open>guardrails:fallback_until\<close>\<close>

definition record_latency :: "pyfloat \<Rightarrow> model_selector \<Rightarrow> model_selector" where
  "record_latency seconds s = s\<lparr>ms_latencies := take 10 (seconds # ms_latencies s)\<rparr>"

definition get_model :: "pyfloat \<Rightarrow> model_selector \<Rightarrow> string" where
  "get_model now s = (case ms_fallback_until s of
     Some u \<Rightarrow> if now < real_of_int u then ms_fallback s else ms_primary s | None \<Rightarrow> ms_primary s)"

section \<open>Authentication and the stream worker\<close>

definition require_auth :: "string \<Rightarrow> string \<Rightarrow> (string \<Rightarrow> claims option) \<Rightarrow> string option \<Rightarrow> py_error + claims" where
  \<comment> \<open>\<open>SERVICE_TOKEN\<close>, the header \<open>X-Service-Token\<close> (empty when missing), the token check, the bearer token\<close>
  "require_auth service_token supplied verify credentials =
     (if service_token \<noteq> [] \<and> supplied \<noteq> [] \<and> supplied = service_token
      then Inr [(''sub'', Text ''service''), (''role'', Text ''service'')]
      else case credentials of
        None \<Rightarrow> Inl (HTTPException 401 ''Missing authorization header'')
      | Some t \<Rightarrow> (case verify t of
          None \<Rightarrow> Inl (HTTPException 401 ''Invalid or expired token'')
        | Some payload \<Rightarrow> Inr payload))"

record trace =
  tr_id :: "string option" \<comment> \<open>\<open>None\<close> when the key is missing\<close>
  tr_completion :: string
  tr_time :: "string option"

record guardrail_result =
  gr_trace :: string
  gr_toxic :: bool
  gr_score :: pyfloat
  gr_reason :: "string option"
  gr_pii :: "string list"
  gr_action :: string
  gr_text :: "string option"
  gr_time :: string

definition evaluate_trace ::
  "(string \<Rightarrow> string) \<Rightarrow> content_rule list \<Rightarrow> loads \<Rightarrow> loader \<Rightarrow> trace \<Rightarrow> (py_error + guardrail_result) \<times> loader" where
  \<comment> \<open>\<open>GuardrailsWorker.evaluate\<close>\<close>
  "evaluate_trace nfkc rules lo m tr =
     (let pii = map fst (pii_scan nfkc (tr_completion tr)) in
      case detect_toxicity_ensemble lo m (tr_completion tr) of (v, m1) \<Rightarrow>
        (let d = evaluate_policies rules (check_context_of v pii (tr_completion tr)) in
         (case (tr_id tr, tr_time tr) of
            (Some i, Some t) \<Rightarrow>
              Inr \<lparr>gr_trace = i, gr_toxic = te_toxic v, gr_score = te_score v, gr_reason = pr_reason d, gr_pii = pii,
                gr_action = pr_action d, gr_text = pr_text d, gr_time = t\<rparr>
          | _ \<Rightarrow> Inl KeyError, m1)))"

record result_row =
  rr_toxic :: bool
  rr_score :: pyfloat
  rr_reason :: "string option"
  rr_pii :: "string list"
  rr_time :: string

definition store_in_db :: "guardrail_result \<Rightarrow> (string, result_row) pydict \<Rightarrow> (string, result_row) pydict" where
  \<comment> \<open>\<open>ON CONFLICT (trace_id) DO UPDATE\<close> leaves the time stamp of an old row\<close>
  "store_in_db r db = dict_set (gr_trace r)
     \<lparr>rr_toxic = gr_toxic r, rr_score = gr_score r, rr_reason = gr_reason r, rr_pii = gr_pii r,
      rr_time = (case dict_get db (gr_trace r) of Some row \<Rightarrow> rr_time row | None \<Rightarrow> gr_time r)\<rparr> db"

record streams =
  st_results :: "guardrail_result list"
  st_dlq :: "string list" \<comment> \<open>the original messages\<close>
  st_acked :: "nat list"
  st_db :: "(string, result_row) pydict"

record stream_message =
  mg_id :: nat
  mg_trace :: "string option" \<comment> \<open>the field \<open>trace\<close>\<close>

datatype worker_outcome = Running streams | Crashed py_error streams

definition dead_letter :: "stream_message \<Rightarrow> streams \<Rightarrow> worker_outcome" where
  \<comment> \<open>the handler of \<open>except Exception\<close>\<close>
  "dead_letter mg s = (case mg_trace mg of
     None \<Rightarrow> Crashed KeyError s
   | Some t \<Rightarrow> Running (s\<lparr>st_dlq := st_dlq s @ [t], st_acked := st_acked s @ [mg_id mg]\<rparr>))"

definition process_message :: "(string \<Rightarrow> (py_error + guardrail_result)) \<Rightarrow> (guardrail_result \<Rightarrow> bool) \<Rightarrow> stream_message \<Rightarrow> streams \<Rightarrow> worker_outcome" where
  \<comment> \<open>one round of the inner loop of \<open>run\<close>: parsing and evaluation of the trace, and whether its row is stored\<close>
  "process_message evaluate saved mg s =
     (case mg_trace mg of
        None \<Rightarrow> dead_letter mg s
      | Some t \<Rightarrow>
          (case evaluate t of
             Inl e \<Rightarrow> dead_letter mg s
           | Inr r \<Rightarrow>
               (let s1 = s\<lparr>st_results := st_results s @ [r]\<rparr> in
                if saved r
                then Running (s1\<lparr>st_db := store_in_db r (st_db s1), st_acked := st_acked s1 @ [mg_id mg]\<rparr>)
                else dead_letter mg s1)))"

fun run_worker :: "(string \<Rightarrow> (py_error + guardrail_result)) \<Rightarrow> (guardrail_result \<Rightarrow> bool) \<Rightarrow> stream_message list \<Rightarrow> streams \<Rightarrow> worker_outcome" where
  "run_worker evaluate saved [] s = Running s"
| "run_worker evaluate saved (mg # mgs) s =
     (case process_message evaluate saved mg s of
        Running s1 \<Rightarrow> run_worker evaluate saved mgs s1
      | Crashed e s1 \<Rightarrow> Crashed e s1)"

section \<open>Properties of the ensemble and of generation\<close>

lemma predict_score_flagged:
  assumes "predict score name (1/2) p text = Some r" "7/10 \<le> pd_score r"
  shows "pd_flagged r"
proof -
  have "1/2 \<le> s" if "7/10 \<le> py_round s 4" for s
    using that abs_le_D1 [OF py_round_error [of s 4]] by simp
  with assms show ?thesis
    by (auto simp: predict_def clean_prediction_def Let_def split: option.splits if_splits)
qed

lemma short_text_clean:
  "length (strip text) < 10 \<Longrightarrow> p \<noteq> None \<Longrightarrow>
   \<exists>r. predict score name th p text = Some r \<and> pd_score r = 0 \<and> \<not> pd_flagged r"
  by (auto simp: predict_def clean_prediction_def split: option.splits)

lemma ensemble_loaded:
  "te_toxic (fst (detect_toxicity_ensemble lo
      \<lparr>ld_enable_bert = e, ld_enable_roberta = e', ld_bert = Some B, ld_roberta = Some R\<rparr> text)) \<longleftrightarrow>
     (case roberta_predict (Some R) text of None \<Rightarrow> False
      | Some r \<Rightarrow> 7/10 \<le> pd_score r \<or> 5/10 \<le> pd_score r \<and> pd_flagged r \<and> bert_predict (Some B) text = None) \<or>
     (case bert_predict (Some B) text of None \<Rightarrow> False | Some b \<Rightarrow> pd_flagged b) \<or>
     fst (check_toxic_keywords text None)"
  using predict_score_flagged [of roberta_score "''RoBERTa''" "Some R" "text"]
  by (auto simp: detect_toxicity_ensemble_def get_roberta_def get_bert_def bert_or_keyword_def roberta_predict_def
      split: option.splits prod.splits)

lemma ensemble_without_bert:
  "te_toxic (fst (detect_toxicity_ensemble lo
      \<lparr>ld_enable_bert = False, ld_enable_roberta = e', ld_bert = None, ld_roberta = Some R\<rparr> text)) \<longleftrightarrow>
     (case roberta_predict (Some R) text of None \<Rightarrow> False | Some r \<Rightarrow> 7/10 \<le> pd_score r) \<or>
     fst (check_toxic_keywords text None)"
  using predict_score_flagged [of roberta_score "''RoBERTa''" "Some R" "text"]
  by (auto simp: detect_toxicity_ensemble_def get_roberta_def get_bert_def bert_or_keyword_def roberta_predict_def
      split: option.splits prod.splits)

text \<open>
  with both classifiers loaded a text is toxic exactly when RoBERTa scores at least 0.7, or BERT
  flags it, or RoBERTa flags it with at least 0.5 and BERT fails, or a keyword occurs in it. Without
  BERT a score between 0.5 and 0.7 is not enough, although the code means to be conservative then.
\<close>

theorem ensemble_verdict:
  "(te_toxic (fst (detect_toxicity_ensemble lo
      \<lparr>ld_enable_bert = e, ld_enable_roberta = e', ld_bert = Some B, ld_roberta = Some R\<rparr> text)) \<longleftrightarrow>
     (case roberta_predict (Some R) text of None \<Rightarrow> False
      | Some r \<Rightarrow> 7/10 \<le> pd_score r \<or> 5/10 \<le> pd_score r \<and> pd_flagged r \<and> bert_predict (Some B) text = None) \<or>
     (case bert_predict (Some B) text of None \<Rightarrow> False | Some b \<Rightarrow> pd_flagged b) \<or>
     fst (check_toxic_keywords text None)) \<and>
   (te_toxic (fst (detect_toxicity_ensemble lo
      \<lparr>ld_enable_bert = False, ld_enable_roberta = e', ld_bert = None, ld_roberta = Some R\<rparr> text)) \<longleftrightarrow>
     (case roberta_predict (Some R) text of None \<Rightarrow> False | Some r \<Rightarrow> 7/10 \<le> pd_score r) \<or>
     fst (check_toxic_keywords text None))"
  by (intro conjI ensemble_loaded ensemble_without_bert)

lemma ensemble_clean_keywords:
  "\<not> te_toxic (fst (detect_toxicity_ensemble lo m text)) \<Longrightarrow> \<not> fst (check_toxic_keywords text None)"
  using predict_score_flagged [of roberta_score "''RoBERTa''" _ "text"]
  by (auto simp: detect_toxicity_ensemble_def bert_or_keyword_def roberta_predict_def Let_def
      split: option.splits prod.splits if_splits)

text \<open>
  C12: a text that the generation endpoint delivers is the unchanged answer of the language model to
  the sanitised prompt, which the injection detector did not refuse; the ensemble finds the
  text not toxic, no toxic keyword occurs in it and the scanner finds no personal data.
\<close>

theorem generated_text_checked:
  assumes "generate nfkc ollama lo m prompt n = (Inr (Generated r), m')"
  shows "\<not> block_worthy (sanitize_input nfkc prompt) \<and> ollama (sanitize_input nfkc prompt) (token_limit n) = Answer r \<and>
    \<not> te_toxic (fst (detect_toxicity_ensemble lo m r)) \<and> \<not> fst (check_toxic_keywords r None) \<and> pii_scan nfkc r = []"
proof -
  let ?t = "sanitize_input nfkc prompt"
  have low: "\<not> li_detected (legacy_detect t) \<Longrightarrow> \<not> block_worthy t" for t
    by (cases "strip t = []")
      (auto simp: block_worthy_def legacy_detect_def legacy_detect_scan not_le Let_def py_round_def round_half_even_def
        raw_confidence_cases split: if_splits)
  from assms have a: "\<not> (li_detected (legacy_detect ?t) \<and> 7/10 \<le> li_confidence (legacy_detect ?t))"
    "ollama ?t (token_limit n) = Answer r" "\<not> te_toxic (fst (detect_toxicity_ensemble lo m r))" "pii_scan nfkc r = []"
    by (auto simp: generate_def detect_and_sanitize_def Let_def split: if_splits option.splits ollama_call.splits prod.splits)
  moreover have "\<not> block_worthy ?t" using a(1) low [of ?t] by (auto simp: block_worthy_def)
  ultimately show ?thesis using ensemble_clean_keywords by blast
qed

lemma generate_hello:
  "generate id (\<lambda>_ _. Answer ''Hi'') lo (new_loader False False) ''Hi'' None =
     (Inr (Generated ''Hi''), new_loader False False)"
proof -
  have "\<not> hit dan_patterns ''Hi''" "\<not> hit prefix_patterns ''Hi''" "\<not> hit attention_patterns ''Hi''"
    "\<not> hit payload_patterns ''Hi''" "\<not> hit encoding_patterns ''Hi''" "\<not> hit smuggling_patterns ''Hi''"
    by code_simp+
  moreover have "strip ''Hi'' \<noteq> []" by code_simp
  ultimately have "\<not> li_detected (legacy_detect ''Hi'')"
    by (simp add: legacy_detect_scan raw_confidence_cases scan_count)
  moreover have "sanitize_input id ''Hi'' = ''Hi''"
    by (simp add: sanitize_input_def max_input_length_def control_char_def)
  moreover have "validate_input_size ''Hi'' = None"
    by (simp add: validate_input_size_def max_input_length_def max_input_bytes_def utf8_length_def)
  moreover have "pii_scan id ''Hi'' = []"
    by (simp add: pii_scan_def sanitize_input_def max_input_length_def control_char_def) code_simp
  moreover have "find (\<lambda>(severity, kws). severity_on None severity \<and>
      list_ex (\<lambda>kw. search (keyword_pattern kw) (lower ''Hi'')) kws) toxic_keywords = None"
    by code_simp
  then have "check_toxic_keywords ''Hi'' None = (False, 0, ''unknown'')"
    by (simp add: check_toxic_keywords_def)
  ultimately show ?thesis
    by (simp add: generate_def detect_and_sanitize_def detect_toxicity_ensemble_def get_roberta_def get_bert_def
        bert_or_keyword_def new_loader_def Let_def)
qed

lemma generated_text_checked_witness:
  "\<not> block_worthy (sanitize_input id ''Hi'') \<and> pii_scan id ''Hi'' = []"
  using generated_text_checked [OF generate_hello] by blast

text \<open>
  after sanitising, the size check can never fail.
\<close>

theorem size_check_dead: "validate_input_size (sanitize_input nfkc t) = None"
proof -
  let ?u = "sanitize_input nfkc t"
  have l: "length ?u \<le> max_input_length" by (simp add: sanitize_input_def)
  have "utf8_length v \<le> 2 * length v" for v
    unfolding utf8_length_def by (induction v) auto
  from this [of ?u] l show ?thesis by (auto simp: validate_input_size_def max_input_length_def max_input_bytes_def)
qed

text \<open>
  personal data behind the first 10000 characters of a text is not looked for.
\<close>

theorem pii_tail_unscanned:
  assumes "10000 \<le> length p" "list_all (\<lambda>c. \<not> control_char c) p"
  shows "pii_scan id (p @ q) = pii_scan id p"
proof -
  have "filter (\<lambda>c. \<not> control_char c) p = p" using assms(2) by (simp add: filter_id_conv list_all_iff)
  with assms have "sanitize_input id (p @ q) = sanitize_input id p"
    by (auto simp: sanitize_input_def max_input_length_def)
  then show ?thesis by (simp add: pii_scan_def)
qed

lemma pii_tail_unscanned_witness:
  "pii_scan id (replicate 10000 (CHR ''a'') @ '' 123-456-789'') = pii_scan id (replicate 10000 (CHR ''a''))"
  by (rule pii_tail_unscanned) (auto simp: list_all_iff control_char_def Let_def)

section \<open>Properties of the cache and of the check endpoint\<close>

datatype 'r cache_event = CacheGet pyfloat string | CacheSet pyfloat string 'r

definition cache_step :: "(string \<Rightarrow> string) \<Rightarrow> 'r response_cache \<Rightarrow> 'r cache_event \<Rightarrow> 'r response_cache" where
  "cache_step digest c e = (case e of
     CacheGet now t \<Rightarrow> snd (cache_get digest now t c) | CacheSet now t r \<Rightarrow> cache_set digest now t r c)"

lemma oldest_key: "d \<noteq> [] \<Longrightarrow> \<exists>k. oldest d = Some k \<and> k \<in> fst ` set d"
proof (induction d rule: oldest.induct)
  case (2 k r t d)
  then show ?case by (cases "d = []") (force split: option.splits)+
qed simp

lemma length_dict_del: "k \<in> fst ` set d \<Longrightarrow> length (dict_del k d) < length d"
  by (induction d) (auto simp: AList.delete_eq le_imp_less_Suc)

lemma length_dict_set_le: "length (dict_set k v d) \<le> Suc (length d)"
  by (induction d) auto

definition cache_wf :: "'r response_cache \<Rightarrow> bool" where
  "cache_wf c \<longleftrightarrow> 0 < rc_max c \<and> length (rc_entries c) \<le> rc_max c"

lemma cache_set_ok: "cache_wf c \<Longrightarrow> cache_wf (cache_set digest now t r c)"
proof -
  assume ok: "cache_wf c"
  define es where "es = (if rc_max c \<le> length (rc_entries c)
      then (case oldest (rc_entries c) of Some k \<Rightarrow> dict_del k (rc_entries c) | None \<Rightarrow> []) else rc_entries c)"
  have "length es < rc_max c"
  proof (cases "rc_max c \<le> length (rc_entries c)")
    case True
    with ok have "rc_entries c \<noteq> []" by (auto simp: cache_wf_def)
    from oldest_key [OF this] obtain k where k: "oldest (rc_entries c) = Some k" "k \<in> fst ` set (rc_entries c)" by blast
    with True ok length_dict_del [OF k(2)] show ?thesis by (simp add: es_def cache_wf_def)
  qed (simp add: es_def)
  moreover have "cache_set digest now t r c = c\<lparr>rc_entries := dict_set (digest t) (r, now) es\<rparr>"
    by (simp add: cache_set_def es_def)
  ultimately show ?thesis
    using length_dict_set_le [of "digest t" "(r, now)" es] ok by (simp add: cache_wf_def)
qed

lemma cache_get_ok: "cache_wf c \<Longrightarrow> cache_wf (snd (cache_get digest now t c))"
  by (auto simp: cache_get_def cache_wf_def intro: le_trans [OF length_delete_le] split: option.splits)

interpretation cache: run_invariant "cache_step digest" "\<lambda>_ _. True" cache_wf
  by unfold_locales
    (auto simp: cache_step_def intro: cache_set_ok cache_get_ok split: cache_event.splits)

lemma cache_entries_step:
  assumes "(k, r, t) \<in> set (rc_entries (cache_step digest c e))"
  shows "(k, r, t) \<in> set (rc_entries c) \<or> (\<exists>x. e = CacheSet t x r \<and> digest x = k)"
proof -
  have del: "y \<in> set (dict_del k' d) \<Longrightarrow> y \<in> set d" for y k' and d :: "(string, 'a \<times> pyfloat) pydict"
    by (auto simp: AList.delete_eq)
  from assms show ?thesis
    by (auto simp: cache_step_def cache_get_def cache_set_def Let_def
        split: cache_event.splits option.splits if_splits dest: del dest!: dict_set_mem)
qed

lemma cache_entries_set:
  assumes "(k, r, t) \<in> set (rc_entries (foldl (cache_step digest) c es))"
  shows "(k, r, t) \<in> set (rc_entries c) \<or> (\<exists>x. CacheSet t x r \<in> set es \<and> digest x = k)"
  using assms
proof (induction es rule: rev_induct)
  case (snoc e es)
  with cache_entries_step [of k r t digest "foldl (cache_step digest) c es" e] show ?case by auto
qed simp

lemma cache_ttl_run: "rc_ttl (foldl (cache_step digest) c es) = rc_ttl c \<and> rc_max (foldl (cache_step digest) c es) = rc_max c"
  by (induction es rule: rev_induct)
    (auto simp: cache_step_def cache_get_def cache_set_def Let_def split: cache_event.splits option.splits)

text \<open>
  after any sequence of lookups and stores the cache holds at most 10000 answers, and a lookup
  answers only with what was stored under the same digest at most 300 seconds before.
\<close>

theorem cache_bounded_and_recent:
  "length (rc_entries (foldl (cache_step digest) new_cache es)) \<le> 10000 \<and>
   (\<forall>r. fst (cache_get digest now t (foldl (cache_step digest) new_cache es)) = Some r \<longrightarrow>
     (\<exists>stamp x. CacheSet stamp x r \<in> set es \<and> digest x = digest t \<and> now - stamp \<le> 300))"
proof -
  let ?c = "foldl (cache_step digest) new_cache es"
  have "cache_wf new_cache" by (simp add: cache_wf_def new_cache_def)
  then have "cache_wf ?c" by (rule cache.run_inv_always) simp
  moreover have p: "rc_ttl ?c = 300" "rc_max ?c = 10000"
    using cache_ttl_run [of digest new_cache es] by (simp_all add: new_cache_def)
  moreover have "\<exists>stamp x. CacheSet stamp x r \<in> set es \<and> digest x = digest t \<and> now - stamp \<le> 300"
    if g: "fst (cache_get digest now t ?c) = Some r" for r
  proof -
    from g obtain stamp where s: "dict_get (rc_entries ?c) (digest t) = Some (r, stamp)" "now - stamp \<le> 300"
      by (auto simp: cache_get_def p(1) split: option.splits if_splits)
    from map_of_SomeD [OF s(1)] cache_entries_set [of "digest t" r stamp digest new_cache es] s(2)
    show ?thesis by (auto simp: new_cache_def)
  qed
  ultimately show ?thesis by (auto simp: cache_wf_def)
qed

text \<open>
  an answer of the check endpoint stands for the lifetime of its cache entry: the same text gets
  it again whatever has become of the policies, the models and the language model in between.
\<close>

theorem cached_answer_stands:
  assumes "enforce_check digest nfkc lj verify t1 t2 reply rules lo m text c = (Inr r, m1, c1)"
    and "fst (cache_get digest t1 text c) = None" and "t - t2 \<le> rc_ttl c"
  shows "enforce_check digest nfkc lj' verify' t t' reply' rules' lo' m' text c1 = (Inr r, m', c1)"
proof -
  have ttl: "rc_ttl (snd (cache_get digest t1 text c)) = rc_ttl c"
    by (simp add: cache_get_def split: option.splits)
  from assms(1,2) have ne: "text \<noteq> []" and c1: "c1 = cache_set digest t2 text r (snd (cache_get digest t1 text c))"
    by (auto simp: enforce_check_def split: if_splits option.splits prod.splits)
  have "cache_get digest t text c1 = (Some r, c1)"
    using assms(3) ttl by (auto simp: c1 cache_get_def cache_set_def Let_def)
  with ne show ?thesis by (simp add: enforce_check_def)
qed

section \<open>Properties of the feedback, the escalation and the stream worker\<close>

type_synonym feedback_event = "pyfloat \<times> string \<times> bool \<times> bool"

definition feedback_run :: "feedback_event list \<Rightarrow> online_eval" where
  "feedback_run fs = foldl (\<lambda>e (now, t, flagged, toxic). snd (submit_feedback now t flagged toxic e)) new_online_eval fs"

definition count_feedback :: "bool \<Rightarrow> bool \<Rightarrow> feedback_event list \<Rightarrow> nat" where
  "count_feedback flagged toxic fs = length (filter (\<lambda>(_, _, f, x). f = flagged \<and> x = toxic) fs)"

definition feedback_entry :: "feedback_event \<Rightarrow> feedback" where
  "feedback_entry f = (case f of (now, t, flagged, toxic) \<Rightarrow>
     \<lparr>fb_text = take 100 t, fb_flagged = flagged, fb_toxic = toxic, fb_correct = (flagged = toxic), fb_time = now\<rparr>)"

lemma feedback_run_snoc:
  "feedback_run (fs @ [(now, t, flagged, toxic)]) = snd (submit_feedback now t flagged toxic (feedback_run fs))"
  by (simp add: feedback_run_def)

lemma suffix_take_last: "suffix (take_last n xs) xs"
  by (simp add: take_last_def suffix_drop)

lemma feedback_invariant:
  "oe_total (feedback_run fs) = length fs \<and>
   oe_right (feedback_run fs) = count_feedback True True fs + count_feedback False False fs \<and>
   oe_fp (feedback_run fs) = count_feedback True False fs \<and> oe_fn (feedback_run fs) = count_feedback False True fs \<and>
   length (oe_history (feedback_run fs)) \<le> 1000 \<and>
   suffix (oe_history (feedback_run fs)) (map feedback_entry fs)"
proof (induction fs rule: rev_induct)
  case Nil
  then show ?case by (simp add: feedback_run_def new_online_eval_def count_feedback_def)
next
  case (snoc f fs)
  obtain now t flagged toxic where f: "f = (now, t, flagged, toxic)" by (cases f)
  let ?h = "oe_history (feedback_run fs) @ [feedback_entry f]"
  have s: "suffix ?h (map feedback_entry (fs @ [f]))" using snoc.IH by (auto simp: suffix_def)
  have "suffix (take_last 500 ?h) (map feedback_entry (fs @ [f]))"
    using suffix_take_last [of 500 ?h] s by (rule suffix_order.trans)
  moreover have h: "oe_history (feedback_run (fs @ [f])) = (if 1000 < length ?h then take_last 500 ?h else ?h)"
    by (simp add: f feedback_run_snoc submit_feedback_def feedback_entry_def max_history_def Let_def)
  ultimately have "length (oe_history (feedback_run (fs @ [f]))) \<le> 1000 \<and>
      suffix (oe_history (feedback_run (fs @ [f]))) (map feedback_entry (fs @ [f]))"
    using s unfolding h by (simp del: map_append)
  moreover have "oe_total (feedback_run (fs @ [f])) = length (fs @ [f]) \<and>
      oe_right (feedback_run (fs @ [f])) = count_feedback True True (fs @ [f]) + count_feedback False False (fs @ [f]) \<and>
      oe_fp (feedback_run (fs @ [f])) = count_feedback True False (fs @ [f]) \<and>
      oe_fn (feedback_run (fs @ [f])) = count_feedback False True (fs @ [f])"
    using snoc.IH by (cases flagged; cases toxic) (simp_all add: f feedback_run_snoc submit_feedback_def count_feedback_def Let_def)
  ultimately show ?case by blast
qed

text \<open>
  after any feedback the counters are those of the confusion matrix and the history is a suffix
  of all entries, of at most 1000. The figures called precision and recall count the true negatives
  as hits: they are never below the real ones.
\<close>

theorem feedback_figures:
  "oe_total (feedback_run fs) = oe_right (feedback_run fs) + oe_fp (feedback_run fs) + oe_fn (feedback_run fs) \<and>
   length (oe_history (feedback_run fs)) \<le> 1000 \<and> suffix (oe_history (feedback_run fs)) (map feedback_entry fs) \<and>
   (0 < count_feedback True True fs + count_feedback True False fs \<longrightarrow>
     (\<exists>p. es_precision (get_evaluation_status (feedback_run fs)) = Some p \<and>
       py_round (real (count_feedback True True fs) / real (count_feedback True True fs + count_feedback True False fs)) 4 \<le> p)) \<and>
   (0 < count_feedback True True fs + count_feedback False True fs \<longrightarrow>
     (\<exists>p. es_recall (get_evaluation_status (feedback_run fs)) = Some p \<and>
       py_round (real (count_feedback True True fs) / real (count_feedback True True fs + count_feedback False True fs)) 4 \<le> p))"
proof -
  have total: "length fs = count_feedback True True fs + count_feedback False False fs + count_feedback True False fs +
      count_feedback False True fs"
    by (induction fs) (auto simp: count_feedback_def)
  have frac: "real a / real (a + b) \<le> real (a + n) / real (a + n + b)" if "0 < a + b" for a b n :: nat
    using that by (simp add: divide_simps algebra_simps)
  have mono: "0 < a + b \<Longrightarrow> py_round (real a / real (a + b)) 4 \<le> py_round (real (a + n) / real (a + n + b)) 4" for a b n :: nat
    by (intro py_round_mono frac)
  note inv = feedback_invariant [of fs]
  show ?thesis
    using inv total mono [of "count_feedback True True fs" "count_feedback True False fs" "count_feedback False False fs"]
      mono [of "count_feedback True True fs" "count_feedback False True fs" "count_feedback False False fs"]
    by (auto simp: get_evaluation_status_def ratio_def simp del: of_nat_add)
qed

lemma feedback_figures_witness:
  "\<exists>p. es_precision (get_evaluation_status (feedback_run [(0, ''a'', True, False), (1, ''b'', False, False)])) = Some p \<and> 0 \<le> p"
  using feedback_figures [of "[(0, ''a'', True, False), (1, ''b'', False, False)]"] by (simp add: count_feedback_def)

section \<open>Escalation\<close>

lemma filter_take_down:
  assumes "sorted_wrt (\<ge>) xs" "\<And>x y. P x \<Longrightarrow> x \<le> y \<Longrightarrow> P y"
  shows "filter P (take k xs) = take k (filter P xs)"
  using assms(1)
proof (induction xs arbitrary: k)
  case (Cons x xs)
  show ?case
  proof (cases "P x")
    case True
    with Cons show ?thesis by (cases k) simp_all
  next
    case False
    with Cons.prems assms(2) have "\<forall>y \<in> set xs. \<not> P y" by auto
    then have "filter P (take n xs) = []" "filter P xs = []" for n
      by (auto simp: filter_empty_conv dest: in_set_takeD)
    with False show ?thesis by (cases k) simp_all
  qed
qed simp

type_synonym violation = "pyfloat \<times> string \<times> string"

definition violation_step :: "bool \<Rightarrow> escalation_state \<Rightarrow> violation \<Rightarrow> escalation_state" where
  "violation_step hook s v = (case v of (now, m, vtype) \<Rightarrow> snd (record_violation hook now m vtype s))"

definition no_violations :: escalation_state where
  "no_violations = \<lparr>sc_lists = (\<lambda>_. ([], 0)), sc_log = (\<lambda>_. []), sc_hooks = []\<rparr>"

definition times_of :: "string \<Rightarrow> violation list \<Rightarrow> pyfloat list" where
  \<comment> \<open>all violations under a key, the newest first\<close>
  "times_of key vs = rev (map fst (filter (\<lambda>(_, m, vtype). violation_key m vtype = key) vs))"

lemma times_of_snoc:
  "times_of key (vs @ [(now, m, vtype)]) = (if violation_key m vtype = key then now # times_of key vs else times_of key vs)"
  by (simp add: times_of_def)

definition list_inv :: "violation list \<Rightarrow> string \<Rightarrow> pyfloat list \<times> pyfloat \<Rightarrow> bool" where
  \<comment> \<open>what a key's entry says of the violations so far, whenever it is read and for windows up to an hour\<close>
  "list_inv vs key e \<longleftrightarrow> sorted_wrt (\<ge>) (fst e) \<and> set (fst e) \<subseteq> set (times_of key vs) \<and>
     (\<forall>now w. (\<forall>v \<in> set vs. fst v \<le> now) \<longrightarrow> w \<le> 3600 \<longrightarrow>
        filter (\<lambda>t. now - w < t) (live_list now e) = take 100 (filter (\<lambda>t. now - w < t) (times_of key vs)))"

lemma list_inv_push:
  assumes "list_inv vs key e" and "\<forall>v \<in> set vs. fst v \<le> n" and "violation_key m vtype = key"
  shows "list_inv (vs @ [(n, m, vtype)]) key (take 100 (n # live_list n e), n + 3600)"
  unfolding list_inv_def
proof (intro conjI allI impI)
  have mem: "set (live_list n e) \<subseteq> set (times_of key vs)" and srt: "sorted_wrt (\<ge>) (live_list n e)"
    using assms(1) by (auto simp: list_inv_def live_list_def)
  have le: "\<forall>t \<in> set (times_of key vs). t \<le> n" using assms(2) by (auto simp: times_of_def)
  with mem srt have s: "sorted_wrt (\<ge>) (n # live_list n e)" by auto
  then have "sorted_wrt (\<ge>) (take 100 (n # live_list n e))" by (rule sorted_wrt_take)
  then show "sorted_wrt (\<ge>) (fst (take 100 (n # live_list n e), n + 3600))" by (simp only: fst_conv)
  show "set (fst (take 100 (n # live_list n e), n + 3600)) \<subseteq> set (times_of key (vs @ [(n, m, vtype)]))"
    using mem assms(3) by (auto simp: times_of_snoc dest: in_set_takeD)
  fix now w :: real
  assume now: "\<forall>v \<in> set (vs @ [(n, m, vtype)]). fst v \<le> now" and w: "w \<le> 3600"
  show "filter (\<lambda>t. now - w < t) (live_list now (take 100 (n # live_list n e), n + 3600)) =
      take 100 (filter (\<lambda>t. now - w < t) (times_of key (vs @ [(n, m, vtype)])))"
  proof (cases "n + 3600 \<le> now")
    case True
    then have "\<forall>t \<in> set (n # times_of key vs). \<not> now - w < t" using le w by auto
    then have "filter (\<lambda>t. now - w < t) (n # times_of key vs) = []" by (simp add: filter_empty_conv)
    with True assms(3) show ?thesis by (simp add: live_list_def times_of_snoc del: filter.simps)
  next
    case False
    have "filter (\<lambda>t. now - w < t) (live_list n e) = take 100 (filter (\<lambda>t. now - w < t) (times_of key vs))"
      using assms(1,2) now w unfolding list_inv_def by (elim conjE allE [of _ n] allE [of _ "n - (now - w)"]) simp
    moreover have "filter (\<lambda>t. now - w < t) (take 100 (n # live_list n e)) = take 100 (filter (\<lambda>t. now - w < t) (n # live_list n e))"
      by (rule filter_take_down [OF s]) simp
    ultimately show ?thesis using False assms(3)
      by (simp add: live_list_def times_of_snoc min_def take_Cons' del: take.simps(2) split: if_splits)
  qed
qed

lemma list_inv_other:
  "list_inv vs key e \<Longrightarrow> violation_key m vtype \<noteq> key \<Longrightarrow> list_inv (vs @ [(n, m, vtype)]) key e"
  by (auto simp: list_inv_def times_of_snoc)

lemma record_lists:
  "sc_lists (snd (record_violation hook n m vtype s)) key =
     (if violation_key m vtype = key then (take 100 (n # live_list n (sc_lists s key)), n + 3600) else sc_lists s key)"
  by (auto simp: record_violation_def escalate_def Let_def)

lemma escalation_inv:
  "sorted (map fst vs) \<Longrightarrow> list_inv vs key (sc_lists (foldl (violation_step hook) no_violations vs) key)"
proof (induction vs rule: rev_induct)
  case Nil
  then show ?case by (auto simp: list_inv_def no_violations_def live_list_def times_of_def)
next
  case (snoc v vs)
  obtain n m vtype where v: "v = (n, m, vtype)" by (cases v)
  from snoc.prems have "sorted (map fst vs)" "\<forall>v \<in> set vs. fst v \<le> n" by (auto simp: v sorted_append)
  with snoc.IH list_inv_push [of vs key _ n m vtype] list_inv_other [of vs key _ m vtype n] show ?case
    by (simp add: v violation_step_def record_lists)
qed

lemma threshold_bounds: "et_count (threshold_of v) \<le> 10 \<and> et_window (threshold_of v) \<le> 300"
  by (simp add: threshold_of_def dict_get_or_def violation_thresholds_def)

lemma escalation_by_key:
  assumes "sorted (map fst vs @ [now])"
  shows "fst (record_violation hook now m vtype (foldl (violation_step hook) no_violations vs)) \<longleftrightarrow>
    et_count (threshold_of vtype) \<le>
      length (filter (\<lambda>t. now - et_window (threshold_of vtype) < t) (now # times_of (violation_key m vtype) vs))"
proof -
  let ?s = "foldl (violation_step hook) no_violations vs" and ?key = "violation_key m vtype"
  let ?th = "threshold_of vtype" and ?new = "take 100 (now # live_list now (sc_lists (foldl (violation_step hook) no_violations vs) (violation_key m vtype)))"
  from assms have a: "sorted (map fst vs)" "\<forall>v \<in> set vs. fst v \<le> now" by (auto simp: sorted_append)
  from list_inv_push [OF escalation_inv [OF a(1)] a(2), of m vtype ?key hook]
  have "list_inv (vs @ [(now, m, vtype)]) ?key (?new, now + 3600)" by simp
  moreover have "\<forall>v \<in> set (vs @ [(now, m, vtype)]). fst v \<le> now" "et_window ?th \<le> 3600"
    using a(2) threshold_bounds [of vtype] by auto
  ultimately have "filter (\<lambda>t. now - et_window ?th < t) (live_list now (?new, now + 3600)) =
      take 100 (filter (\<lambda>t. now - et_window ?th < t) (times_of ?key (vs @ [(now, m, vtype)])))"
    unfolding list_inv_def by blast
  then have "length (filter (\<lambda>t. now - et_window ?th < t) ?new) =
      min (length (filter (\<lambda>t. now - et_window ?th < t) (now # times_of ?key vs))) 100"
    by (simp add: live_list_def times_of_snoc del: filter.simps take.simps take_Suc_Cons)
  moreover have "fst (record_violation hook now m vtype ?s) \<longleftrightarrow>
      et_count ?th \<le> length (filter (\<lambda>t. now - et_window ?th < t) ?new)"
    by (simp add: record_violation_def Let_def del: filter.simps take.simps take_Suc_Cons)
  ultimately show ?thesis using threshold_bounds [of vtype] by (simp only: min_def) auto
qed

definition violation_times :: "string \<Rightarrow> string \<Rightarrow> violation list \<Rightarrow> pyfloat list" where
  \<comment> \<open>all violations of a type by a model, the newest first\<close>
  "violation_times m vtype vs = rev (map fst (filter (\<lambda>(_, m', vtype'). m' = m \<and> vtype' = vtype) vs))"

lemma violation_key_inj:
  assumes "CHR '':'' \<notin> set vtype" "CHR '':'' \<notin> set vtype'"
  shows "violation_key m vtype = violation_key m' vtype' \<longleftrightarrow> m = m' \<and> vtype = vtype'"
proof -
  have "violation_key m vtype = violation_key m' vtype' \<longleftrightarrow> rev (violation_key m vtype) = rev (violation_key m' vtype')"
    by (simp only: rev_is_rev_conv)
  also have "\<dots> \<longleftrightarrow> rev vtype @ CHR '':'' # rev m = rev vtype' @ CHR '':'' # rev m'"
    by (simp add: violation_key_def)
  also have "\<dots> \<longleftrightarrow> rev vtype = rev vtype' \<and> rev m = rev m'" using assms by (intro separator_inj) simp_all
  finally show ?thesis by auto
qed

text \<open>
  C13: although Redis keeps at most 100 times per key and drops a key after an hour without
  violation, a violation escalates exactly when the violations of this type by this model
  recorded so far (itself included) within the window of the type reach its count; violations
  of other models and of other types do not count. No type may contain a colon (the key joins
  model and type with one), and the times are recorded in order.
\<close>

theorem escalation_exact:
  assumes "sorted (map fst vs @ [now])" "\<forall>(_, _, t) \<in> set (vs @ [(now, m, vtype)]). CHR '':'' \<notin> set t"
  shows "fst (record_violation hook now m vtype (foldl (violation_step hook) no_violations vs)) \<longleftrightarrow>
    et_count (threshold_of vtype) \<le>
      length (filter (\<lambda>t. now - et_window (threshold_of vtype) < t) (now # violation_times m vtype vs))"
proof -
  have "violation_key m' t = violation_key m vtype \<longleftrightarrow> m' = m \<and> t = vtype" if "(n, m', t) \<in> set vs" for n m' t
    using assms(2) that by (intro violation_key_inj) auto
  then have "times_of (violation_key m vtype) vs = violation_times m vtype vs"
    unfolding times_of_def violation_times_def by (intro arg_cong [where f = rev] arg_cong [where f = "map fst"] filter_cong) auto
  with escalation_by_key [OF assms(1)] show ?thesis by simp
qed

lemma escalation_exact_witness:
  "fst (record_violation False 20 ''m'' ''critical''
     (foldl (violation_step False) no_violations
       [(0, ''m'', ''critical''), (5, ''n'', ''critical''), (10, ''m'', ''critical'')]))"
  by (subst escalation_exact) (simp_all add: threshold_of_def dict_get_or_def violation_thresholds_def violation_times_def)

section \<open>The stream worker\<close>

definition evaluated :: "(string \<Rightarrow> (py_error + guardrail_result)) \<Rightarrow> stream_message list \<Rightarrow> guardrail_result list" where
  "evaluated evaluate mgs = List.map_filter (\<lambda>mg. case mg_trace mg of None \<Rightarrow> None
     | Some t \<Rightarrow> (case evaluate t of Inl _ \<Rightarrow> None | Inr r \<Rightarrow> Some r)) mgs"

definition dead :: "(string \<Rightarrow> (py_error + guardrail_result)) \<Rightarrow> (guardrail_result \<Rightarrow> bool) \<Rightarrow> stream_message list \<Rightarrow> string list" where
  "dead evaluate saved mgs = List.map_filter (\<lambda>mg. case mg_trace mg of None \<Rightarrow> None
     | Some t \<Rightarrow> (case evaluate t of Inl _ \<Rightarrow> Some t | Inr r \<Rightarrow> if saved r then None else Some t)) mgs"

lemma worker_steps:
  "list_all (\<lambda>mg. mg_trace mg \<noteq> None) mgs \<Longrightarrow>
   \<exists>s'. run_worker evaluate saved mgs s = Running s' \<and> st_acked s' = st_acked s @ map mg_id mgs \<and>
     st_results s' = st_results s @ evaluated evaluate mgs \<and> st_dlq s' = st_dlq s @ dead evaluate saved mgs"
proof (induction mgs arbitrary: s)
  case Nil
  then show ?case by (simp add: evaluated_def dead_def map_filter_simps)
next
  case (Cons mg mgs)
  then obtain t where t: "mg_trace mg = Some t" by auto
  have "\<exists>s1. process_message evaluate saved mg s = Running s1 \<and> st_acked s1 = st_acked s @ [mg_id mg] \<and>
    st_results s1 = st_results s @ evaluated evaluate [mg] \<and> st_dlq s1 = st_dlq s @ dead evaluate saved [mg]"
  proof (cases "evaluate t")
    case (Inl e)
    then show ?thesis
      by (simp add: process_message_def dead_letter_def t evaluated_def dead_def map_filter_simps)
  next
    case (Inr r)
    then show ?thesis
      by (cases "saved r")
        (simp_all add: process_message_def dead_letter_def t Let_def evaluated_def dead_def map_filter_simps)
  qed
  then obtain s1 where "process_message evaluate saved mg s = Running s1" "st_acked s1 = st_acked s @ [mg_id mg]"
    "st_results s1 = st_results s @ evaluated evaluate [mg]" "st_dlq s1 = st_dlq s @ dead evaluate saved [mg]" by blast
  moreover from Cons.IH [of s1] Cons.prems obtain s' where "run_worker evaluate saved mgs s1 = Running s'"
    "st_acked s' = st_acked s1 @ map mg_id mgs" "st_results s' = st_results s1 @ evaluated evaluate mgs"
    "st_dlq s' = st_dlq s1 @ dead evaluate saved mgs" by auto
  moreover have "evaluated evaluate (mg # mgs) = evaluated evaluate [mg] @ evaluated evaluate mgs"
    "dead evaluate saved (mg # mgs) = dead evaluate saved [mg] @ dead evaluate saved mgs"
    by (simp_all add: evaluated_def dead_def map_filter_simps split: option.splits)
  ultimately show ?case by simp
qed

lemma run_worker_append:
  "run_worker evaluate saved (as @ bs) s = (case run_worker evaluate saved as s of
     Running s1 \<Rightarrow> run_worker evaluate saved bs s1 | Crashed e s1 \<Rightarrow> Crashed e s1)"
  by (induction as arbitrary: s) (auto split: worker_outcome.splits)

text \<open>
  C14: the stream worker settles messages in order. As long as every message has a trace field,
  each is acknowledged once, every evaluated one has its result published, and those that failed (also
  when only the database write failed, after the result went out) are in the dead-letter stream. The
  first message without the field ends the worker with a KeyError, raised by the handler of the error.
\<close>

theorem worker_settles:
  assumes "list_all (\<lambda>mg. mg_trace mg \<noteq> None) mgs"
  shows "\<exists>s'. run_worker evaluate saved mgs s = Running s' \<and>
      (mg_trace bad = None \<longrightarrow> run_worker evaluate saved (mgs @ bad # rest) s = Crashed KeyError s') \<and>
      st_acked s' = st_acked s @ map mg_id mgs \<and> st_results s' = st_results s @ evaluated evaluate mgs \<and>
      st_dlq s' = st_dlq s @ dead evaluate saved mgs"
proof -
  from worker_steps [OF assms, of evaluate saved s] obtain s' where s': "run_worker evaluate saved mgs s = Running s'"
    "st_acked s' = st_acked s @ map mg_id mgs" "st_results s' = st_results s @ evaluated evaluate mgs"
    "st_dlq s' = st_dlq s @ dead evaluate saved mgs" by blast
  have "run_worker evaluate saved (bad # rest) s' = Crashed KeyError s'" if "mg_trace bad = None"
    using that by (simp add: process_message_def dead_letter_def)
  then have "mg_trace bad = None \<longrightarrow> run_worker evaluate saved (mgs @ bad # rest) s = Crashed KeyError s'"
    unfolding run_worker_append s'(1) worker_outcome.case by blast
  with s' show ?thesis by (intro exI [of _ s'] conjI)
qed

lemma worker_settles_witness:
  "\<exists>s'. run_worker (\<lambda>_. Inl ValueError) (\<lambda>_. True) [\<lparr>mg_id = 7, mg_trace = Some ''x''\<rparr>]
     \<lparr>st_results = [], st_dlq = [], st_acked = [], st_db = []\<rparr> = Running s' \<and> st_acked s' = [7] \<and> st_dlq s' = [''x'']"
proof -
  have ok: "list_all (\<lambda>mg. mg_trace mg \<noteq> None) [\<lparr>mg_id = 7, mg_trace = Some ''x''\<rparr>]" by simp
  have "dead (\<lambda>_. Inl ValueError) (\<lambda>_. True) [\<lparr>mg_id = 7, mg_trace = Some ''x''\<rparr>] = [''x'']"
    by (simp add: dead_def map_filter_simps)
  with worker_settles [OF ok, of "\<lambda>_. Inl ValueError" "\<lambda>_. True"
      "\<lparr>st_results = [], st_dlq = [], st_acked = [], st_db = []\<rparr>" "\<lparr>mg_id = 0, mg_trace = None\<rparr>" "[]"]
  show ?thesis by (elim exE conjE) (intro exI conjI, assumption, simp_all)
qed

lemma cache_bounded_and_recent_witness:
  "\<exists>stamp x. CacheSet stamp x True \<in> set [CacheSet 0 ''a'' True, CacheGet 5 ''b''] \<and> id x = id ''a'' \<and> 100 - stamp \<le> 300"
  using cache_bounded_and_recent [of id "[CacheSet 0 ''a'' True, CacheGet 5 ''b'']" 100 "''a''"]
  by (simp add: cache_step_def cache_get_def cache_set_def new_cache_def Let_def)

lemma cached_answer_stands_witness:
  "\<forall>lj verify reply rules lo m. \<exists>r m1 c1.
     enforce_check id id lj verify 0 1 reply rules lo m ''hi'' new_cache = (Inr r, m1, c1) \<and>
     (\<forall>rules'. enforce_check id id lj verify 200 200 reply rules' lo m1 ''hi'' c1 = (Inr r, m1, c1))"
proof (intro allI)
  fix lj verify reply rules lo m
  have g: "fst (cache_get id 0 ''hi'' (new_cache :: check_response response_cache)) = None"
    by (simp add: cache_get_def new_cache_def)
  then obtain r m1 c1 where e: "enforce_check id id lj verify 0 1 reply rules lo m ''hi'' new_cache = (Inr r, m1, c1)"
    by (cases "check_text id lj verify reply rules lo m ''hi''"; cases "cache_get id 0 ''hi'' (new_cache :: check_response response_cache)")
      (simp add: enforce_check_def)
  from cached_answer_stands [OF e g, of 200]
  have "enforce_check id id lj verify 200 200 reply rules' lo m1 ''hi'' c1 = (Inr r, m1, c1)" for rules'
    by (simp add: new_cache_def)
  with e show "\<exists>r m1 c1. enforce_check id id lj verify 0 1 reply rules lo m ''hi'' new_cache = (Inr r, m1, c1) \<and>
     (\<forall>rules'. enforce_check id id lj verify 200 200 reply rules' lo m1 ''hi'' c1 = (Inr r, m1, c1))" by blast
qed

end
