(* ===== verification/Nli_Detector.thy ===== *)
theory Nli_Detector
  imports Py_Regex
begin

text \<open>
  The single-model hallucination detector with its check of numbers and names
  (\<open>services/hallucination-detector/hd_cascade/nli_detector.py\<close>). The inference pipeline is a parameter (\<open>None\<close> when
  it raises). A set of findings is the list of its members in the order of their first occurrence, which stands
  for the unspecified order of a Python set. \<open>difflib.SequenceMatcher.ratio\<close> is modelled for texts
  of fewer than 200 characters, where it has no junk heuristic. The scores within the text of a reason are left out.
\<close>

section \<open>SequenceMatcher (difflib)\<close>

fun common_prefix :: "string \<Rightarrow> string \<Rightarrow> nat" where
  "common_prefix (x # xs) (y # ys) = (if x = y then Suc (common_prefix xs ys) else 0)"
| "common_prefix _ _ = 0"

fun better_block :: "string \<Rightarrow> string \<Rightarrow> nat \<times> nat \<times> nat \<Rightarrow> nat \<times> nat \<Rightarrow> nat \<times> nat \<times> nat" where
  "better_block a b (i, j, k) (i', j') =
     (let k' = common_prefix (drop i' a) (drop j' b) in if k < k' then (i', j', k') else (i, j, k))"

definition longest_match :: "string \<Rightarrow> string \<Rightarrow> nat \<times> nat \<times> nat" where
  \<comment> \<open>the first longest common block: start in both texts and length\<close>
  "longest_match a b = foldl (better_block a b) (0, 0, 0) (List.product [0..<length a] [0..<length b])"

fun real_block :: "string \<Rightarrow> string \<Rightarrow> nat \<times> nat \<times> nat \<Rightarrow> bool" where
  "real_block a b (i, j, k) \<longleftrightarrow> k = 0 \<or> k = common_prefix (drop i a) (drop j b)"

lemma real_block_step: "real_block a b acc \<Longrightarrow> real_block a b (better_block a b acc p)"
  by (cases acc; cases p) (simp add: Let_def)

lemma real_block_foldl: "real_block a b acc \<Longrightarrow> real_block a b (foldl (better_block a b) acc ps)"
  by (induction ps arbitrary: acc) (simp_all add: real_block_step)

lemma common_prefix_le: "common_prefix a b \<le> length a \<and> common_prefix a b \<le> length b"
  by (induction a b rule: common_prefix.induct) auto

lemma longest_match_bounds:
  "longest_match a b = (i, j, k) \<Longrightarrow> i + k \<le> length a \<and> j + k \<le> length b \<or> k = 0"
proof -
  assume m: "longest_match a b = (i, j, k)"
  have "real_block a b (longest_match a b)" unfolding longest_match_def by (rule real_block_foldl) simp
  with m have "k = common_prefix (drop i a) (drop j b) \<or> k = 0" by auto
  with common_prefix_le [of "drop i a" "drop j b"] show ?thesis by auto
qed

function matching_size :: "string \<Rightarrow> string \<Rightarrow> nat" where
  \<comment> \<open>the total length of the matching blocks\<close>
  "matching_size a b = (case longest_match a b of (i, j, k) \<Rightarrow>
     if k = 0 then 0
     else matching_size (take i a) (take j b) + k + matching_size (drop (i + k) a) (drop (j + k) b))"
  by pat_completeness auto
termination
  by (relation "measure (\<lambda>(a, b). length a)") (auto dest!: longest_match_bounds [OF sym])

declare matching_size.simps [simp del]

definition match_ratio :: "string \<Rightarrow> string \<Rightarrow> pyfloat" where
  "match_ratio a b = (if length a + length b = 0 then 1 else 2 * real (matching_size a b) / real (length a + length b))"

section \<open>Detection\<close>

record nli_outcome =
  no_score :: pyfloat
  no_hallucination :: bool
  no_label :: string
  no_confidence :: pyfloat
  no_reason :: string
  no_issues :: "(string \<times> string) list" \<comment> \<open>type and value\<close>

definition empty_outcome :: "string \<Rightarrow> nli_outcome" where
  "empty_outcome reason = \<lparr>no_score = 0, no_hallucination = False, no_label = ''neutral'', no_confidence = 0,
     no_reason = reason, no_issues = []\<rparr>"

record nli_config =
  nc_contradiction :: pyfloat
  nc_entailment :: pyfloat

definition default_nli :: nli_config where
  "default_nli = \<lparr>nc_contradiction = 7/10, nc_entailment = 7/10\<rparr>"

definition label_scores :: "(string \<times> pyfloat) list \<Rightarrow> (string, pyfloat) pydict" where
  "label_scores rs = foldl (\<lambda>d (l, s). dict_set l s d) [] rs"

definition test_pipeline :: "(string \<times> pyfloat) list \<Rightarrow> bool" where
  \<comment> \<open>the scores of the trial text are not all zero\<close>
  "test_pipeline rs = (let scores = map snd (label_scores rs) in
     \<not> (sum_list scores = 0 \<or> list_all (\<lambda>v. v = 0) scores))"

definition judge_scores :: "nli_config \<Rightarrow> (string \<times> pyfloat) list \<Rightarrow> nli_outcome" where
  "judge_scores cf rs =
     (let d = label_scores rs; c = dict_get_or d ''CONTRADICTION'' 0; e = dict_get_or d ''ENTAILMENT'' 0;
          n = dict_get_or d ''NEUTRAL'' 0;
          (l, h, s) = (if nc_contradiction cf \<le> c then (''contradiction'', True, c)
            else if nc_entailment cf \<le> e then (''entailment'', False, 1 - e)
            else (''neutral'', 1/2 < n, n))
      in \<lparr>no_score = py_round s 4, no_hallucination = h, no_label = l, no_confidence = py_round (max (max c e) n) 4,
          no_reason = ''NLI detector: '' @ l, no_issues = []\<rparr>)"

type_synonym nli_pipeline = "string \<Rightarrow> string \<Rightarrow> (string \<times> pyfloat) list option"

definition nli_detect :: "nli_config \<Rightarrow> nli_pipeline option \<Rightarrow> string \<Rightarrow> string \<Rightarrow> nli_outcome option" where
  "nli_detect cf pipeline ctx response =
     (case pipeline of None \<Rightarrow> None
      | Some p \<Rightarrow>
          if strip ctx = [] then Some (empty_outcome ''empty_context'')
          else if strip response = [] then Some (empty_outcome ''empty_response'')
          else map_option (judge_scores cf) (p ctx response))"

section \<open>Verification of numbers and names\<close>

definition number_pattern :: rx where
  \<comment> \<open>\<open>\b\d+(?:\.\d+)?%?\b\<close>\<close>
  "number_pattern = rx_seq [Bound, plus1 digit, opt (Seq (lit ''.'') (plus1 digit)), opt (lit ''%''), Bound]"

definition entity_word :: rx where
  "entity_word = Seq (Cls is_upper) (plus1 (Cls is_lower))"

definition entity_pattern :: rx where
  "entity_pattern = rx_seq [Bound, entity_word, Star (Seq (plus1 (Cls is_space)) entity_word), Bound]"

definition found_set :: "rx \<Rightarrow> string \<Rightarrow> string list" where
  "found_set r t = remdups (findall r t)"

definition fuzzy_number :: "(string \<Rightarrow> pyfloat) \<Rightarrow> string \<Rightarrow> string list \<Rightarrow> bool" where
  \<comment> \<open>\<open>abs(..) <= 1.0 and "%" in num == "%" in ctx_num\<close> is a chain of three comparisons; \<open>val\<close> reads
     a number without its percent sign\<close>
  "fuzzy_number val num ctx_numbers =
     list_ex (\<lambda>n. \<bar>val (filter (\<lambda>c. c \<noteq> CHR ''%'') num) - val (filter (\<lambda>c. c \<noteq> CHR ''%'') n)\<bar> \<le> 1 \<and>
       substr ''%'' num \<and> num = ''%'' \<and> substr ''%'' n) ctx_numbers"

definition number_issues :: "(string \<Rightarrow> pyfloat) \<Rightarrow> string \<Rightarrow> string \<Rightarrow> (string \<times> string) list" where
  "number_issues val ctx response =
     (let cs = found_set number_pattern ctx in
      map (\<lambda>n. (''number_mismatch'', n))
        (filter (\<lambda>n. n \<notin> set cs \<and> (3 \<le> length n \<or> substr ''%'' n) \<and> \<not> fuzzy_number val n cs)
           (found_set number_pattern response)))"

definition common_words :: "string list" where
  "common_words = [''The'', ''This'', ''That'', ''These'', ''Those'', ''What'', ''How'', ''Why'', ''When'', ''Where'',
     ''Who'', ''Which'', ''Whom'', ''Whose'', ''However'', ''Therefore'', ''Furthermore'', ''Moreover'', ''Nevertheless'',
     ''Additionally'', ''Consequently'', ''Meanwhile'', ''Hence'', ''Thus'', ''Also'', ''But'', ''And'', ''Or'', ''Nor'',
     ''Not'', ''Yes'', ''No'', ''Please'', ''Hello'', ''Hi'', ''Thank'', ''Thanks'']"

fun split_words :: "string \<Rightarrow> string list" where
  \<comment> \<open>\<open>s.split()\<close>\<close>
  "split_words [] = []"
| "split_words (c # s) =
     (if is_space c then split_words s
      else (case s of [] \<Rightarrow> [[c]]
        | d # _ \<Rightarrow> if is_space d then [c] # split_words s
                   else (case split_words s of [] \<Rightarrow> [[c]] | w # ws \<Rightarrow> (c # w) # ws)))"

definition word_overlap :: "string \<Rightarrow> string \<Rightarrow> bool" where
  "word_overlap e c = (let ws = remdups (split_words (lower e)) in
     min 2 (length ws) \<le> length (filter (\<lambda>w. w \<in> set (split_words (lower c))) ws))"

definition known_entity :: "string list \<Rightarrow> string \<Rightarrow> bool" where
  "known_entity cs e \<longleftrightarrow>
     e \<in> set cs \<or>
     list_ex (\<lambda>c. substr e c \<or> substr c e) cs \<or>
     list_ex (word_overlap e) cs \<or>
     (CHR '' '' \<notin> set e \<and>
      list_ex (\<lambda>c. CHR '' '' \<notin> set c \<and> 85/100 \<le> match_ratio (lower e) (lower c)) cs)"

definition entity_issues :: "string \<Rightarrow> string \<Rightarrow> (string \<times> string) list" where
  "entity_issues ctx response =
     (let cs = found_set entity_pattern ctx in
      map (\<lambda>e. (''entity_mismatch'', e))
        (filter (\<lambda>e. \<not> (length e \<le> 3 \<or> e \<in> set common_words) \<and> \<not> known_entity cs e) (found_set entity_pattern response)))"

definition verify_entities :: "(string \<Rightarrow> pyfloat) \<Rightarrow> string \<Rightarrow> string \<Rightarrow> (string \<times> string) list" where
  "verify_entities val ctx response = number_issues val ctx response @ entity_issues ctx response"

definition detect_verified ::
  "(string \<Rightarrow> pyfloat) \<Rightarrow> nli_config \<Rightarrow> nli_pipeline option \<Rightarrow> string \<Rightarrow> string \<Rightarrow> nli_outcome option" where
  \<comment> \<open>\<open>detect_with_entity_verification\<close>; the count within the reason is left out\<close>
  "detect_verified val cf pipeline ctx response =
     (case nli_detect cf pipeline ctx response of None \<Rightarrow> None
      | Some r \<Rightarrow>
          let issues = verify_entities val ctx response; r1 = r\<lparr>no_issues := issues\<rparr> in
          Some (if issues = [] then r1
            else r1\<lparr>no_score := min 1 (no_score r1 + 2/10 * real (length issues)),
                   no_hallucination := (no_hallucination r1 \<or> 2 \<le> length issues),
                   no_reason := no_reason r1 @ '' | Entity issues''\<rparr>))"

section \<open>Properties\<close>

lemma matching_size_le: "matching_size a b \<le> length a \<and> matching_size a b \<le> length b"
proof (induction a b rule: matching_size.induct)
  case (1 a b)
  obtain i j k where m: "longest_match a b = (i, j, k)" by (metis prod_cases3)
  show ?case
  proof (cases "k = 0")
    case True
    then show ?thesis by (simp add: matching_size.simps [of a b] m)
  next
    case False
    with longest_match_bounds [OF m] have "i + k \<le> length a" "j + k \<le> length b" by simp_all
    with 1 [OF m [symmetric] refl False] m False show ?thesis
      by (simp add: matching_size.simps [of a b]) linarith
  qed
qed

text \<open>
  the similarity ratio is computed for all texts and lies between 0 and 1.
\<close>

theorem match_ratio_bounds: "match_ratio a b \<in> {0..1}"
  using matching_size_le [of a b] by (auto simp: match_ratio_def divide_le_eq)

text \<open>What a number that the pattern finds looks like.\<close>

lemma rmatch_number:
  assumes "rmatch number_pattern t a b"
  obtains m where "is_digit (t ! a)" "a < m" "m \<le> b" "b = m \<or> b = Suc m \<and> t ! m = CHR ''%''" "boundary_at t b"
    "\<forall>k. a \<le> k \<and> k < m \<longrightarrow> is_digit (t ! k) \<or> t ! k = CHR ''.''" "m < b \<longrightarrow> m < length t"
proof -
  let ?ip = "Seq (plus1 digit) (opt (Seq (lit ''.'') (plus1 digit)))"
  from assms obtain m where m: "rmatch ?ip t a m" and p: "rmatch (opt (lit ''%'')) t m b" and bd: "boundary_at t b"
    by (auto simp: number_pattern_def rmatch_simps)
  from m have "is_digit (t ! a)" "a < m"
    using rmatch_min [OF m] by (auto simp: plus1_def digit_def rmatch_simps)
  moreover from p have "b = m \<or> b = Suc m \<and> t ! m = CHR ''%'' \<and> m < length t"
    by (auto simp: opt_def lit_def rmatch_simps)
  moreover have "only (\<lambda>c. is_digit c \<or> c = CHR ''.'') ?ip" by (simp add: plus1_def digit_def opt_def lit_def)
  note rmatch_only [OF m this]
  ultimately show ?thesis using that [of m] bd by auto
qed

text \<open>
  the tolerance for numbers that differ by at most 1 is dead: exactly those numbers of the
  response are reported that do not occur literally in the context and have three characters or a
  percent sign; and where no percent sign is followed by a word character none is seen at all, so
  that percentages of one or two digits are never checked.
\<close>

theorem numbers_checked_literally:
  "set (number_issues val ctx response) = {(''number_mismatch'', n) | n.
     n \<in> set (findall number_pattern response) \<and> n \<notin> set (findall number_pattern ctx) \<and>
     (3 \<le> length n \<or> CHR ''%'' \<in> set n)} \<and>
   ((\<forall>i < length response. response ! i = CHR ''%'' \<longrightarrow> \<not> word_at response (Suc i)) \<longrightarrow>
     (\<forall>n \<in> set (findall number_pattern response). CHR ''%'' \<notin> set n))"
proof (intro conjI impI ballI)
  have ne: "n \<noteq> ''%''" if n: "n \<in> set (findall number_pattern t)" for n t
  proof -
    from findall_sound [OF n] obtain a b where ab: "a \<le> length t" "rmatch number_pattern t a b" "n = take (b - a) (drop a t)"
      by blast
    from ab(2) obtain m where "is_digit (t ! a)" "a < m" "m \<le> b" by (rule rmatch_number)
    moreover from this rmatch_bounds [OF ab(2,1)] have "a < length t" by simp
    ultimately have "hd n = t ! a" by (simp add: ab(3) hd_drop_conv_nth)
    moreover have "\<not> is_digit (CHR ''%'')" by (simp add: is_digit_def)
    ultimately show ?thesis using \<open>is_digit (t ! a)\<close> by (metis list.sel(1))
  qed
  have pct: "substr ''%'' n \<longleftrightarrow> CHR ''%'' \<in> set n" for n
    by (auto simp: sublist_def in_set_conv_decomp)
  show "set (number_issues val ctx response) = {(''number_mismatch'', n) | n.
     n \<in> set (findall number_pattern response) \<and> n \<notin> set (findall number_pattern ctx) \<and>
     (3 \<le> length n \<or> CHR ''%'' \<in> set n)}"
    using ne by (auto simp: number_issues_def found_set_def Let_def fuzzy_number_def list_ex_iff pct)
next
  fix n
  assume *: "\<forall>i < length response. response ! i = CHR ''%'' \<longrightarrow> \<not> word_at response (Suc i)"
    and n: "n \<in> set (findall number_pattern response)"
  from findall_sound [OF n] obtain a b where ab: "a \<le> length response" "rmatch number_pattern response a b"
    "n = take (b - a) (drop a response)" by blast
  from ab(2) obtain m where m0: "is_digit (response ! a)" and m: "a < m" and mb: "m \<le> b"
    and m1: "b = m \<or> b = Suc m \<and> response ! m = CHR ''%''" and bd: "boundary_at response b" and m2:
    "\<forall>k. a \<le> k \<and> k < m \<longrightarrow> is_digit (response ! k) \<or> response ! k = CHR ''.''" and m3: "m < b \<longrightarrow> m < length response"
    by (rule rmatch_number)
  have np: "\<not> is_word (CHR ''%'')" by (simp add: is_word_def is_digit_def is_upper_def is_lower_def)
  have "b = m"
  proof (rule ccontr)
    assume "b \<noteq> m"
    with m1 mb m3 have "b = Suc m" "response ! m = CHR ''%''" "m < length response" by auto
    with * bd np show False by (simp add: boundary_at_def word_at_def)
  qed
  show "CHR ''%'' \<notin> set n"
  proof
    assume "CHR ''%'' \<in> set n"
    then obtain k where "k < b - a" "response ! (a + k) = CHR ''%''" by (auto simp: ab(3) in_set_conv_nth)
    with m2 [rule_format, of "a + k"] \<open>b = m\<close> show False by (auto simp: is_digit_def less_diff_conv ac_simps)
  qed
qed

text \<open>
  entity verification only ever raises the alarm: it keeps label and confidence, never lowers the
  score and never withdraws a finding. A response whose numbers and names all occur in the
  context (in particular the context itself) has no issue and keeps the verdict of the model.
\<close>

theorem verification_escalates:
  "(case detect_verified val cf pl ctx response of
      None \<Rightarrow> nli_detect cf pl ctx response = None
    | Some v \<Rightarrow> (\<exists>r. nli_detect cf pl ctx response = Some r \<and> no_label v = no_label r \<and> no_confidence v = no_confidence r \<and>
        (no_score r \<le> 1 \<longrightarrow> no_score r \<le> no_score v) \<and> (no_hallucination r \<longrightarrow> no_hallucination v) \<and>
        (no_hallucination v \<longrightarrow> no_hallucination r \<or> 2 \<le> length (verify_entities val ctx response)))) \<and>
   (set (findall number_pattern response) \<subseteq> set (findall number_pattern ctx) \<longrightarrow>
    set (findall entity_pattern response) \<subseteq> set (findall entity_pattern ctx) \<longrightarrow>
    verify_entities val ctx response = [])"
proof
  show "case detect_verified val cf pl ctx response of
      None \<Rightarrow> nli_detect cf pl ctx response = None
    | Some v \<Rightarrow> (\<exists>r. nli_detect cf pl ctx response = Some r \<and> no_label v = no_label r \<and> no_confidence v = no_confidence r \<and>
        (no_score r \<le> 1 \<longrightarrow> no_score r \<le> no_score v) \<and> (no_hallucination r \<longrightarrow> no_hallucination v) \<and>
        (no_hallucination v \<longrightarrow> no_hallucination r \<or> 2 \<le> length (verify_entities val ctx response)))"
    by (cases "nli_detect cf pl ctx response") (auto simp: detect_verified_def Let_def)
  show "set (findall number_pattern response) \<subseteq> set (findall number_pattern ctx) \<longrightarrow>
    set (findall entity_pattern response) \<subseteq> set (findall entity_pattern ctx) \<longrightarrow>
    verify_entities val ctx response = []"
    by (auto simp: verify_entities_def number_issues_def entity_issues_def found_set_def Let_def known_entity_def
        filter_empty_conv)
qed

lemma verification_escalates_witness: "verify_entities val ''Paris has 2100000 inhabitants'' ''Paris has 2100000 inhabitants'' = []"
  using verification_escalates [where val = val and ctx = "''Paris has 2100000 inhabitants''" and
    response = "''Paris has 2100000 inhabitants''"] by blast

text \<open>
  without a context the model is not asked and its verdict is no hallucination, but two numbers
  or names in the response suffice for a finding.
\<close>

theorem blank_context_flags:
  "detect_verified val cf (Some p) [] response = Some v \<Longrightarrow>
   (no_hallucination v \<longleftrightarrow> 2 \<le> length (filter (\<lambda>n. 3 \<le> length n \<or> CHR ''%'' \<in> set n) (found_set number_pattern response)) +
     length (filter (\<lambda>e. 3 < length e \<and> e \<notin> set common_words) (found_set entity_pattern response)))"
proof -
  have "found_set r [] = []" if "\<not> search r []" for r
    using that by (simp add: found_set_def search_findall)
  moreover have "\<not> search number_pattern []" "\<not> search entity_pattern []"
    by (rule short_no_search; simp add: number_pattern_def entity_pattern_def entity_word_def plus1_def digit_def)+
  ultimately have e: "found_set number_pattern [] = []" "found_set entity_pattern [] = []" by blast+
  have pct: "substr ''%'' n \<longleftrightarrow> CHR ''%'' \<in> set n" for n
    by (auto simp: sublist_def in_set_conv_decomp)
  assume "detect_verified val cf (Some p) [] response = Some v"
  then have "no_hallucination v \<longleftrightarrow> 2 \<le> length (verify_entities val [] response)"
    by (auto simp: detect_verified_def nli_detect_def strip_def empty_outcome_def Let_def split: if_splits)
  moreover have "length (verify_entities val [] response) =
      length (filter (\<lambda>n. 3 \<le> length n \<or> CHR ''%'' \<in> set n) (found_set number_pattern response)) +
      length (filter (\<lambda>e. 3 < length e \<and> e \<notin> set common_words) (found_set entity_pattern response))"
    by (simp add: verify_entities_def number_issues_def entity_issues_def e known_entity_def fuzzy_number_def pct not_le Let_def)
  ultimately show ?thesis by simp
qed

lemma blank_context_flags_witness:
  "\<exists>v. detect_verified (\<lambda>_. 0) default_nli (Some (\<lambda>_ _. None)) [] ''Paris and London'' = Some v \<and> no_hallucination v"
proof -
  obtain v where v: "detect_verified (\<lambda>_. 0) default_nli (Some (\<lambda>_ _. None)) [] ''Paris and London'' = Some v"
    by (cases "detect_verified (\<lambda>_. 0) default_nli (Some (\<lambda>_ _. None)) [] ''Paris and London''")
      (auto simp: detect_verified_def nli_detect_def strip_def Let_def)
  have "found_set entity_pattern ''Paris and London'' = [''Paris'', ''London'']" by code_simp
  moreover have "\<not> ''Paris'' \<in> set common_words" "\<not> ''London'' \<in> set common_words" by (simp_all add: common_words_def)
  ultimately show ?thesis using v blank_context_flags [OF v] by simp
qed

lemma numbers_checked_literally_witness:
  "\<forall>n \<in> set (findall number_pattern ''5 % of 7''). CHR ''%'' \<notin> set n"
  using numbers_checked_literally [where val = "\<lambda>_. 0" and ctx = "[]" and response = "''5 % of 7''"]
  by (simp add: All_less_Suc word_at_def is_word_def is_digit_def is_upper_def is_lower_def)

end
