(* ===== verification/Data_Validator.thy ===== *)
theory Data_Validator
  imports Py_Regex Interfaces
begin

text \<open>
  Validation of incoming traces and their quality statistics
  (\<open>services/shared/data_validator.py\<close>). A trace is a dictionary of JSON values. The value within the
  message about a tag is left out, and so are time stamps and log messages. The warning of the null
  rate only writes a log message.
\<close>

section \<open>Traces\<close>

datatype field_value =
    FNull
  | FStr string
  | FDict "(string \<times> field_value) list"
  | FList nat \<comment> \<open>of that length\<close>
  | FNumber string \<comment> \<open>a number or a boolean\<close>

type_synonym trace_dict = "(string, field_value) pydict"

definition field_of :: "trace_dict \<Rightarrow> string \<Rightarrow> field_value" where
  \<comment> \<open>\<open>trace.get(field)\<close>\<close>
  "field_of t f = dict_get_or t f FNull"

fun is_str :: "field_value \<Rightarrow> bool" where
  "is_str (FStr s) = True"
| "is_str _ = False"

fun join_errors :: "string list \<Rightarrow> string" where
  "join_errors [] = []"
| "join_errors [e] = e"
| "join_errors (e # es) = e @ ''; '' @ join_errors es"

section \<open>Validation\<close>

record field_constraint =
  fc_max :: nat
  fc_min :: nat \<comment> \<open>0 when there is none\<close>
  fc_pattern :: "(string \<Rightarrow> bool) option"

definition id_char :: "char \<Rightarrow> bool" where
  "id_char c = (is_digit c \<or> is_upper c \<or> is_lower c \<or> c = CHR ''-'' \<or> c = CHR ''_'')"

definition model_id_pattern :: "string \<Rightarrow> bool" where
  \<comment> \<open>\<open>re.match(r"^[a-zA-Z0-9\-_]+$", v)\<close>: the dollar also matches before a final line feed\<close>
  "model_id_pattern v =
     (let w = (if v \<noteq> [] \<and> last v = CHR 0x0A then butlast v else v) in w \<noteq> [] \<and> list_all id_char w)"

definition field_constraints :: "(string, field_constraint) pydict" where
  "field_constraints = [
     (''prompt'', \<lparr>fc_max = 10000, fc_min = 1, fc_pattern = None\<rparr>),
     (''completion'', \<lparr>fc_max = 10000, fc_min = 0, fc_pattern = None\<rparr>),
     (''model_id'', \<lparr>fc_max = 255, fc_min = 1, fc_pattern = Some model_id_pattern\<rparr>),
     (''user_id'', \<lparr>fc_max = 255, fc_min = 0, fc_pattern = None\<rparr>)]"

definition required_errors :: "trace_dict \<Rightarrow> string list" where
  "required_errors t = concat (map (\<lambda>f. case field_of t f of
       FNull \<Rightarrow> [''Missing required field: '' @ f]
     | FStr s \<Rightarrow> []
     | _ \<Rightarrow> [''Field '' @ f @ '' must be a string'']) [''prompt'', ''completion'', ''model_id''])"

definition constraint_errors :: "string \<Rightarrow> field_constraint \<Rightarrow> field_value \<Rightarrow> string list" where
  "constraint_errors f k v = (case v of
       FNull \<Rightarrow> []
     | FStr s \<Rightarrow>
         (if fc_max k < length s then [''Field '' @ f @ '' exceeds max length '' @ show_nat (fc_max k)] else []) @
         (if length s < fc_min k then [''Field '' @ f @ '' below min length '' @ show_nat (fc_min k)] else []) @
         (case fc_pattern k of Some p \<Rightarrow> if p s then [] else [''Field '' @ f @ '' does not match pattern''] | None \<Rightarrow> [])
     | _ \<Rightarrow> [''Field '' @ f @ '' must be a string''])"

definition tag_errors :: "field_value \<Rightarrow> string list" where
  "tag_errors v = (case v of
       FNull \<Rightarrow> []
     | FDict d \<Rightarrow> concat (map (\<lambda>(k, w). if is_str w then [] else [''tags entries must be strings: '' @ k]) d)
     | _ \<Rightarrow> [''tags must be a dict''])"

definition validate_trace :: "trace_dict \<Rightarrow> bool \<times> string option" where
  "validate_trace t =
     (let e1 = required_errors t in
      if e1 \<noteq> [] then (False, Some (join_errors e1))
      else (let e2 = concat (map (\<lambda>(f, k). constraint_errors f k (field_of t f)) field_constraints) @
                  tag_errors (dict_get_or t ''tags'' (FDict [])) in
            if e2 \<noteq> [] then (False, Some (join_errors e2)) else (True, None)))"

section \<open>Quality of a batch\<close>

record quality_report =
  qr_total :: nat
  qr_null :: "(string, nat) pydict"
  qr_range :: "(string, nat) pydict"
  qr_type :: "(string, nat) pydict"
  qr_errors :: "(field_value \<times> string option) list" \<comment> \<open>trace id and error\<close>

definition empty_report :: quality_report where
  "empty_report = \<lparr>qr_total = 0, qr_null = [], qr_range = [], qr_type = [], qr_errors = []\<rparr>"

definition count_sum :: "(string, nat) pydict \<Rightarrow> nat" where
  "count_sum d = sum_list (map snd d)"

definition quality_score :: "quality_report \<Rightarrow> pyfloat" where
  "quality_score r =
     (if qr_total r = 0 then 1
      else max 0 (1 - real (count_sum (qr_null r) + count_sum (qr_range r) + count_sum (qr_type r) + length (qr_errors r)) /
        real (max (qr_total r) 1)))"

definition merge_counts :: "(string, nat) pydict \<Rightarrow> (string, nat) pydict \<Rightarrow> (string, nat) pydict" where
  "merge_counts a b = foldl (\<lambda>d (k, v). dict_set k (dict_get_or d k 0 + v) d) [] (a @ b)"

definition merge_reports :: "quality_report \<Rightarrow> quality_report \<Rightarrow> quality_report" where
  "merge_reports a b = \<lparr>qr_total = qr_total a + qr_total b, qr_null = merge_counts (qr_null a) (qr_null b),
     qr_range = merge_counts (qr_range a) (qr_range b), qr_type = merge_counts (qr_type a) (qr_type b),
     qr_errors = qr_errors a @ qr_errors b\<rparr>"

definition bump :: "bool \<Rightarrow> string \<Rightarrow> (string, nat) pydict \<Rightarrow> (string, nat) pydict" where
  "bump b f d = (if b then dict_set f (dict_get_or d f 0 + 1) d else d)"

definition too_long :: "trace_dict \<Rightarrow> string \<Rightarrow> bool" where
  "too_long t f = (case field_of t f of FStr s \<Rightarrow> 10000 < length s | _ \<Rightarrow> False)"

definition assess_step :: "quality_report \<Rightarrow> trace_dict \<Rightarrow> quality_report" where
  "assess_step r t =
     r\<lparr>qr_null := foldl (\<lambda>d f. bump (field_of t f = FNull) f d) (qr_null r)
          [''prompt'', ''completion'', ''model_id'', ''user_id'', ''tags''],
       qr_type := foldl (\<lambda>d f. bump (field_of t f \<noteq> FNull \<and> \<not> is_str (field_of t f)) f d) (qr_type r)
          [''prompt'', ''completion'', ''model_id''],
       qr_range := foldl (\<lambda>d f. bump (too_long t f) f d) (qr_range r) [''prompt'', ''completion''],
       qr_errors := (if fst (validate_trace t) then qr_errors r
         else qr_errors r @ [(dict_get_or t ''id'' (FStr ''unknown''), snd (validate_trace t))])\<rparr>"

definition assess_quality :: "trace_dict list \<Rightarrow> quality_report" where
  "assess_quality ts = foldl assess_step (empty_report\<lparr>qr_total := length ts\<rparr>) ts"

section \<open>Drift of the statistics\<close>

record field_stats =
  fs_present :: nat
  fs_nulls :: nat
  fs_null_rate :: pyfloat
  fs_avg_length :: pyfloat
  fs_unique :: "(nat \<times> pyfloat) option"

record trace_stats =
  ts_total :: nat
  ts_fields :: "(string, field_stats) pydict"

fun size_of :: "field_value \<Rightarrow> nat option" where
  \<comment> \<open>\<open>len\<close>; \<open>None\<close> is the TypeError\<close>
  "size_of (FStr s) = Some (length s)"
| "size_of (FDict d) = Some (length d)"
| "size_of (FList n) = Some n"
| "size_of _ = None"

definition field_statistics :: "trace_dict list \<Rightarrow> string \<Rightarrow> py_error + field_stats option" where
  "field_statistics ts f =
     (let vs = filter (\<lambda>v. v \<noteq> FNull) (map (\<lambda>t. field_of t f) ts) in
      if vs = [] then Inr None
      else if list_ex (\<lambda>v. size_of v = None) vs then Inl TypeError
      else if f \<in> {''model_id'', ''user_id''} \<and> list_ex (\<lambda>v. \<not> is_str v) vs then Inl TypeError
      else Inr (Some \<lparr>fs_present = length vs, fs_nulls = length ts - length vs,
        fs_null_rate = py_round (real (length ts - length vs) / real (length ts)) 4,
        fs_avg_length = py_round (real (sum_list (map (\<lambda>v. the (size_of v)) vs)) / real (length vs)) 2,
        fs_unique = (if f \<in> {''model_id'', ''user_id''}
          then Some (length (remdups vs), py_round (real (length (remdups vs)) / real (length vs)) 4) else None)\<rparr>))"

fun statistics_of :: "trace_dict list \<Rightarrow> string list \<Rightarrow> py_error + (string, field_stats) pydict" where
  "statistics_of ts [] = Inr []"
| "statistics_of ts (f # fs) = (case field_statistics ts f of
     Inl e \<Rightarrow> Inl e
   | Inr s \<Rightarrow> (case statistics_of ts fs of Inl e \<Rightarrow> Inl e
       | Inr d \<Rightarrow> Inr (case s of None \<Rightarrow> d | Some x \<Rightarrow> (f, x) # d)))"

definition compute_statistics :: "trace_dict list \<Rightarrow> py_error + trace_stats" where
  "compute_statistics ts =
     (case statistics_of ts [''prompt'', ''completion'', ''model_id'', ''user_id''] of
        Inl e \<Rightarrow> Inl e | Inr d \<Rightarrow> Inr \<lparr>ts_total = length ts, ts_fields = d\<rparr>)"

record schema_alert =
  dv_field :: string
  dv_metric :: string
  dv_baseline :: pyfloat
  dv_current :: pyfloat
  dv_severity :: string

definition relative_alert :: "string \<Rightarrow> string \<Rightarrow> string \<Rightarrow> pyfloat \<Rightarrow> pyfloat \<Rightarrow> pyfloat \<Rightarrow> schema_alert list" where
  "relative_alert f metric severity limit b c =
     (if 0 < b \<and> limit < \<bar>c - b\<bar> / b
      then [\<lparr>dv_field = f, dv_metric = metric, dv_baseline = b, dv_current = c, dv_severity = severity\<rparr>] else [])"

definition schema_drift :: "trace_stats option \<Rightarrow> trace_stats \<Rightarrow> schema_alert list" where
  \<comment> \<open>\<open>SchemaDriftDetector.detect_drift\<close>; \<open>None\<close> is the empty baseline\<close>
  "schema_drift baseline current = (case baseline of
       None \<Rightarrow> []
     | Some b \<Rightarrow> concat (map (\<lambda>(f, c). case dict_get (ts_fields b) f of
           None \<Rightarrow> []
         | Some s \<Rightarrow> relative_alert f ''null_rate'' ''warning'' (1/2) (fs_null_rate s) (fs_null_rate c) @
             relative_alert f ''avg_length'' ''info'' (3/10) (fs_avg_length s) (fs_avg_length c)) (ts_fields current)))"

definition blend :: "field_stats \<Rightarrow> field_stats \<Rightarrow> field_stats" where
  "blend c b = b\<lparr>fs_null_rate := 3/10 * fs_null_rate c + 7/10 * fs_null_rate b,
     fs_avg_length := 3/10 * fs_avg_length c + 7/10 * fs_avg_length b\<rparr>"

definition update_baseline :: "trace_stats \<Rightarrow> trace_stats option \<Rightarrow> trace_stats option" where
  "update_baseline stats baseline = Some (case baseline of
       None \<Rightarrow> stats
     | Some b \<Rightarrow> b\<lparr>ts_fields := foldl (\<lambda>d (f, c). dict_set f
           (case dict_get d f of Some s \<Rightarrow> blend c s | None \<Rightarrow> c) d) (ts_fields b) (ts_fields stats),
         ts_total := ts_total stats\<rparr>)"

section \<open>Properties\<close>

definition text_field :: "trace_dict \<Rightarrow> string \<Rightarrow> nat \<Rightarrow> nat \<Rightarrow> bool" where
  "text_field t f lo hi \<longleftrightarrow> (\<exists>s. field_of t f = FStr s \<and> lo \<le> length s \<and> length s \<le> hi)"

definition valid_trace :: "trace_dict \<Rightarrow> bool" where
  \<comment> \<open>the declarative condition\<close>
  "valid_trace t \<longleftrightarrow> text_field t ''prompt'' 1 10000 \<and> text_field t ''completion'' 0 10000 \<and> text_field t ''model_id'' 1 255 \<and>
     (\<forall>s. field_of t ''model_id'' = FStr s \<longrightarrow> model_id_pattern s) \<and>
     (field_of t ''user_id'' = FNull \<or> text_field t ''user_id'' 0 255) \<and>
     (\<forall>v. dict_get t ''tags'' = Some v \<longrightarrow> v = FNull \<or> (\<exists>d. v = FDict d \<and> (\<forall>(k, w) \<in> set d. is_str w)))"

lemma required_none: "required_errors t = [] \<longleftrightarrow> is_str (field_of t ''prompt'') \<and> is_str (field_of t ''completion'') \<and> is_str (field_of t ''model_id'')"
  by (auto simp: required_errors_def split: field_value.splits)

lemma is_strE: "is_str v \<longleftrightarrow> (\<exists>s. v = FStr s)"
  by (cases v) auto

lemma tags_none: "tag_errors v = [] \<longleftrightarrow> v = FNull \<or> (\<exists>d. v = FDict d \<and> (\<forall>(k, w) \<in> set d. is_str w))"
  by (cases v) (auto simp: tag_errors_def split_beta split: if_splits)

lemma validate_trace_valid: "fst (validate_trace t) \<longleftrightarrow> valid_trace t"
proof -
  have tags: "tag_errors (dict_get_or t ''tags'' (FDict [])) = [] \<longleftrightarrow>
      (\<forall>v. dict_get t ''tags'' = Some v \<longrightarrow> v = FNull \<or> (\<exists>d. v = FDict d \<and> (\<forall>(k, w) \<in> set d. is_str w)))"
    by (cases "dict_get t ''tags''") (simp_all add: tags_none dict_get_or_def)
  have one: "constraint_errors f k (FStr s) = [] \<longleftrightarrow> fc_min k \<le> length s \<and> length s \<le> fc_max k \<and>
      (\<forall>p. fc_pattern k = Some p \<longrightarrow> p s)" for f k s
    by (auto simp: constraint_errors_def split: option.splits)
  have user: "constraint_errors ''user_id'' \<lparr>fc_max = 255, fc_min = 0, fc_pattern = None\<rparr> v = [] \<longleftrightarrow>
      v = FNull \<or> (\<exists>s. v = FStr s \<and> length s \<le> 255)" for v
    by (cases v) (auto simp: constraint_errors_def)
  have r: "fst (validate_trace t) \<longleftrightarrow> required_errors t = [] \<and>
      (\<forall>(f, k) \<in> set field_constraints. constraint_errors f k (field_of t f) = []) \<and>
      tag_errors (dict_get_or t ''tags'' (FDict [])) = []"
    by (auto simp: validate_trace_def Let_def)
  show ?thesis
    unfolding r tags required_none is_strE valid_trace_def text_field_def
    by (auto simp: field_constraints_def one user)
qed

text \<open>
  validation accepts a trace exactly when it meets the declared constraints; it reports an error
  message exactly when it refuses.
\<close>

theorem validate_trace_iff:
  "(fst (validate_trace t) \<longleftrightarrow> valid_trace t) \<and> (snd (validate_trace t) = None \<longleftrightarrow> fst (validate_trace t))"
proof
  show "snd (validate_trace t) = None \<longleftrightarrow> fst (validate_trace t)" by (simp add: validate_trace_def Let_def)
qed (rule validate_trace_valid)

text \<open>Counting: what the dictionaries of counts say.\<close>

lemma get_bump: "dict_get_or (bump b f d) g 0 = dict_get_or d g 0 + (if b \<and> f = g then 1 else 0)"
  by (auto simp: bump_def dict_get_or_def)

lemma sum_bump: "count_sum (bump b f d) = count_sum d + (if b then 1 else 0)"
  using sum_dict_inc [of f d] by (simp add: bump_def count_sum_def)

lemma get_bumps:
  "distinct fs \<Longrightarrow> dict_get_or (foldl (\<lambda>d f. bump (P f) f d) d fs) g 0 = dict_get_or d g 0 + (if g \<in> set fs \<and> P g then 1 else 0)"
  by (induction fs arbitrary: d) (auto simp: get_bump)

lemma sum_bumps: "count_sum (foldl (\<lambda>d f. bump (P f) f d) d fs) = count_sum d + length (filter P fs)"
  by (induction fs arbitrary: d) (auto simp: sum_bump)

lemma distinct_keys_bumps: "distinct (map fst d) \<Longrightarrow> distinct (map fst (foldl (\<lambda>d f. bump (P f) f d) d fs))"
  by (induction fs arbitrary: d) (auto simp: bump_def distinct_update)

definition field_issues :: "trace_dict \<Rightarrow> nat" where
  "field_issues t = length (filter (\<lambda>f. field_of t f = FNull) [''prompt'', ''completion'', ''model_id'', ''user_id'', ''tags'']) +
     length (filter (\<lambda>f. field_of t f \<noteq> FNull \<and> \<not> is_str (field_of t f)) [''prompt'', ''completion'', ''model_id'']) +
     length (filter (too_long t) [''prompt'', ''completion'']) + (if fst (validate_trace t) then 0 else 1)"

definition issues_of :: "quality_report \<Rightarrow> nat" where
  "issues_of r = count_sum (qr_null r) + count_sum (qr_range r) + count_sum (qr_type r) + length (qr_errors r)"

lemma assess_fields:
  "qr_null (assess_step r t) = foldl (\<lambda>d f. bump (field_of t f = FNull) f d) (qr_null r)
     [''prompt'', ''completion'', ''model_id'', ''user_id'', ''tags'']"
  "qr_type (assess_step r t) = foldl (\<lambda>d f. bump (field_of t f \<noteq> FNull \<and> \<not> is_str (field_of t f)) f d) (qr_type r)
     [''prompt'', ''completion'', ''model_id'']"
  "qr_range (assess_step r t) = foldl (\<lambda>d f. bump (too_long t f) f d) (qr_range r) [''prompt'', ''completion'']"
  "qr_errors (assess_step r t) = (if fst (validate_trace t) then qr_errors r
     else qr_errors r @ [(dict_get_or t ''id'' (FStr ''unknown''), snd (validate_trace t))])"
  by (simp_all add: assess_step_def)

lemma issues_step: "issues_of (assess_step r t) = issues_of r + field_issues t"
  unfolding issues_of_def assess_fields sum_bumps field_issues_def by (simp del: filter.simps)

lemma issues_run: "issues_of (foldl assess_step r ts) = issues_of r + sum_list (map field_issues ts)"
  by (induction ts arbitrary: r) (simp_all add: issues_step)

lemma total_run: "qr_total (foldl assess_step r ts) = qr_total r"
  by (induction ts arbitrary: r) (simp_all add: assess_step_def)

lemma quality_score_issues:
  "quality_score (assess_quality ts) =
     (if ts = [] then 1 else max 0 (1 - real (sum_list (map field_issues ts)) / real (length ts)))"
proof -
  have "issues_of (assess_quality ts) = issues_of (empty_report\<lparr>qr_total := length ts\<rparr>) + sum_list (map field_issues ts)"
    unfolding assess_quality_def by (rule issues_run)
  moreover have "issues_of (empty_report\<lparr>qr_total := n\<rparr>) = 0" for n
    by (simp add: issues_of_def empty_report_def count_sum_def)
  moreover have "qr_total (assess_quality ts) = length ts" by (simp add: assess_quality_def total_run)
  ultimately show ?thesis by (cases ts) (simp_all add: quality_score_def issues_of_def max_def add.assoc)
qed

text \<open>
  the quality score lies between 0 and 1, but the absence of an optional field counts as an issue:
  a batch of valid traces none of which names a user has quality 0.
\<close>

theorem valid_batch_scores_zero:
  assumes "ts \<noteq> []" "list_all (\<lambda>t. valid_trace t \<and> field_of t ''user_id'' = FNull) ts"
  shows "qr_errors (assess_quality ts) = [] \<and> quality_score (assess_quality ts) = 0"
proof -
  have "qr_errors (foldl assess_step r ts) = qr_errors r" if "list_all (\<lambda>t. fst (validate_trace t)) ts" for r ts
    using that by (induction ts arbitrary: r) (simp_all add: assess_step_def)
  then have "qr_errors (assess_quality ts) = []"
    using assms(2) by (auto simp: assess_quality_def empty_report_def validate_trace_valid list_all_iff)
  moreover have "length ts \<le> sum_list (map field_issues ts)"
    using assms(2) by (induction ts) (auto simp: field_issues_def)
  then have "quality_score (assess_quality ts) = 0"
    using assms(1) by (auto simp: quality_score_issues field_simps)
  ultimately show ?thesis by blast
qed

lemma valid_batch_scores_zero_witness:
  "quality_score (assess_quality [[(''prompt'', FStr ''hi''), (''completion'', FStr ''ho''), (''model_id'', FStr ''m'')]]) = 0"
  using valid_batch_scores_zero [of "[[(''prompt'', FStr ''hi''), (''completion'', FStr ''ho''), (''model_id'', FStr ''m'')]]"]
  by (simp add: valid_trace_def text_field_def field_of_def dict_get_or_def model_id_pattern_def id_char_def is_lower_def)

text \<open>Merging reports adds their counts.\<close>

lemma get_merge: "distinct (map fst a) \<Longrightarrow> distinct (map fst b) \<Longrightarrow>
   dict_get_or (merge_counts a b) f 0 = dict_get_or a f 0 + dict_get_or b f 0"
proof -
  have step: "dict_get_or (foldl (\<lambda>d (k, v). dict_set k (dict_get_or d k 0 + v) d) d xs) f 0 =
      dict_get_or d f 0 + sum_list (map snd (filter (\<lambda>p. fst p = f) xs))" for d and xs :: "(string \<times> nat) list"
    by (induction xs arbitrary: d) auto
  have one: "sum_list (map snd (filter (\<lambda>p. fst p = f) xs)) = dict_get_or xs f 0"
    if "distinct (map fst xs)" for xs :: "(string \<times> nat) list"
    using that
  proof (induction xs)
    case (Cons x xs)
    obtain k v where x: "x = (k, v)" by force
    have "filter (\<lambda>p. fst p = f) xs = []" if "f \<notin> fst ` set xs" using that by (auto simp: filter_empty_conv)
    with Cons show ?case by (cases "f = k") (auto simp: x dict_get_or_def)
  qed (simp add: dict_get_or_def)
  assume "distinct (map fst a)" "distinct (map fst b)"
  then show ?thesis using one [of a] one [of b] by (simp add: merge_counts_def step) (simp add: dict_get_or_def)
qed

lemma sum_merge: "count_sum (merge_counts a b) = count_sum a + count_sum b"
proof -
  have "count_sum (dict_set k (dict_get_or d k 0 + v) d) = count_sum d + v" for k v and d :: "(string, nat) pydict"
    by (induction d) (auto simp: count_sum_def dict_get_or_def)
  then have "count_sum (foldl (\<lambda>d (k, v). dict_set k (dict_get_or d k 0 + v) d) d xs) = count_sum d + count_sum xs"
    for d and xs :: "(string, nat) pydict"
    by (induction xs arbitrary: d) (auto simp: count_sum_def)
  then show ?thesis by (simp add: merge_counts_def count_sum_def)
qed

definition checked_fields :: "string list" where
  "checked_fields = [''prompt'', ''completion'', ''model_id'', ''user_id'', ''tags'']"

lemma null_step:
  "qr_null (assess_step r t) = foldl (\<lambda>d f. bump (field_of t f = FNull) f d) (qr_null r) checked_fields"
  by (simp add: assess_fields(1) checked_fields_def)

lemma distinct_checked: "distinct checked_fields"
  by (simp add: checked_fields_def)

lemma null_counts:
  "dict_get_or (qr_null (foldl assess_step r ts)) f 0 = dict_get_or (qr_null r) f 0 +
     (if f \<in> set checked_fields then length (filter (\<lambda>t. field_of t f = FNull) ts) else 0)"
  by (induction ts arbitrary: r) (simp_all add: null_step get_bumps [OF distinct_checked])

lemma null_keys: "distinct (map fst (qr_null r)) \<Longrightarrow> distinct (map fst (qr_null (foldl assess_step r ts)))"
  by (induction ts arbitrary: r) (simp_all add: null_step distinct_keys_bumps)

lemma errors_append: "qr_errors (foldl assess_step r ts) = qr_errors r @ qr_errors (foldl assess_step empty_report ts)"
proof (induction ts arbitrary: r)
  case (Cons t ts)
  show ?case using Cons.IH [of "assess_step r t"] Cons.IH [of "assess_step empty_report t"]
    by (simp add: assess_fields empty_report_def)
qed (simp add: empty_report_def)

text \<open>
  assessing two batches and merging the reports is assessing them together: the same null
  counts per field, the same errors in order and the same quality score.
\<close>

theorem assess_is_additive:
  "dict_get_or (qr_null (merge_reports (assess_quality a) (assess_quality b))) f 0 = dict_get_or (qr_null (assess_quality (a @ b))) f 0 \<and>
   qr_errors (merge_reports (assess_quality a) (assess_quality b)) = qr_errors (assess_quality (a @ b)) \<and>
   quality_score (merge_reports (assess_quality a) (assess_quality b)) = quality_score (assess_quality (a @ b))"
proof (intro conjI)
  have keys: "distinct (map fst (qr_null (assess_quality ts)))" for ts
    unfolding assess_quality_def by (rule null_keys) (simp add: empty_report_def)
  have nulls: "dict_get_or (qr_null (assess_quality ts)) f 0 =
      (if f \<in> set checked_fields then length (filter (\<lambda>t. field_of t f = FNull) ts) else 0)" for ts
    unfolding assess_quality_def null_counts by (simp add: empty_report_def dict_get_or_def)
  show "dict_get_or (qr_null (merge_reports (assess_quality a) (assess_quality b))) f 0 =
      dict_get_or (qr_null (assess_quality (a @ b))) f 0"
    by (simp add: merge_reports_def get_merge [OF keys keys] nulls)
  have err: "qr_errors (assess_quality ts) = qr_errors (foldl assess_step empty_report ts)" for ts
    unfolding assess_quality_def by (subst errors_append) (simp add: empty_report_def)
  show "qr_errors (merge_reports (assess_quality a) (assess_quality b)) = qr_errors (assess_quality (a @ b))"
    unfolding err merge_reports_def by (simp add: errors_append [of "foldl assess_step empty_report a"])
  have i: "issues_of (assess_quality ts) = sum_list (map field_issues ts)" "qr_total (assess_quality ts) = length ts" for ts
  proof -
    have "issues_of (empty_report\<lparr>qr_total := n\<rparr>) = 0" for n by (simp add: issues_of_def empty_report_def count_sum_def)
    then show "issues_of (assess_quality ts) = sum_list (map field_issues ts)" by (simp add: assess_quality_def issues_run)
    show "qr_total (assess_quality ts) = length ts" by (simp add: assess_quality_def total_run)
  qed
  have q: "quality_score r = (if qr_total r = 0 then 1 else max 0 (1 - real (issues_of r) / real (max (qr_total r) 1)))" for r
    by (simp add: quality_score_def issues_of_def)
  have "issues_of (merge_reports (assess_quality a) (assess_quality b)) = issues_of (assess_quality a) + issues_of (assess_quality b)"
    by (simp add: issues_of_def merge_reports_def sum_merge)
  then show "quality_score (merge_reports (assess_quality a) (assess_quality b)) = quality_score (assess_quality (a @ b))"
    by (simp add: q i merge_reports_def)
qed

text \<open>
  a field that all traces of a batch lack raises no drift alert, whatever the baseline says, and neither does
  a null rate that rises from 0.
\<close>

theorem vanished_field_silent:
  assumes "compute_statistics ts = Inr cur" "list_all (\<lambda>t. field_of t f = FNull) ts" "a \<in> set (schema_drift base cur)"
  shows "dv_field a \<noteq> f \<and> 0 < dv_baseline a"
proof -
  have s: "statistics_of ts fs = Inr d \<Longrightarrow> f \<notin> fst ` set d" for fs d
  proof (induction fs arbitrary: d)
    case (Cons g gs)
    have "filter (\<lambda>v. v \<noteq> FNull) (map (\<lambda>t. field_of t f) ts) = []"
      using assms(2) by (auto simp: filter_empty_conv list_all_iff)
    then have "field_statistics ts f = Inr None" by (simp add: field_statistics_def Let_def)
    with Cons show ?case by (cases "g = f") (auto split: sum.splits option.splits)
  qed simp
  from assms(1) have "f \<notin> fst ` set (ts_fields cur)"
    using s [of "[''prompt'', ''completion'', ''model_id'', ''user_id'']" "ts_fields cur"]
    by (cases "statistics_of ts [''prompt'', ''completion'', ''model_id'', ''user_id'']")
      (simp_all add: compute_statistics_def image_iff del: statistics_of.simps, force)
  with assms(3) show ?thesis
    by (force simp: schema_drift_def relative_alert_def split: option.splits if_splits)
qed

lemma vanished_field_silent_witness:
  "\<forall>a \<in> set (schema_drift base \<lparr>ts_total = 1, ts_fields = []\<rparr>). dv_field a \<noteq> ''prompt''"
  using vanished_field_silent [of "[[]]" "\<lparr>ts_total = 1, ts_fields = []\<rparr>" "''prompt''" _ base]
  by (simp add: compute_statistics_def field_statistics_def field_of_def dict_get_or_def)

text \<open>
  repeated updates with the same statistics move the baseline towards them: after \<open>n\<close> of them 0.7 to the power
  \<open>n\<close> of the old distance is left.
\<close>

theorem baseline_converges:
  assumes "dict_get (ts_fields b) f = Some s" "ts_fields cur = [(f, c)]"
  shows "\<exists>b' s'. ((update_baseline cur) ^^ n) (Some b) = Some b' \<and> dict_get (ts_fields b') f = Some s' \<and>
    fs_null_rate s' - fs_null_rate c = (7/10) ^ n * (fs_null_rate s - fs_null_rate c) \<and>
    fs_avg_length s' - fs_avg_length c = (7/10) ^ n * (fs_avg_length s - fs_avg_length c)"
proof (induction n)
  case 0
  with assms show ?case by simp
next
  case (Suc n)
  then obtain b' s' where IH: "((update_baseline cur) ^^ n) (Some b) = Some b'" "dict_get (ts_fields b') f = Some s'"
    "fs_null_rate s' - fs_null_rate c = (7/10) ^ n * (fs_null_rate s - fs_null_rate c)"
    "fs_avg_length s' - fs_avg_length c = (7/10) ^ n * (fs_avg_length s - fs_avg_length c)" by blast
  have "fs_null_rate (blend c s') - fs_null_rate c = 7/10 * (fs_null_rate s' - fs_null_rate c)"
    "fs_avg_length (blend c s') - fs_avg_length c = 7/10 * (fs_avg_length s' - fs_avg_length c)"
    by (simp_all add: blend_def field_simps)
  moreover have "update_baseline cur (Some b') = Some (b'\<lparr>ts_fields := dict_set f (blend c s') (ts_fields b'), ts_total := ts_total cur\<rparr>)"
    using IH(2) assms(2) by (simp add: update_baseline_def)
  then have "((update_baseline cur) ^^ Suc n) (Some b) = Some (b'\<lparr>ts_fields := dict_set f (blend c s') (ts_fields b'), ts_total := ts_total cur\<rparr>)"
    using IH(1) by (simp only: funpow.simps(2) o_apply)
  ultimately show ?case using IH(3,4)
    by (intro exI [of _ "b'\<lparr>ts_fields := dict_set f (blend c s') (ts_fields b'), ts_total := ts_total cur\<rparr>"]
          exI [of _ "blend c s'"]) simp
qed

lemma baseline_converges_witness:
  "\<exists>b' s'. ((update_baseline \<lparr>ts_total = 1, ts_fields = [(''prompt'', \<lparr>fs_present = 1, fs_nulls = 0, fs_null_rate = 0,
       fs_avg_length = 0, fs_unique = None\<rparr>)]\<rparr>) ^^ 2)
     (Some \<lparr>ts_total = 1, ts_fields = [(''prompt'', \<lparr>fs_present = 1, fs_nulls = 1, fs_null_rate = 1, fs_avg_length = 0,
       fs_unique = None\<rparr>)]\<rparr>) = Some b' \<and> dict_get (ts_fields b') ''prompt'' = Some s' \<and> fs_null_rate s' = 49/100"
proof -
  let ?c = "\<lparr>fs_present = 1, fs_nulls = 0, fs_null_rate = 0, fs_avg_length = 0, fs_unique = None\<rparr>"
  let ?s = "\<lparr>fs_present = 1, fs_nulls = 1, fs_null_rate = 1, fs_avg_length = 0, fs_unique = None\<rparr>"
  let ?cur = "\<lparr>ts_total = 1, ts_fields = [(''prompt'', ?c)]\<rparr>" and ?b = "\<lparr>ts_total = 1, ts_fields = [(''prompt'', ?s)]\<rparr>"
  obtain b' s' where "((update_baseline ?cur) ^^ 2) (Some ?b) = Some b'" "dict_get (ts_fields b') ''prompt'' = Some s'"
    "fs_null_rate s' - fs_null_rate ?c = (7/10) ^ 2 * (fs_null_rate ?s - fs_null_rate ?c)"
    using baseline_converges [where n = 2 and b = ?b and cur = ?cur and c = ?c and s = ?s and f = "''prompt''"] by auto
  then show ?thesis by (intro exI [of _ b'] exI [of _ s']) (simp add: power2_eq_square)
qed

end
