(* ===== verification/Json_Value.thy ===== *)
theory Json_Value
  imports Py_Prelude
begin

text \<open>
  Decoded JSON values as Python programs handle them: truth values, \<open>get\<close> and iteration with
  the exceptions they raise on values of another type, and the chaining of results that may be an exception.
\<close>

datatype jvalue =
    SNull
  | SBool bool
  | SNum pyfloat
  | SText string
  | SArr "jvalue list"
  | SObj "(string \<times> jvalue) list"

fun json_truthy :: "jvalue \<Rightarrow> bool" where
  "json_truthy SNull \<longleftrightarrow> False"
| "json_truthy (SBool b) \<longleftrightarrow> b"
| "json_truthy (SNum x) \<longleftrightarrow> x \<noteq> 0"
| "json_truthy (SText s) \<longleftrightarrow> s \<noteq> []"
| "json_truthy (SArr xs) \<longleftrightarrow> xs \<noteq> []"
| "json_truthy (SObj d) \<longleftrightarrow> d \<noteq> []"

definition bind_sum :: "'e + 'a \<Rightarrow> ('a \<Rightarrow> 'e + 'b) \<Rightarrow> 'e + 'b" where
  "bind_sum r f = (case r of Inl e \<Rightarrow> Inl e | Inr a \<Rightarrow> f a)"

fun items_of :: "jvalue \<Rightarrow> py_error + jvalue list" where
  \<comment> \<open>iteration over a JSON value\<close>
  "items_of (SArr xs) = Inr xs"
| "items_of (SObj d) = Inr (map (SText \<circ> fst) d)"
| "items_of (SText s) = Inr (map (\<lambda>ch. SText [ch]) s)"
| "items_of _ = Inl TypeError"

fun json_get :: "jvalue \<Rightarrow> string \<Rightarrow> jvalue \<Rightarrow> py_error + jvalue" where
  \<comment> \<open>\<open>v.get(k, default)\<close>\<close>
  "json_get (SObj d) k v = Inr (dict_get_or d k v)"
| "json_get _ k v = Inl AttributeError"

lemma bind_sum_simps [simp]: "bind_sum (Inl e) f = Inl e" "bind_sum (Inr a) f = f a"
  by (simp_all add: bind_sum_def)

end
