(* ===== verification/Sdk_Client.thy ===== *)
theory Sdk_Client
  imports Safety_Pipeline Py_Regex Json_Value
begin

text \<open>
  The Python client of the gateway (\<open>sdk/polarisgate/client.py\<close>): the request loop with its retries, the
  results built from JSON answers, the event stream, and the translation of refusals into
  exceptions. What each attempt of the HTTP session ends with is an argument (\<open>attempt_result\<close>, by the number of the attempt),
  and so are \<open>str\<close> of a JSON value and \<open>json.loads\<close>. The texts of causes within messages are left out.
\<close>

section \<open>Answers and errors\<close>

datatype sdk_error =
    AuthenticationError
  | ServiceUnavailableError string
  | APIError string
  | SafetyBlockedError string
  | FileNotFoundError
  | Uncaught py_error
  | SessionError \<comment> \<open>any other exception of the session\<close>

record http_reply =
  ht_status :: nat
  ht_retry_after :: "string option" \<comment> \<open>the header\<close>
  ht_text :: string
  ht_json :: "jvalue option" \<comment> \<open>\<open>None\<close>: the body is not JSON\<close>

datatype attempt_result =
    Reply http_reply
  | NoConnection \<comment> \<open>\<open>ConnectionError\<close> or \<open>Timeout\<close>\<close>
  | OtherException

section \<open>The client\<close>

record sdk_client =
  cl_base :: string
  cl_timeout :: pyfloat
  cl_retries :: int
  cl_key :: string

definition new_client :: "string \<Rightarrow> string option \<Rightarrow> string option \<Rightarrow> pyfloat \<Rightarrow> int \<Rightarrow> py_error + sdk_client" where
  \<comment> \<open>base URL, key given, key of the environment\<close>
  "new_client base given env timeout retries =
     (let key = (case given of Some (c # s) \<Rightarrow> Some (c # s) | _ \<Rightarrow> env) in
      case key of
        Some (c # s) \<Rightarrow> Inr \<lparr>cl_base = rev (dropWhile (\<lambda>x. x = CHR ''/'') (rev base)), cl_timeout = timeout,
           cl_retries = retries, cl_key = c # s\<rparr>
      | _ \<Rightarrow> Inl ValueError)"

definition retry_delay :: pyfloat where "retry_delay = 1"
definition retry_backoff :: pyfloat where "retry_backoff = 2"

definition int_of_text :: "string \<Rightarrow> int option" where
  \<comment> \<open>\<open>int(s)\<close> for texts without underscores\<close>
  "int_of_text s =
     (let t = strip s; (neg, ds) = (case t of [] \<Rightarrow> (False, [])
          | c # r \<Rightarrow> if c = CHR ''-'' then (True, r) else if c = CHR ''+'' then (False, r) else (False, t));
          n = foldl (\<lambda>a c. 10 * a + (int (of_char c) - 48)) 0 ds
      in if ds \<noteq> [] \<and> list_all is_digit ds then Some (if neg then - n else n) else None)"

definition retry_after_of :: "http_reply \<Rightarrow> int option" where
  "retry_after_of r = (case ht_retry_after r of None \<Rightarrow> Some \<lfloor>retry_delay\<rfloor> | Some s \<Rightarrow> int_of_text s)"

definition detail_of :: "(jvalue \<Rightarrow> string) \<Rightarrow> http_reply \<Rightarrow> string" where
  "detail_of py_str r = (case ht_json r of
     Some (SObj d) \<Rightarrow> (case dict_get d ''detail'' of Some (SText s) \<Rightarrow> s | Some v \<Rightarrow> py_str v | None \<Rightarrow> ht_text r)
   | _ \<Rightarrow> ht_text r)"

record transcript =
  tr_result :: "sdk_error + http_reply"
  tr_timeouts :: "pyfloat list" \<comment> \<open>one for each call of the session\<close>
  tr_sleeps :: "pyfloat list"

definition called :: "pyfloat \<Rightarrow> pyfloat list \<Rightarrow> transcript \<Rightarrow> transcript" where
  "called timeout slept t = t\<lparr>tr_timeouts := timeout # tr_timeouts t, tr_sleeps := slept @ tr_sleeps t\<rparr>"

definition ended :: "pyfloat \<Rightarrow> sdk_error + http_reply \<Rightarrow> transcript" where
  "ended timeout r = \<lparr>tr_result = r, tr_timeouts = [timeout], tr_sleeps = []\<rparr>"

fun attempts :: "(jvalue \<Rightarrow> string) \<Rightarrow> sdk_client \<Rightarrow> (nat \<Rightarrow> attempt_result) \<Rightarrow> pyfloat option \<Rightarrow> nat list \<Rightarrow> transcript" where
  \<comment> \<open>the loop over the attempts that are left; \<open>kwargs.pop\<close> takes the timeout away on the first one\<close>
  "attempts py_str c session timeout [] =
     \<lparr>tr_result = Inl (ServiceUnavailableError ''Gateway unavailable''), tr_timeouts = [], tr_sleeps = []\<rparr>"
| "attempts py_str c session timeout (i # is) =
     (let t = (case timeout of Some x \<Rightarrow> x | None \<Rightarrow> cl_timeout c);
          unavailable = (if int i < cl_retries c
            then called t [retry_delay * retry_backoff ^ i] (attempts py_str c session None is)
            else ended t (Inl (ServiceUnavailableError
              (''Gateway unavailable after '' @ show_int (cl_retries c + 1) @ '' attempts''))))
      in case session i of
           NoConnection \<Rightarrow> unavailable
         | OtherException \<Rightarrow> ended t (Inl SessionError)
         | Reply r \<Rightarrow>
             if ht_status r = 401 then ended t (Inl AuthenticationError)
             else if ht_status r = 429 then
               (case retry_after_of r of
                  None \<Rightarrow> ended t (Inl (Uncaught ValueError))
                | Some n \<Rightarrow> if n < 0 then ended t (Inl (Uncaught ValueError))
                            else called t [of_int n] (attempts py_str c session None is))
             else if 500 \<le> ht_status r then unavailable
             else if 400 \<le> ht_status r then ended t (Inl (APIError (''Request failed: '' @ detail_of py_str r)))
             else ended t (Inr r))"

definition sdk_request :: "(jvalue \<Rightarrow> string) \<Rightarrow> sdk_client \<Rightarrow> (nat \<Rightarrow> attempt_result) \<Rightarrow> pyfloat option \<Rightarrow> transcript" where
  \<comment> \<open>\<open>_request\<close>\<close>
  "sdk_request py_str c session timeout = attempts py_str c session timeout [0..<nat (cl_retries c + 1)]"

section \<open>Checks\<close>

record check_result =
  kr_toxic :: jvalue
  kr_score :: jvalue
  kr_reason :: jvalue
  kr_pii :: jvalue
  kr_types :: jvalue
  kr_masked :: jvalue
  kr_redacted :: jvalue
  kr_injection :: jvalue
  kr_injection_score :: jvalue
  kr_matches :: jvalue
  kr_blocklisted :: jvalue

definition check_from_response :: "jvalue \<Rightarrow> py_error + check_result" where
  "check_from_response data = (case data of
     SObj d \<Rightarrow> Inr \<lparr>kr_toxic = dict_get_or d ''toxic'' (SBool False), kr_score = dict_get_or d ''toxic_score'' (SNum 0),
       kr_reason = dict_get_or d ''reason'' SNull, kr_pii = dict_get_or d ''pii_detected'' (SBool False),
       kr_types = dict_get_or d ''pii_types'' (SArr []), kr_masked = dict_get_or d ''pii_masked'' (SBool False),
       kr_redacted = dict_get_or d ''redacted_text'' SNull,
       kr_injection = dict_get_or d ''injection_detected'' (SBool False),
       kr_injection_score = dict_get_or d ''injection_score'' (SNum 0),
       kr_matches = dict_get_or d ''injection_matches'' (SNum 0),
       kr_blocklisted = dict_get_or d ''blocklisted'' (SBool False)\<rparr>
   | _ \<Rightarrow> Inl AttributeError)"

definition is_safe :: "check_result \<Rightarrow> bool" where
  "is_safe r \<longleftrightarrow> \<not> (json_truthy (kr_toxic r) \<or> json_truthy (kr_pii r) \<or> json_truthy (kr_injection r) \<or> json_truthy (kr_blocklisted r))"

definition body_of :: "http_reply \<Rightarrow> sdk_error + jvalue" where
  \<comment> \<open>\<open>resp.json()\<close>\<close>
  "body_of r = (case ht_json r of None \<Rightarrow> Inl (Uncaught ValueError) | Some v \<Rightarrow> Inr v)"

definition wrap :: "py_error + 'a \<Rightarrow> sdk_error + 'a" where
  "wrap r = map_sum Uncaught id r"

definition sdk_check :: "(jvalue \<Rightarrow> string) \<Rightarrow> sdk_client \<Rightarrow> (nat \<Rightarrow> attempt_result) \<Rightarrow> sdk_error + check_result" where
  "sdk_check py_str c session =
     bind_sum (tr_result (sdk_request py_str c session None)) (\<lambda>r. bind_sum (body_of r) (\<lambda>v. wrap (check_from_response v)))"

fun all_results :: "jvalue list \<Rightarrow> py_error + check_result list" where
  "all_results [] = Inr []"
| "all_results (v # vs) = bind_sum (check_from_response v) (\<lambda>r. bind_sum (all_results vs) (\<lambda>rs. Inr (r # rs)))"

definition batch_results :: "jvalue \<Rightarrow> py_error + check_result list" where
  "batch_results data = (case data of
     SObj d \<Rightarrow> bind_sum (items_of (dict_get_or d ''results'' (SArr []))) all_results
   | _ \<Rightarrow> Inl AttributeError)"

definition check_batch :: "(jvalue \<Rightarrow> string) \<Rightarrow> sdk_client \<Rightarrow> (nat \<Rightarrow> attempt_result) \<Rightarrow> sdk_error + check_result list" where
  "check_batch py_str c session =
     bind_sum (tr_result (sdk_request py_str c session (Some 60))) (\<lambda>r. bind_sum (body_of r) (\<lambda>v. wrap (batch_results v)))"

definition redact :: "(jvalue \<Rightarrow> string) \<Rightarrow> sdk_client \<Rightarrow> (nat \<Rightarrow> attempt_result) \<Rightarrow> string \<Rightarrow> sdk_error + jvalue" where
  "redact py_str c session t =
     bind_sum (sdk_check py_str c session) (\<lambda>r. Inr (if json_truthy (kr_redacted r) then kr_redacted r else SText t))"

section \<open>The event stream\<close>

fun stream_events :: "(string \<Rightarrow> jvalue option) \<Rightarrow> string list \<Rightarrow> jvalue list \<times> bool" where
  \<comment> \<open>the events yielded, and whether the generator ends by an exception of \<open>json.loads\<close>\<close>
  "stream_events loads [] = ([], False)"
| "stream_events loads (l # ls) =
     (if prefix ''data: '' l
      then let data = drop 6 l in
        if data = ''[DONE]'' then ([], False)
        else (case loads data of None \<Rightarrow> ([], True)
          | Some v \<Rightarrow> (case stream_events loads ls of (vs, e) \<Rightarrow> (v # vs, e)))
      else stream_events loads ls)"

section \<open>Chat\<close>

record chat_result =
  ch_text :: jvalue
  ch_model :: jvalue
  ch_provider :: jvalue
  ch_usage :: jvalue
  ch_in_toxic :: jvalue
  ch_in_pii :: jvalue
  ch_out_toxic :: jvalue
  ch_out_pii :: jvalue
  ch_out_blocked :: jvalue
  ch_flagged :: bool

definition chat_from_response :: "jvalue \<Rightarrow> py_error + chat_result" where
  "chat_from_response data =
     bind_sum (json_get data ''safety'' (SObj [])) (\<lambda>safety.
     bind_sum (json_get safety ''input'' (SObj [])) (\<lambda>inp.
     bind_sum (json_get safety ''output'' (SObj [])) (\<lambda>out.
     (case (data, inp, out) of
        (SObj d, SObj i, SObj ou) \<Rightarrow>
          Inr \<lparr>ch_text = dict_get_or d ''text'' (SText []), ch_model = dict_get_or d ''model'' (SText []),
            ch_provider = dict_get_or d ''provider'' (SText []), ch_usage = dict_get_or d ''usage'' (SObj []),
            ch_in_toxic = dict_get_or i ''toxic'' (SBool False), ch_in_pii = dict_get_or i ''pii_detected'' (SBool False),
            ch_out_toxic = dict_get_or ou ''toxic'' (SBool False), ch_out_pii = dict_get_or ou ''pii_detected'' (SBool False),
            ch_out_blocked = dict_get_or ou ''blocklisted'' (SBool False),
            ch_flagged = (json_truthy (dict_get_or i ''toxic'' SNull) \<or> json_truthy (dict_get_or i ''pii_detected'' SNull) \<or>
              json_truthy (dict_get_or ou ''toxic'' SNull) \<or> json_truthy (dict_get_or ou ''pii_detected'' SNull) \<or>
              json_truthy (dict_get_or ou ''blocklisted'' SNull))\<rparr>
      | _ \<Rightarrow> Inl AttributeError))))"

definition blocked_message :: "string \<Rightarrow> bool" where
  "blocked_message m \<longleftrightarrow> substr ''blocked'' (lower m) \<or> substr ''safety'' (lower m)"

definition sdk_chat :: "(jvalue \<Rightarrow> string) \<Rightarrow> sdk_client \<Rightarrow> (nat \<Rightarrow> attempt_result) \<Rightarrow> sdk_error + chat_result" where
  "sdk_chat py_str c session =
     (case tr_result (sdk_request py_str c session (Some 120)) of
        Inl (APIError m) \<Rightarrow> Inl (if blocked_message m then SafetyBlockedError m else APIError m)
      | Inl e \<Rightarrow> Inl e
      | Inr r \<Rightarrow> bind_sum (body_of r) (\<lambda>v. wrap (chat_from_response v)))"

definition proxy_chat :: "(jvalue \<Rightarrow> string) \<Rightarrow> sdk_client \<Rightarrow> (nat \<Rightarrow> attempt_result) \<Rightarrow> sdk_error + chat_result" where
  \<comment> \<open>differs from \<open>chat\<close> in the path and the body only\<close>
  "proxy_chat = sdk_chat"

section \<open>Other calls\<close>

definition list_providers :: "(jvalue \<Rightarrow> string) \<Rightarrow> sdk_client \<Rightarrow> (nat \<Rightarrow> attempt_result) \<Rightarrow> sdk_error + jvalue" where
  "list_providers py_str c session =
     bind_sum (tr_result (sdk_request py_str c session (Some 10)))
       (\<lambda>r. bind_sum (body_of r) (\<lambda>v. wrap (json_get v ''providers'' (SArr []))))"

definition upload_file ::
  "(jvalue \<Rightarrow> string) \<Rightarrow> sdk_client \<Rightarrow> (nat \<Rightarrow> attempt_result) \<Rightarrow> bool \<Rightarrow> sdk_error + jvalue" where
  \<comment> \<open>whether the file exists\<close>
  "upload_file py_str c session there =
     (if \<not> there then Inl FileNotFoundError else bind_sum (tr_result (sdk_request py_str c session (Some 30))) body_of)"

definition sdk_health :: "(jvalue \<Rightarrow> string) \<Rightarrow> sdk_client \<Rightarrow> (nat \<Rightarrow> attempt_result) \<Rightarrow> sdk_error + jvalue" where
  "sdk_health py_str c session = bind_sum (tr_result (sdk_request py_str c session (Some 5))) body_of"

section \<open>Properties of the request loop\<close>

definition passing :: "attempt_result \<Rightarrow> bool" where
  \<comment> \<open>outcomes after which the loop goes on, when an attempt is left\<close>
  "passing a \<longleftrightarrow> (case a of NoConnection \<Rightarrow> True | OtherException \<Rightarrow> False
     | Reply r \<Rightarrow> 500 \<le> ht_status r \<or> ht_status r = 429 \<and> (\<exists>n. retry_after_of r = Some n \<and> 0 \<le> n))"

definition answers :: "attempt_result \<Rightarrow> http_reply \<Rightarrow> bool" where
  "answers a r \<longleftrightarrow> a = Reply r \<and> ht_status r < 400"

lemma called_fields [simp]:
  "tr_result (called t s x) = tr_result x" "tr_timeouts (called t s x) = t # tr_timeouts x" "tr_sleeps (called t s x) = s @ tr_sleeps x"
  by (simp_all add: called_def)

lemma ended_fields [simp]: "tr_result (ended t r) = r" "tr_timeouts (ended t r) = [t]" "tr_sleeps (ended t r) = []"
  by (simp_all add: ended_def)

lemma attempts_step:
  "tr_result (attempts ps c s t (i # is)) = Inr r \<longleftrightarrow>
     answers (s i) r \<or> passing (s i) \<and> tr_result (attempts ps c s None is) = Inr r \<and>
       (int i < cl_retries c \<or> (\<exists>q. s i = Reply q \<and> ht_status q = 429))"
  by (cases "s i") (auto simp: Let_def passing_def answers_def split: option.splits)

lemma first_index_step:
  fixes k n :: nat
  assumes "k < n"
  shows "(\<exists>i. k \<le> i \<and> i < n \<and> A i \<and> (\<forall>j. k \<le> j \<and> j < i \<longrightarrow> B j)) \<longleftrightarrow>
    A k \<or> B k \<and> (\<exists>i. Suc k \<le> i \<and> i < n \<and> A i \<and> (\<forall>j. Suc k \<le> j \<and> j < i \<longrightarrow> B j))" (is "?L \<longleftrightarrow> ?R")
proof
  assume ?L
  then obtain i where i: "k \<le> i" "i < n" "A i" "\<forall>j. k \<le> j \<and> j < i \<longrightarrow> B j" by blast
  then show ?R by (cases "i = k") (auto intro!: exI [of _ i])
next
  assume ?R
  then show ?L
  proof (elim disjE conjE exE)
    fix i assume "B k" "Suc k \<le> i" "i < n" "A i" "\<forall>j. Suc k \<le> j \<and> j < i \<longrightarrow> B j"
    moreover from this have "B j" if "k \<le> j" "j < i" for j using that by (cases "j = k") auto
    ultimately show ?L by (intro exI [of _ i]) auto
  qed (use assms in \<open>auto intro!: exI [of _ k]\<close>)
qed

lemma attempts_result:
  assumes "int n \<le> cl_retries c + 1"
  shows "tr_result (attempts ps c s t [k..<n]) = Inr r \<longleftrightarrow> (\<exists>i. k \<le> i \<and> i < n \<and> answers (s i) r \<and> (\<forall>j. k \<le> j \<and> j < i \<longrightarrow> passing (s j)))"
proof (induction "n - k" arbitrary: k t)
  case 0
  then show ?case by simp
next
  case (Suc m)
  then have k: "k < n" "[k..<n] = k # [Suc k..<n]" by (simp_all add: upt_rec)
  from Suc.hyps have m: "m = n - Suc k" by simp
  have last: "tr_result (attempts ps c s None [Suc k..<n]) \<noteq> Inr r" if "\<not> int k < cl_retries c"
    using that k assms by simp
  have "tr_result (attempts ps c s t [k..<n]) = Inr r \<longleftrightarrow>
      answers (s k) r \<or> passing (s k) \<and> tr_result (attempts ps c s None [Suc k..<n]) = Inr r"
    unfolding k(2) attempts_step using last by blast
  also have "\<dots> \<longleftrightarrow> (\<exists>i. k \<le> i \<and> i < n \<and> answers (s i) r \<and> (\<forall>j. k \<le> j \<and> j < i \<longrightarrow> passing (s j)))"
    unfolding Suc.hyps(1) [OF m] by (rule first_index_step [OF k(1), symmetric])
  finally show ?case .
qed

text \<open>
  a call returns an answer exactly when one of the first \<open>max_retries + 1\<close> attempts ends with a status below 400
  and every earlier one with a lost connection, a status of at least 500, or 429 with a
  readable number of seconds to wait; it makes no more attempts than that.
\<close>

theorem retry_succeeds_iff:
  "(tr_result (sdk_request ps c s t) = Inr r \<longleftrightarrow>
     (\<exists>i. int i \<le> cl_retries c \<and> answers (s i) r \<and> list_all (\<lambda>j. passing (s j)) [0..<i])) \<and>
   int (length (tr_timeouts (sdk_request ps c s t))) \<le> max 0 (cl_retries c + 1)"
proof
  have "length (tr_timeouts (attempts ps c s t is)) \<le> length is" for t "is"
    by (induction ps c s t "is" rule: attempts.induct) (auto simp: Let_def split: attempt_result.splits option.splits)
  from this [of t "[0..<nat (cl_retries c + 1)]"]
  show "int (length (tr_timeouts (sdk_request ps c s t))) \<le> max 0 (cl_retries c + 1)"
    by (simp add: sdk_request_def)
  show "tr_result (sdk_request ps c s t) = Inr r \<longleftrightarrow>
     (\<exists>i. int i \<le> cl_retries c \<and> answers (s i) r \<and> list_all (\<lambda>j. passing (s j)) [0..<i])"
  proof (cases "0 \<le> cl_retries c + 1")
    case True
    then show ?thesis
      by (simp add: sdk_request_def attempts_result list_all_iff del: upt_Suc) (auto simp: zless_nat_eq_int_zless)
  next
    case False
    then show ?thesis by (auto simp: sdk_request_def)
  qed
qed

text \<open>
  the timeout a method asks for (60 seconds for a batch, 120 for a chat) is that of its first attempt only: every
  retry uses the timeout of the client.
\<close>

theorem retries_lose_timeout:
  "tr_timeouts (sdk_request ps c s (Some x)) = [] \<or>
   (\<exists>m. tr_timeouts (sdk_request ps c s (Some x)) = x # replicate m (cl_timeout c))"
proof -
  have n: "tr_timeouts (attempts ps c s None is) = replicate (length (tr_timeouts (attempts ps c s None is))) (cl_timeout c)" for "is"
    by (induction "is") (auto simp: Let_def split: attempt_result.splits option.splits)
  have "tr_timeouts (attempts ps c s (Some x) (i # is)) = [x] \<or>
      tr_timeouts (attempts ps c s (Some x) (i # is)) = x # tr_timeouts (attempts ps c s None is)" for i "is"
    by (auto simp: Let_def split: attempt_result.splits option.splits)
  then have "\<exists>m. tr_timeouts (attempts ps c s (Some x) (i # is)) = x # replicate m (cl_timeout c)" for i "is"
    using n [of "is"] by (metis replicate_0)
  then show ?thesis by (cases "[0..<nat (cl_retries c + 1)]") (simp_all add: sdk_request_def)
qed

fun backoff_sum :: "nat \<Rightarrow> nat \<Rightarrow> pyfloat" where
  "backoff_sum k 0 = 0"
| "backoff_sum k (Suc m) = 2 ^ k + backoff_sum (Suc k) m"

lemma backoff_sum: "backoff_sum k m = 2 ^ (k + m) - 2 ^ k"
  by (induction m arbitrary: k) simp_all

text \<open>
  unless the gateway limits the rate, the pauses of a call with \<open>n\<close> attempts are 1, 2, 4 and so on, in all
  \<open>2 ^ (n - 1) - 1\<close> seconds: at most 7 with the three retries of the default.
\<close>

theorem backoff_bounded:
  assumes "\<And>i r. s i = Reply r \<Longrightarrow> ht_status r \<noteq> 429" "0 \<le> cl_retries c"
  shows "sum_list (tr_sleeps (sdk_request ps c s t)) = 2 ^ (length (tr_timeouts (sdk_request ps c s t)) - 1) - 1 \<and>
    sum_list (tr_sleeps (sdk_request ps c s t)) \<le> 2 ^ nat (cl_retries c) - 1"
proof -
  let ?n = "nat (cl_retries c + 1)"
  have a: "k < ?n \<Longrightarrow> \<exists>m. m < ?n - k \<and> length (tr_timeouts (attempts ps c s t [k..<?n])) = Suc m \<and>
      sum_list (tr_sleeps (attempts ps c s t [k..<?n])) = backoff_sum k m" for k t
  proof (induction "?n - k" arbitrary: k t)
    case (Suc d)
    then have k: "[k..<?n] = k # [Suc k..<?n]" by (simp add: upt_rec)
    have stop: ?case if "length (tr_timeouts (attempts ps c s t [k..<?n])) = 1" "tr_sleeps (attempts ps c s t [k..<?n]) = []"
      using that Suc.prems by (intro exI [of _ 0]) simp
    show ?case
    proof (cases "int k < cl_retries c \<and> (s k = NoConnection \<or> (\<exists>r. s k = Reply r \<and> 500 \<le> ht_status r))")
      case True
      then have "Suc k < ?n" by (simp add: zless_nat_eq_int_zless)
      moreover have "d = ?n - Suc k" using Suc.hyps(2) by simp
      ultimately obtain m where m: "m < ?n - Suc k" "length (tr_timeouts (attempts ps c s None [Suc k..<?n])) = Suc m"
        "sum_list (tr_sleeps (attempts ps c s None [Suc k..<?n])) = backoff_sum (Suc k) m"
        using Suc.hyps(1) by blast
      have "attempts ps c s t [k..<?n] =
          called (case t of Some x \<Rightarrow> x | None \<Rightarrow> cl_timeout c) [2 ^ k] (attempts ps c s None [Suc k..<?n])"
        unfolding k using True by (auto simp: Let_def retry_delay_def retry_backoff_def)
      with m show ?thesis by (intro exI [of _ "Suc m"] conjI) (simp_all del: upt_Suc)
    next
      case False
      with assms(1) show ?thesis
        by (intro stop; unfold k) (auto simp: Let_def split: attempt_result.splits)
    qed
  qed simp
  have "0 < ?n" using assms(2) by simp
  from a [OF this, of t] obtain m where m: "m < ?n" "length (tr_timeouts (sdk_request ps c s t)) = Suc m"
    "sum_list (tr_sleeps (sdk_request ps c s t)) = backoff_sum 0 m" by (auto simp: sdk_request_def)
  have "(2 :: pyfloat) ^ m \<le> 2 ^ nat (cl_retries c)"
    using m(1) assms(2) by (intro power_increasing) (simp_all add: nat_add_distrib)
  with m show ?thesis by (simp add: backoff_sum)
qed

lemma backoff_bounded_witness:
  "sum_list (tr_sleeps (sdk_request (\<lambda>_. []) \<lparr>cl_base = [], cl_timeout = 30, cl_retries = 3, cl_key = ''k''\<rparr> (\<lambda>_. NoConnection) None)) \<le> 7"
  using backoff_bounded [of "\<lambda>_. NoConnection" "\<lparr>cl_base = [], cl_timeout = 30, cl_retries = 3, cl_key = ''k''\<rparr>" "\<lambda>_. []" None]
  by simp

text \<open>
  a client that is rate limited on every attempt sleeps after the last one as well before it gives up, and the
  exception then says that the gateway is unavailable.
\<close>

theorem rate_limited_to_the_end:
  assumes "\<And>i. i \<le> nat (cl_retries c) \<Longrightarrow> \<exists>r. s i = Reply r \<and> ht_status r = 429 \<and> retry_after_of r = Some n" "0 \<le> n" "0 \<le> cl_retries c"
  shows "tr_result (sdk_request ps c s t) = Inl (ServiceUnavailableError ''Gateway unavailable'') \<and>
    tr_sleeps (sdk_request ps c s t) = replicate (nat (cl_retries c) + 1) (of_int n)"
proof -
  have "(\<forall>i \<in> set is. \<exists>r. s i = Reply r \<and> ht_status r = 429 \<and> retry_after_of r = Some n) \<Longrightarrow>
      tr_result (attempts ps c s t is) = Inl (ServiceUnavailableError ''Gateway unavailable'') \<and>
      tr_sleeps (attempts ps c s t is) = replicate (length is) (of_int n)" for t "is"
    using assms(2) by (induction "is" arbitrary: t) (auto simp: Let_def)
  from this [of "[0..<nat (cl_retries c + 1)]" t] assms show ?thesis
    by (simp add: sdk_request_def nat_add_distrib del: upt_Suc)
qed

lemma rate_limited_to_the_end_witness:
  "tr_sleeps (sdk_request (\<lambda>_. []) \<lparr>cl_base = [], cl_timeout = 30, cl_retries = 1, cl_key = ''k''\<rparr>
     (\<lambda>_. Reply \<lparr>ht_status = 429, ht_retry_after = Some ''60'', ht_text = [], ht_json = None\<rparr>) None) = [60, 60]"
proof -
  have "retry_after_of \<lparr>ht_status = 429, ht_retry_after = Some ''60'', ht_text = [], ht_json = None\<rparr> = Some 60"
    by (simp add: retry_after_of_def int_of_text_def strip_def is_space_def is_digit_def Let_def)
  with rate_limited_to_the_end [of "\<lparr>cl_base = [], cl_timeout = 30, cl_retries = 1, cl_key = ''k''\<rparr>"
      "\<lambda>_. Reply \<lparr>ht_status = 429, ht_retry_after = Some ''60'', ht_text = [], ht_json = None\<rparr>" 60 "\<lambda>_. []" None]
  show ?thesis by (simp add: numeral_2_eq_2)
qed

section \<open>The client and the gateway\<close>



lemma run_chat_errors:
  assumes "run_chat env provider req key user team = (Inl (HTTPException code m), es)"
    and "checks env (cq_prompt req) = Inr inp" "gk_blocklisted inp \<or> gk_injection inp"
  shows "code = 403 \<and> (\<exists>w. m = ''Input blocked by safety policy. Reason: '' @ w)"
  using assms by (cases user) (auto simp: run_chat_def Let_def request_prompt)





text \<open>
  A batch keeps the order and the number of its answers.
\<close>

lemma batch_same_order:
  "all_results vs = Inr rs \<Longrightarrow> length rs = length vs \<and> list_all2 (\<lambda>v r. check_from_response v = Inr r) vs rs"
  by (induction vs arbitrary: rs) (auto simp: bind_sum_def split: sum.splits)

text \<open>
  The event stream yields nothing after the end marker, whatever follows it.
\<close>

lemma stream_stops: "stream_events loads (ls @ ''data: [DONE]'' # rest) = stream_events loads (ls @ [''data: [DONE]''])"
  by (induction ls) (auto simp: Let_def split: option.splits)

end
