(* ===== verification/Soc2_Controls.thy ===== *)
theory Soc2_Controls
  imports Interfaces
begin

text \<open>
  The SOC 2 controls (\<open>services/shared/compliance/soc2.py\<close>): access reviews, incidents, change requests, vendors and
  the aggregated report. The time is an argument of each operation; a time stamp stands for its text. Redis is a list of
  records, newest first, or absent; the JSON text written to it is the record itself.
\<close>

section \<open>Lists\<close>

definition slice_from :: "int \<Rightarrow> 'a list \<Rightarrow> 'a list" where
  \<comment> \<open>\<open>xs[k:]\<close>\<close>
  "slice_from k xs = (if 0 \<le> k then drop (nat k) xs else take_last (nat (- k)) xs)"

definition push_trim :: "'a list \<Rightarrow> 'a \<Rightarrow> 'a list" where
  \<comment> \<open>\<open>lpush\<close> followed by \<open>ltrim 0 999\<close>\<close>
  "push_trim xs x = take 1000 (x # xs)"

fun update_first :: "('a \<Rightarrow> bool) \<Rightarrow> ('a \<Rightarrow> 'a) \<Rightarrow> 'a list \<Rightarrow> 'a list" where
  \<comment> \<open>a loop that changes the first record that matches and returns\<close>
  "update_first P f [] = []"
| "update_first P f (x # xs) = (if P x then f x # xs else x # update_first P f xs)"

definition stamp_id :: "string \<Rightarrow> pyfloat \<Rightarrow> string" where
  \<comment> \<open>\<open>f"{prefix}{int(time.time())}"\<close>\<close>
  "stamp_id p now = p @ show_int (py_int now)"

section \<open>Access reviews (CC6.1)\<close>

record access_review =
  ar_id :: string
  ar_reviewer :: string
  ar_user :: string
  ar_action :: string
  ar_resource :: string
  ar_why :: string
  ar_time :: pyfloat
  ar_expires :: "pyfloat option"

record review_log =
  rl_reviews :: "access_review list"
  rl_redis :: "access_review list option"

definition record_access_review ::
  "pyfloat \<Rightarrow> string \<Rightarrow> string \<Rightarrow> string \<Rightarrow> string \<Rightarrow> string \<Rightarrow> int option \<Rightarrow> review_log \<Rightarrow> access_review \<times> review_log" where
  "record_access_review now reviewer user action resource why days l =
     (let r = \<lparr>ar_id = stamp_id ''ar_'' now @ ''_'' @ user, ar_reviewer = reviewer, ar_user = user, ar_action = action,
            ar_resource = resource, ar_why = why, ar_time = now,
            ar_expires = Some (case days of None \<Rightarrow> now | Some d \<Rightarrow> now + of_int d * 86400)\<rparr>
      in (r, l\<lparr>rl_reviews := rl_reviews l @ [r], rl_redis := map_option (\<lambda>xs. push_trim xs r) (rl_redis l)\<rparr>))"

definition get_recent_reviews :: "int \<Rightarrow> review_log \<Rightarrow> access_review list" where
  "get_recent_reviews limit l = slice_from (- limit) (rl_reviews l)"

definition get_expiring_access :: "pyfloat \<Rightarrow> int \<Rightarrow> review_log \<Rightarrow> access_review list" where
  "get_expiring_access now days l = (case rl_redis l of
     None \<Rightarrow> []
   | Some xs \<Rightarrow> filter (\<lambda>r. case ar_expires r of None \<Rightarrow> False
       | Some e \<Rightarrow> now < e \<and> e < now + of_int days * 86400) xs)"

section \<open>Incidents (CC7.1)\<close>

record incident =
  ic_id :: string
  ic_type :: string
  ic_severity :: string
  ic_description :: string
  ic_by :: string
  ic_at :: pyfloat
  ic_status :: string
  ic_assigned :: "string option"
  ic_resolution :: "string option"
  ic_resolved :: "pyfloat option"
  ic_systems :: "string list"
  ic_evidence :: "string list"

record incident_log =
  il_incidents :: "incident list"
  il_redis :: "incident list option"

definition new_incident :: "pyfloat \<Rightarrow> string \<Rightarrow> string \<Rightarrow> string \<Rightarrow> string \<Rightarrow> string list \<Rightarrow> string list \<Rightarrow> incident" where
  "new_incident now t severity description by systems evidence =
     \<lparr>ic_id = stamp_id ''inc_'' now, ic_type = t, ic_severity = severity, ic_description = description,
      ic_by = by, ic_at = now, ic_status = ''open'', ic_assigned = None, ic_resolution = None, ic_resolved = None,
      ic_systems = systems, ic_evidence = evidence\<rparr>"

definition report_incident ::
  "pyfloat \<Rightarrow> string \<Rightarrow> string \<Rightarrow> string \<Rightarrow> string \<Rightarrow> string list \<Rightarrow> string list \<Rightarrow> incident_log \<Rightarrow> incident \<times> incident_log" where
  "report_incident now t severity description by systems evidence l =
     (let r = new_incident now t severity description by systems evidence
      in (r, l\<lparr>il_incidents := il_incidents l @ [r], il_redis := map_option (\<lambda>xs. push_trim xs r) (il_redis l)\<rparr>))"

definition settled_status :: "string \<Rightarrow> bool" where
  "settled_status s \<longleftrightarrow> s \<in> {''resolved'', ''closed''}"

definition truthy_text :: "string option \<Rightarrow> bool" where
  "truthy_text s \<longleftrightarrow> s \<noteq> None \<and> s \<noteq> Some []"

definition set_incident :: "pyfloat \<Rightarrow> string \<Rightarrow> string option \<Rightarrow> string option \<Rightarrow> incident \<Rightarrow> incident" where
  "set_incident now status resolution assigned r =
     r\<lparr>ic_status := status,
       ic_resolution := (if truthy_text resolution then resolution else ic_resolution r),
       ic_assigned := (if truthy_text assigned then assigned else ic_assigned r),
       ic_resolved := (if settled_status status then Some now else ic_resolved r)\<rparr>"

definition update_incident ::
  "pyfloat \<Rightarrow> string \<Rightarrow> string \<Rightarrow> string option \<Rightarrow> string option \<Rightarrow> incident_log \<Rightarrow> incident option \<times> incident_log" where
  "update_incident now i status resolution assigned l =
     (map_option (set_incident now status resolution assigned) (find (\<lambda>r. ic_id r = i) (il_incidents l)),
      l\<lparr>il_incidents := update_first (\<lambda>r. ic_id r = i) (set_incident now status resolution assigned) (il_incidents l)\<rparr>)"

definition get_open_incidents :: "incident_log \<Rightarrow> incident list" where
  "get_open_incidents l = filter (\<lambda>r. \<not> settled_status (ic_status r)) (il_incidents l)"

definition get_incidents_by_severity :: "string \<Rightarrow> incident_log \<Rightarrow> incident list" where
  "get_incidents_by_severity s l = filter (\<lambda>r. ic_severity r = s) (il_incidents l)"

section \<open>Changes (CC8.1)\<close>

record change_request =
  cr_id :: string
  cr_title :: string
  cr_description :: string
  cg_type :: string
  cr_by :: string
  cr_at :: pyfloat
  cr_approver :: "string option"
  cr_approved :: "pyfloat option"
  cr_status :: string
  cr_risk :: "string option"
  cr_rollback :: "string option"
  cr_implemented :: "pyfloat option"
  cr_tester :: "string option"

record change_log =
  cl_changes :: "change_request list"
  cl_redis :: "change_request list option"

definition create_change_request ::
  "pyfloat \<Rightarrow> string \<Rightarrow> string \<Rightarrow> string \<Rightarrow> string \<Rightarrow> string option \<Rightarrow> string option \<Rightarrow> change_log \<Rightarrow> change_request \<times> change_log" where
  "create_change_request now title description t by risk rollback l =
     (let r = \<lparr>cr_id = stamp_id ''cr_'' now, cr_title = title, cr_description = description, cg_type = t, cr_by = by,
            cr_at = now, cr_approver = None, cr_approved = None, cr_status = ''pending'', cr_risk = risk,
            cr_rollback = rollback, cr_implemented = None, cr_tester = None\<rparr>
      in (r, l\<lparr>cl_changes := cl_changes l @ [r], cl_redis := map_option (\<lambda>xs. push_trim xs r) (cl_redis l)\<rparr>))"

definition set_approved :: "pyfloat \<Rightarrow> string \<Rightarrow> change_request \<Rightarrow> change_request" where
  "set_approved now by r = r\<lparr>cr_status := ''approved'', cr_approver := Some by, cr_approved := Some now\<rparr>"

definition approve_change :: "pyfloat \<Rightarrow> string \<Rightarrow> string \<Rightarrow> change_log \<Rightarrow> change_request option \<times> change_log" where
  "approve_change now i by l =
     (map_option (set_approved now by) (find (\<lambda>r. cr_id r = i) (cl_changes l)),
      l\<lparr>cl_changes := update_first (\<lambda>r. cr_id r = i) (set_approved now by) (cl_changes l)\<rparr>)"

definition set_implemented :: "pyfloat \<Rightarrow> string \<Rightarrow> change_request \<Rightarrow> change_request" where
  "set_implemented now by r = r\<lparr>cr_status := ''implemented'', cr_implemented := Some now, cr_tester := Some by\<rparr>"

definition implement_change :: "pyfloat \<Rightarrow> string \<Rightarrow> string \<Rightarrow> change_log \<Rightarrow> change_request option \<times> change_log" where
  "implement_change now i by l =
     (map_option (set_implemented now by) (find (\<lambda>r. cr_id r = i) (cl_changes l)),
      l\<lparr>cl_changes := update_first (\<lambda>r. cr_id r = i) (set_implemented now by) (cl_changes l)\<rparr>)"

definition get_pending_changes :: "change_log \<Rightarrow> change_request list" where
  "get_pending_changes l = filter (\<lambda>r. cr_status r = ''pending'') (cl_changes l)"

definition get_changes_by_type :: "string \<Rightarrow> change_log \<Rightarrow> change_request list" where
  "get_changes_by_type t l = filter (\<lambda>r. cg_type r = t) (cl_changes l)"

section \<open>Vendors (CC9.1)\<close>

record vendor =
  vn_id :: string
  vn_name :: string
  vn_service :: string
  vn_email :: string
  vn_start :: string
  vn_end :: string
  vn_risk :: string
  vn_report :: "string option"
  vn_reviewed :: "pyfloat option"
  vn_status :: string

record vendor_log =
  vl_vendors :: "vendor list"
  vl_redis :: "vendor list option"

definition add_vendor ::
  "pyfloat \<Rightarrow> string \<Rightarrow> string \<Rightarrow> string \<Rightarrow> string \<Rightarrow> string \<Rightarrow> string \<Rightarrow> string option \<Rightarrow> vendor_log \<Rightarrow> vendor \<times> vendor_log" where
  "add_vendor now name service email c_start c_end risk report l =
     (let r = \<lparr>vn_id = stamp_id ''ven_'' now, vn_name = name, vn_service = service, vn_email = email, vn_start = c_start,
            vn_end = c_end, vn_risk = risk, vn_report = report, vn_reviewed = None, vn_status = ''active''\<rparr>
      in (r, l\<lparr>vl_vendors := vl_vendors l @ [r], vl_redis := map_option (\<lambda>xs. push_trim xs r) (vl_redis l)\<rparr>))"

definition set_reviewed :: "pyfloat \<Rightarrow> vendor \<Rightarrow> vendor" where
  "set_reviewed now r = r\<lparr>vn_reviewed := Some now, vn_status := ''under_review''\<rparr>"

definition review_vendor :: "pyfloat \<Rightarrow> string \<Rightarrow> vendor_log \<Rightarrow> vendor option \<times> vendor_log" where
  "review_vendor now i l =
     (map_option (set_reviewed now) (find (\<lambda>r. vn_id r = i) (vl_vendors l)),
      l\<lparr>vl_vendors := update_first (\<lambda>r. vn_id r = i) (set_reviewed now) (vl_vendors l)\<rparr>)"

definition get_high_risk_vendors :: "vendor_log \<Rightarrow> vendor list" where
  "get_high_risk_vendors l = filter (\<lambda>r. vn_risk r = ''high'') (vl_vendors l)"

datatype parsed_date = NoDate | Naive pyfloat | Aware pyfloat

definition get_expiring_contracts :: "(string \<Rightarrow> parsed_date) \<Rightarrow> pyfloat \<Rightarrow> int \<Rightarrow> vendor_log \<Rightarrow> vendor list" where
  \<comment> \<open>\<open>datetime.fromisoformat\<close> is the first argument; a date with a time zone cannot be compared with
     \<open>datetime.now()\<close>, and the \<open>TypeError\<close> is swallowed like that of an unreadable date\<close>
  "get_expiring_contracts parse now days l =
     filter (\<lambda>v. case parse (vn_end v) of Naive e \<Rightarrow> e \<le> now + of_int days * 86400 | _ \<Rightarrow> False) (vl_vendors l)"

section \<open>The report\<close>

record soc2_report =
  sr_reviews :: nat
  sr_open :: nat
  sr_pending :: nat
  sr_vendors :: nat
  sr_last_review :: "pyfloat option"
  sr_last_incident :: "pyfloat option"
  sr_last_change :: "pyfloat option"

definition generate_compliance_report ::
  "access_review list \<Rightarrow> incident list \<Rightarrow> change_request list \<Rightarrow> vendor list \<Rightarrow> soc2_report" where
  "generate_compliance_report rs is cs vs =
     \<lparr>sr_reviews = length rs, sr_open = length (filter (\<lambda>i. \<not> settled_status (ic_status i)) is),
      sr_pending = length (filter (\<lambda>c. cr_status c = ''pending'') cs),
      sr_vendors = length (filter (\<lambda>v. vn_status v = ''active'') vs),
      sr_last_review = (if rs = [] then None else Some (ar_time (last rs))),
      sr_last_incident = (if is = [] then None else Some (ic_at (last is))),
      sr_last_change = (if cs = [] then None else Some (cr_at (last cs)))\<rparr>"

section \<open>Properties of the lists\<close>

interpretation redis_list: bounded_log push_trim rev "\<lambda>_. 1000" "\<lambda>xs. length xs \<le> 1000"
proof unfold_locales
  show "rev (push_trim xs x) = take_last 1000 (rev xs @ [x])" for xs :: "'a list" and x
    by (simp add: push_trim_def take_last_def rev_take del: take_Suc_Cons take.simps)
qed (simp_all add: push_trim_def)

lemma map_update_first: "(\<And>x. g (f x) = g x) \<Longrightarrow> map g (update_first P f xs) = map g xs"
  by (induction xs) auto

lemma list_all_update_first: "list_all Q xs \<Longrightarrow> (\<And>x. Q x \<Longrightarrow> Q (f x)) \<Longrightarrow> list_all Q (update_first P f xs)"
  by (induction xs) auto

lemma length_update_first [simp]: "length (update_first P f xs) = length xs"
  by (induction xs) auto

lemma update_first_shadowed:
  "(\<exists>y \<in> set ys. P y) \<Longrightarrow> update_first P f (ys @ xs) = update_first P f ys @ xs"
  by (induction ys) auto

section \<open>Properties of the access reviews\<close>

text \<open>
  access recorded without an expiry is documented to last for ever, but it is recorded as
  expiring at once, so that no later search for expiring access ever reports it; with an expiry in
  \<open>d\<close> days it is reported exactly in the days before it ends.
\<close>

theorem expiry_reported:
  assumes "record_access_review now reviewer user action resource why days \<lparr>rl_reviews = rs, rl_redis = Some xs\<rparr> = (r, l)"
    and "now \<le> later"
  shows "r \<in> set (get_expiring_access later w l) \<longleftrightarrow>
    (\<exists>d. days = Some d \<and> later < now + of_int d * 86400 \<and> now + of_int d * 86400 < later + of_int w * 86400)"
  using assms by (auto simp: record_access_review_def get_expiring_access_def push_trim_def Let_def split: option.splits)

lemma expiry_reported_witness:
  "fst (record_access_review 0 ''a'' ''u'' ''granted'' ''db'' ''w'' None \<lparr>rl_reviews = [], rl_redis = Some []\<rparr>) \<notin>
     set (get_expiring_access 5 30 (snd (record_access_review 0 ''a'' ''u'' ''granted'' ''db'' ''w'' None \<lparr>rl_reviews = [], rl_redis = Some []\<rparr>)))"
  by (subst expiry_reported [OF surjective_pairing]) simp_all

section \<open>Properties of the incidents\<close>

datatype incident_event =
    Report incident \<comment> \<open>as \<open>new_incident\<close> builds it\<close>
  | Update pyfloat string string "string option" "string option"

fun incident_step :: "incident_log \<Rightarrow> incident_event \<Rightarrow> incident_log" where
  "incident_step l (Report r) =
     snd (report_incident (ic_at r) (ic_type r) (ic_severity r) (ic_description r) (ic_by r) (ic_systems r) (ic_evidence r) l)"
| "incident_step l (Update now i status resolution assigned) = snd (update_incident now i status resolution assigned l)"

definition no_incidents :: "bool \<Rightarrow> incident_log" where
  \<comment> \<open>whether there is a Redis client\<close>
  "no_incidents redis = \<lparr>il_incidents = [], il_redis = (if redis then Some [] else None)\<rparr>"

fun reported :: "incident_event list \<Rightarrow> incident list" where
  "reported [] = []"
| "reported (Report r # es) =
     new_incident (ic_at r) (ic_type r) (ic_severity r) (ic_description r) (ic_by r) (ic_systems r) (ic_evidence r) # reported es"
| "reported (Update _ _ _ _ _ # es) = reported es"

definition incident_core :: "incident \<Rightarrow> string \<times> string \<times> string \<times> string \<times> string \<times> pyfloat \<times> string list \<times> string list" where
  "incident_core r = (ic_id r, ic_type r, ic_severity r, ic_description r, ic_by r, ic_at r, ic_systems r, ic_evidence r)"

lemma core_set_incident [simp]: "incident_core (set_incident now s re asg r) = incident_core r" "ic_id (set_incident now s re asg r) = ic_id r"
  by (simp_all add: incident_core_def set_incident_def)

lemma reported_append [simp]: "reported (es @ fs) = reported es @ reported fs"
  by (induction es rule: reported.induct) simp_all

lemma reported_open: "r \<in> set (reported es) \<Longrightarrow> ic_status r = ''open'' \<and> ic_resolved r = None"
  by (induction es rule: reported.induct) (auto simp: new_incident_def)

text \<open>
  updates never lose, add or reorder incidents nor touch what was reported of them; but the copy in
  Redis, which holds the newest 1000 of them, is never updated: there every incident stays open and
  unresolved for ever.
\<close>

theorem incidents_kept:
  "map incident_core (il_incidents (foldl incident_step (no_incidents redis) es)) = map incident_core (reported es) \<and>
   (case il_redis (foldl incident_step (no_incidents redis) es) of
      None \<Rightarrow> \<not> redis
    | Some xs \<Rightarrow> redis \<and> xs = take 1000 (rev (reported es)) \<and> list_all (\<lambda>r. ic_status r = ''open'' \<and> ic_resolved r = None) xs)"
proof -
  have "map incident_core (il_incidents (foldl incident_step (no_incidents redis) es)) = map incident_core (reported es) \<and>
      il_redis (foldl incident_step (no_incidents redis) es) = (if redis then Some (take 1000 (rev (reported es))) else None)"
  proof (induction es rule: rev_induct)
    case Nil
    then show ?case by (simp add: no_incidents_def)
  next
    case (snoc e es)
    then show ?case
      by (cases e) (auto simp: report_incident_def update_incident_def map_update_first push_trim_def take_Cons' Let_def)
  qed
  then show ?thesis by (auto simp: list_all_iff dest!: in_set_takeD reported_open)
qed

lemma updates_keep_shadowed:
  assumes "list_all (\<lambda>e. case e of Update _ _ _ _ _ \<Rightarrow> True | _ \<Rightarrow> False) es"
    and "il_incidents k = ys @ [b]" "ic_id b \<in> ic_id ` set ys"
  shows "last (il_incidents (foldl incident_step k es)) = b"
  using assms
proof (induction es arbitrary: k ys)
  case (Cons e es)
  then obtain now i status re asg where e: "e = Update now i status re asg" by (cases e) auto
  let ?P = "\<lambda>r. ic_id r = i" and ?f = "set_incident now status re asg"
  have "il_incidents (incident_step k e) = update_first ?P ?f ys @ [b]"
  proof (cases "i = ic_id b")
    case True
    with Cons.prems(3) have "\<exists>y \<in> set ys. ?P y" by (metis imageE)
    with Cons.prems(2) show ?thesis by (simp add: e update_incident_def update_first_shadowed)
  next
    case False
    then have "update_first ?P ?f (ys @ [b]) = update_first ?P ?f ys @ [b]" by (induction ys) auto
    with Cons.prems(2) show ?thesis by (simp add: e update_incident_def)
  qed
  moreover have "map ic_id (update_first ?P ?f ys) = map ic_id ys" by (rule map_update_first) simp
  then have "ic_id b \<in> ic_id ` set (update_first ?P ?f ys)" using Cons.prems(3) by (metis list.set_map)
  ultimately show ?case using Cons.IH Cons.prems(1) by simp
qed simp

text \<open>
  the second of two incidents reported within the same second gets the id of the first and is out
  of reach: whatever updates follow, it stays as it was reported.
\<close>

theorem same_second_unreachable:
  assumes "py_int (ic_at a) = py_int (ic_at b)" "list_all (\<lambda>e. case e of Update _ _ _ _ _ \<Rightarrow> True | _ \<Rightarrow> False) es"
  shows "last (il_incidents (foldl incident_step l (Report a # Report b # es))) =
    new_incident (ic_at b) (ic_type b) (ic_severity b) (ic_description b) (ic_by b) (ic_systems b) (ic_evidence b)"
proof -
  have "il_incidents (foldl incident_step l [Report a, Report b]) =
      (il_incidents l @ [new_incident (ic_at a) (ic_type a) (ic_severity a) (ic_description a) (ic_by a) (ic_systems a) (ic_evidence a)])
      @ [new_incident (ic_at b) (ic_type b) (ic_severity b) (ic_description b) (ic_by b) (ic_systems b) (ic_evidence b)]"
    by (simp add: report_incident_def Let_def)
  from updates_keep_shadowed [OF assms(2) this] assms(1) show ?thesis
    by (simp add: new_incident_def stamp_id_def)
qed

lemma same_second_unreachable_witness:
  "ic_status (last (il_incidents (foldl incident_step (no_incidents False)
     [Report (new_incident (1/2) ''data_breach'' ''high'' [] [] [] []), Report (new_incident (3/4) ''system_failure'' ''critical'' [] [] [] []),
      Update 5 (stamp_id ''inc_'' (3/4)) ''resolved'' None None]))) = ''open''"
  by (subst same_second_unreachable) (simp_all add: new_incident_def py_int_def)

section \<open>Properties of the changes\<close>

datatype change_event =
    Create pyfloat string string string string "string option" "string option"
  | Approve pyfloat string string
  | Implement pyfloat string string

fun change_step :: "change_log \<Rightarrow> change_event \<Rightarrow> change_log" where
  "change_step l (Create now title d t by risk rb) = snd (create_change_request now title d t by risk rb l)"
| "change_step l (Approve now i by) = snd (approve_change now i by l)"
| "change_step l (Implement now i by) = snd (implement_change now i by l)"

definition change_ok :: "change_request \<Rightarrow> bool" where
  "change_ok r \<longleftrightarrow> cr_status r \<in> {''pending'', ''approved'', ''implemented''} \<and>
     (cr_approver r = None \<longleftrightarrow> cr_approved r = None) \<and> (cr_implemented r = None \<longleftrightarrow> cr_tester r = None) \<and>
     (cr_status r = ''pending'' \<longleftrightarrow> cr_approver r = None \<and> cr_tester r = None) \<and>
     (cr_status r = ''approved'' \<longrightarrow> cr_approver r \<noteq> None) \<and> (cr_status r = ''implemented'' \<longrightarrow> cr_tester r \<noteq> None)"

definition changes_ok :: "change_log \<Rightarrow> bool" where
  "changes_ok l \<longleftrightarrow> list_all change_ok (cl_changes l)"

lemma change_ok_set: "change_ok r \<Longrightarrow> change_ok (set_approved now by r)" "change_ok r \<Longrightarrow> change_ok (set_implemented now by r)"
  by (auto simp: change_ok_def set_approved_def set_implemented_def)

lemma changes_ok_step:
  assumes "changes_ok l"
  shows "changes_ok (change_step l e)"
proof (cases e)
  case (Create now title d t who risk rb)
  with assms show ?thesis by (simp add: changes_ok_def create_change_request_def Let_def change_ok_def)
qed (use assms in \<open>simp_all add: changes_ok_def approve_change_def implement_change_def list_all_update_first change_ok_set\<close>)

interpretation changes: run_invariant change_step "\<lambda>_ _. True" changes_ok
  by unfold_locales (rule changes_ok_step)

text \<open>
  the workflow of a change request: after any operations every request is pending, approved or
  implemented (never rejected or rolled back, the two other documented states), pending exactly while
  nobody has approved or implemented it, and approved or implemented only with the name of the person.
\<close>

theorem change_workflow:
  "list_all change_ok (cl_changes (foldl change_step \<lparr>cl_changes = [], cl_redis = redis\<rparr> es))"
  unfolding changes_ok_def [symmetric] by (rule changes.run_inv_always) (simp_all add: changes_ok_def)

definition status_after :: "change_event \<Rightarrow> string" where
  "status_after e = (case e of Create _ _ _ _ _ _ _ \<Rightarrow> ''pending'' | Approve _ _ _ \<Rightarrow> ''approved'' | Implement _ _ _ \<Rightarrow> ''implemented'')"

definition event_id :: "change_event \<Rightarrow> string option" where
  "event_id e = (case e of Create _ _ _ _ _ _ _ \<Rightarrow> None | Approve _ i _ \<Rightarrow> Some i | Implement _ i _ \<Rightarrow> Some i)"

text \<open>
  the order of the workflow is not enforced: the state of a request is that of the last operation on it, so
  that a request is implemented without approval, and approved again after its implementation.
\<close>

theorem change_order_free:
  assumes "cl_changes l = [r]" "list_all (\<lambda>e. event_id e = Some (cr_id r)) (es @ [e])"
  shows "map cr_status (cl_changes (foldl change_step l (es @ [e]))) = [status_after e]"
proof -
  have "\<exists>r'. cl_changes (foldl change_step l es) = [r'] \<and> cr_id r' = cr_id r"
    using assms(2) unfolding list_all_append
  proof (induction es rule: rev_induct)
    case Nil
    with assms(1) show ?case by simp
  next
    case (snoc x xs)
    then obtain r' where "cl_changes (foldl change_step l xs) = [r']" "cr_id r' = cr_id r" by auto
    with snoc.prems show ?case
      by (cases x) (auto simp: event_id_def approve_change_def implement_change_def set_approved_def set_implemented_def)
  qed
  with assms(2) show ?thesis
    by (cases e) (auto simp: event_id_def status_after_def approve_change_def implement_change_def set_approved_def set_implemented_def)
qed

lemma change_order_free_witness:
  "map cr_status (cl_changes (foldl change_step
     (snd (create_change_request 0 ''t'' ''d'' ''emergency'' ''u'' None None \<lparr>cl_changes = [], cl_redis = None\<rparr>))
     ([] @ [Implement 1 (stamp_id ''cr_'' 0) ''u'']))) = [''implemented'']"
  by (subst change_order_free [where r = "fst (create_change_request 0 ''t'' ''d'' ''emergency'' ''u'' None None \<lparr>cl_changes = [], cl_redis = None\<rparr>)"])
    (simp_all add: create_change_request_def event_id_def status_after_def Let_def)

section \<open>Properties of the report\<close>

text \<open>
  The report counts what the logs of the controls list as open or pending.
\<close>

lemma report_matches_logs:
  "sr_open (generate_compliance_report rs (il_incidents il) cs vs) = length (get_open_incidents il)"
  "sr_pending (generate_compliance_report rs is (cl_changes cl) vs) = length (get_pending_changes cl)"
  by (simp_all add: generate_compliance_report_def get_open_incidents_def get_pending_changes_def)

end
