(* ===== verification/Opa_Client.thy ===== *)
theory Opa_Client
  imports Interfaces Json_Value
begin

text \<open>
  The client of the Open Policy Agent with its own circuit breaker (\<open>services/shared/opa_client.py\<close>). What the HTTP
  call of an evaluation ends with is an argument, and so are the clock readings: one for the check of the
  breaker and one for its opening. The settings read from the environment are a record.
\<close>

section \<open>Decisions\<close>

record opa_settings =
  os_enforced :: bool
  os_mode :: string
  os_threshold :: int
  os_reset :: int

definition default_opa :: opa_settings where
  "default_opa = \<lparr>os_enforced = True, os_mode = ''risk_based'', os_threshold = 5, os_reset = 30\<rparr>"

record opa_decision =
  od_allowed :: jvalue
  od_policy :: string
  od_risk :: string
  od_reason :: jvalue
  od_warnings :: jvalue

definition opa_decision_of :: "jvalue \<Rightarrow> string \<Rightarrow> string \<Rightarrow> jvalue \<Rightarrow> jvalue \<Rightarrow> opa_decision" where
  \<comment> \<open>\<open>PolicyDecision.__init__\<close>\<close>
  "opa_decision_of allowed policy risk reason warnings =
     \<lparr>od_allowed = allowed, od_policy = policy, od_risk = risk,
      od_reason = (if json_truthy reason then reason else SText []),
      od_warnings = (if json_truthy warnings then warnings else SArr [])\<rparr>"

definition effective_allowed :: "opa_settings \<Rightarrow> opa_decision \<Rightarrow> bool" where
  "effective_allowed st d =
     (if \<not> os_enforced st then True
      else if json_truthy (od_allowed d) then True
      else if os_mode st = ''fail_open'' then True
      else if os_mode st = ''risk_based'' then \<not> od_risk d \<in> {''critical'', ''high''}
      else False)"

section \<open>The client\<close>

record opa_client =
  oc_open :: bool
  oc_failures :: nat
  oc_opened :: "pyfloat option"

definition new_opa_client :: opa_client where
  "new_opa_client = \<lparr>oc_open = False, oc_failures = 0, oc_opened = None\<rparr>"

definition check_circuit_breaker :: "opa_settings \<Rightarrow> pyfloat \<Rightarrow> opa_client \<Rightarrow> bool \<times> opa_client" where
  "check_circuit_breaker st now c =
     (if \<not> oc_open c then (False, c)
      else case oc_opened c of
          Some t \<Rightarrow> if of_int (os_reset st) \<le> now - t then (False, new_opa_client) else (True, c)
        | None \<Rightarrow> (True, c))"

definition open_circuit :: "pyfloat \<Rightarrow> opa_client \<Rightarrow> opa_client" where
  "open_circuit now c = c\<lparr>oc_open := True, oc_opened := Some now\<rparr>"

definition count_opa_failure :: "opa_settings \<Rightarrow> pyfloat \<Rightarrow> opa_client \<Rightarrow> opa_client" where
  "count_opa_failure st now c =
     (let c1 = c\<lparr>oc_failures := oc_failures c + 1\<rparr> in
      if os_threshold st \<le> int (oc_failures c1) then open_circuit now c1 else c1)"

datatype opa_answer =
    Status nat "jvalue option" \<comment> \<open>the status and the decoded body, \<open>None\<close> when it is not JSON\<close>
  | OpaTimeout
  | OpaRaises string

definition opa_result :: "jvalue option \<Rightarrow> py_error + jvalue \<times> jvalue \<times> jvalue" where
  \<comment> \<open>\<open>allow\<close>, \<open>warnings\<close> and \<open>reason\<close> of a body\<close>
  "opa_result body = (case body of
     None \<Rightarrow> Inl ValueError
   | Some v \<Rightarrow> bind_sum (json_get v ''result'' (SObj [])) (\<lambda>r.
       bind_sum (json_get r ''allow'' (SBool True)) (\<lambda>a.
       bind_sum (json_get r ''warnings'' (SArr [])) (\<lambda>w.
       bind_sum (json_get r ''reason'' (SText [])) (\<lambda>m. Inr (a, w, m))))))"

definition unavailable :: "opa_settings \<Rightarrow> string \<Rightarrow> string \<Rightarrow> string \<Rightarrow> string \<Rightarrow> opa_decision" where
  "unavailable st policy risk reason warning =
     opa_decision_of (SBool (os_mode st \<noteq> ''fail_closed'')) policy risk (SText reason) (SArr [SText warning])"

definition answer_of_opa ::
  "opa_settings \<Rightarrow> (py_error \<Rightarrow> string) \<Rightarrow> pyfloat \<Rightarrow> opa_answer \<Rightarrow> string \<Rightarrow> string \<Rightarrow> opa_client \<Rightarrow> opa_decision \<times> opa_client" where
  \<comment> \<open>\<open>evaluate\<close> behind the breaker; the text of an exception is an argument\<close>
  "answer_of_opa st show now ans policy risk c =
     (let failed = (\<lambda>reason warning. (unavailable st policy risk reason warning, count_opa_failure st now c)) in
      case ans of
        OpaTimeout \<Rightarrow> failed ''OPA timeout'' ''OPA service timeout''
      | OpaRaises m \<Rightarrow> failed m ''OPA service error''
      | Status code body \<Rightarrow>
          if code \<noteq> 200 then failed (''OPA error: '' @ show_nat code) ''OPA returned error''
          else (case opa_result body of
              Inl e \<Rightarrow> failed (show e) ''OPA service error''
            | Inr (a, w, m) \<Rightarrow>
                (opa_decision_of a policy risk m w,
                 (let c1 = c\<lparr>oc_failures := 0\<rparr> in if oc_open c1 then c1\<lparr>oc_open := False, oc_opened := None\<rparr> else c1))))"

definition evaluate ::
  "opa_settings \<Rightarrow> (py_error \<Rightarrow> string) \<Rightarrow> pyfloat \<Rightarrow> pyfloat \<Rightarrow> opa_answer \<Rightarrow> string \<Rightarrow> string \<Rightarrow> opa_client \<Rightarrow>
   opa_decision \<times> opa_client \<times> bool" where
  \<comment> \<open>the last component: whether OPA is called\<close>
  "evaluate st show t1 t2 ans policy risk c =
     (case check_circuit_breaker st t1 c of
        (True, c1) \<Rightarrow> (unavailable st policy risk ''OPA circuit breaker open'' ''OPA service unavailable'', c1, False)
      | (False, c1) \<Rightarrow> (case answer_of_opa st show t2 ans policy risk c1 of (d, c2) \<Rightarrow> (d, c2, True)))"

definition all_policies :: "string list" where
  "all_policies = [''eu_aia/article_09'', ''eu_aia/article_13'', ''eu_aia/article_14'', ''eu_aia/article_15'']"

fun evaluate_list ::
  "opa_settings \<Rightarrow> (py_error \<Rightarrow> string) \<Rightarrow> (nat \<Rightarrow> pyfloat \<times> pyfloat \<times> opa_answer) \<Rightarrow> string list \<Rightarrow> opa_client \<Rightarrow>
   opa_decision list \<times> opa_client" where
  "evaluate_list st show env [] c = ([], c)"
| "evaluate_list st show env (p # ps) c =
     (case env 0 of (t1, t2, ans) \<Rightarrow> (case evaluate st show t1 t2 ans p ''low'' c of
        (d, c1, _) \<Rightarrow> (case evaluate_list st show (env \<circ> Suc) ps c1 of (ds, c2) \<Rightarrow> (d # ds, c2))))"

definition evaluate_all ::
  "opa_settings \<Rightarrow> (py_error \<Rightarrow> string) \<Rightarrow> (nat \<Rightarrow> pyfloat \<times> pyfloat \<times> opa_answer) \<Rightarrow> string list option \<Rightarrow> opa_client \<Rightarrow>
   opa_decision list \<times> opa_client" where
  "evaluate_all st show env policies c =
     evaluate_list st show env (case policies of None \<Rightarrow> all_policies | Some ps \<Rightarrow> ps) c"

definition opa_health_check :: "opa_answer \<Rightarrow> bool" where
  "opa_health_check ans = (case ans of Status code _ \<Rightarrow> code = 200 | _ \<Rightarrow> False)"

definition reset_circuit_breaker :: "opa_client \<Rightarrow> opa_client" where
  "reset_circuit_breaker c = new_opa_client"

section \<open>Properties\<close>

definition opa_refuses :: "opa_answer \<Rightarrow> bool" where
  \<comment> \<open>OPA answers that the action is not allowed\<close>
  "opa_refuses ans \<longleftrightarrow> (case ans of
     Status code body \<Rightarrow> code = 200 \<and> (case opa_result body of Inl _ \<Rightarrow> False | Inr (a, _, _) \<Rightarrow> \<not> json_truthy a)
   | _ \<Rightarrow> False)"

definition opa_fails :: "opa_answer \<Rightarrow> bool" where
  "opa_fails ans \<longleftrightarrow> (case ans of Status code body \<Rightarrow> code = 200 \<longrightarrow> (\<exists>e. opa_result body = Inl e) | _ \<Rightarrow> True)"

lemma unavailable_simps [simp]:
  "json_truthy (od_allowed (unavailable st p r m w)) \<longleftrightarrow> os_mode st \<noteq> ''fail_closed''" "od_risk (unavailable st p r m w) = r"
  by (simp_all add: unavailable_def opa_decision_of_def)

lemma answer_of_opa_decision:
  "json_truthy (od_allowed (fst (answer_of_opa st show now ans p r c))) \<longleftrightarrow>
     (if opa_fails ans then os_mode st \<noteq> ''fail_closed'' else \<not> opa_refuses ans)"
  "od_risk (fst (answer_of_opa st show now ans p r c)) = r"
  by (auto simp: answer_of_opa_def opa_fails_def opa_refuses_def opa_decision_of_def Let_def
      split: opa_answer.splits sum.splits prod.splits)

lemma answer_of_opa_client:
  "snd (answer_of_opa st show now ans p r c) =
     (if opa_fails ans then count_opa_failure st now c
      else if oc_open c then \<lparr>oc_open = False, oc_failures = 0, oc_opened = None\<rparr> else c\<lparr>oc_failures := 0\<rparr>)"
  by (auto simp: answer_of_opa_def opa_fails_def Let_def split: opa_answer.splits sum.splits prod.splits)

text \<open>
  which evaluations block. With enforcement on and the default mode an action is blocked
  exactly when OPA is reached, answers that it is not allowed, and the caller named the risk high or
  critical: an outage of OPA lets every action pass, of whatever risk. With fail-closed exactly the refused
  actions and those evaluated during an outage are blocked, but a policy that OPA does not know counts as allowed.
\<close>

theorem opa_blocks_iff:
  "(\<not> effective_allowed (st\<lparr>os_enforced := True, os_mode := ''risk_based''\<rparr>)
       (fst (evaluate (st\<lparr>os_enforced := True, os_mode := ''risk_based''\<rparr>) show t1 t2 ans p r c)) \<longleftrightarrow>
     \<not> fst (check_circuit_breaker st t1 c) \<and> opa_refuses ans \<and> (r = ''high'' \<or> r = ''critical'')) \<and>
   (\<not> effective_allowed (st\<lparr>os_enforced := True, os_mode := ''fail_closed''\<rparr>)
       (fst (evaluate (st\<lparr>os_enforced := True, os_mode := ''fail_closed''\<rparr>) show t1 t2 ans p r c)) \<longleftrightarrow>
     fst (check_circuit_breaker st t1 c) \<or> opa_fails ans \<or> opa_refuses ans) \<and>
   \<not> opa_refuses (Status 200 (Some (SObj [])))"
proof -
  have k: "check_circuit_breaker (st\<lparr>os_enforced := e, os_mode := m\<rparr>) t1 c = check_circuit_breaker st t1 c" for e m
    by (simp add: check_circuit_breaker_def split: option.splits)
  have f: "fst (evaluate st' show t1 t2 ans p r c) = (if fst (check_circuit_breaker st' t1 c)
      then unavailable st' p r ''OPA circuit breaker open'' ''OPA service unavailable''
      else fst (answer_of_opa st' show t2 ans p r (snd (check_circuit_breaker st' t1 c))))" for st'
    by (auto simp: evaluate_def split: prod.splits bool.splits)
  have "\<not> opa_fails ans" if "opa_refuses ans"
    using that by (auto simp: opa_refuses_def opa_fails_def split: opa_answer.splits)
  moreover have "\<not> opa_refuses (Status 200 (Some (SObj [])))"
    by (simp add: opa_refuses_def opa_result_def dict_get_or_def)
  ultimately show ?thesis by (auto simp: f k effective_allowed_def answer_of_opa_decision)
qed

text \<open>
  the evaluation of a list of policies never blocks in the default mode, because it names the risk low.
\<close>

theorem evaluate_all_never_blocks:
  assumes "os_mode st = ''risk_based''"
  shows "list_all (effective_allowed st) (fst (evaluate_all st show env policies c))"
proof -
  have d: "od_risk (fst (evaluate st show t1 t2 ans p r c)) = r" for t1 t2 ans p r c
    by (auto simp: evaluate_def answer_of_opa_decision(2) [symmetric] split: prod.splits bool.splits)
      (metis answer_of_opa_decision(2) fst_conv)
  have "list_all (\<lambda>d. od_risk d = ''low'') (fst (evaluate_list st show env ps c))" for ps
  proof (induction ps arbitrary: env c)
    case (Cons p ps)
    obtain t1 t2 ans where e: "env 0 = (t1, t2, ans)" by (metis prod_cases3)
    obtain d1 c1 b where v: "evaluate st show t1 t2 ans p ''low'' c = (d1, c1, b)" by (metis prod_cases3)
    with d [of t1 t2 ans p "''low''" c] Cons.IH [of "env \<circ> Suc" c1] show ?case
      by (cases "evaluate_list st show (env \<circ> Suc) ps c1") (simp add: e del: comp_apply o_apply)
  qed simp
  then show ?thesis
    using assms by (auto simp: evaluate_all_def effective_allowed_def list_all_iff)
qed

lemma evaluate_all_never_blocks_witness:
  "list_all (effective_allowed default_opa) (fst (evaluate_all default_opa (\<lambda>_. [])
     (\<lambda>_. (0, 0, Status 200 (Some (SObj [(''result'', SObj [(''allow'', SBool False)])])))) None new_opa_client))"
  by (rule evaluate_all_never_blocks) (simp add: default_opa_def)

section \<open>The breaker\<close>

datatype opa_event = Evaluate pyfloat pyfloat opa_answer string string | Reset

definition opa_step :: "opa_settings \<Rightarrow> opa_client \<Rightarrow> opa_event \<Rightarrow> opa_client" where
  "opa_step st c e = (case e of
     Evaluate t1 t2 ans p r \<Rightarrow> fst (snd (evaluate st (\<lambda>_. []) t1 t2 ans p r c)) | Reset \<Rightarrow> reset_circuit_breaker c)"

definition breaker_ok :: "opa_settings \<Rightarrow> opa_client \<Rightarrow> bool" where
  "breaker_ok st c \<longleftrightarrow> (oc_open c \<longleftrightarrow> oc_opened c \<noteq> None) \<and> (oc_open c \<longleftrightarrow> os_threshold st \<le> int (oc_failures c))"

lemma evaluate_client:
  "snd (evaluate st show t1 t2 ans p r c) =
     (case check_circuit_breaker st t1 c of (True, c1) \<Rightarrow> (c1, False)
      | (False, c1) \<Rightarrow> (snd (answer_of_opa st show t2 ans p r c1), True))"
  by (auto simp: evaluate_def split: prod.splits bool.splits)

lemma breaker_ok_new: "0 < os_threshold st \<Longrightarrow> breaker_ok st new_opa_client"
  by (simp add: breaker_ok_def new_opa_client_def)

lemma breaker_ok_check: "0 < os_threshold st \<Longrightarrow> breaker_ok st c \<Longrightarrow> breaker_ok st (snd (check_circuit_breaker st t c))"
  by (auto simp: check_circuit_breaker_def breaker_ok_new split: option.splits)

lemma breaker_ok_answer: "0 < os_threshold st \<Longrightarrow> breaker_ok st c \<Longrightarrow> breaker_ok st (snd (answer_of_opa st show t ans p r c))"
  by (auto simp: answer_of_opa_client breaker_ok_def count_opa_failure_def open_circuit_def Let_def)

lemma breaker_ok_step:
  assumes "0 < os_threshold st" "breaker_ok st c"
  shows "breaker_ok st (opa_step st c e)"
  using assms breaker_ok_check [OF assms] breaker_ok_answer [OF assms(1)]
  by (auto simp: opa_step_def evaluate_client reset_circuit_breaker_def breaker_ok_new
      split: opa_event.splits prod.splits bool.splits) (metis snd_conv)+

interpretation breaker: run_invariant "opa_step st" "\<lambda>_ _. 0 < os_threshold st" "breaker_ok st" for st
  by unfold_locales (rule breaker_ok_step)

text \<open>
  after any evaluations and resets the breaker is open exactly when the failures in a row reach the threshold,
  and an opening time is kept exactly while it is open.
\<close>

theorem breaker_opens_at_threshold:
  assumes "0 < os_threshold st"
  shows "breaker_ok st (foldl (opa_step st) new_opa_client es)"
  by (rule breaker.run_inv_always) (simp_all add: assms breaker_ok_new)

lemma breaker_opens_at_threshold_witness:
  "breaker_ok default_opa (foldl (opa_step default_opa) new_opa_client [Evaluate 0 1 OpaTimeout ''p'' ''high''])"
  by (rule breaker_opens_at_threshold) (simp add: default_opa_def)

text \<open>
  an open breaker spares OPA for the reset time, and lets the next call through; but it does not stay half-open: one
  call that fails then leaves it closed, and it takes the whole threshold of failures to open it again.
\<close>

theorem breaker_recovery:
  assumes "breaker_ok st c" "oc_open c" "oc_opened c = Some t" "1 < os_threshold st"
  shows "(now - t < of_int (os_reset st) \<longrightarrow> snd (evaluate st show now t2 ans p r c) = (c, False)) \<and>
    (of_int (os_reset st) \<le> now - t \<longrightarrow> snd (evaluate st show now t2 OpaTimeout p r c) =
       (\<lparr>oc_open = False, oc_failures = 1, oc_opened = None\<rparr>, True))"
  using assms
  by (auto simp: evaluate_client check_circuit_breaker_def answer_of_opa_client opa_fails_def count_opa_failure_def
      new_opa_client_def Let_def)

lemma breaker_recovery_witness:
  "snd (evaluate default_opa (\<lambda>_. []) 31 31 OpaTimeout ''p'' ''high'' \<lparr>oc_open = True, oc_failures = 5, oc_opened = Some 1\<rparr>) =
     (\<lparr>oc_open = False, oc_failures = 1, oc_opened = None\<rparr>, True)"
  using breaker_recovery [of default_opa "\<lparr>oc_open = True, oc_failures = 5, oc_opened = Some 1\<rparr>" 1 31]
  by (simp add: breaker_ok_def default_opa_def)

end
