(* ===== verification/Data_Lifecycle.thy ===== *)
theory Data_Lifecycle
  imports Interfaces Json_Value Json_Store "HOL-Library.Char_ord" "HOL-Library.List_Lexorder"
begin

text \<open>
  Snapshots of data sets (\<open>services/shared/data_versioning.py\<close>) and the export and erasure of a user's data
  (\<open>services/shared/data_portability.py\<close>). The content hash, the clock and the outcome of each write are arguments; the
  directory of each manager is a record of its files. A file holds the value that was dumped into it: the values are JSON, which
  \<open>json.load\<close> gives back.
\<close>

section \<open>Snapshots (data_versioning.py)\<close>

record data_version =
  dv_id :: string
  dv_hash :: string
  dv_count :: nat
  dv_created :: string
  dv_metadata :: "(string \<times> jvalue) list"
  dv_parent :: "string option"

record snapshot_manifest =
  sm_versions :: "data_version list"
  sm_current :: "string option"

record snapshot_dir =
  sd_manifest :: "snapshot_manifest option" \<comment> \<open>\<open>None\<close>: missing or unreadable\<close>
  sd_files :: "(string, jvalue list option) pydict" \<comment> \<open>\<open>None\<close>: truncated, which \<open>json.load\<close> rejects\<close>

record version_manager =
  vm_versions :: "(string, data_version) pydict"
  vm_current :: "string option"

definition new_version_manager :: version_manager where
  "new_version_manager = \<lparr>vm_versions = [], vm_current = None\<rparr>"

definition load_manifest :: "snapshot_dir \<Rightarrow> snapshot_manifest" where
  "load_manifest d = (case sd_manifest d of Some m \<Rightarrow> m | None \<Rightarrow> \<lparr>sm_versions = [], sm_current = None\<rparr>)"

definition save_manifest :: "write_outcome \<Rightarrow> snapshot_manifest \<Rightarrow> snapshot_dir \<Rightarrow> snapshot_dir" where
  \<comment> \<open>mode \<open>w\<close> empties the file: a dump that fails leaves an unreadable one; the failure is logged\<close>
  "save_manifest w m d = (case w of Written \<Rightarrow> d\<lparr>sd_manifest := Some m\<rparr> | OpenFails \<Rightarrow> d
     | DumpFails \<Rightarrow> d\<lparr>sd_manifest := None\<rparr>)"

definition snapshot_id :: "pyfloat \<Rightarrow> string \<Rightarrow> string" where
  "snapshot_id now h = ''v'' @ show_int (py_int now) @ ''_'' @ take 12 h"

definition or_current :: "string option \<Rightarrow> string option \<Rightarrow> string option" where
  \<comment> \<open>\<open>a or b\<close>\<close>
  "or_current a b = (case a of Some (c # s) \<Rightarrow> Some (c # s) | _ \<Rightarrow> b)"

definition create_snapshot ::
  "(jvalue list \<Rightarrow> string) \<Rightarrow> pyfloat \<Rightarrow> string \<Rightarrow> write_outcome \<Rightarrow> write_outcome \<Rightarrow> jvalue list \<Rightarrow> (string \<times> jvalue) list \<Rightarrow> string option \<Rightarrow>
   version_manager \<times> snapshot_dir \<Rightarrow> data_version option \<times> version_manager \<times> snapshot_dir" where
  \<comment> \<open>the hash, the time and its text, and how the writes of the data and of the manifest end\<close>
  "create_snapshot hash now created data_write manifest_write data metadata parent s =
     (case s of (vm, d) \<Rightarrow>
      if data = [] then (None, vm, d)
      else (let h = hash data; i = snapshot_id now h; m = load_manifest d in
        case find (\<lambda>v. dv_hash v = h) (sm_versions m) of
          Some v \<Rightarrow> (Some v, vm\<lparr>vm_versions := dict_set (dv_id v) v (vm_versions vm)\<rparr>, d)
        | None \<Rightarrow>
            (case data_write of
              OpenFails \<Rightarrow> (None, vm, d)
            | DumpFails \<Rightarrow> (None, vm, d\<lparr>sd_files := dict_set i None (sd_files d)\<rparr>)
            | Written \<Rightarrow> (let v = \<lparr>dv_id = i, dv_hash = h, dv_count = length data, dv_created = created, dv_metadata = metadata,
                       dv_parent = or_current parent (vm_current vm)\<rparr>;
                      d1 = d\<lparr>sd_files := dict_set i (Some data) (sd_files d)\<rparr>
                  in (Some v, \<lparr>vm_versions = dict_set i v (vm_versions vm), vm_current = Some i\<rparr>,
                      save_manifest manifest_write (m\<lparr>sm_versions := sm_versions m @ [v], sm_current := Some i\<rparr>) d1)))))"

definition load_snapshot :: "snapshot_dir \<Rightarrow> string \<Rightarrow> jvalue list option" where
  "load_snapshot d i = (case dict_get (sd_files d) i of Some (Some data) \<Rightarrow> Some data | _ \<Rightarrow> None)"

definition get_version :: "string \<Rightarrow> version_manager \<times> snapshot_dir \<Rightarrow> data_version option \<times> version_manager" where
  "get_version i s = (case s of (vm, d) \<Rightarrow>
     (case dict_get (vm_versions vm) i of
       Some v \<Rightarrow> (Some v, vm)
     | None \<Rightarrow> (case find (\<lambda>v. dv_id v = i) (sm_versions (load_manifest d)) of
         Some v \<Rightarrow> (Some v, vm\<lparr>vm_versions := dict_set i v (vm_versions vm)\<rparr>)
       | None \<Rightarrow> (None, vm))))"

definition get_current_version :: "version_manager \<times> snapshot_dir \<Rightarrow> data_version option \<times> version_manager" where
  "get_current_version s = (case sm_current (load_manifest (snd s)) of
     Some (c # i) \<Rightarrow> get_version (c # i) s
   | _ \<Rightarrow> (None, fst s))"

definition get_version_history :: "int \<Rightarrow> snapshot_dir \<Rightarrow> data_version list" where
  \<comment> \<open>the loop appends before it compares with the limit\<close>
  "get_version_history limit d = take (max 1 (nat limit)) (rev (sm_versions (load_manifest d)))"

section \<open>Export and erasure (data_portability.py)\<close>

type_synonym user_record = "(string \<times> jvalue) list"

datatype portability_error = UserNotFoundError | DataExportError

record export_entry =
  ee_user :: string
  ee_format :: string
  ee_time :: string
  ee_count :: nat

record deletion_entry =
  de_user :: string
  de_time :: string
  de_count :: nat

datatype exported = JsonExport "user_record list" | CsvExport string

record portability =
  po_store :: "(string, user_record list) pydict"
  po_exports :: "export_entry list"
  po_deletions :: "deletion_entry list"
  po_files :: "(string, exported) pydict"

definition new_portability :: portability where
  "new_portability = \<lparr>po_store = [], po_exports = [], po_deletions = [], po_files = []\<rparr>"

definition register_user_data :: "string \<Rightarrow> string \<Rightarrow> user_record \<Rightarrow> portability \<Rightarrow> portability" where
  "register_user_data now user data p =
     p\<lparr>po_store := dict_set user
        (dict_get_or (po_store p) user [] @ [dict_set ''_registered_at'' (SText now) data]) (po_store p)\<rparr>"

subsection \<open>The writer of the csv module\<close>

definition csv_special :: "char \<Rightarrow> bool" where
  "csv_special c \<longleftrightarrow> c \<in> {CHR '','', CHR 0x22, CHR 0x0D, CHR 0x0A}"

fun double_quotes :: "string \<Rightarrow> string" where
  "double_quotes [] = []"
| "double_quotes (c # s) = (if c = CHR 0x22 then [c, c] else [c]) @ double_quotes s"

definition csv_field :: "bool \<Rightarrow> string \<Rightarrow> string" where
  \<comment> \<open>\<open>QUOTE_MINIMAL\<close>; an empty field alone in its row is quoted\<close>
  "csv_field alone s =
     (if list_ex csv_special s \<or> (alone \<and> s = []) then [CHR 0x22] @ double_quotes s @ [CHR 0x22] else s)"

fun csv_fields :: "bool \<Rightarrow> string list \<Rightarrow> string" where
  "csv_fields alone [] = []"
| "csv_fields alone [f] = csv_field alone f"
| "csv_fields alone (f # g # fs) = csv_field False f @ '','' @ csv_fields False (g # fs)"

definition csv_row :: "string list \<Rightarrow> string" where
  "csv_row fs = csv_fields True fs @ [CHR 0x0D, CHR 0x0A]"

definition csv_text :: "string list list \<Rightarrow> string" where
  "csv_text rows = concat (map csv_row rows)"

subsection \<open>Exports\<close>

definition csv_names :: "user_record list \<Rightarrow> string list" where
  "csv_names rs = sort (filter (\<lambda>k. k \<noteq> ''_registered_at'') (remdups (concat (map (map fst) rs))))"

definition csv_rows :: "(jvalue \<Rightarrow> string) \<Rightarrow> user_record list \<Rightarrow> string list list" where
  \<comment> \<open>\<open>DictWriter\<close> with \<open>str\<close> of a value as an argument; a missing field is empty\<close>
  "csv_rows py_str rs =
     csv_names rs # map (\<lambda>r. map (\<lambda>k. case dict_get r k of Some v \<Rightarrow> py_str v | None \<Rightarrow> []) (csv_names rs)) rs"

definition export_name :: "string \<Rightarrow> string \<Rightarrow> string \<Rightarrow> string" where
  "export_name user now ext = ''export_'' @ user @ ''_'' @ map (\<lambda>c. if c = CHR '':'' then CHR ''-'' else c) now @ ext"

definition export_user_data ::
  "(jvalue \<Rightarrow> string) \<Rightarrow> string \<Rightarrow> bool \<Rightarrow> string \<Rightarrow> string \<Rightarrow> portability \<Rightarrow> (portability_error + exported) \<times> portability" where
  \<comment> \<open>the text of the time, and whether the file can be written; every exception of the export becomes \<open>DataExportError\<close>\<close>
  "export_user_data py_str now write_ok user fmt p =
     (case dict_get (po_store p) user of
        None \<Rightarrow> (Inl UserNotFoundError, p)
      | Some rs \<Rightarrow>
          if rs = [] then (Inl UserNotFoundError, p)
          else if fmt \<notin> {''json'', ''csv''} \<or> \<not> write_ok then (Inl DataExportError, p)
          else (let x = (if fmt = ''json'' then JsonExport rs else CsvExport (csv_text (csv_rows py_str rs)));
                    name = export_name user now (if fmt = ''json'' then ''.json'' else ''.csv'')
                in (Inr x, p\<lparr>po_files := dict_set name x (po_files p),
                     po_exports := po_exports p @ [\<lparr>ee_user = user, ee_format = fmt, ee_time = now, ee_count = length rs\<rparr>]\<rparr>)))"

definition delete_user_data :: "string \<Rightarrow> string \<Rightarrow> portability \<Rightarrow> (portability_error + deletion_entry) \<times> portability" where
  "delete_user_data now user p =
     (case dict_get (po_store p) user of
        None \<Rightarrow> (Inl UserNotFoundError, p)
      | Some rs \<Rightarrow>
          (let e = \<lparr>de_user = user, de_time = now, de_count = length rs\<rparr> in
           (Inr e, p\<lparr>po_store := dict_del user (po_store p), po_deletions := po_deletions p @ [e]\<rparr>)))"

definition user_has_data :: "string \<Rightarrow> portability \<Rightarrow> bool" where
  "user_has_data user p \<longleftrightarrow> (case dict_get (po_store p) user of None \<Rightarrow> False | Some rs \<Rightarrow> 0 < length rs)"

definition get_export_history :: "string option \<Rightarrow> portability \<Rightarrow> export_entry list" where
  "get_export_history user p = (case user of
     Some (c # s) \<Rightarrow> filter (\<lambda>e. ee_user e = c # s) (po_exports p) | _ \<Rightarrow> po_exports p)"

definition get_deletion_history :: "string option \<Rightarrow> portability \<Rightarrow> deletion_entry list" where
  "get_deletion_history user p = (case user of
     Some (c # s) \<Rightarrow> filter (\<lambda>e. de_user e = c # s) (po_deletions p) | _ \<Rightarrow> po_deletions p)"

definition portability_status :: "portability \<Rightarrow> nat \<times> nat \<times> nat" where
  "portability_status p = (length (po_store p), length (po_exports p), length (po_deletions p))"

section \<open>Properties of the snapshots\<close>

datatype snapshot_event =
    Snapshot pyfloat string write_outcome write_outcome "jvalue list" "(string \<times> jvalue) list" "string option"
  | Restart

definition snapshot_step ::
  "(jvalue list \<Rightarrow> string) \<Rightarrow> version_manager \<times> snapshot_dir \<Rightarrow> snapshot_event \<Rightarrow> version_manager \<times> snapshot_dir" where
  "snapshot_step hash s e = (case e of
     Snapshot now created w1 w2 data md par \<Rightarrow> snd (create_snapshot hash now created w1 w2 data md par s)
   | Restart \<Rightarrow> (new_version_manager, snd s))"

definition snapshot_data :: "snapshot_event \<Rightarrow> jvalue list list" where
  "snapshot_data e = (case e of Snapshot _ _ _ _ data _ _ \<Rightarrow> [data] | Restart \<Rightarrow> [])"

definition hash_ok :: "(jvalue list \<Rightarrow> string) \<Rightarrow> jvalue list set \<Rightarrow> bool" where
  \<comment> \<open>a digest has at least 12 characters, and no two of the data sets share the first 12 of them\<close>
  "hash_ok hash D \<longleftrightarrow> (\<forall>d. 12 \<le> length (hash d)) \<and> inj_on (\<lambda>d. take 12 (hash d)) D"

definition snapshots_ok :: "(jvalue list \<Rightarrow> string) \<Rightarrow> jvalue list set \<Rightarrow> version_manager \<times> snapshot_dir \<Rightarrow> bool" where
  "snapshots_ok hash D s \<longleftrightarrow>
     (\<forall>v \<in> set (sm_versions (load_manifest (snd s))). \<exists>data.
        load_snapshot (snd s) (dv_id v) = Some data \<and> hash data = dv_hash v \<and> length data = dv_count v) \<and>
     (\<forall>i data. load_snapshot (snd s) i = Some data \<longrightarrow> data \<in> D \<and> (\<exists>now. i = snapshot_id now (hash data))) \<and>
     distinct (map dv_hash (sm_versions (load_manifest (snd s))))"

lemma snapshot_id_tail: "12 \<le> length h \<Longrightarrow> take_last 12 (snapshot_id now h) = take 12 h"
  by (simp add: snapshot_id_def take_last_def)

lemma snapshot_id_same:
  assumes "hash_ok hash D" "x \<in> D" "y \<in> D" "snapshot_id t (hash x) = snapshot_id t' (hash y)"
  shows "x = y"
proof -
  from assms(1) have l: "12 \<le> length (hash x)" "12 \<le> length (hash y)" "inj_on (\<lambda>d. take 12 (hash d)) D"
    by (auto simp: hash_ok_def)
  from snapshot_id_tail [OF l(1), of t] snapshot_id_tail [OF l(2), of t'] assms(4)
  have "take 12 (hash x) = take 12 (hash y)" by simp
  then show ?thesis using inj_onD [OF l(3) _ assms(2,3)] by simp
qed

lemma create_snapshot_new:
  assumes "data \<noteq> []" "find (\<lambda>v. dv_hash v = hash data) (sm_versions (load_manifest d)) = None"
  shows "create_snapshot hash now created Written w2 data md par (vm, d) =
    (let i = snapshot_id now (hash data);
         v = \<lparr>dv_id = i, dv_hash = hash data, dv_count = length data, dv_created = created, dv_metadata = md,
              dv_parent = or_current par (vm_current vm)\<rparr>
     in (Some v, \<lparr>vm_versions = dict_set i v (vm_versions vm), vm_current = Some i\<rparr>,
         save_manifest w2 ((load_manifest d)\<lparr>sm_versions := sm_versions (load_manifest d) @ [v], sm_current := Some i\<rparr>)
           (d\<lparr>sd_files := dict_set i (Some data) (sd_files d)\<rparr>)))"
  using assms by (simp add: create_snapshot_def Let_def)

lemma load_save [simp]:
  "load_manifest (save_manifest w m d) = (case w of Written \<Rightarrow> m | OpenFails \<Rightarrow> load_manifest d
     | DumpFails \<Rightarrow> \<lparr>sm_versions = [], sm_current = None\<rparr>)"
  "sd_files (save_manifest w m d) = sd_files d"
  by (simp_all add: load_manifest_def save_manifest_def split: write_outcome.split)

lemma load_manifest_files [simp]: "load_manifest (d\<lparr>sd_files := f\<rparr>) = load_manifest d"
  by (simp add: load_manifest_def)

lemma load_snapshot_set:
  "load_snapshot (d\<lparr>sd_files := dict_set i x (sd_files d)\<rparr>) j = (if j = i then x else load_snapshot d j)"
  by (auto simp: load_snapshot_def split: option.splits)

lemma load_snapshot_save [simp]: "load_snapshot (save_manifest w m d) i = load_snapshot d i"
  by (simp add: load_snapshot_def)

lemma snapshot_id_fresh:
  assumes "hash_ok hash D" "snapshots_ok hash D (vm, d)" "data \<in> D"
    and "find (\<lambda>v. dv_hash v = hash data) (sm_versions (load_manifest d)) = None"
    and "v \<in> set (sm_versions (load_manifest d))"
  shows "dv_id v \<noteq> snapshot_id now (hash data)"
proof
  assume i: "dv_id v = snapshot_id now (hash data)"
  from assms(2,5) obtain x where x: "load_snapshot d (dv_id v) = Some x" "hash x = dv_hash v"
    by (auto simp: snapshots_ok_def)
  from assms(2) have "\<forall>i x. load_snapshot d i = Some x \<longrightarrow> x \<in> D \<and> (\<exists>t. i = snapshot_id t (hash x))"
    by (simp add: snapshots_ok_def)
  with x(1) obtain t where "x \<in> D" "dv_id v = snapshot_id t (hash x)" by blast
  with i have "x = data" using snapshot_id_same [OF assms(1) _ assms(3), of x t now] by simp
  with x(2) have "dv_hash v = hash data" by simp
  with assms(4,5) show False unfolding find_None_iff by blast
qed

lemma snapshots_ok_files:
  assumes "snapshots_ok hash D (vm, d)" "\<And>v. v \<in> set (sm_versions (load_manifest d)) \<Longrightarrow> dv_id v \<noteq> i"
    and "\<And>data. x = Some data \<Longrightarrow> data \<in> D \<and> (\<exists>now. i = snapshot_id now (hash data))"
  shows "snapshots_ok hash D (vm', d\<lparr>sd_files := dict_set i x (sd_files d)\<rparr>)"
  using assms by (auto simp: snapshots_ok_def load_snapshot_set split: if_splits)

lemma snapshots_ok_manifest:
  assumes "snapshots_ok hash D (vm, d)"
    and "load_snapshot d (dv_id v) = Some data" "hash data = dv_hash v" "length data = dv_count v"
    and "dv_hash v \<notin> dv_hash ` set (sm_versions (load_manifest d))"
  shows "snapshots_ok hash D (vm', save_manifest w ((load_manifest d)\<lparr>sm_versions := sm_versions (load_manifest d) @ [v], sm_current := c\<rparr>) d)"
  using assms by (cases w) (auto simp: snapshots_ok_def)

lemma snapshots_ok_create:
  assumes "hash_ok hash D" "snapshots_ok hash D (vm, d)" "data \<in> D"
  shows "snapshots_ok hash D (snd (create_snapshot hash now created w1 w2 data md par (vm, d)))"
proof (cases "data = [] \<or> find (\<lambda>v. dv_hash v = hash data) (sm_versions (load_manifest d)) \<noteq> None")
  case True
  then consider "data = []" | v where "find (\<lambda>v. dv_hash v = hash data) (sm_versions (load_manifest d)) = Some v" by auto
  then have same: "snd (snd (create_snapshot hash now created w1 w2 data md par (vm, d))) = d"
    by cases (simp_all add: create_snapshot_def Let_def)
  show ?thesis using assms(2) unfolding snapshots_ok_def same snd_conv .
next
  case False
  let ?i = "snapshot_id now (hash data)"
  have none: "data \<noteq> []" "find (\<lambda>v. dv_hash v = hash data) (sm_versions (load_manifest d)) = None" using False by auto
  have put: "snapshots_ok hash D (vm, d\<lparr>sd_files := dict_set ?i x (sd_files d)\<rparr>)" if "x = None \<or> x = Some data" for x
    using assms that snapshot_id_fresh [OF assms none(2)] by (intro snapshots_ok_files) auto
  have h: "hash data \<notin> dv_hash ` set (sm_versions (load_manifest d))"
    using none(2) unfolding find_None_iff by (metis imageE)
  show ?thesis
  proof (cases w1)
    case Written
    have "snapshots_ok hash D (vm', save_manifest w2 ((load_manifest d)\<lparr>sm_versions := sm_versions (load_manifest d) @ [v], sm_current := c\<rparr>)
        (d\<lparr>sd_files := dict_set ?i (Some data) (sd_files d)\<rparr>))"
      if "dv_id v = ?i" "dv_hash v = hash data" "dv_count v = length data" for vm' v c
    proof -
      let ?d = "d\<lparr>sd_files := dict_set ?i (Some data) (sd_files d)\<rparr>"
      have "load_snapshot ?d (dv_id v) = Some data" unfolding load_snapshot_set that(1) by simp
      moreover have "dv_hash v \<notin> dv_hash ` set (sm_versions (load_manifest ?d))" using h that(2) by simp
      ultimately have "snapshots_ok hash D (vm', save_manifest w2
          ((load_manifest ?d)\<lparr>sm_versions := sm_versions (load_manifest ?d) @ [v], sm_current := c\<rparr>) ?d)"
        using that(2,3) [symmetric] by (intro snapshots_ok_manifest [OF put [OF disjI2 [OF refl]]])
      then show ?thesis by (simp only: load_manifest_files)
    qed
    then show ?thesis unfolding Written create_snapshot_new [where hash = hash, OF none] Let_def snd_conv by simp
  next
    case OpenFails
    with assms(2) none show ?thesis by (simp add: create_snapshot_def Let_def)
  next
    case DumpFails
    with put [of None] none show ?thesis by (simp add: create_snapshot_def Let_def)
  qed
qed

interpretation snapshots: run_invariant "snapshot_step hash" "\<lambda>_ e. set (snapshot_data e) \<subseteq> D \<and> hash_ok hash D" "snapshots_ok hash D"
  for hash D
proof unfold_locales
  fix s e assume "snapshots_ok hash D s" "set (snapshot_data e) \<subseteq> D \<and> hash_ok hash D"
  then show "snapshots_ok hash D (snapshot_step hash s e)"
    by (cases s; cases e)
      (auto simp: snapshot_step_def snapshot_data_def intro: snapshots_ok_create, simp add: snapshots_ok_def)
qed

definition empty_dir :: snapshot_dir where
  "empty_dir = \<lparr>sd_manifest = None, sd_files = []\<rparr>"

lemma snapshots_ok_run:
  assumes "hash_ok hash D" "\<forall>e \<in> set es. set (snapshot_data e) \<subseteq> D"
  shows "snapshots_ok hash D (foldl (snapshot_step hash) (new_version_manager, empty_dir) es)"
  by (rule snapshots.run_inv_always) (use assms in \<open>simp_all add: snapshots_ok_def empty_dir_def load_manifest_def load_snapshot_def\<close>)

text \<open>
  C37: A snapshot gives its data back. Whatever was snapshotted before, however the writes of the
  data and of the manifest ended (a dump that fails leaves a truncated file) and with restarts
  anywhere, a snapshot that succeeds, also when the data were known already, can be loaded under
  its id and is the data, of the count and hash recorded, and every version that the manifest
  lists then can be loaded and has its recorded hash and count. The ids hold only the first 12
  characters of the hash: no two of the data sets may share them.
\<close>
theorem snapshot_roundtrip:
  assumes "hash_ok hash D" "\<forall>e \<in> set es. set (snapshot_data e) \<subseteq> D" "data \<in> D"
    and "create_snapshot hash now created w1 w2 data md par (foldl (snapshot_step hash) (new_version_manager, empty_dir) es) = (Some v, vm', d')"
  shows "load_snapshot d' (dv_id v) = Some data \<and> dv_hash v = hash data \<and> dv_count v = length data \<and>
    (\<forall>u \<in> set (sm_versions (load_manifest d')). \<exists>x. load_snapshot d' (dv_id u) = Some x \<and> hash x = dv_hash u \<and> length x = dv_count u)"
proof -
  obtain vm d where s: "foldl (snapshot_step hash) (new_version_manager, empty_dir) es = (vm, d)" by fastforce
  note run = snapshots_ok_run [OF assms(1,2), unfolded s]
  from assms(4) s have c: "create_snapshot hash now created w1 w2 data md par (vm, d) = (Some v, vm', d')" by simp
  from snapshots_ok_create [OF assms(1) run assms(3), of now created w1 w2 md par] c
  have listed: "\<forall>u \<in> set (sm_versions (load_manifest d')). \<exists>x. load_snapshot d' (dv_id u) = Some x \<and> hash x = dv_hash u \<and> length x = dv_count u"
    by (simp add: snapshots_ok_def)
  have "load_snapshot d' (dv_id v) = Some data \<and> dv_hash v = hash data \<and> dv_count v = length data"
  proof (cases "find (\<lambda>v. dv_hash v = hash data) (sm_versions (load_manifest d))")
    case None
    with c show ?thesis
      by (auto simp: create_snapshot_def load_snapshot_set Let_def split: if_splits write_outcome.splits)
  next
    case (Some w)
    with c have w: "v = w" "d' = d" by (auto simp: create_snapshot_def Let_def split: if_splits)
    from Some have m: "w \<in> set (sm_versions (load_manifest d))" "dv_hash w = hash data" by (auto dest: find_SomeD)
    with run obtain x where x: "load_snapshot d (dv_id w) = Some x" "hash x = hash data" "length x = dv_count w"
      by (auto simp: snapshots_ok_def)
    with run have "x \<in> D" by (auto simp: snapshots_ok_def)
    moreover have "inj_on (\<lambda>d. take 12 (hash d)) D" using assms(1) by (simp add: hash_ok_def)
    ultimately have "x = data" using x(2) assms(3) inj_onD [of "\<lambda>d. take 12 (hash d)" D x data] by simp
    with x m w show ?thesis by simp
  qed
  with listed show ?thesis by blast
qed

lemma snapshot_roundtrip_witness:
  "\<exists>v vm' d'. create_snapshot (\<lambda>d. if d = [SNull] then ''aaaaaaaaaaaa'' else ''bbbbbbbbbbbb'') 5 ''t'' Written DumpFails [SNull] [] None
     (foldl (snapshot_step (\<lambda>d. if d = [SNull] then ''aaaaaaaaaaaa'' else ''bbbbbbbbbbbb'')) (new_version_manager, empty_dir)
       [Snapshot 5 ''t'' DumpFails Written [SNull] [] None, Restart]) = (Some v, vm', d') \<and> load_snapshot d' (dv_id v) = Some [SNull]"
proof -
  let ?h = "\<lambda>d. if d = [SNull] then ''aaaaaaaaaaaa'' else ''bbbbbbbbbbbb''"
  let ?s = "foldl (snapshot_step ?h) (new_version_manager, empty_dir) [Snapshot 5 ''t'' DumpFails Written [SNull] [] None, Restart]"
  obtain v vm' d' where c: "create_snapshot ?h 5 ''t'' Written DumpFails [SNull] [] None ?s = (Some v, vm', d')"
    by (simp add: snapshot_step_def create_snapshot_def empty_dir_def load_manifest_def Let_def)
  have "hash_ok ?h {[SNull]}" by (simp add: hash_ok_def)
  from snapshot_roundtrip [OF this _ _ c] c show ?thesis by (auto simp: snapshot_data_def)
qed

text \<open>
  A dump of the manifest that fails loses every version: the file is truncated, and the next
  load starts from an empty manifest, although the snapshots are still in the directory.
\<close>
theorem failed_dump_loses_versions:
  assumes "data \<noteq> []" "hash data \<notin> dv_hash ` set (sm_versions (load_manifest d))"
  shows "sm_versions (load_manifest (snd (snd (create_snapshot hash now created Written DumpFails data md par (vm, d))))) = []"
proof -
  from assms(2) have "find (\<lambda>v. dv_hash v = hash data) (sm_versions (load_manifest d)) = None" by (force simp: find_None_iff)
  with assms(1) show ?thesis by (simp add: create_snapshot_new Let_def)
qed

text \<open>
  the lineage does not survive a restart, and going back to older data is not recorded. A manager that was just started
  names no parent for its first new snapshot, although the manifest has a current version; and a snapshot of
  data that are known already leaves the current version what it was.
\<close>

theorem lineage_lost:
  "(case fst (create_snapshot hash now created w1 w2 data md None (new_version_manager, d)) of
      None \<Rightarrow> True
    | Some v \<Rightarrow> dv_parent v = None \<or> v \<in> set (sm_versions (load_manifest d))) \<and>
   (hash data \<in> dv_hash ` set (sm_versions (load_manifest d)) \<longrightarrow>
      snd (snd (create_snapshot hash now created w1 w2 data md par (vm, d))) = d)"
proof
  show "case fst (create_snapshot hash now created w1 w2 data md None (new_version_manager, d)) of
      None \<Rightarrow> True | Some v \<Rightarrow> dv_parent v = None \<or> v \<in> set (sm_versions (load_manifest d))"
    by (auto simp: create_snapshot_def Let_def new_version_manager_def or_current_def dest: find_SomeD split: option.split write_outcome.split)
  show "hash data \<in> dv_hash ` set (sm_versions (load_manifest d)) \<longrightarrow>
      snd (snd (create_snapshot hash now created w1 w2 data md par (vm, d))) = d"
    by (auto simp: create_snapshot_def Let_def find_None_iff split: option.split)
qed

lemma lineage_lost_witness:
  "snd (snd (create_snapshot (\<lambda>_. ''h'') 9 ''t'' Written Written [SNull] [] None (new_version_manager,
     \<lparr>sd_manifest = Some \<lparr>sm_versions = [\<lparr>dv_id = ''v1'', dv_hash = ''h'', dv_count = 1, dv_created = [], dv_metadata = [],
        dv_parent = None\<rparr>], sm_current = Some ''v2''\<rparr>, sd_files = []\<rparr>))) =
   \<lparr>sd_manifest = Some \<lparr>sm_versions = [\<lparr>dv_id = ''v1'', dv_hash = ''h'', dv_count = 1, dv_created = [], dv_metadata = [],
        dv_parent = None\<rparr>], sm_current = Some ''v2''\<rparr>, sd_files = []\<rparr>"
  by (rule lineage_lost [THEN conjunct2, rule_format]) (simp add: load_manifest_def)

section \<open>Properties of the export\<close>

datatype csv_mode = Plain | Quoted | Closed

fun read_csv :: "csv_mode \<Rightarrow> string \<Rightarrow> string list \<Rightarrow> string \<Rightarrow> string list list" where
  \<comment> \<open>a reader of RFC 4180: the mode, the field so far and the fields of the row so far\<close>
  "read_csv m cur row [] = []"
| "read_csv Quoted cur row (c # s) =
     (if c = CHR 0x22 then read_csv Closed cur row s else read_csv Quoted (cur @ [c]) row s)"
| "read_csv m cur row (c # s) =
     (if c = CHR 0x22 then read_csv Quoted (if m = Closed then cur @ [c] else cur) row s
      else if c = CHR '','' then read_csv Plain [] (row @ [cur]) s
      else if c = CHR 0x0A then (row @ [cur]) # read_csv Plain [] [] s
      else if c = CHR 0x0D then read_csv m cur row s
      else read_csv m (cur @ [c]) row s)"

lemma read_quoted: "read_csv Quoted cur row (double_quotes f @ CHR 0x22 # t) = read_csv Closed (cur @ f) row t"
  by (induction f arbitrary: cur) auto

lemma read_plain: "\<not> list_ex csv_special f \<Longrightarrow> read_csv Plain cur row (f @ t) = read_csv Plain (cur @ f) row t"
  by (induction f arbitrary: cur) (auto simp: csv_special_def)

lemma closed_plain:
  "read_csv Closed cur row (CHR '','' # t) = read_csv Plain cur row (CHR '','' # t)"
  "read_csv Closed cur row (CHR 0x0D # CHR 0x0A # t) = read_csv Plain cur row (CHR 0x0D # CHR 0x0A # t)"
  by simp_all

lemma read_field:
  "read_csv Plain [] row (csv_field b f @ CHR '','' # t) = read_csv Plain [] (row @ [f]) t"
  "read_csv Plain [] row (csv_field b f @ CHR 0x0D # CHR 0x0A # t) = (row @ [f]) # read_csv Plain [] [] t"
  by (simp_all add: csv_field_def read_quoted [of "[]", simplified] read_plain [of f "[]", simplified])

lemma read_fields:
  "fs \<noteq> [] \<Longrightarrow> read_csv Plain [] row (csv_fields b fs @ CHR 0x0D # CHR 0x0A # t) = (row @ fs) # read_csv Plain [] [] t"
  by (induction b fs arbitrary: row rule: csv_fields.induct) (simp_all add: read_field)

text \<open>
  an export in CSV can be read back: a reader of the format finds exactly the rows written (a header and one row for
  each record, as texts), whatever commas, quotes and line ends are in the fields, provided no row is without fields.
\<close>

theorem csv_roundtrip:
  assumes "list_all (\<lambda>r. r \<noteq> []) rows"
  shows "read_csv Plain [] [] (csv_text rows) = rows"
  using assms unfolding csv_text_def
  by (induction rows) (simp_all add: csv_row_def read_fields)

lemma csv_roundtrip_witness:
  "read_csv Plain [] [] (csv_text [[''a'', ''b''], [''x, y'', [CHR 0x22]], [[], []]]) = [[''a'', ''b''], [''x, y'', [CHR 0x22]], [[], []]]"
  by (rule csv_roundtrip) simp

datatype portability_event =
    Register string string user_record
  | Export string bool string string
  | Erase string string

fun portability_step :: "(jvalue \<Rightarrow> string) \<Rightarrow> portability \<Rightarrow> portability_event \<Rightarrow> portability" where
  "portability_step py_str p (Register now user data) = register_user_data now user data p"
| "portability_step py_str p (Export now ok user fmt) = snd (export_user_data py_str now ok user fmt p)"
| "portability_step py_str p (Erase now user) = snd (delete_user_data now user p)"

fun registered :: "string \<Rightarrow> portability_event list \<Rightarrow> user_record list" where
  \<comment> \<open>what was registered for a user since the last erasure, over the reversed events\<close>
  "registered user [] = []"
| "registered user (Register now u data # es) =
     (if u = user then registered user es @ [dict_set ''_registered_at'' (SText now) data] else registered user es)"
| "registered user (Erase now u # es) = (if u = user then [] else registered user es)"
| "registered user (Export _ _ _ _ # es) = registered user es"

lemma store_run: "dict_get_or (po_store (foldl (portability_step ps) new_portability es)) user [] = registered user (rev es)"
proof (induction es rule: rev_induct)
  case Nil
  then show ?case by (simp add: new_portability_def dict_get_or_def)
next
  case (snoc e es)
  then show ?case
    by (cases e) (auto simp: register_user_data_def export_user_data_def delete_user_data_def Let_def dict_get_or_def
        split: option.splits if_splits)
qed

text \<open>
  a JSON export holds exactly what was registered for the user since the last erasure, in order, and after an erasure
  there is nothing to export; but the erasure leaves the files of earlier exports, with the data in them.
\<close>

theorem export_complete:
  assumes "registered user (rev es) \<noteq> []"
  shows "fst (export_user_data ps now True user ''json'' (foldl (portability_step ps) new_portability es)) =
      Inr (JsonExport (registered user (rev es))) \<and>
    fst (export_user_data ps now ok user fmt (foldl (portability_step ps) new_portability (es @ [Erase t user]))) = Inl UserNotFoundError \<and>
    po_files (foldl (portability_step ps) new_portability (es @ [Erase t user])) =
      po_files (foldl (portability_step ps) new_portability es)"
proof -
  let ?p = "foldl (portability_step ps) new_portability es"
  from assms store_run [of ps es user] have g: "dict_get (po_store ?p) user = Some (registered user (rev es))"
    by (simp add: dict_get_or_def split: option.splits)
  then show ?thesis using assms
    by (auto simp: export_user_data_def delete_user_data_def Let_def)
qed

lemma export_complete_witness:
  "po_files (foldl (portability_step (\<lambda>_. [])) new_portability
     ([Register ''t'' ''u'' [(''a'', SNull)], Export ''t1'' True ''u'' ''json''] @ [Erase ''t2'' ''u''])) \<noteq> []"
proof -
  have "registered ''u'' (rev [Register ''t'' ''u'' [(''a'', SNull)], Export ''t1'' True ''u'' ''json'']) \<noteq> []" by simp
  from export_complete [OF this, of "\<lambda>_. []"] show ?thesis
    by (simp add: register_user_data_def export_user_data_def new_portability_def dict_get_or_def Let_def)
qed

end
