(* ===== verification/Preflight.thy ===== *)
theory Preflight
  imports Py_Regex
begin

text \<open>
  The security checks at start-up (\<open>services/shared/preflight.py\<close>). The environment variables and the existence of files are
  arguments; the messages and recommendations of a result are left out. The patterns of weak credentials
  have no special characters, so that the search is one for a substring.
\<close>

section \<open>Checks\<close>

datatype check_severity = CsCritical | CsHigh | CsMedium | CsLow

record startup_check =
  sc_name :: string
  sc_passed :: bool
  sc_severity :: check_severity

definition failed_check :: "string \<Rightarrow> check_severity \<Rightarrow> startup_check" where
  "failed_check name sev = \<lparr>sc_name = name, sc_passed = False, sc_severity = sev\<rparr>"

definition passed_check :: "string \<Rightarrow> startup_check" where
  \<comment> \<open>with the default severity\<close>
  "passed_check name = \<lparr>sc_name = name, sc_passed = True, sc_severity = CsHigh\<rparr>"

type_synonym environ = "string \<Rightarrow> string option"

definition getenv :: "environ \<Rightarrow> string \<Rightarrow> string \<Rightarrow> string" where
  "getenv env name d = (case env name of Some v \<Rightarrow> v | None \<Rightarrow> d)"

definition default_secrets :: "string list" where
  "default_secrets = [''changeme'', ''password'', ''secret'', ''test'', ''default'']"

definition check_jwt_secret :: "environ \<Rightarrow> startup_check list" where
  "check_jwt_secret env = (let secret = getenv env ''JWT_SECRET'' [] in
     if secret = [] then [failed_check ''jwt_secret'' CsCritical]
     else if length secret < 32 then [failed_check ''jwt_secret_strength'' CsCritical]
     else if secret \<in> set default_secrets then [failed_check ''jwt_secret_default'' CsCritical]
     else [passed_check ''jwt_secret''])"

definition flag_env :: "environ \<Rightarrow> string \<Rightarrow> bool" where
  \<comment> \<open>\<open>os.getenv(name, "false").lower() == "true"\<close>\<close>
  "flag_env env name \<longleftrightarrow> lower (getenv env name ''false'') = ''true''"

definition check_mtls_config :: "(string \<Rightarrow> bool) \<Rightarrow> environ \<Rightarrow> startup_check list" where
  "check_mtls_config file env =
     (if \<not> flag_env env ''MTLS_ENABLED'' then [failed_check ''mtls_enabled'' CsHigh]
      else if \<not> file (getenv env ''MTLS_CERT_PATH'' ''/etc/polarisgate/certs/service.crt'')
      then [failed_check ''mtls_certificate'' CsCritical]
      else if \<not> file (getenv env ''MTLS_KEY_PATH'' ''/etc/polarisgate/certs/service.key'')
      then [failed_check ''mtls_key'' CsCritical]
      else [passed_check ''mtls_config''])"

definition check_encryption_keys :: "environ \<Rightarrow> startup_check list" where
  "check_encryption_keys env = (let key = getenv env ''ENCRYPTION_KEY'' [] in
     if key = [] then [failed_check ''encryption_key'' CsHigh]
     else if length key < 32 then [failed_check ''encryption_key_strength'' CsHigh]
     else [passed_check ''encryption_key''])"

definition required_vars :: "string list" where
  "required_vars = [''DATABASE_URL'', ''REDIS_URL'']"

definition check_environment_variables :: "environ \<Rightarrow> startup_check list" where
  "check_environment_variables env =
     map (\<lambda>v. failed_check (''env_'' @ lower v) CsCritical) (filter (\<lambda>v. getenv env v [] = []) required_vars)"

definition weak_credentials :: "string list" where
  "weak_credentials = [''postgresql://postgres:postgres@'', ''postgresql://root:root@'', ''postgresql://admin:admin@'',
     ''postgresql://test:test@'']"

definition check_weak_passwords :: "environ \<Rightarrow> startup_check list" where
  "check_weak_passwords env = (let url = getenv env ''DATABASE_URL'' [] in
     if list_ex (\<lambda>p. substr p url) weak_credentials then [failed_check ''weak_database_credentials'' CsCritical]
     else [passed_check ''database_credentials''])"

definition check_debug_mode :: "environ \<Rightarrow> startup_check list" where
  "check_debug_mode env =
     (if getenv env ''ENVIRONMENT'' ''development'' = ''production'' \<and> flag_env env ''DEBUG''
      then [failed_check ''debug_mode'' CsHigh] else [passed_check ''debug_mode''])"

definition check_cors_origin :: "environ \<Rightarrow> startup_check list" where
  "check_cors_origin env =
     (if getenv env ''CORS_ORIGIN'' [] = ''*'' then [failed_check ''cors_origin'' CsHigh] else [passed_check ''cors_origin''])"

definition check_rate_limiting :: "environ \<Rightarrow> startup_check list" where
  "check_rate_limiting env =
     (if getenv env ''RATE_LIMIT_PER_MINUTE'' [] = [] then [failed_check ''rate_limiting'' CsMedium]
      else [passed_check ''rate_limiting''])"

definition valid_levels :: "string list" where
  "valid_levels = [''DEBUG'', ''INFO'', ''WARNING'', ''ERROR'', ''CRITICAL'']"

definition check_logging_config :: "environ \<Rightarrow> startup_check list" where
  "check_logging_config env =
     (if upper (getenv env ''LOG_LEVEL'' ''INFO'') \<notin> set valid_levels then [failed_check ''log_level'' CsLow]
      else [passed_check ''log_level''])"

definition run_all :: "(string \<Rightarrow> bool) \<Rightarrow> environ \<Rightarrow> startup_check list" where
  "run_all file env = check_jwt_secret env @ check_mtls_config file env @ check_encryption_keys env @
     check_environment_variables env @ check_weak_passwords env @ check_debug_mode env @ check_cors_origin env @
     check_rate_limiting env @ check_logging_config env"

definition has_critical_failures :: "startup_check list \<Rightarrow> bool" where
  "has_critical_failures rs \<longleftrightarrow> list_ex (\<lambda>r. \<not> sc_passed r \<and> sc_severity r = CsCritical) rs"

record preflight_summary =
  ps_total :: nat
  ps_passed :: nat
  ps_failed :: nat
  ps_critical :: nat
  ps_high :: nat
  ps_medium :: nat
  ps_low :: nat

definition failures_of :: "check_severity \<Rightarrow> startup_check list \<Rightarrow> nat" where
  "failures_of sev rs = length (filter (\<lambda>r. \<not> sc_passed r \<and> sc_severity r = sev) rs)"

definition preflight_summary_of :: "startup_check list \<Rightarrow> preflight_summary" where
  "preflight_summary_of rs = (let passed = length (filter sc_passed rs) in
     \<lparr>ps_total = length rs, ps_passed = passed, ps_failed = length rs - passed, ps_critical = failures_of CsCritical rs,
      ps_high = failures_of CsHigh rs, ps_medium = failures_of CsMedium rs, ps_low = failures_of CsLow rs\<rparr>)"

definition run_preflight_checks :: "(string \<Rightarrow> bool) \<Rightarrow> environ \<Rightarrow> startup_check list option" where
  \<comment> \<open>\<open>None\<close>: \<open>SystemExit(1)\<close>\<close>
  "run_preflight_checks file env = (let rs = run_all file env in
     if has_critical_failures rs \<and> \<not> flag_env env ''SECURITY_CHECKS_FAIL_OPEN'' then None else Some rs)"

section \<open>Properties\<close>

lemma critical_append [simp]: "has_critical_failures (xs @ ys) \<longleftrightarrow> has_critical_failures xs \<or> has_critical_failures ys"
  by (simp add: has_critical_failures_def)

lemma critical_checks [simp]:
  "has_critical_failures [] \<longleftrightarrow> False"
  "has_critical_failures (failed_check n sev # rs) \<longleftrightarrow> sev = CsCritical \<or> has_critical_failures rs"
  "has_critical_failures (passed_check n # rs) \<longleftrightarrow> has_critical_failures rs"
  by (simp_all add: has_critical_failures_def failed_check_def passed_check_def)

lemma default_secrets_short: "s \<in> set default_secrets \<Longrightarrow> length s < 32"
  by (auto simp: default_secrets_def)

lemma critical_environment:
  "has_critical_failures (check_environment_variables env) \<longleftrightarrow>
     getenv env ''DATABASE_URL'' [] = [] \<or> getenv env ''REDIS_URL'' [] = []"
  by (simp add: check_environment_variables_def required_vars_def)

text \<open>
  start-up is refused exactly when the fail-open flag is not set and the JWT secret has fewer than 32 characters, the
  database or the Redis address is missing, the database address has one of four default credentials, or mTLS is enabled and the
  certificate or the key is missing. The check of well-known secrets never decides, as all of them are shorter; a
  missing encryption key, disabled mTLS or debugging in production do not stop the service.
\<close>

theorem startup_refused_iff:
  "run_preflight_checks file env = None \<longleftrightarrow> \<not> flag_env env ''SECURITY_CHECKS_FAIL_OPEN'' \<and>
     (length (getenv env ''JWT_SECRET'' []) < 32 \<or>
      getenv env ''DATABASE_URL'' [] = [] \<or> getenv env ''REDIS_URL'' [] = [] \<or>
      list_ex (\<lambda>p. substr p (getenv env ''DATABASE_URL'' [])) weak_credentials \<or>
      flag_env env ''MTLS_ENABLED'' \<and>
        list_ex (\<lambda>p. \<not> file p) [getenv env ''MTLS_CERT_PATH'' ''/etc/polarisgate/certs/service.crt'',
          getenv env ''MTLS_KEY_PATH'' ''/etc/polarisgate/certs/service.key''])"
proof -
  have jwt: "has_critical_failures (check_jwt_secret env) \<longleftrightarrow> length (getenv env ''JWT_SECRET'' []) < 32"
    using default_secrets_short by (auto simp: check_jwt_secret_def Let_def)
  have mtls: "has_critical_failures (check_mtls_config file env) \<longleftrightarrow> flag_env env ''MTLS_ENABLED'' \<and>
      list_ex (\<lambda>p. \<not> file p) [getenv env ''MTLS_CERT_PATH'' ''/etc/polarisgate/certs/service.crt'',
        getenv env ''MTLS_KEY_PATH'' ''/etc/polarisgate/certs/service.key'']"
    by (simp add: check_mtls_config_def)
  have weak: "has_critical_failures (check_weak_passwords env) \<longleftrightarrow>
      list_ex (\<lambda>p. substr p (getenv env ''DATABASE_URL'' [])) weak_credentials"
    by (simp add: check_weak_passwords_def Let_def)
  have none: "\<not> has_critical_failures (check_encryption_keys env)" "\<not> has_critical_failures (check_debug_mode env)"
    "\<not> has_critical_failures (check_cors_origin env)" "\<not> has_critical_failures (check_rate_limiting env)"
    "\<not> has_critical_failures (check_logging_config env)"
    by (simp_all add: check_encryption_keys_def check_debug_mode_def check_cors_origin_def check_rate_limiting_def
        check_logging_config_def Let_def)
  show ?thesis
    by (auto simp only: run_preflight_checks_def Let_def run_all_def critical_append jwt mtls weak none critical_environment
        split: if_splits)
qed

text \<open>
  the summary adds up: passed and failed checks are all checks, and the failures of the four severities are the failed ones.
\<close>

theorem summary_adds_up:
  "ps_passed (preflight_summary_of rs) + ps_failed (preflight_summary_of rs) = ps_total (preflight_summary_of rs) \<and>
   ps_critical (preflight_summary_of rs) + ps_high (preflight_summary_of rs) + ps_medium (preflight_summary_of rs) +
     ps_low (preflight_summary_of rs) = ps_failed (preflight_summary_of rs) \<and>
   (has_critical_failures rs \<longleftrightarrow> 0 < ps_critical (preflight_summary_of rs))"
proof -
  have p: "length (filter sc_passed rs) + length (filter (\<lambda>r. \<not> sc_passed r) rs) = length rs"
    by (rule sum_length_filter_compl)
  have f: "failures_of CsCritical rs + failures_of CsHigh rs + failures_of CsMedium rs + failures_of CsLow rs =
      length (filter (\<lambda>r. \<not> sc_passed r) rs)"
    unfolding failures_of_def
  proof (induction rs)
    case (Cons r rs)
    then show ?case by (cases "sc_severity r") auto
  qed simp
  have "has_critical_failures rs \<longleftrightarrow> 0 < failures_of CsCritical rs"
    by (simp add: has_critical_failures_def failures_of_def list_ex_iff length_greater_0_conv filter_empty_conv)
  with p f show ?thesis by (simp add: preflight_summary_of_def Let_def)
qed

end
