(* ===== verification/Compliance_Manager.thy ===== *)
theory Compliance_Manager
  imports Interfaces
begin

text \<open>
  The controls of the compliance frameworks (\<open>services/shared/security/compliance.py\<close>): the table of defaults, status
  updates, scores, gaps, evidence and the reload from the file. Times and the outcome of each write are arguments; the file holds the list
  of frameworks that was written, and a dash stands for the long dash of a description.
\<close>

section \<open>Controls and frameworks\<close>

record compliance_control =
  cc_id :: string
  cc_name :: string
  cc_description :: string
  cc_frameworks :: "string list"
  cc_status :: string
  cc_evidence :: "string option"
  cc_validated :: "string option"

definition control_of :: "string \<Rightarrow> string \<Rightarrow> string \<Rightarrow> string list \<Rightarrow> string \<Rightarrow> compliance_control" where
  "control_of i n d fs st = \<lparr>cc_id = i, cc_name = n, cc_description = d, cc_frameworks = fs, cc_status = st,
     cc_evidence = None, cc_validated = None\<rparr>"

record compliance_framework =
  fw_name :: string
  fw_version :: string
  fw_description :: string
  fw_controls :: "compliance_control list"

definition soc2_framework :: compliance_framework where
  "soc2_framework = \<lparr>fw_name = ''SOC 2 Type II'', fw_version = ''2023'',
     fw_description = ''Service Organization Control 2 - Trust Services Criteria'',
     fw_controls = [
        control_of ''CC6.1'' ''Logical and Physical Access'' ''Controls over logical access'' [''SOC2-CC6.1'', ''FedRAMP-IA-5'', ''HIPAA-164.312(a)(1)''] ''implemented'',
        control_of ''CC6.3'' ''Role-based Access'' ''Role-based access controls'' [''SOC2-CC6.3'', ''FedRAMP-AC-6'', ''ISO27001-A.9.2.3''] ''implemented'',
        control_of ''CC6.7'' ''Encryption at Rest'' ''Data encryption at rest'' [''SOC2-CC6.7'', ''FedRAMP-SC-28'', ''HIPAA-164.312(a)(2)(iv)''] ''implemented'',
        control_of ''CC7.1'' ''Security Monitoring'' ''Continuous security monitoring'' [''SOC2-CC7.1'', ''FedRAMP-SI-4'', ''PCI DSS-10.2''] ''implemented'',
        control_of ''CC7.2'' ''Incident Response'' ''Incident response procedures'' [''SOC2-CC7.2'', ''FedRAMP-IR-4'', ''HIPAA-164.308(a)(6)''] ''partial'',
        control_of ''CC8.1'' ''Change Management'' ''Change management controls'' [''SOC2-CC8.1'', ''FedRAMP-CM-3'', ''ISO27001-A.12.1.2''] ''implemented'']\<rparr>"

definition fedramp_framework :: compliance_framework where
  "fedramp_framework = \<lparr>fw_name = ''FedRAMP Moderate'', fw_version = ''5.0'',
     fw_description = ''Federal Risk and Authorization Management Program - NIST SP 800-53'',
     fw_controls = [
        control_of ''AC-2'' ''Account Management'' ''Account lifecycle management'' [''FedRAMP-AC-2'', ''SOC2-CC6.1''] ''implemented'',
        control_of ''AC-6'' ''Least Privilege'' ''Least privilege principle'' [''FedRAMP-AC-6'', ''SOC2-CC6.3''] ''implemented'',
        control_of ''AU-2'' ''Audit Events'' ''Auditable events definition'' [''FedRAMP-AU-2'', ''SOC2-CC3.1''] ''implemented'',
        control_of ''AU-3'' ''Audit Content'' ''Audit record content'' [''FedRAMP-AU-3'', ''SOC2-CC3.2''] ''implemented'',
        control_of ''AU-6'' ''Audit Review'' ''Audit review and analysis'' [''FedRAMP-AU-6'', ''SOC2-CC3.3''] ''partial'',
        control_of ''SC-13'' ''Cryptography'' ''Cryptographic protections'' [''FedRAMP-SC-13'', ''HIPAA-164.312(a)(2)(iv)''] ''implemented'',
        control_of ''SC-28'' ''Protection at Rest'' ''Protection of information at rest'' [''FedRAMP-SC-28'', ''SOC2-CC6.7''] ''implemented'',
        control_of ''SI-4'' ''System Monitoring'' ''System monitoring'' [''FedRAMP-SI-4'', ''SOC2-CC7.1''] ''implemented'']\<rparr>"

definition hipaa_framework :: compliance_framework where
  "hipaa_framework = \<lparr>fw_name = ''HIPAA Security Rule'', fw_version = ''2023'',
     fw_description = ''Health Insurance Portability and Accountability Act'',
     fw_controls = [
        control_of ''164.308(a)(1)'' ''Security Management'' ''Risk analysis and management'' [''HIPAA-164.308(a)(1)'', ''ISO27001-A.5.1''] ''implemented'',
        control_of ''164.308(a)(4)'' ''Access Control'' ''Access authorization and establishment'' [''HIPAA-164.308(a)(4)'', ''SOC2-CC6.1''] ''implemented'',
        control_of ''164.308(a)(6)'' ''Incident Response'' ''Security incident procedures'' [''HIPAA-164.308(a)(6)'', ''SOC2-CC7.2''] ''partial'',
        control_of ''164.312(a)(1)'' ''Unique User ID'' ''Unique user identification'' [''HIPAA-164.312(a)(1)'', ''FedRAMP-IA-5''] ''implemented'',
        control_of ''164.312(a)(2)(iv)'' ''Encryption'' ''Encryption of ePHI'' [''HIPAA-164.312(a)(2)(iv)'', ''FedRAMP-SC-13''] ''implemented'',
        control_of ''164.312(b)'' ''Audit Controls'' ''Audit control mechanisms'' [''HIPAA-164.312(b)'', ''SOC2-CC3.1''] ''implemented'',
        control_of ''164.312(c)(1)'' ''Integrity Controls'' ''Integrity controls for ePHI'' [''HIPAA-164.312(c)(1)'', ''FedRAMP-SI-7''] ''implemented'',
        control_of ''164.312(d)'' ''Transmission Security'' ''Transmission security'' [''HIPAA-164.312(d)'', ''FedRAMP-SC-8''] ''implemented'']\<rparr>"

definition gdpr_framework :: compliance_framework where
  "gdpr_framework = \<lparr>fw_name = ''GDPR'', fw_version = ''2018'',
     fw_description = ''General Data Protection Regulation'',
     fw_controls = [
        control_of ''Art. 5'' ''Data Processing Principles'' ''Lawful, fair, transparent processing'' [''GDPR-Art.5''] ''implemented'',
        control_of ''Art. 7'' ''Consent'' ''Conditions for consent'' [''GDPR-Art.7''] ''partial'',
        control_of ''Art. 17'' ''Right to Erasure'' ''Right to be forgotten'' [''GDPR-Art.17''] ''partial'',
        control_of ''Art. 20'' ''Data Portability'' ''Right to data portability'' [''GDPR-Art.20''] ''implemented'',
        control_of ''Art. 25'' ''Data Protection by Design'' ''Privacy by design and default'' [''GDPR-Art.25''] ''implemented'',
        control_of ''Art. 32'' ''Security of Processing'' ''Security measures'' [''GDPR-Art.32'', ''SOC2-CC6.1''] ''implemented'',
        control_of ''Art. 33'' ''Breach Notification'' ''Data breach notification'' [''GDPR-Art.33'', ''HIPAA-164.308(a)(6)''] ''partial'',
        control_of ''Art. 35'' ''DPIA'' ''Data Protection Impact Assessment'' [''GDPR-Art.35''] ''planned'']\<rparr>"

definition pci_dss_framework :: compliance_framework where
  "pci_dss_framework = \<lparr>fw_name = ''PCI DSS v4.0'', fw_version = ''4.0'',
     fw_description = ''Payment Card Industry Data Security Standard'',
     fw_controls = [
        control_of ''3.4'' ''Cardholder Data Storage'' ''Render PAN unreadable'' [''PCI-3.4'', ''FedRAMP-SC-28''] ''implemented'',
        control_of ''3.5'' ''Key Management'' ''Protect cryptographic keys'' [''PCI-3.5'', ''ISO27001-A.10.1''] ''implemented'',
        control_of ''4.1'' ''Transmission Security'' ''Encrypt cardholder data in transit'' [''PCI-4.1'', ''FedRAMP-SC-8''] ''implemented'',
        control_of ''6.2'' ''Vulnerability Management'' ''Patch management'' [''PCI-6.2'', ''FedRAMP-SI-2''] ''partial'',
        control_of ''10.2'' ''Audit Trails'' ''Audit trail for system components'' [''PCI-10.2'', ''SOC2-CC3.1''] ''implemented'',
        control_of ''10.5'' ''Audit Trail Protection'' ''Protect audit trails from modification'' [''PCI-10.5'', ''SOC2-CC3.4''] ''implemented'']\<rparr>"

definition eu_ai_act_framework :: compliance_framework where
  "eu_ai_act_framework = \<lparr>fw_name = ''EU AI Act'', fw_version = ''2024'',
     fw_description = ''European Union Artificial Intelligence Act'',
     fw_controls = [
        control_of ''Art. 9'' ''Risk Management'' ''Risk management system'' [''EU-AI-Art.9''] ''implemented'',
        control_of ''Art. 13'' ''Transparency'' ''Transparency and provision of information'' [''EU-AI-Art.13''] ''implemented'',
        control_of ''Art. 14'' ''Human Oversight'' ''Human oversight measures'' [''EU-AI-Art.14''] ''implemented'',
        control_of ''Art. 15'' ''Accuracy'' ''Accuracy, robustness, and cybersecurity'' [''EU-AI-Art.15''] ''implemented'',
        control_of ''Art. 10'' ''Data Governance'' ''Data and data governance'' [''EU-AI-Art.10''] ''partial'',
        control_of ''Art. 12'' ''Documentation'' ''Technical documentation'' [''EU-AI-Art.12''] ''partial'']\<rparr>"

definition default_frameworks :: "(string, compliance_framework) pydict" where
  "default_frameworks = [(''SOC2'', soc2_framework),
     (''FedRAMP'', fedramp_framework),
     (''HIPAA'', hipaa_framework),
     (''GDPR'', gdpr_framework),
     (''PCI_DSS'', pci_dss_framework),
     (''EU_AI_Act'', eu_ai_act_framework)]"

section \<open>The manager\<close>

record compliance_manager =
  cm_frameworks :: "(string, compliance_framework) pydict"
  cm_disk :: "compliance_framework list option" \<comment> \<open>\<open>None\<close>: missing or unreadable\<close>

definition save_frameworks :: "bool \<Rightarrow> compliance_manager \<Rightarrow> compliance_manager" where
  \<comment> \<open>the values of the dictionary; its keys are not written\<close>
  "save_frameworks ok m = (if ok then m\<lparr>cm_disk := Some (map snd (cm_frameworks m))\<rparr> else m)"

definition read_frameworks :: "compliance_framework list option \<Rightarrow> (string, compliance_framework) pydict" where
  "read_frameworks f = (case f of None \<Rightarrow> [] | Some fws \<Rightarrow> foldl (\<lambda>d fw. dict_set (fw_name fw) fw d) [] fws)"

definition load_frameworks :: "bool \<Rightarrow> compliance_framework list option \<Rightarrow> compliance_manager" where
  \<comment> \<open>\<open>__init__\<close>, with the defaults when nothing was loaded\<close>
  "load_frameworks ok f = (let d = read_frameworks f in
     if d = [] then save_frameworks ok \<lparr>cm_frameworks = default_frameworks, cm_disk = f\<rparr>
     else \<lparr>cm_frameworks = d, cm_disk = f\<rparr>)"

definition get_framework :: "string \<Rightarrow> compliance_manager \<Rightarrow> compliance_framework option" where
  "get_framework n m = dict_get (cm_frameworks m) n"

definition all_controls :: "compliance_manager \<Rightarrow> compliance_control list" where
  "all_controls m = concat (map (fw_controls \<circ> snd) (cm_frameworks m))"

definition get_control :: "string \<Rightarrow> compliance_manager \<Rightarrow> compliance_control option" where
  "get_control i m = find (\<lambda>c. cc_id c = i) (all_controls m)"

fun set_control :: "string \<Rightarrow> (compliance_control \<Rightarrow> compliance_control) \<Rightarrow> compliance_control list \<Rightarrow> compliance_control list" where
  "set_control i f [] = []"
| "set_control i f (c # cs) = (if cc_id c = i then f c # cs else c # set_control i f cs)"

fun set_first_control :: "string \<Rightarrow> (compliance_control \<Rightarrow> compliance_control) \<Rightarrow> (string, compliance_framework) pydict \<Rightarrow>
    (string, compliance_framework) pydict" where
  \<comment> \<open>the control that \<open>get_control\<close> returns is changed in place\<close>
  "set_first_control i f [] = []"
| "set_first_control i f ((n, fw) # d) =
     (if list_ex (\<lambda>c. cc_id c = i) (fw_controls fw) then (n, fw\<lparr>fw_controls := set_control i f (fw_controls fw)\<rparr>) # d
      else (n, fw) # set_first_control i f d)"

definition mark_control :: "string \<Rightarrow> string \<Rightarrow> string option \<Rightarrow> compliance_control \<Rightarrow> compliance_control" where
  "mark_control now status evidence c = c\<lparr>cc_status := status, cc_validated := Some now,
     cc_evidence := (case evidence of Some (e # es) \<Rightarrow> Some (e # es) | _ \<Rightarrow> cc_evidence c)\<rparr>"

definition update_control_status ::
  "string \<Rightarrow> bool \<Rightarrow> string \<Rightarrow> string \<Rightarrow> string option \<Rightarrow> compliance_manager \<Rightarrow> compliance_manager" where
  "update_control_status now ok i status evidence m =
     (if get_control i m = None then m
      else save_frameworks ok (m\<lparr>cm_frameworks := set_first_control i (mark_control now status evidence) (cm_frameworks m)\<rparr>))"

definition get_gap_analysis :: "compliance_manager \<Rightarrow> (string, compliance_control list) pydict" where
  "get_gap_analysis m = map (\<lambda>(n, fw). (n, filter (\<lambda>c. cc_status c \<in> {''partial'', ''planned''}) (fw_controls fw))) (cm_frameworks m)"

definition controls_with :: "string \<Rightarrow> compliance_control list \<Rightarrow> nat" where
  "controls_with s cs = length (filter (\<lambda>c. cc_status c = s) cs)"

definition framework_score :: "string \<Rightarrow> compliance_manager \<Rightarrow> pyfloat" where
  "framework_score n m = (case get_framework n m of
     None \<Rightarrow> 0
   | Some fw \<Rightarrow> if fw_controls fw = [] then 0
       else real (controls_with ''implemented'' (fw_controls fw)) / real (length (fw_controls fw)))"

definition get_overall_compliance_score :: "compliance_manager \<Rightarrow> (string, pyfloat) pydict" where
  "get_overall_compliance_score m = map (\<lambda>(n, fw). (n, framework_score n m)) (cm_frameworks m)"

definition collect_evidence :: "string \<Rightarrow> bool \<Rightarrow> bool \<Rightarrow> string \<Rightarrow> string \<Rightarrow> compliance_manager \<Rightarrow> bool \<times> compliance_manager" where
  \<comment> \<open>whether the evidence file and the frameworks file can be written, and the path of the former\<close>
  "collect_evidence now ok1 ok2 path i m =
     (if \<not> ok1 then (False, m) else (True, update_control_status now ok2 i ''implemented'' (Some path) m))"

record framework_report =
  fr_name :: string
  fr_total :: nat
  fr_implemented :: nat
  fr_partial :: nat
  fr_planned :: nat
  fr_not_applicable :: nat
  fr_score :: pyfloat
  fr_controls :: "compliance_control list"
  fr_gaps :: "compliance_control list"

definition generate_framework_report :: "string \<Rightarrow> compliance_manager \<Rightarrow> framework_report option" where
  \<comment> \<open>\<open>None\<close>: the answer that the framework is not found\<close>
  "generate_framework_report n m = map_option (\<lambda>fw. let cs = fw_controls fw in
     \<lparr>fr_name = fw_name fw, fr_total = length cs, fr_implemented = controls_with ''implemented'' cs,
      fr_partial = controls_with ''partial'' cs, fr_planned = controls_with ''planned'' cs,
      fr_not_applicable = controls_with ''not_applicable'' cs, fr_score = framework_score n m, fr_controls = cs,
      fr_gaps = dict_get_or (get_gap_analysis m) n []\<rparr>) (get_framework n m)"

section \<open>Properties\<close>

text \<open>
  a restart loses the names of the frameworks. The file keeps the frameworks under their display names, so that a manager
  started on the file its predecessor wrote knows the same frameworks, but neither \<open>SOC2\<close>, the default of the report, nor
  any of the other short names but \<open>GDPR\<close>: their score drops to 0 and their report to an error.
\<close>

theorem restart_renames_frameworks:
  "map snd (cm_frameworks (load_frameworks ok (cm_disk (load_frameworks True None)))) =
     map snd (cm_frameworks (load_frameworks True None)) \<and>
   generate_framework_report ''SOC2'' (load_frameworks ok (cm_disk (load_frameworks True None))) = None \<and>
   framework_score ''SOC2'' (load_frameworks True None) = 5/6 \<and>
   framework_score ''SOC2'' (load_frameworks ok (cm_disk (load_frameworks True None))) = 0 \<and>
   map fst (cm_frameworks (load_frameworks ok (cm_disk (load_frameworks True None)))) =
     [''SOC 2 Type II'', ''FedRAMP Moderate'', ''HIPAA Security Rule'', ''GDPR'', ''PCI DSS v4.0'', ''EU AI Act'']"
proof -
  have n: "map fw_name (map snd default_frameworks) =
      [''SOC 2 Type II'', ''FedRAMP Moderate'', ''HIPAA Security Rule'', ''GDPR'', ''PCI DSS v4.0'', ''EU AI Act'']"
    by (simp add: default_frameworks_def soc2_framework_def fedramp_framework_def hipaa_framework_def gdpr_framework_def
        pci_dss_framework_def eu_ai_act_framework_def)
  have l: "load_frameworks True None = \<lparr>cm_frameworks = default_frameworks, cm_disk = Some (map snd default_frameworks)\<rparr>"
    by (simp add: load_frameworks_def read_frameworks_def save_frameworks_def)
  have r: "foldl (\<lambda>d fw. dict_set (fw_name fw) fw d) acc fws = acc @ map (\<lambda>fw. (fw_name fw, fw)) fws"
    if "distinct (map fw_name fws)" "set (map fw_name fws) \<inter> fst ` set acc = {}" for acc and fws :: "compliance_framework list"
    using that
  proof (induction fws arbitrary: acc)
    case (Cons fw fws)
    then have "dict_set (fw_name fw) fw acc = acc @ [(fw_name fw, fw)]"
      by (intro dict_set_new) (auto simp: map_of_eq_None_iff)
    moreover have "set (map fw_name fws) \<inter> fst ` set (acc @ [(fw_name fw, fw)]) = {}" using Cons.prems by auto
    ultimately show ?case using Cons.IH [of "acc @ [(fw_name fw, fw)]"] Cons.prems(1) by simp
  qed simp
  have d: "distinct (map fw_name (map snd default_frameworks))" unfolding n by simp
  have "read_frameworks (Some (map snd default_frameworks)) = map (\<lambda>fw. (fw_name fw, fw)) (map snd default_frameworks)"
    using r [OF d, of "[]"] by (simp add: read_frameworks_def)
  moreover have "default_frameworks \<noteq> []" by (simp add: default_frameworks_def)
  ultimately have m: "load_frameworks ok (Some (map snd default_frameworks)) =
      \<lparr>cm_frameworks = map (\<lambda>fw. (fw_name fw, fw)) (map snd default_frameworks), cm_disk = Some (map snd default_frameworks)\<rparr>"
    by (simp add: load_frameworks_def Let_def)
  have k: "map fst (map (\<lambda>fw. (fw_name fw, fw)) (map snd default_frameworks)) = map fw_name (map snd default_frameworks)"
    by simp
  then have g: "get_framework ''SOC2'' (load_frameworks ok (Some (map snd default_frameworks))) = None"
    unfolding m get_framework_def n by (simp add: map_of_eq_None_iff flip: set_map del: map_map)
  have "framework_score ''SOC2'' (load_frameworks True None) = 5/6"
    by (simp add: l framework_score_def get_framework_def default_frameworks_def soc2_framework_def controls_with_def control_of_def)
  moreover have "map snd (map (\<lambda>fw. (fw_name fw, fw)) (map snd default_frameworks)) = map snd default_frameworks"
    by (simp add: comp_def)
  ultimately show ?thesis
    using g k n by (intro conjI) (simp_all only: m l generate_framework_report_def framework_score_def
      compliance_manager.simps option.map option.case)
qed

lemma controls_with_le: "controls_with s cs \<le> length cs"
  by (simp add: controls_with_def)

text \<open>
  the score of a framework lies between 0 and 1 and is 1 exactly when it has controls and all are implemented: a
  control that is not applicable counts against it, although it is no gap.
\<close>

theorem score_complete_iff:
  "framework_score n m \<in> {0..1} \<and>
   (framework_score n m = 1 \<longleftrightarrow>
      (\<exists>fw. get_framework n m = Some fw \<and> fw_controls fw \<noteq> [] \<and> list_all (\<lambda>c. cc_status c = ''implemented'') (fw_controls fw)))"
proof -
  have l: "length cs = length (filter P cs) \<longleftrightarrow> list_all P cs" for P and cs :: "compliance_control list"
    by (metis filter_True length_filter_less list.pred_set nat_neq_iff)
  show ?thesis
    using controls_with_le [of "''implemented''"]
    by (auto simp: framework_score_def field_simps controls_with_def l split: option.splits)
qed

text \<open>
  evidence of any content marks a control as implemented, so that it leaves the gaps of its framework; for
  a control that does not exist the collection reports success as well and changes nothing.
\<close>

theorem evidence_implements:
  "fst (collect_evidence now True ok path i m) \<and>
   (case get_control i m of
      None \<Rightarrow> snd (collect_evidence now True ok path i m) = m
    | Some c \<Rightarrow> get_control i (snd (collect_evidence now True ok path i m)) =
        Some (mark_control now ''implemented'' (Some path) c))"
proof -
  have s: "find (\<lambda>c. cc_id c = i) (set_control i (mark_control now st ev) cs) =
      map_option (mark_control now st ev) (find (\<lambda>c. cc_id c = i) cs)" for st ev cs
    by (induction cs) (auto simp: mark_control_def)
  have "find (\<lambda>c. cc_id c = i) (concat (map (fw_controls \<circ> snd) (set_first_control i (mark_control now st ev) d))) =
      map_option (mark_control now st ev) (find (\<lambda>c. cc_id c = i) (concat (map (fw_controls \<circ> snd) d)))" for st ev d
  proof (induction d)
    case (Cons x d)
    obtain n fw where x: "x = (n, fw)" by (cases x)
    have ap: "find P (xs @ ys) = (case find P xs of None \<Rightarrow> find P ys | Some z \<Rightarrow> Some z)" for P and xs ys :: "compliance_control list"
      by (induction xs) auto
    have ex: "list_ex (\<lambda>c. cc_id c = i) (fw_controls fw) \<longleftrightarrow> find (\<lambda>c. cc_id c = i) (fw_controls fw) \<noteq> None"
      by (auto simp: find_None_iff list_ex_iff)
    from Cons show ?case by (auto simp: x ap s ex split: option.split)
  qed simp
  then show ?thesis
    by (auto simp: collect_evidence_def update_control_status_def get_control_def all_controls_def save_frameworks_def
        split: option.split)
qed

end
