(* ===== verification/Chat_Routes.thy ===== *)
theory Chat_Routes
  imports Providers Safety_Pipeline Gateway_Limits Auth_Roles
begin

text \<open>
  The chat endpoints of the gateway: the store of conversations (\<open>services/gateway/app/chat_store.py\<close>),
  the chat and the proxy endpoints with their streaming variants (\<open>routers/chat.py\<close>,
  \<open>routers/proxy.py\<close>), the pipeline that resolves an adapter and runs the checks
  (\<open>safety/pipeline_service.py\<close>) and the middleware that sets the team
  (\<open>services/shared/tenant_context.py\<close>). The tables are lists of rows; fresh ids, times and whether a
  statement reaches the database are arguments; the HTTP exchange with a vendor is a parameter.
\<close>

section \<open>Conversations (chat\_store.py)\<close>

record conversation =
  cv_id :: string
  cv_user :: string
  cv_title :: string
  cv_provider :: string
  cv_model :: string
  cv_created :: pyfloat
  cv_updated :: pyfloat

record stored_message =
  sm_id :: string
  sm_conv :: string
  sm_role :: string
  sm_content :: string
  sm_safety :: json_dict
  sm_at :: pyfloat

record chat_db =
  ct_convs :: "conversation list"
  ct_msgs :: "stored_message list"

definition owns :: "chat_db \<Rightarrow> string \<Rightarrow> string \<Rightarrow> bool" where
  "owns db i user \<longleftrightarrow> list_ex (\<lambda>c. cv_id c = i \<and> cv_user c = user) (ct_convs db)"

definition create_conversation ::
  "string \<Rightarrow> pyfloat \<Rightarrow> string \<Rightarrow> string \<Rightarrow> string \<Rightarrow> string \<Rightarrow> chat_db \<Rightarrow> py_error + conversation \<times> chat_db" where
  \<comment> \<open>the id is drawn at random; an id in use violates the primary key\<close>
  "create_conversation i now user title provider model db =
     (let c = \<lparr>cv_id = i, cv_user = user, cv_title = title, cv_provider = provider, cv_model = model,
                cv_created = now, cv_updated = now\<rparr>
      in if list_ex (\<lambda>d. cv_id d = i) (ct_convs db) then Inl KeyError
         else Inr (c, db\<lparr>ct_convs := ct_convs db @ [c]\<rparr>))"

definition get_conversation :: "(string \<Rightarrow> string option) \<Rightarrow> string \<Rightarrow> string \<Rightarrow> chat_db \<Rightarrow> py_error + conversation option" where
  \<comment> \<open>the first argument is the constructor \<open>uuid.UUID\<close>\<close>
  "get_conversation uuid cid user db = (case uuid cid of
     None \<Rightarrow> Inl ValueError
   | Some i \<Rightarrow> Inr (find (\<lambda>c. cv_id c = i \<and> cv_user c = user) (ct_convs db)))"

definition list_conversations :: "string \<Rightarrow> nat \<Rightarrow> chat_db \<Rightarrow> conversation list" where
  "list_conversations user limit db = take limit (rev (sort_key cv_updated (filter (\<lambda>c. cv_user c = user) (ct_convs db))))"

definition delete_conversation :: "(string \<Rightarrow> string option) \<Rightarrow> string \<Rightarrow> string \<Rightarrow> chat_db \<Rightarrow> py_error + bool \<times> chat_db" where
  \<comment> \<open>the messages are deleted with their conversation\<close>
  "delete_conversation uuid cid user db = (case uuid cid of
     None \<Rightarrow> Inl ValueError
   | Some i \<Rightarrow> Inr (if owns db i user
       then (True, \<lparr>ct_convs = filter (\<lambda>c. \<not> (cv_id c = i \<and> cv_user c = user)) (ct_convs db),
                    ct_msgs = filter (\<lambda>m. sm_conv m \<noteq> i) (ct_msgs db)\<rparr>)
       else (False, db)))"

definition update_conversation_title ::
  "(string \<Rightarrow> string option) \<Rightarrow> pyfloat \<Rightarrow> string \<Rightarrow> string \<Rightarrow> string \<Rightarrow> chat_db \<Rightarrow> py_error + bool \<times> chat_db" where
  "update_conversation_title uuid now cid user title db = (case uuid cid of
     None \<Rightarrow> Inl ValueError
   | Some i \<Rightarrow> Inr (owns db i user, db\<lparr>ct_convs := map (\<lambda>c. if cv_id c = i \<and> cv_user c = user
       then c\<lparr>cv_title := title, cv_updated := now\<rparr> else c) (ct_convs db)\<rparr>))"

definition add_message ::
  "(string \<Rightarrow> string option) \<Rightarrow> string \<Rightarrow> pyfloat \<Rightarrow> string \<Rightarrow> string \<Rightarrow> string \<Rightarrow> string \<Rightarrow> json_dict \<Rightarrow> chat_db \<Rightarrow>
   py_error + chat_db" where
  \<comment> \<open>id of the message, time, conversation, user, role, content, flags; a role outside the check of the table is refused by the database\<close>
  "add_message uuid mid now cid user role content safety db = (case uuid cid of
     None \<Rightarrow> Inl ValueError
   | Some i \<Rightarrow>
       if \<not> owns db i user then Inl ValueError
       else if role \<notin> {''user'', ''assistant'', ''error''} then Inl ValueError
       else Inr \<lparr>ct_convs = map (\<lambda>c. if cv_id c = i then c\<lparr>cv_updated := now\<rparr> else c) (ct_convs db),
                  ct_msgs = ct_msgs db @ [\<lparr>sm_id = mid, sm_conv = i, sm_role = role, sm_content = content,
                    sm_safety = safety, sm_at = now\<rparr>]\<rparr>)"

definition messages_of :: "string \<Rightarrow> chat_db \<Rightarrow> stored_message list" where
  "messages_of i db = sort_key sm_at (filter (\<lambda>m. sm_conv m = i) (ct_msgs db))"

definition get_history :: "(string \<Rightarrow> string option) \<Rightarrow> nat \<Rightarrow> string \<Rightarrow> string \<Rightarrow> chat_db \<Rightarrow> py_error + stored_message list" where
  "get_history uuid limit cid user db = (case uuid cid of
     None \<Rightarrow> Inl ValueError
   | Some i \<Rightarrow> Inr (if owns db i user then take limit (messages_of i db) else []))"

section \<open>Who is asking\<close>

definition user_dict :: "auth_user \<Rightarrow> claims" where
  \<comment> \<open>the dictionary that \<open>get_current_user\<close> returns\<close>
  "user_dict u = [(''email'', aw_email u), (''role'', Text (case aw_role u of None \<Rightarrow> [] | Some r \<Rightarrow> r)),
     (''name'', aw_name u), (''permissions'', aw_permissions u)]"

definition caller_of :: "auth_user option \<Rightarrow> caller" where
  "caller_of u = (case u of None \<Rightarrow> Anonymous | Some v \<Rightarrow> Caller (map_option claim_text (dict_get (user_dict v) ''sub'')))"

definition user_id :: "auth_user option \<Rightarrow> string" where
  \<comment> \<open>\<open>(current_user or {}).get("sub", "system")\<close>\<close>
  "user_id u = (case u of None \<Rightarrow> ''system''
     | Some v \<Rightarrow> (case dict_get (user_dict v) ''sub'' of None \<Rightarrow> ''system'' | Some c \<Rightarrow> claim_text c))"

definition tenant_context :: "string \<Rightarrow> string \<times> string" where
  \<comment> \<open>team and user from the \<open>Authorization\<close> header; the import of \<open>decode_token\<close>, which
     \<open>shared.security.auth\<close> does not define, raises, and the exception is caught\<close>
  "tenant_context header =
     (let state = (''default'', ''anonymous'') in if startswith header ''Bearer '' then state else state)"

section \<open>One completion (safety/pipeline\_service.py)\<close>

record gateway =
  gw_conv :: text_conv
  gw_env :: provider_env
  gw_urls :: api_urls
  gw_registry :: registry
  gw_checks :: gateway_env
  gw_post :: "wire_request option \<Rightarrow> provider_req \<Rightarrow> py_error + provider_response" \<comment> \<open>the exchange with the vendor; the mock adapter answers the request itself\<close>
  gw_lines :: "wire_request \<Rightarrow> py_error + string list"
  gw_mock :: "string \<Rightarrow> string list" \<comment> \<open>the words of the mock adapter's answer\<close>
  gw_loads :: "string \<Rightarrow> jvalue option"
  gw_uuid :: "string \<Rightarrow> string option"

definition provider_call :: "gateway \<Rightarrow> adapter \<Rightarrow> provider_req \<Rightarrow> py_error + provider_response" where
  "provider_call gw a q = bind_sum (wire_of (gw_conv gw) (gw_env gw) (gw_urls gw) False a q) (\<lambda>w. gw_post gw w q)"

definition chat_request_of :: "gateway \<Rightarrow> provider_req \<Rightarrow> chat_request" where
  "chat_request_of gw q = \<lparr>cq_prompt = pq_prompt q, cq_model = str_of (gw_conv gw) (pq_model q),
     cq_api_key = str_of (gw_conv gw) (pq_key q)\<rparr>"

definition run_full_pipeline ::
  "gateway \<Rightarrow> string \<Rightarrow> json_dict \<Rightarrow> auth_user option \<Rightarrow> string option \<Rightarrow> string option \<Rightarrow>
   (py_error + chat_response) \<times> effect list" where
  \<comment> \<open>provider, body, user, key of the request, team\<close>
  "run_full_pipeline gw provider body user key team = (case get_provider (gw_registry gw) provider of
     Inl e \<Rightarrow> (Inl e, [])
   | Inr a \<Rightarrow> (case normalize_request (gw_conv gw) (gw_env gw) a body of
       Inl e \<Rightarrow> (Inl e, [])
     | Inr q \<Rightarrow> run_chat ((gw_checks gw)\<lparr>ge_chat := \<lambda>r. provider_call gw a (q\<lparr>pq_key := SText (cq_api_key r)\<rparr>)\<rparr>)
         provider (chat_request_of gw q) key (caller_of user) team))"

definition key_of :: "gateway \<Rightarrow> jvalue \<Rightarrow> string option" where
  "key_of gw v = (if json_truthy v then Some (str_of (gw_conv gw) v) else None)"

definition value_error_to_400 :: "(py_error + 'a) \<Rightarrow> py_error + 'a" where
  \<comment> \<open>the text of the exception is left out\<close>
  "value_error_to_400 r = (case r of Inl ValueError \<Rightarrow> Inl (HTTPException 400 []) | _ \<Rightarrow> r)"

section \<open>The chat endpoint (routers/chat.py)\<close>

fun named_text :: "jvalue \<Rightarrow> py_error + string" where
  \<comment> \<open>a value on which text methods are called\<close>
  "named_text (SText s) = Inr s"
| "named_text _ = Inl AttributeError"

definition model_text :: "jvalue \<Rightarrow> py_error + string" where
  "model_text v = (if json_truthy v then named_text v else Inr [])"

definition trim_json :: "gateway \<Rightarrow> jvalue list \<Rightarrow> string \<Rightarrow> jvalue \<Rightarrow> py_error + jvalue list" where
  \<comment> \<open>\<open>trim_history\<close> on dictionaries: what is kept depends on the contents as texts only\<close>
  "trim_json gw msgs provider model =
     (if msgs = [] then Inr []
      else bind_sum (model_text model) (\<lambda>mdl.
        bind_sum (map_sum_list (\<lambda>m. bind_sum (json_get m ''content'' (SText []))
          (\<lambda>c. Inr \<lparr>ms_role = [], ms_content = str_of (gw_conv gw) c\<rparr>)) msgs)
        (\<lambda>ms. Inr (take_last (length (trim_history ms provider mdl 0.3)) msgs))))"

definition history_messages :: "stored_message list \<Rightarrow> jvalue list" where
  "history_messages h = map (\<lambda>m. chat_message (sm_role m, sm_content m))
     (filter (\<lambda>m. sm_role m \<in> {''user'', ''assistant''}) h)"

definition user_message :: "jvalue \<Rightarrow> jvalue" where
  "user_message v = SObj [(''role'', SText ''user''), (''content'', v)]"

definition stateful_messages ::
  "gateway \<Rightarrow> chat_db \<Rightarrow> string \<Rightarrow> string \<Rightarrow> jvalue \<Rightarrow> jvalue \<Rightarrow> jvalue \<Rightarrow> json_dict \<Rightarrow> py_error + json_dict" where
  \<comment> \<open>user, provider, model, conversation, message, body: the body with the loaded and trimmed history\<close>
  "stateful_messages gw db user provider model conv msg body =
     bind_sum (named_text conv) (\<lambda>cid. bind_sum (get_history (gw_uuid gw) 100 cid user db) (\<lambda>h.
     bind_sum (if json_truthy msg then Inr [user_message msg]
               else case dict_get body ''messages'' of None \<Rightarrow> Inr [] | Some v \<Rightarrow> items_of v) (\<lambda>more_msgs.
     bind_sum (trim_json gw (history_messages h @ more_msgs) provider model) (\<lambda>msgs.
       Inr (dict_set ''messages'' (SArr msgs) body)))))"

definition pop_fields :: "string list \<Rightarrow> json_dict \<Rightarrow> json_dict" where
  "pop_fields ks body = foldl (\<lambda>b k. dict_del k b) body ks"

record turn_io =
  ti_conv :: string \<comment> \<open>the random ids and the times of the three statements\<close>
  ti_ids :: "string \<times> string"
  ti_times :: "pyfloat \<times> pyfloat \<times> pyfloat"
  ti_ok :: "bool \<times> bool \<times> bool" \<comment> \<open>whether each reaches the database\<close>

definition flags_of :: "guard_check \<Rightarrow> json_dict" where
  "flags_of g = [(''toxic'', SBool (gk_toxic g)), (''pii_detected'', SBool (gk_pii g))]"

definition guarded_add :: "bool \<Rightarrow> (chat_db \<Rightarrow> py_error + chat_db) \<Rightarrow> bool \<times> chat_db \<Rightarrow> bool \<times> chat_db" where
  \<comment> \<open>the next statement of a \<open>try\<close> block: the first failure skips the rest\<close>
  "guarded_add ok f s = (if \<not> fst s then s
     else if \<not> ok then (False, snd s) else case f (snd s) of Inl e \<Rightarrow> (False, snd s) | Inr db \<Rightarrow> (True, db))"

definition save_messages ::
  "gateway \<Rightarrow> turn_io \<Rightarrow> string \<Rightarrow> string \<Rightarrow> bool \<Rightarrow> string \<Rightarrow> chat_response \<Rightarrow> chat_db \<Rightarrow> chat_db" where
  \<comment> \<open>conversation, user, whether the user's message is saved, its text\<close>
  "save_messages gw io cid user with_msg msg r db =
     (let add = add_message (gw_uuid gw); (tc, tu, ta) = ti_times io; (oc, ou, oa) = ti_ok io in
      snd (guarded_add oa (add (snd (ti_ids io)) ta cid user ''assistant'' (cp_text r) (flags_of (ss_output (cp_safety r))))
        (if with_msg then guarded_add ou (add (fst (ti_ids io)) tu cid user ''user'' msg (flags_of (ss_input (cp_safety r)))) (True, db)
         else (True, db))))"

definition title_of :: "string \<Rightarrow> string" where
  "title_of t = take 60 t @ (if 60 < length t then ''...'' else [])"

fun db_text :: "jvalue \<Rightarrow> py_error + string" where
  \<comment> \<open>a column of type \<open>TEXT\<close>; \<open>NULL\<close> is read back as the empty text\<close>
  "db_text (SText s) = Inr s"
| "db_text SNull = Inr []"
| "db_text _ = Inl TypeError"

definition new_conversation ::
  "gateway \<Rightarrow> turn_io \<Rightarrow> string \<Rightarrow> string \<Rightarrow> jvalue \<Rightarrow> jvalue \<Rightarrow> chat_response \<Rightarrow> chat_db \<Rightarrow> string option \<times> chat_db" where
  \<comment> \<open>user, provider, model, message\<close>
  "new_conversation gw io user provider model msg r db =
     (case db_text model of
        Inl e \<Rightarrow> (None, db)
      | Inr mdl \<Rightarrow>
        if \<not> fst (ti_ok io) then (None, db)
        else case create_conversation (ti_conv io) (fst (ti_times io)) user
            (title_of (case msg of SText t \<Rightarrow> t | _ \<Rightarrow> [])) provider mdl db of
          Inl e \<Rightarrow> (None, db)
        | Inr (c, db1) \<Rightarrow> (Some (cv_id c), save_messages gw io (cv_id c) user True (str_of (gw_conv gw) msg) r db1))"

definition save_turn ::
  "gateway \<Rightarrow> turn_io \<Rightarrow> string \<Rightarrow> string \<Rightarrow> jvalue \<Rightarrow> jvalue \<Rightarrow> jvalue \<Rightarrow> chat_response \<Rightarrow> chat_db \<Rightarrow> jvalue \<times> chat_db" where
  \<comment> \<open>the conversation id of the answer and the tables afterwards\<close>
  "save_turn gw io user provider model conv msg r db =
     (if conv = SNull \<and> msg \<noteq> SNull
      then (case new_conversation gw io user provider model msg r db of (c, db1) \<Rightarrow> (case c of None \<Rightarrow> SNull | Some i \<Rightarrow> SText i, db1))
      else if json_truthy conv then (conv, case conv of
          SText cid \<Rightarrow> save_messages gw io cid user (json_truthy msg) (str_of (gw_conv gw) msg) r db | _ \<Rightarrow> db)
      else (conv, db))"

definition quoted :: "string \<Rightarrow> string" where
  "quoted s = CHR 0x27 # s @ [CHR 0x27]"

definition chat_body ::
  "gateway \<Rightarrow> chat_db \<Rightarrow> string \<Rightarrow> string \<Rightarrow> json_dict \<Rightarrow> py_error + json_dict" where
  \<comment> \<open>the body that is passed on: user, provider, body of the request\<close>
  "chat_body gw db user provider body =
     (let conv = dict_get_or body ''conversation_id'' SNull; msg = dict_get_or body ''message'' SNull;
          rest = pop_fields [''provider'', ''conversation_id'', ''message'', ''api_key''] body in
      if json_truthy conv then stateful_messages gw db user provider (dict_get_or body ''model'' (SText [])) conv msg rest
      else if dict_get rest ''messages'' \<noteq> None then Inr rest
      else if json_truthy msg then Inr (dict_set ''messages'' (SArr [user_message msg]) rest)
      else Inl (HTTPException 400 (''Either '' @ quoted ''messages'' @ '' or '' @ quoted ''conversation_id'' @ '' is required'')))"

definition chat_completions ::
  "gateway \<Rightarrow> turn_io \<Rightarrow> string \<Rightarrow> auth_user option \<Rightarrow> json_dict \<Rightarrow> chat_db \<Rightarrow>
   (py_error + chat_response \<times> jvalue) \<times> effect list \<times> chat_db" where
  \<comment> \<open>the second argument is the \<open>Authorization\<close> header\<close>
  "chat_completions gw io header user body db =
     (let provider = dict_get_or body ''provider'' SNull; fail = (\<lambda>e. (Inl e, [], db)) in
      if \<not> json_truthy provider then fail (HTTPException 400 (''Missing required field: '' @ quoted ''provider''))
      else case named_text provider of Inl e \<Rightarrow> fail e
      | Inr name \<Rightarrow> (case chat_body gw db (user_id user) name body of Inl e \<Rightarrow> fail e
        | Inr b \<Rightarrow>
          (let (out, es) = run_full_pipeline gw name b user (key_of gw (dict_get_or body ''api_key'' SNull))
                 (Some (fst (tenant_context header))) in
           case value_error_to_400 out of
             Inl e \<Rightarrow> (Inl e, es, db)
           | Inr r \<Rightarrow> (case save_turn gw io (user_id user) name (dict_get_or body ''model'' (SText []))
                 (dict_get_or body ''conversation_id'' SNull) (dict_get_or body ''message'' SNull) r db of
               (conv, db1) \<Rightarrow> (Inr (r, conv), es, db1)))))"

section \<open>Streaming\<close>

datatype sse_event = ContentEvent string | ErrorEvent | SafetyEvent guard_check | DoneEvent

definition stream_pieces :: "gateway \<Rightarrow> adapter \<Rightarrow> provider_req \<Rightarrow> jvalue list \<times> py_error option" where
  \<comment> \<open>\<open>provider.chat_stream\<close>\<close>
  "stream_pieces gw a q = (case wire_of (gw_conv gw) (gw_env gw) (gw_urls gw) True a q of
     Inl e \<Rightarrow> ([], Some e)
   | Inr None \<Rightarrow> (map SText (gw_mock gw (pq_prompt q)), None)
   | Inr (Some w) \<Rightarrow> (case gw_lines gw w of Inl e \<Rightarrow> ([], Some e) | Inr ls \<Rightarrow> adapter_stream a (gw_loads gw) ls))"

fun relay :: "string \<Rightarrow> jvalue list \<Rightarrow> py_error option \<Rightarrow> sse_event list \<times> string option" where
  \<comment> \<open>the loop over the pieces: the events sent and, unless an exception ended it, the whole text\<close>
  "relay acc [] e = (case e of None \<Rightarrow> ([], Some acc) | Some _ \<Rightarrow> ([ErrorEvent], None))"
| "relay acc (SText t # vs) e = map_prod (\<lambda>es. ContentEvent t # es) id (relay (acc @ t) vs e)"
| "relay acc (v # vs) e = ([ErrorEvent], None)"

definition stream_checks :: "gateway \<Rightarrow> string \<Rightarrow> py_error + guard_check" where
  "stream_checks gw t = run_input_guardrails (ge_safety (gw_checks gw)) (ge_words (gw_checks gw)) (ge_canary (gw_checks gw)) t"

definition opened_stream ::
  "gateway \<Rightarrow> string \<Rightarrow> json_dict \<Rightarrow> string option \<Rightarrow> py_error + adapter \<times> provider_req" where
  \<comment> \<open>from the choice of the adapter to the refusal of a blocked prompt\<close>
  "opened_stream gw provider body key =
     bind_sum (get_provider (gw_registry gw) provider) (\<lambda>a.
     bind_sum (normalize_request (gw_conv gw) (gw_env gw) a body) (\<lambda>q0.
     let q = (case key of Some k \<Rightarrow> q0\<lparr>pq_key := SText k\<rparr> | None \<Rightarrow> q0) in
     bind_sum (stream_checks gw (pq_prompt q)) (\<lambda>g.
       if gk_blocklisted g \<or> gk_injection g then Inl (HTTPException 403 ''Input blocked by safety policy.'')
       else Inr (a, q))))"

record stream_end =
  se_events :: "sse_event list"
  se_effects :: "effect list"
  se_db :: chat_db
  se_error :: "py_error option" \<comment> \<open>an exception that leaves the generator\<close>

definition save_stream :: "gateway \<Rightarrow> turn_io \<Rightarrow> string \<Rightarrow> jvalue \<Rightarrow> jvalue \<Rightarrow> string \<Rightarrow> chat_db \<Rightarrow> chat_db" where
  \<comment> \<open>every exception is swallowed\<close>
  "save_stream gw io user conv msg full db =
     (let add = add_message (gw_uuid gw); (tc, tu, ta) = ti_times io; (oc, ou, oa) = ti_ok io in
      case conv of
        SText (ch # s) \<Rightarrow>
          snd (guarded_add oa (add (snd (ti_ids io)) ta (ch # s) user ''assistant'' full [])
            (if json_truthy msg then (case msg of
                SText t \<Rightarrow> guarded_add ou (add (fst (ti_ids io)) tu (ch # s) user ''user'' t []) (True, db)
              | _ \<Rightarrow> (False, db))
             else (True, db)))
      | _ \<Rightarrow> db)"

definition generate_events ::
  "gateway \<Rightarrow> string \<Rightarrow> auth_user option \<Rightarrow> (string \<Rightarrow> chat_db \<Rightarrow> chat_db) \<Rightarrow> adapter \<Rightarrow> provider_req \<Rightarrow> chat_db \<Rightarrow> stream_end" where
  \<comment> \<open>\<open>event_generator\<close>: action for the audit log, user, what is saved\<close>
  "generate_events gw action user save a q db =
     (let (vs, err) = stream_pieces gw a q; (es, full) = relay [] vs err in
      case full of
        None \<Rightarrow> \<lparr>se_events = es, se_effects = [], se_db = db, se_error = None\<rparr>
      | Some t \<Rightarrow> (case stream_checks gw t of
          Inl e \<Rightarrow> \<lparr>se_events = es, se_effects = [], se_db = db, se_error = Some e\<rparr>
        | Inr g \<Rightarrow> (case user of
            None \<Rightarrow> \<lparr>se_events = es @ [SafetyEvent g], se_effects = [], se_db = save t db, se_error = Some AttributeError\<rparr>
          | Some u \<Rightarrow> \<lparr>se_events = es @ [SafetyEvent g, DoneEvent], se_effects = [Audit action ''''], se_db = save t db, se_error = None\<rparr>)))"

definition stream_body :: "gateway \<Rightarrow> chat_db \<Rightarrow> string \<Rightarrow> string \<Rightarrow> json_dict \<Rightarrow> py_error + json_dict" where
  "stream_body gw db user provider body =
     (let conv = dict_get_or body ''conversation_id'' SNull; msg = dict_get_or body ''message'' SNull;
          rest = pop_fields [''provider'', ''api_key'', ''conversation_id'', ''message''] body in
      if json_truthy conv \<and> json_truthy msg
      then stateful_messages gw db user provider (dict_get_or body ''model'' (SText [])) conv msg rest
      else if json_truthy msg \<and> dict_get rest ''messages'' = None then Inr (dict_set ''messages'' (SArr [user_message msg]) rest)
      else Inr rest)"

definition chat_completions_stream ::
  "gateway \<Rightarrow> turn_io \<Rightarrow> auth_user option \<Rightarrow> json_dict \<Rightarrow> chat_db \<Rightarrow> py_error + stream_end" where
  "chat_completions_stream gw io user body db =
     (let provider = dict_get_or body ''provider'' SNull; uid = user_id user in
      if \<not> json_truthy provider then Inl (HTTPException 400 (''Missing required field: '' @ quoted ''provider''))
      else bind_sum (named_text provider) (\<lambda>name. bind_sum (stream_body gw db uid name body) (\<lambda>b.
        bind_sum (opened_stream gw name b (key_of gw (dict_get_or body ''api_key'' SNull))) (\<lambda>(a, q).
          Inr (generate_events gw ''chat_stream_completed'' user
            (save_stream gw io uid (dict_get_or body ''conversation_id'' SNull) (dict_get_or body ''message'' SNull)) a q db)))))"

definition proxy_completions ::
  "gateway \<Rightarrow> string \<Rightarrow> auth_user option \<Rightarrow> json_dict \<Rightarrow> (py_error + chat_response \<times> string) \<times> effect list" where
  "proxy_completions gw header user body =
     (let model = dict_get_or body ''model'' (SText []) in
      if \<not> json_truthy model then (Inl (HTTPException 400 (''Missing required field: '' @ quoted ''model'')), [])
      else case named_text model of Inl e \<Rightarrow> (Inl e, [])
      | Inr m \<Rightarrow>
          (let (out, es) = run_full_pipeline gw (detect_provider m) (pop_fields [''api_key''] body) user
                 (key_of gw (dict_get_or body ''api_key'' SNull)) (Some (fst (tenant_context header)))
           in (map_sum id (\<lambda>r. (r, detect_provider m)) (value_error_to_400 out), es)))"

definition proxy_completions_stream :: "gateway \<Rightarrow> auth_user option \<Rightarrow> json_dict \<Rightarrow> chat_db \<Rightarrow> py_error + stream_end" where
  "proxy_completions_stream gw user body db =
     (let model = dict_get_or body ''model'' (SText []) in
      if \<not> json_truthy model then Inl (HTTPException 400 (''Missing required field: '' @ quoted ''model''))
      else bind_sum (named_text model) (\<lambda>m.
        bind_sum (opened_stream gw (detect_provider m) (pop_fields [''api_key''] body) (key_of gw (dict_get_or body ''api_key'' SNull)))
          (\<lambda>(a, q). Inr (generate_events gw ''proxy_stream_completed'' user (\<lambda>_ d. d) a q db))))"

section \<open>The conversation endpoints\<close>

definition list_user_conversations :: "auth_user option \<Rightarrow> chat_db \<Rightarrow> py_error + conversation list" where
  \<comment> \<open>without a user \<open>current_user.get\<close> raises\<close>
  "list_user_conversations user db = (if user = None then Inl AttributeError else Inr (list_conversations (user_id user) 50 db))"

definition get_user_conversation ::
  "gateway \<Rightarrow> auth_user option \<Rightarrow> string \<Rightarrow> chat_db \<Rightarrow> py_error + conversation \<times> stored_message list" where
  "get_user_conversation gw user cid db =
     (if user = None then Inl AttributeError
      else bind_sum (get_conversation (gw_uuid gw) cid (user_id user) db) (\<lambda>c. case c of
        None \<Rightarrow> Inl (HTTPException 404 ''Conversation not found'')
      | Some c \<Rightarrow> bind_sum (get_history (gw_uuid gw) 100 cid (user_id user) db) (\<lambda>h. Inr (c, h))))"

definition delete_user_conversation :: "gateway \<Rightarrow> auth_user option \<Rightarrow> string \<Rightarrow> chat_db \<Rightarrow> (py_error + string) \<times> chat_db" where
  "delete_user_conversation gw user cid db =
     (if user = None then (Inl AttributeError, db)
      else case delete_conversation (gw_uuid gw) cid (user_id user) db of
        Inl e \<Rightarrow> (Inl e, db)
      | Inr (deleted, db1) \<Rightarrow> (if deleted then Inr cid else Inl (HTTPException 404 ''Conversation not found''), db1))"

section \<open>Uploads\<close>

definition upload_extensions :: "string list" where
  "upload_extensions = [''txt'', ''md'', ''json'', ''csv'', ''py'', ''js'', ''ts'', ''html'', ''css'', ''yaml'', ''yml'', ''xml'',
     ''log'', ''sh'', ''sql'', ''env'', ''cfg'', ''ini'']"

definition extension_of :: "string \<Rightarrow> string" where
  "extension_of f = (if CHR ''.'' \<in> set f then lower (rev (takeWhile (\<lambda>ch. ch \<noteq> CHR ''.'') (rev f))) else [])"

record upload_result =
  ul_name :: string
  ul_size :: nat
  ul_content :: string
  ul_truncated :: bool

definition upload_chat_file :: "string \<Rightarrow> (string \<times> nat \<times> string) option \<Rightarrow> py_error + upload_result" where
  \<comment> \<open>content type; name, size in bytes and decoded text of the file\<close>
  "upload_chat_file content_type file =
     (if \<not> substr ''multipart/form-data'' content_type then Inl (HTTPException 400 ''Expected multipart/form-data'')
      else case file of
        None \<Rightarrow> Inl (HTTPException 400 (''No file provided. Use field name '' @ quoted ''file'' @ ''.''))
      | Some (name, bytes, content) \<Rightarrow>
          if extension_of name \<notin> set upload_extensions
          then Inl (HTTPException 400 (''Unsupported file type: .'' @ extension_of name))
          else if 10000000 < bytes then Inl (HTTPException 400 ''File too large (max 10 MB)'')
          else Inr \<lparr>ul_name = name, ul_size = bytes, ul_content = content, ul_truncated = 100000 < length content\<rparr>)"

section \<open>Separation of users in the store\<close>

datatype store_op =
    CreateOp string pyfloat string string string string \<comment> \<open>id, time, user, title, provider, model\<close>
  | AddOp string pyfloat string string string string \<comment> \<open>id, time, conversation, user, role, content\<close>
  | DeleteOp string string \<comment> \<open>conversation, user\<close>
  | RenameOp pyfloat string string string \<comment> \<open>time, conversation, user, title\<close>

fun op_user :: "store_op \<Rightarrow> string" where
  "op_user (CreateOp i now u t p m) = u"
| "op_user (AddOp mid now cid u role content) = u"
| "op_user (DeleteOp cid u) = u"
| "op_user (RenameOp now cid u t) = u"

fun store_step :: "(string \<Rightarrow> string option) \<Rightarrow> chat_db \<Rightarrow> store_op \<Rightarrow> chat_db" where
  "store_step uuid db (CreateOp i now u t p m) = (case create_conversation i now u t p m db of Inl _ \<Rightarrow> db | Inr (_, db') \<Rightarrow> db')"
| "store_step uuid db (AddOp mid now cid u role content) =
     (case add_message uuid mid now cid u role content [] db of Inl _ \<Rightarrow> db | Inr db' \<Rightarrow> db')"
| "store_step uuid db (DeleteOp cid u) = (case delete_conversation uuid cid u db of Inl _ \<Rightarrow> db | Inr (_, db') \<Rightarrow> db')"
| "store_step uuid db (RenameOp now cid u t) =
     (case update_conversation_title uuid now cid u t db of Inl _ \<Rightarrow> db | Inr (_, db') \<Rightarrow> db')"

definition ids_unique :: "chat_db \<Rightarrow> bool" where
  "ids_unique db \<longleftrightarrow> distinct (map cv_id (ct_convs db))"

definition visible :: "string \<Rightarrow> chat_db \<Rightarrow> conversation list \<times> stored_message list" where
  \<comment> \<open>what the functions of the store read for a user\<close>
  "visible v db = (filter (\<lambda>c. cv_user c = v) (ct_convs db), filter (\<lambda>m. owns db (sm_conv m) v) (ct_msgs db))"

lemma owns_filter: "owns db i v \<longleftrightarrow> list_ex (\<lambda>c. cv_id c = i) (filter (\<lambda>c. cv_user c = v) (ct_convs db))"
  by (auto simp: owns_def list_ex_iff)

lemma owns_visible: "owns db i v \<longleftrightarrow> list_ex (\<lambda>c. cv_id c = i) (fst (visible v db))"
  by (simp add: visible_def owns_filter)

lemma history_visible:
  "get_history uuid n cid v db = (case uuid cid of None \<Rightarrow> Inl ValueError
     | Some i \<Rightarrow> Inr (if list_ex (\<lambda>c. cv_id c = i) (fst (visible v db))
         then take n (sort_key sm_at (filter (\<lambda>m. sm_conv m = i) (snd (visible v db)))) else []))"
proof (cases "uuid cid")
  case (Some i)
  have "filter (\<lambda>m. sm_conv m = i) (ct_msgs db) = filter (\<lambda>m. sm_conv m = i) (snd (visible v db))" if "owns db i v"
    using that by (auto simp: visible_def intro!: filter_cong)
  then show ?thesis by (simp add: get_history_def Some messages_of_def owns_visible [symmetric])
qed (simp add: get_history_def)

lemma find_filter: "find (\<lambda>c. P c \<and> Q c) xs = find P (filter Q xs)"
  by (induction xs) auto

lemma conversation_visible:
  "get_conversation uuid cid v db = (case uuid cid of None \<Rightarrow> Inl ValueError
     | Some i \<Rightarrow> Inr (find (\<lambda>c. cv_id c = i) (fst (visible v db))))"
  by (simp add: get_conversation_def find_filter visible_def split: option.split)

lemma list_visible: "list_conversations v n db = take n (rev (sort_key cv_updated (fst (visible v db))))"
  by (simp add: list_conversations_def visible_def)

lemma same_id: "ids_unique db \<Longrightarrow> c \<in> set (ct_convs db) \<Longrightarrow> d \<in> set (ct_convs db) \<Longrightarrow> cv_id c = cv_id d \<Longrightarrow> c = d"
  by (auto simp: ids_unique_def distinct_map dest: inj_onD)

lemma one_owner: "ids_unique db \<Longrightarrow> owns db i u \<Longrightarrow> owns db i v \<Longrightarrow> u = v"
  by (auto simp: owns_def list_ex_iff dest: same_id)

lemma filter_map_other:
  "(\<And>c. c \<in> set cs \<Longrightarrow> P c \<Longrightarrow> f c = c) \<Longrightarrow> (\<And>c. c \<in> set cs \<Longrightarrow> P (f c) \<longleftrightarrow> P c) \<Longrightarrow> filter P (map f cs) = filter P cs"
  by (induction cs) auto

lemma visibleI:
  assumes "filter (\<lambda>c. cv_user c = v) (ct_convs db') = filter (\<lambda>c. cv_user c = v) (ct_convs db)"
    and "filter (\<lambda>m. owns db (sm_conv m) v) (ct_msgs db') = filter (\<lambda>m. owns db (sm_conv m) v) (ct_msgs db)"
  shows "visible v db' = visible v db"
proof -
  have "owns db' i v \<longleftrightarrow> owns db i v" for i
    by (simp only: owns_filter assms(1))
  with assms show ?thesis by (simp add: visible_def)
qed

interpretation unique_ids: run_invariant "store_step uuid" "\<lambda>_ _. True" ids_unique for uuid
proof unfold_locales
  fix db op assume u: "ids_unique db"
  have "map cv_id (map (\<lambda>c. if P c then f c else c) cs) = map cv_id cs" if "\<And>c. cv_id (f c) = cv_id c" for P f cs
    using that by (induction cs) auto
  note same = this
  show "ids_unique (store_step uuid db op)"
  proof (cases op)
    case (CreateOp i now us t p m)
    with u show ?thesis by (auto simp: create_conversation_def ids_unique_def Let_def list_ex_iff)
  next
    case (AddOp mid now cid us role content)
    with u show ?thesis by (auto simp: add_message_def ids_unique_def same comp_def split: option.splits simp del: map_map)
  next
    case (DeleteOp cid us)
    with u show ?thesis by (auto simp: delete_conversation_def ids_unique_def distinct_map inj_on_def split: option.splits)
  next
    case (RenameOp now cid us t)
    with u show ?thesis by (auto simp: update_conversation_title_def ids_unique_def same split: option.splits simp del: map_map)
  qed
qed

lemma step_respects:
  assumes "ids_unique db" "op_user op \<noteq> v"
  shows "visible v (store_step uuid db op) = visible v db"
proof (cases op)
  case (CreateOp i now u t p m)
  with assms(2) show ?thesis by (auto intro!: visibleI simp: create_conversation_def Let_def)
next
  case (AddOp mid now cid u role content)
  show ?thesis
  proof (cases "\<exists>i. uuid cid = Some i \<and> owns db i u")
    case True
    then obtain i where i: "uuid cid = Some i" "owns db i u" by blast
    have no: "\<not> owns db i v" using one_owner [OF assms(1) i(2)] assms(2) AddOp by auto
    then have "filter (\<lambda>c. cv_user c = v) (map (\<lambda>c. if cv_id c = i then c\<lparr>cv_updated := now\<rparr> else c) (ct_convs db)) =
        filter (\<lambda>c. cv_user c = v) (ct_convs db)"
      by (intro filter_map_other) (auto simp: owns_def list_ex_iff)
    with no i AddOp show ?thesis by (auto intro!: visibleI simp: add_message_def)
  qed (use AddOp in \<open>auto simp: add_message_def split: option.splits\<close>)
next
  case (DeleteOp cid u)
  show ?thesis
  proof (cases "\<exists>i. uuid cid = Some i \<and> owns db i u")
    case True
    then obtain i where i: "uuid cid = Some i" "owns db i u" by blast
    have no: "\<not> owns db i v" using one_owner [OF assms(1) i(2)] assms(2) DeleteOp by auto
    have "filter (\<lambda>c. cv_user c = v) (filter (\<lambda>c. \<not> (cv_id c = i \<and> cv_user c = u)) (ct_convs db)) =
        filter (\<lambda>c. cv_user c = v) (ct_convs db)"
      "filter (\<lambda>m. owns db (sm_conv m) v) (filter (\<lambda>m. sm_conv m \<noteq> i) (ct_msgs db)) = filter (\<lambda>m. owns db (sm_conv m) v) (ct_msgs db)"
      using assms(2) DeleteOp no by (auto simp: intro!: filter_cong)
    then show ?thesis using i DeleteOp by (intro visibleI) (simp_all add: delete_conversation_def)
  qed (use DeleteOp in \<open>auto simp: delete_conversation_def split: option.splits\<close>)
next
  case (RenameOp now cid u t)
  have "filter (\<lambda>c. cv_user c = v) (map (\<lambda>c. if cv_id c = i \<and> cv_user c = u then c\<lparr>cv_title := t, cv_updated := now\<rparr> else c) (ct_convs db)) =
      filter (\<lambda>c. cv_user c = v) (ct_convs db)" for i
    using assms(2) RenameOp by (intro filter_map_other) auto
  then show ?thesis using RenameOp by (auto intro!: visibleI simp: update_conversation_title_def split: option.splits)
qed

text \<open>
  C20: The store separates users: whatever operations other users perform, the conversations of a user,
  their messages and their order stay as they are.
\<close>
theorem store_separates_users:
  assumes "ids_unique db" "\<And>op. op \<in> set ops \<Longrightarrow> op_user op \<noteq> v"
  shows "get_history uuid n cid v (foldl (store_step uuid) db ops) = get_history uuid n cid v db \<and>
    get_conversation uuid cid v (foldl (store_step uuid) db ops) = get_conversation uuid cid v db \<and>
    list_conversations v n (foldl (store_step uuid) db ops) = list_conversations v n db"
proof -
  have same: "visible v (foldl (store_step uuid) db ops) = visible v db"
    using assms
  proof (induction ops arbitrary: db)
    case (Cons op ops)
    have "ids_unique (store_step uuid db op)" by (rule unique_ids.step_inv [OF Cons.prems(1)]) simp
    with Cons show ?case by (simp add: step_respects)
  qed simp
  show ?thesis unfolding history_visible conversation_visible list_visible same by simp
qed

lemma store_separates_users_witness:
  "list_conversations ''v'' 50 (foldl (store_step Some) \<lparr>ct_convs = [], ct_msgs = []\<rparr> [CreateOp ''1'' 0 ''u'' ''t'' ''p'' ''m'', DeleteOp ''1'' ''u'']) =
     []"
proof -
  let ?ops = "[CreateOp ''1'' 0 ''u'' ''t'' ''p'' ''m'', DeleteOp ''1'' ''u'']"
  have "ids_unique \<lparr>ct_convs = [], ct_msgs = []\<rparr>" by (simp add: ids_unique_def)
  moreover have "op_user op \<noteq> ''v''" if "op \<in> set ?ops" for op using that by auto
  ultimately have "list_conversations ''v'' 50 (foldl (store_step Some) \<lparr>ct_convs = [], ct_msgs = []\<rparr> ?ops) =
      list_conversations ''v'' 50 \<lparr>ct_convs = [], ct_msgs = []\<rparr>"
    using store_separates_users by blast
  then show ?thesis by (simp only:) (simp add: list_conversations_def)
qed

section \<open>Sharing at the endpoints\<close>

lemma user_id_system: "user_id u = ''system''"
  by (simp add: user_id_def user_dict_def split: option.split)

lemma caller_without_sub: "caller_of (Some u) = Caller None"
  by (simp add: caller_of_def user_dict_def)

section \<open>Long conversations\<close>

lemma insort_key_snoc: "f x \<le> f y \<Longrightarrow> insort_key f x (ys @ [y]) = insort_key f x ys @ [y]"
  by (induction ys) auto

lemma sort_key_snoc: "(\<And>x. x \<in> set xs \<Longrightarrow> f x \<le> f y) \<Longrightarrow> sort_key f (xs @ [y]) = sort_key f xs @ [y]"
  by (induction xs) (simp_all add: insort_key_snoc)

lemma messages_of_add:
  assumes "add_message uuid mid now cid user role content safety db = Inr db'" "uuid cid = Some i"
    and "\<And>m. m \<in> set (ct_msgs db) \<Longrightarrow> sm_conv m = i \<Longrightarrow> sm_at m \<le> now"
  shows "messages_of i db' = messages_of i db @ [\<lparr>sm_id = mid, sm_conv = i, sm_role = role, sm_content = content,
      sm_safety = safety, sm_at = now\<rparr>] \<and> (\<forall>u j. owns db' j u = owns db j u) \<and> owns db i user"
proof -
  have "owns db i user" and db': "ct_msgs db' = ct_msgs db @ [\<lparr>sm_id = mid, sm_conv = i, sm_role = role, sm_content = content,
      sm_safety = safety, sm_at = now\<rparr>]"
    and c: "ct_convs db' = map (\<lambda>c. if cv_id c = i then c\<lparr>cv_updated := now\<rparr> else c) (ct_convs db)"
    using assms(1,2) by (auto simp: add_message_def split: if_splits)
  moreover from db' have "messages_of i db' = messages_of i db @ [\<lparr>sm_id = mid, sm_conv = i, sm_role = role,
      sm_content = content, sm_safety = safety, sm_at = now\<rparr>]"
    unfolding messages_of_def using assms(3) by (subst sort_key_snoc [symmetric]) auto
  moreover have "owns db' j u = owns db j u" for u j
    unfolding owns_def c list_ex_iff set_map ball_simps bex_simps by (rule bex_cong) auto
  ultimately show ?thesis by simp
qed

text \<open>
  A conversation of a hundred messages has reached its end for the model: the history is cut after the
  oldest hundred messages, so that a message added later is never read again.
\<close>
theorem history_frozen:
  assumes "add_message uuid mid now cid user role content safety db = Inr db'" "uuid cid = Some i"
    and "\<And>m. m \<in> set (ct_msgs db) \<Longrightarrow> sm_conv m = i \<Longrightarrow> sm_at m \<le> now"
    and "100 \<le> length (messages_of i db)"
  shows "get_history uuid 100 cid user db' = get_history uuid 100 cid user db"
  using messages_of_add [OF assms(1-3)] assms(2,4) by (simp add: get_history_def)

definition long_db :: chat_db where
  "long_db = \<lparr>ct_convs = [\<lparr>cv_id = ''c'', cv_user = ''system'', cv_title = [], cv_provider = [], cv_model = [], cv_created = 0, cv_updated = 0\<rparr>],
     ct_msgs = replicate 100 \<lparr>sm_id = ''m'', sm_conv = ''c'', sm_role = ''user'', sm_content = ''x'', sm_safety = [], sm_at = 0\<rparr>\<rparr>"

lemma history_frozen_witness:
  "\<exists>db'. add_message Some ''n'' 1 ''c'' ''system'' ''user'' ''new'' [] long_db = Inr db' \<and>
     get_history Some 100 ''c'' ''system'' db' = get_history Some 100 ''c'' ''system'' long_db"
proof -
  obtain db' where a: "add_message Some ''n'' 1 ''c'' ''system'' ''user'' ''new'' [] long_db = Inr db'"
    by (simp add: add_message_def long_db_def owns_def)
  have "length (messages_of ''c'' long_db) = 100" by (simp add: messages_of_def long_db_def)
  with history_frozen [OF a, of "''c''"] a show ?thesis by (auto simp: long_db_def)
qed

section \<open>A turn of a conversation\<close>

definition exchange :: "turn_io \<Rightarrow> string \<Rightarrow> string \<Rightarrow> chat_response \<Rightarrow> stored_message list" where
  "exchange io i t r = [\<lparr>sm_id = fst (ti_ids io), sm_conv = i, sm_role = ''user'', sm_content = t,
       sm_safety = flags_of (ss_input (cp_safety r)), sm_at = fst (snd (ti_times io))\<rparr>,
     \<lparr>sm_id = snd (ti_ids io), sm_conv = i, sm_role = ''assistant'', sm_content = cp_text r,
       sm_safety = flags_of (ss_output (cp_safety r)), sm_at = snd (snd (ti_times io))\<rparr>]"

lemma add_ok: "uuid cid = Some i \<Longrightarrow> owns db i user \<Longrightarrow> role \<in> {''user'', ''assistant'', ''error''} \<Longrightarrow>
    \<exists>db'. add_message uuid mid now cid user role content safety db = Inr db'"
  by (simp add: add_message_def)

lemma add_messages_set:
  "add_message uuid mid now cid user role content safety db = Inr db' \<Longrightarrow> uuid cid = Some i \<Longrightarrow>
    set (ct_msgs db') = insert \<lparr>sm_id = mid, sm_conv = i, sm_role = role, sm_content = content, sm_safety = safety, sm_at = now\<rparr> (set (ct_msgs db))"
  by (auto simp: add_message_def split: if_splits)

lemma save_messages_history:
  assumes "gw_uuid gw cid = Some i" "owns db i user" "ti_ok io = (True, True, True)"
    and "\<And>m. m \<in> set (ct_msgs db) \<Longrightarrow> sm_conv m = i \<Longrightarrow> sm_at m \<le> fst (snd (ti_times io))"
    and "fst (snd (ti_times io)) \<le> snd (snd (ti_times io))"
  shows "messages_of i (save_messages gw io cid user True t r db) = messages_of i db @ exchange io i t r"
proof -
  obtain tc tu ta where times: "ti_times io = (tc, tu, ta)" by (cases "ti_times io")
  obtain db1 where a: "add_message (gw_uuid gw) (fst (ti_ids io)) tu cid user ''user'' t (flags_of (ss_input (cp_safety r))) db = Inr db1"
    using add_ok [of "gw_uuid gw" cid i db user "''user''"] assms(1,2) by blast
  note m1 = messages_of_add [OF a assms(1)]
  have o1: "owns db1 i user" and h1: "messages_of i db1 = messages_of i db @ [hd (exchange io i t r)]"
    using m1 assms(2,4) times by (simp_all add: exchange_def)
  obtain db2 where b: "add_message (gw_uuid gw) (snd (ti_ids io)) ta cid user ''assistant'' (cp_text r) (flags_of (ss_output (cp_safety r))) db1 = Inr db2"
    using add_ok [of "gw_uuid gw" cid i db1 user "''assistant''"] assms(1) o1 by blast
  have "sm_at m \<le> ta" if "m \<in> set (ct_msgs db1)" "sm_conv m = i" for m
  proof -
    from that(1) add_messages_set [OF a assms(1)] have "m \<in> set (ct_msgs db) \<or> sm_at m = tu" by auto
    with assms(4) [of m] that(2) assms(5) times show ?thesis by auto
  qed
  with messages_of_add [OF b assms(1)] have "messages_of i db2 = messages_of i db1 @ [hd (tl (exchange io i t r))]"
    using times by (simp add: exchange_def)
  moreover have "save_messages gw io cid user True t r db = db2"
    using a b assms(3) times by (simp add: save_messages_def guarded_add_def)
  ultimately show ?thesis using h1 by (simp add: exchange_def)
qed

text \<open>
  C23: A turn is remembered. When a message in a known conversation is answered and the database works, the
  conversation afterwards holds the earlier messages, then the message and then the answer as it was delivered, with
  the flags of their checks; other conversations keep their messages.
\<close>
theorem turn_recorded:
  assumes "chat_completions gw io header user body db = (Inr (r, conv), es, db')"
    and "dict_get body ''conversation_id'' = Some (SText cid)" "cid \<noteq> []" "dict_get body ''message'' = Some (SText t)" "t \<noteq> []"
    and "gw_uuid gw cid = Some i" "owns db i ''system''" "ti_ok io = (True, True, True)"
    and "\<And>m. m \<in> set (ct_msgs db) \<Longrightarrow> sm_conv m = i \<Longrightarrow> sm_at m \<le> fst (snd (ti_times io))"
    and "fst (snd (ti_times io)) \<le> snd (snd (ti_times io))"
  shows "messages_of i db' = messages_of i db @ exchange io i t r \<and> conv = SText cid"
proof -
  have "db' = save_messages gw io cid ''system'' True t r db \<and> conv = SText cid"
    using assms(1-5) by (auto simp: chat_completions_def Let_def dict_get_or_def user_id_system save_turn_def split: sum.splits if_splits prod.splits)
  then show ?thesis using save_messages_history [OF assms(6-10)] by simp
qed

definition demo_gateway :: gateway where
  "demo_gateway = \<lparr>gw_conv = plain_conv, gw_env = no_keys, gw_urls = default_urls, gw_registry = initial_registry,
     gw_checks = sample_env False, gw_post = (\<lambda>w q. Inr \<lparr>rs_text = ''hi'', rs_input_tokens = 1, rs_output_tokens = 1\<rparr>),
     gw_lines = (\<lambda>w. Inr []), gw_mock = (\<lambda>p. [''hi '', ''you'']), gw_loads = (\<lambda>d. None), gw_uuid = Some\<rparr>"

lemma demo_provider: "get_provider initial_registry ''mock'' = Inr MockAdapter"
  by (simp add: get_provider_def canonical_name_def strip_def lower_def lower_char_def is_space_def initial_registry_def)

lemma demo_mock:
  "\<exists>q. mock_normalize plain_conv [(''messages'', SArr (map chat_message ms))] = Inr q \<and> pq_prompt q = last_user_text ms"
proof -
  obtain s where "system_of plain_conv (map chat_message ms) = Inr s" using system_of_chat by blast
  then show ?thesis by (simp add: mock_normalize_def dict_get_or_def last_user_chat numbers_of_def)
qed

lemma demo_run:
  "\<exists>r es. run_full_pipeline demo_gateway ''mock'' [(''messages'', SArr (map chat_message ms))] user None (Some ''default'') = (Inr r, es)"
proof -
  obtain q where q: "mock_normalize plain_conv [(''messages'', SArr (map chat_message ms))] = Inr q"
    using demo_mock by blast
  obtain inp where i: "checks (sample_env False) (pq_prompt q) = Inr inp" "\<not> gk_injection inp" "\<not> gk_blocklisted inp"
    using sample_check by blast
  obtain out where o: "checks (sample_env False) ''hi'' = Inr out" using sample_check by blast
  have c: "run_input_guardrails (ge_safety (sample_env False)) [] (\<lambda>t. Inr None) t = checks (sample_env False) t" for t
    by (simp add: sample_env_def)
  show ?thesis using i o
    by (simp add: run_full_pipeline_def demo_gateway_def demo_provider normalize_request_def q run_chat_def chat_request_of_def
        team_for_def check_quota_def finish_chat_def Let_def provider_call_def wire_of_def sample_env_def)
qed

lemma turn_recorded_witness:
  "\<exists>r es db'. chat_completions demo_gateway \<lparr>ti_conv = [], ti_ids = (''1'', ''2''), ti_times = (0, 1, 2), ti_ok = (True, True, True)\<rparr> [] None
      [(''provider'', SText ''mock''), (''conversation_id'', SText ''c''), (''message'', SText ''hello'')]
      (long_db\<lparr>ct_msgs := []\<rparr>) = (Inr (r, SText ''c''), es, db') \<and>
    map sm_content (messages_of ''c'' db') = [''hello'', cp_text r]"
proof -
  let ?db = "long_db\<lparr>ct_msgs := []\<rparr>"
  let ?io = "\<lparr>ti_conv = [], ti_ids = (''1'', ''2''), ti_times = (0, 1, 2), ti_ok = (True, True, True)\<rparr> :: turn_io"
  let ?body = "[(''provider'', SText ''mock''), (''conversation_id'', SText ''c''), (''message'', SText ''hello'')]"
  have o: "owns ?db ''c'' ''system''" by (simp add: owns_def long_db_def)
  have b: "chat_body demo_gateway ?db ''system'' ''mock'' ?body = Inr [(''messages'', SArr (map chat_message [(''user'', ''hello'')]))]"
    using o by (simp add: chat_body_def Let_def dict_get_or_def pop_fields_def stateful_messages_def demo_gateway_def get_history_def
        messages_of_def trim_json_def long_db_def history_messages_def user_message_def chat_message_def model_text_def
        map_sum_list_def trim_history_def)
  obtain r es where run: "run_full_pipeline demo_gateway ''mock'' [(''messages'', SArr (map chat_message [(''user'', ''hello'')]))] None None
      (Some ''default'') = (Inr r, es)"
    using demo_run by blast
  obtain conv db' where sv: "save_turn demo_gateway ?io ''system'' ''mock'' (SText []) (SText ''c'') (SText ''hello'') r ?db = (conv, db')"
    by (cases "save_turn demo_gateway ?io ''system'' ''mock'' (SText []) (SText ''c'') (SText ''hello'') r ?db")
  then have t: "chat_completions demo_gateway ?io [] None ?body ?db = (Inr (r, conv), es, db')"
    using b run by (simp add: chat_completions_def Let_def dict_get_or_def user_id_system key_of_def tenant_context_def value_error_to_400_def)
  have "messages_of ''c'' db' = messages_of ''c'' ?db @ exchange ?io ''c'' ''hello'' r \<and> conv = SText ''c''"
    by (rule turn_recorded [OF t _ _ _ _ _ o]) (simp_all add: demo_gateway_def)
  with t show ?thesis by (auto simp: exchange_def messages_of_def)
qed

text \<open>
  What the endpoints make of the separation in the store: the dictionary of the current user has no
  field \<open>sub\<close>, so that every request works on the conversations of the user \<open>system\<close>.
\<close>

lemma save_messages_convs:
  assumes "gw_uuid gw cid = Some i" "owns db i user" "ti_ok io = (True, True, True)"
  shows "ct_convs (save_messages gw io cid user True t r db) =
    map (\<lambda>c. if cv_id c = i then c\<lparr>cv_updated := snd (snd (ti_times io))\<rparr> else c) (ct_convs db)"
proof -
  obtain tc tu ta where times: "ti_times io = (tc, tu, ta)" by (cases "ti_times io")
  obtain db1 where a: "add_message (gw_uuid gw) (fst (ti_ids io)) tu cid user ''user'' t (flags_of (ss_input (cp_safety r))) db = Inr db1"
    using add_ok [of "gw_uuid gw" cid i db user "''user''"] assms(1,2) by blast
  then have c1: "ct_convs db1 = map (\<lambda>c. if cv_id c = i then c\<lparr>cv_updated := tu\<rparr> else c) (ct_convs db)"
    using assms(1) by (auto simp: add_message_def split: if_splits)
  then have "owns db1 i user" using assms(2) unfolding owns_def c1 list_ex_iff set_map ball_simps bex_simps by (auto cong: bex_cong)
  then obtain db2 where b: "add_message (gw_uuid gw) (snd (ti_ids io)) ta cid user ''assistant'' (cp_text r) (flags_of (ss_output (cp_safety r))) db1 = Inr db2"
    using add_ok [of "gw_uuid gw" cid i db1 user "''assistant''"] assms(1) by blast
  then have "ct_convs db2 = map (\<lambda>c. if cv_id c = i then c\<lparr>cv_updated := ta\<rparr> else c) (ct_convs db1)"
    using assms(1) by (auto simp: add_message_def split: if_splits)
  moreover have "save_messages gw io cid user True t r db = db2"
    using a b assms(3) times by (simp add: save_messages_def guarded_add_def)
  ultimately show ?thesis using times by (simp add: c1)
qed

lemma started_conversation:
  assumes "chat_completions gw io header user body db = (Inr (r, SText i), es, db')"
    and "dict_get body ''conversation_id'' = None" "dict_get body ''message'' = Some (SText t)" "ti_ok io = (True, True, True)"
  shows "\<exists>c. cv_id c = i \<and> cv_user c = ''system'' \<and> (\<forall>d \<in> set (ct_convs db). cv_id d \<noteq> i) \<and>
    db' = save_messages gw io i ''system'' True t r (db\<lparr>ct_convs := ct_convs db @ [c]\<rparr>)"
proof -
  obtain name where "save_turn gw io ''system'' name (dict_get_or body ''model'' (SText [])) SNull (SText t) r db = (SText i, db')"
    using assms(1-3) by (auto simp: chat_completions_def Let_def dict_get_or_def user_id_system split: sum.splits if_splits prod.splits)
  with assms(4) show ?thesis
    by (auto simp: save_turn_def new_conversation_def create_conversation_def list_ex_iff Let_def split: sum.splits if_splits option.splits prod.splits)
qed

text \<open>
  C21: The endpoints undo the separation of users. A conversation that any caller starts, with or
  without credentials, is the first in the list of every authenticated caller \<open>w\<close>; \<open>w\<close> reads the
  message and the answer in it and can delete it, after which nobody finds it any more. (The
  database works, the random id is new, and no conversation was updated later.)
\<close>
theorem conversations_are_shared:
  assumes "chat_completions gw io header user body db = (Inr (r, SText i), es, db')"
    and "dict_get body ''conversation_id'' = None" "dict_get body ''message'' = Some (SText t)"
    and "gw_uuid gw i = Some i" "ti_ok io = (True, True, True)" "\<forall>m \<in> set (ct_msgs db). sm_conv m \<noteq> i"
    and "\<forall>c \<in> set (ct_convs db). cv_updated c \<le> snd (snd (ti_times io))" "fst (snd (ti_times io)) \<le> snd (snd (ti_times io))"
  shows "\<exists>c cs. cv_id c = i \<and> list_user_conversations (Some w) db' = Inr (c # cs) \<and>
    get_user_conversation gw (Some w) i db' = Inr (c, exchange io i t r) \<and>
    fst (delete_user_conversation gw (Some w) i db') = Inr i \<and>
    get_user_conversation gw (Some v) i (snd (delete_user_conversation gw (Some w) i db')) =
      Inl (HTTPException 404 ''Conversation not found'')"
proof -
  let ?ta = "snd (snd (ti_times io))"
  obtain c where c: "cv_id c = i" "cv_user c = ''system''" "\<forall>d \<in> set (ct_convs db). cv_id d \<noteq> i"
    and db': "db' = save_messages gw io i ''system'' True t r (db\<lparr>ct_convs := ct_convs db @ [c]\<rparr>)"
    using started_conversation [OF assms(1-3,5)] by blast
  have o: "owns (db\<lparr>ct_convs := ct_convs db @ [c]\<rparr>) i ''system''" using c(1,2) by (simp add: owns_def)
  have "messages_of i (db\<lparr>ct_convs := ct_convs db @ [c]\<rparr>) = []"
    using assms(6) by (auto simp: messages_of_def filter_empty_conv)
  then have m: "messages_of i db' = exchange io i t r"
    unfolding db' using save_messages_history [OF assms(4) o assms(5) _ assms(8)] assms(6) by simp
  let ?c = "c\<lparr>cv_updated := ?ta\<rparr>"
  have convs: "ct_convs db' = ct_convs db @ [?c]"
    unfolding db' save_messages_convs [OF assms(4) o assms(5)] using c(1,3) by (auto intro: map_idI)
  have owner: "owns db' i ''system''" using c(1,2) by (simp add: owns_def convs)
  have "sort_key cv_updated (filter (\<lambda>d. cv_user d = ''system'') (ct_convs db) @ [?c]) =
      sort_key cv_updated (filter (\<lambda>d. cv_user d = ''system'') (ct_convs db)) @ [?c]"
    using assms(7) by (intro sort_key_snoc) simp
  then have l: "list_user_conversations (Some w) db' =
      Inr (?c # take 49 (rev (sort_key cv_updated (filter (\<lambda>d. cv_user d = ''system'') (ct_convs db)))))"
    using c(2) by (simp add: list_user_conversations_def list_conversations_def user_id_system convs)
  have none: "find (\<lambda>d. cv_id d = i \<and> cv_user d = ''system'') (ct_convs db) = None" using c(3) by (auto simp: find_None_iff)
  have "find (\<lambda>d. cv_id d = i \<and> cv_user d = ''system'') xs = None \<Longrightarrow>
      find (\<lambda>d. cv_id d = i \<and> cv_user d = ''system'') (xs @ [?c]) = Some ?c" for xs
    using c(1,2) by (induction xs) (auto split: if_splits)
  note this [OF none]
  then have g: "get_user_conversation gw (Some w) i db' = Inr (?c, exchange io i t r)"
    using owner m assms(4)
    by (simp add: get_user_conversation_def get_conversation_def get_history_def user_id_system convs exchange_def)
  have d: "delete_user_conversation gw (Some w) i db' = (Inr i, \<lparr>ct_convs = filter (\<lambda>c. \<not> (cv_id c = i \<and> cv_user c = ''system'')) (ct_convs db'),
      ct_msgs = filter (\<lambda>m. sm_conv m \<noteq> i) (ct_msgs db')\<rparr>)"
    using owner assms(4) by (simp add: delete_user_conversation_def delete_conversation_def user_id_system)
  have "find (\<lambda>c. cv_id c = i \<and> cv_user c = ''system'') (filter (\<lambda>c. \<not> (cv_id c = i \<and> cv_user c = ''system'')) xs) = None" for xs :: "conversation list"
    by (auto simp: find_None_iff)
  then have "get_user_conversation gw (Some v) i (snd (delete_user_conversation gw (Some w) i db')) = Inl (HTTPException 404 ''Conversation not found'')"
    using assms(4) by (simp add: d get_user_conversation_def get_conversation_def user_id_system)
  with l g d c(1) show ?thesis by auto
qed

lemma conversations_are_shared_witness:
  "\<exists>r es db' c. chat_completions demo_gateway \<lparr>ti_conv = ''c'', ti_ids = (''1'', ''2''), ti_times = (0, 1, 2), ti_ok = (True, True, True)\<rparr> [] None
      [(''provider'', SText ''mock''), (''message'', SText ''hello'')] \<lparr>ct_convs = [], ct_msgs = []\<rparr> = (Inr (r, SText ''c''), es, db') \<and>
    get_user_conversation demo_gateway (Some \<lparr>aw_email = Text ''e'', aw_role = None, aw_name = Text [], aw_permissions = Texts []\<rparr>) ''c'' db' =
      Inr (c, exchange \<lparr>ti_conv = ''c'', ti_ids = (''1'', ''2''), ti_times = (0, 1, 2), ti_ok = (True, True, True)\<rparr> ''c'' ''hello'' r)"
proof -
  let ?io = "\<lparr>ti_conv = ''c'', ti_ids = (''1'', ''2''), ti_times = (0, 1, 2), ti_ok = (True, True, True)\<rparr> :: turn_io"
  let ?body = "[(''provider'', SText ''mock''), (''message'', SText ''hello'')]"
  let ?db = "\<lparr>ct_convs = [], ct_msgs = []\<rparr> :: chat_db"
  have b: "chat_body demo_gateway ?db ''system'' ''mock'' ?body = Inr [(''messages'', SArr (map chat_message [(''user'', ''hello'')]))]"
    by (simp add: chat_body_def Let_def dict_get_or_def pop_fields_def user_message_def chat_message_def)
  obtain r es where run: "run_full_pipeline demo_gateway ''mock'' [(''messages'', SArr (map chat_message [(''user'', ''hello'')]))] None None
      (Some ''default'') = (Inr r, es)"
    using demo_run by blast
  obtain db' where sv: "save_turn demo_gateway ?io ''system'' ''mock'' (SText []) SNull (SText ''hello'') r ?db = (SText ''c'', db')"
    by (simp add: save_turn_def new_conversation_def create_conversation_def Let_def)
  then have t: "chat_completions demo_gateway ?io [] None ?body ?db = (Inr (r, SText ''c''), es, db')"
    using b run by (simp add: chat_completions_def Let_def dict_get_or_def user_id_system key_of_def tenant_context_def value_error_to_400_def)
  from conversations_are_shared [OF t] obtain c where
    "get_user_conversation demo_gateway (Some \<lparr>aw_email = Text ''e'', aw_role = None, aw_name = Text [], aw_permissions = Texts []\<rparr>) ''c'' db' =
      Inr (c, exchange ?io ''c'' ''hello'' r)"
    by (fastforce simp: demo_gateway_def)
  with t show ?thesis by blast
qed

section \<open>Anonymous callers\<close>

definition without_usage :: "effect list \<Rightarrow> effect list" where
  "without_usage es = filter (\<lambda>e. case e of RecordUsage _ _ _ _ \<Rightarrow> False | _ \<Rightarrow> True) es"

text \<open>
  C22: Credentials are not required. Every completion that a caller with a valid token gets, a caller without one
  gets as well, for the team \<open>default\<close> that all requests share: the same answer, with the same changes of the store;
  only the tokens used are not counted.
\<close>
theorem anonymous_served:
  assumes "chat_completions gw io header (Some u) body db = (Inr r, es, db')"
  shows "\<exists>es'. chat_completions gw io header' None body db = (Inr r, es', db') \<and> without_usage es' = without_usage es"
proof -
  let ?p = "dict_get_or body ''provider'' SNull"
  obtain name where n: "json_truthy ?p" "?p = SText name"
    using assms by (cases ?p) (auto simp: chat_completions_def Let_def split: if_splits)
  obtain b where b: "chat_body gw db ''system'' name body = Inr b"
    using assms n by (auto simp: chat_completions_def user_id_system Let_def split: sum.splits)
  let ?k = "key_of gw (dict_get_or body ''api_key'' SNull)"
  have team: "fst (tenant_context h) = ''default''" for h by (simp add: tenant_context_def)
  obtain out es0 where run: "run_full_pipeline gw name b (Some u) ?k (Some ''default'') = (Inr out, es0)"
    using assms n b by (auto simp: chat_completions_def user_id_system Let_def team value_error_to_400_def
        split: sum.splits prod.splits py_error.splits)
  have "\<exists>es1. run_full_pipeline gw name b None ?k (Some ''default'') = (Inr out, es1) \<and> without_usage es1 = without_usage es0"
  proof -
    obtain a q where aq: "get_provider (gw_registry gw) name = Inr a" "normalize_request (gw_conv gw) (gw_env gw) a b = Inr q"
      using run by (auto simp: run_full_pipeline_def split: sum.splits)
    with run show ?thesis
      by (auto simp: run_full_pipeline_def run_chat_def caller_of_def user_dict_def team_for_def Let_def finish_chat_def usage_effect_def
          without_usage_def split: sum.splits if_splits prod.splits)
  qed
  then show ?thesis
    using assms n b run by (auto simp: chat_completions_def user_id_system Let_def team value_error_to_400_def split: prod.splits)
qed

lemma anonymous_served_witness:
  "\<exists>r es'. chat_completions demo_gateway \<lparr>ti_conv = [], ti_ids = ([], []), ti_times = (0, 1, 2), ti_ok = (True, True, True)\<rparr> [] None
      [(''provider'', SText ''mock''), (''messages'', SArr [])] long_db = (Inr r, es', long_db)"
proof -
  let ?io = "\<lparr>ti_conv = [], ti_ids = ([], []), ti_times = (0, 1, 2), ti_ok = (True, True, True)\<rparr> :: turn_io"
  let ?body = "[(''provider'', SText ''mock''), (''messages'', SArr [])]"
  let ?u = "\<lparr>aw_email = Text ''a@b'', aw_role = None, aw_name = Text [], aw_permissions = Texts []\<rparr>"
  obtain r es where run: "run_full_pipeline demo_gateway ''mock'' [(''messages'', SArr [])] (Some ?u) None (Some ''default'') = (Inr r, es)"
    using demo_run [of "[]" "Some ?u"] by auto
  have "chat_body demo_gateway long_db ''system'' ''mock'' ?body = Inr [(''messages'', SArr [])]"
    by (simp add: chat_body_def Let_def dict_get_or_def pop_fields_def)
  then obtain x where "chat_completions demo_gateway ?io ''Bearer x'' (Some ?u) ?body long_db = (Inr x, es, long_db)"
    using run by (auto simp: chat_completions_def Let_def dict_get_or_def user_id_system key_of_def tenant_context_def
        value_error_to_400_def save_turn_def)
  from anonymous_served [OF this] show ?thesis by blast
qed

section \<open>Streams\<close>

lemma relay_texts: "relay acc (map SText ts) None = (map ContentEvent ts, Some (acc @ concat ts))"
  by (induction ts arbitrary: acc) auto

text \<open>
  A stream delivers before it checks. For a prompt that is not blocked, every piece the vendor sends reaches the caller,
  whatever the check of the whole text finds afterwards, a blocked word included, which the other endpoint would
  have redacted; and the budget is never consulted.
\<close>
theorem stream_unchecked:
  assumes "opened_stream gw name b key = Inr (a, q)" "stream_pieces gw a q = (map SText ts, None)"
    and "stream_checks gw (concat ts) = Inr g"
  shows "se_events (generate_events gw action user save a q db) =
      map ContentEvent ts @ SafetyEvent g # (if user = None then [] else [DoneEvent]) \<and>
    generate_events (gw\<lparr>gw_checks := (gw_checks gw)\<lparr>ge_budget := budget\<rparr>\<rparr>) action user save a q db =
      generate_events gw action user save a q db \<and>
    opened_stream (gw\<lparr>gw_checks := (gw_checks gw)\<lparr>ge_budget := budget\<rparr>\<rparr>) name b key = opened_stream gw name b key"
proof -
  let ?gw = "gw\<lparr>gw_checks := (gw_checks gw)\<lparr>ge_budget := budget\<rparr>\<rparr>"
  have checks: "stream_checks ?gw t = stream_checks gw t" for t by (simp add: stream_checks_def)
  have pieces: "stream_pieces ?gw a q = stream_pieces gw a q" by (simp add: stream_pieces_def split: sum.split option.split)
  have "se_events (generate_events gw action user save a q db) =
      map ContentEvent ts @ SafetyEvent g # (if user = None then [] else [DoneEvent])"
    using assms(2,3) by (simp add: generate_events_def relay_texts split: option.split)
  moreover have "generate_events ?gw action user save a q db = generate_events gw action user save a q db"
    by (simp add: generate_events_def checks pieces)
  moreover have "opened_stream ?gw name b key = opened_stream gw name b key"
    by (simp add: opened_stream_def checks)
  ultimately show ?thesis by blast
qed

lemma stream_unchecked_witness:
  "\<exists>a q g. opened_stream demo_gateway ''mock'' [(''messages'', SArr [])] None = Inr (a, q) \<and>
     se_events (generate_events demo_gateway ''chat'' None (\<lambda>t d. d) a q long_db) =
       [ContentEvent ''hi '', ContentEvent ''you'', SafetyEvent g]"
proof -
  obtain q where q: "mock_normalize plain_conv [(''messages'', SArr [])] = Inr q" using demo_mock [of "[]"] by auto
  have c: "stream_checks demo_gateway t = checks (sample_env False) t" for t by (simp add: stream_checks_def demo_gateway_def)
  obtain inp where i: "checks (sample_env False) (pq_prompt q) = Inr inp" "\<not> gk_injection inp" "\<not> gk_blocklisted inp"
    using sample_check by blast
  obtain g where g: "stream_checks demo_gateway (concat [''hi '', ''you'']) = Inr g" unfolding c using sample_check by blast
  have "opened_stream demo_gateway ''mock'' [(''messages'', SArr [])] None = Inr (MockAdapter, q)"
    using i by (simp add: opened_stream_def c) (simp add: demo_gateway_def demo_provider normalize_request_def q Let_def)
  moreover from this have "se_events (generate_events demo_gateway ''chat'' None (\<lambda>t d. d) MockAdapter q long_db) =
      [ContentEvent ''hi '', ContentEvent ''you'', SafetyEvent g]"
    using stream_unchecked [OF _ _ g, of "''mock''" "[(''messages'', SArr [])]" None MockAdapter q]
    by (simp add: stream_pieces_def demo_gateway_def wire_of_def)
  ultimately show ?thesis by blast
qed

end
