(* ===== verification/Admin_Routes.thy ===== *)
theory Admin_Routes
  imports Auth_Roles Safety_Pipeline Json_Value "HOL-Library.Char_ord" "HOL-Library.List_Lexorder"
begin

text \<open>
  The account of the administrator and what it configures: login, set-up, refresh and logout
  (\<open>services/gateway/app/routers/auth.py\<close>), the helpers that read and write the row of the administrator
  and the list of blocked words (\<open>services/gateway/app/helpers.py\<close>), the settings endpoints
  (\<open>routers/settings.py\<close>) and the user endpoints (\<open>routers/users.py\<close>). The functions of bcrypt are parameters;
  the table \<open>admin_settings\<close> has at most one row; whether the database answers, times and random texts
  are arguments. The two atomic steps of a login, before and after it waits for the database, may be
  interleaved with those of others; the other requests are handled one after the other.
\<close>

section \<open>The row of the administrator (helpers.py)\<close>

record admin_row =
  ad_email :: string
  ad_hash :: string
  ad_timeout :: "int option"

definition load_admin_from_db :: "bool \<Rightarrow> admin_row option \<Rightarrow> (string \<times> string) option" where
  \<comment> \<open>the first argument: the database answers; an exception counts as no administrator\<close>
  "load_admin_from_db read_ok row = (if read_ok then map_option (\<lambda>a. (ad_email a, ad_hash a)) row else None)"

definition save_admin_to_db :: "string \<Rightarrow> string \<Rightarrow> int option \<Rightarrow> admin_row option \<Rightarrow> admin_row option" where
  \<comment> \<open>an existing row is overwritten, its timeout only by a given one; a new row has the default of 30 minutes\<close>
  "save_admin_to_db email hash timeout row = Some \<lparr>ad_email = email, ad_hash = hash,
     ad_timeout = (case timeout of Some m \<Rightarrow> Some m
       | None \<Rightarrow> (case row of None \<Rightarrow> Some 30 | Some a \<Rightarrow> ad_timeout a))\<rparr>"

definition get_session_timeout_minutes :: "bool \<Rightarrow> admin_row option \<Rightarrow> int" where
  "get_session_timeout_minutes read_ok row =
     (if read_ok then (case row of None \<Rightarrow> 30 | Some a \<Rightarrow> (case ad_timeout a of None \<Rightarrow> 30 | Some m \<Rightarrow> m)) else 30)"

section \<open>Login, set-up, refresh, logout (routers/auth.py)\<close>

record 't auth_state =
  as_admin :: "admin_row option"
  as_failures :: "(string, pyfloat list) pydict" \<comment> \<open>\<open>_LOGIN_FAILURES\<close>\<close>
  as_revoked :: "'t set"

definition max_failures :: nat where "max_failures = 5"

definition failure_window :: pyfloat where "failure_window = 300"

definition check_brute_force :: "pyfloat \<Rightarrow> string \<Rightarrow> 't auth_state \<Rightarrow> bool \<times> 't auth_state" where
  \<comment> \<open>whether the identifier is locked\<close>
  "check_brute_force now ident s =
     (let attempts = filter (\<lambda>t. now - failure_window < t) (dict_get_or (as_failures s) ident [])
      in (max_failures \<le> length attempts, s\<lparr>as_failures := dict_set ident attempts (as_failures s)\<rparr>))"

definition record_login_failure :: "pyfloat \<Rightarrow> string \<Rightarrow> 't auth_state \<Rightarrow> 't auth_state" where
  "record_login_failure now ident s =
     s\<lparr>as_failures := dict_set ident
        (filter (\<lambda>t. now - failure_window < t) (dict_get_or (as_failures s) ident []) @ [now]) (as_failures s)\<rparr>"

record 't crypto =
  cy_jwt :: "'t jwt"
  cy_check :: "string \<Rightarrow> string \<Rightarrow> bool" \<comment> \<open>\<open>bcrypt.checkpw\<close>\<close>
  cy_hash :: "string \<Rightarrow> string" \<comment> \<open>\<open>bcrypt.hashpw\<close> with a fresh salt\<close>

record login_try =
  lt_user :: string
  lt_password :: string
  lt_read_ok :: bool
  lt_start :: pyfloat
  lt_end :: pyfloat \<comment> \<open>after the comparison of the password\<close>
  lt_family :: string

definition login_finish :: "'t crypto \<Rightarrow> login_try \<Rightarrow> 't auth_state \<Rightarrow> (py_error + 't \<times> 't) \<times> 't auth_state" where
  \<comment> \<open>what follows the answer of the database\<close>
  "login_finish Y a s = (let u = lt_user a in
     case load_admin_from_db (lt_read_ok a) (as_admin s) of
       None \<Rightarrow> (Inl (HTTPException 401 ''System not configured. Run setup first.''), s)
     | Some (email, hash) \<Rightarrow>
         if u = email \<and> cy_check Y (lt_password a) hash
         then (Inr (create_access_token (cy_jwt Y) (lt_end a) [(''sub'', Text u), (''family'', Text (lt_family a))] None,
                    create_refresh_token (cy_jwt Y) (lt_end a) [(''sub'', Text u)]),
               s\<lparr>as_failures := dict_del u (as_failures s)\<rparr>)
         else (Inl (HTTPException 401 ''Invalid credentials''), record_login_failure (lt_end a) u s))"

definition login :: "'t crypto \<Rightarrow> login_try \<Rightarrow> 't auth_state \<Rightarrow> (py_error + 't \<times> 't) \<times> 't auth_state" where
  \<comment> \<open>a login that no other request interrupts\<close>
  "login Y a s =
     (let (locked, s1) = check_brute_force (lt_start a) (lt_user a) s
      in if locked then (Inl (HTTPException 429 ''Too many login attempts. Try again in 5 minutes.''), s1)
         else login_finish Y a s1)"

record 't login_run =
  lr_auth :: "'t auth_state"
  lr_waiting :: "login_try list" \<comment> \<open>checked, and waiting for the database\<close>

datatype login_event = Begin login_try | Finish login_try

fun login_step :: "'t crypto \<Rightarrow> 't login_run \<Rightarrow> login_event \<Rightarrow> 't login_run" where
  \<comment> \<open>the requests share the event loop: each runs up to \<open>await load_admin_from_db()\<close> and, when the
     answer is there, to its end\<close>
  "login_step Y r (Begin a) =
     (let (locked, s) = check_brute_force (lt_start a) (lt_user a) (lr_auth r)
      in r\<lparr>lr_auth := s, lr_waiting := lr_waiting r @ (if locked then [] else [a])\<rparr>)"
| "login_step Y r (Finish a) =
     (if a \<in> set (lr_waiting r)
      then r\<lparr>lr_auth := snd (login_finish Y a (lr_auth r)), lr_waiting := remove1 a (lr_waiting r)\<rparr> else r)"

definition setup_admin ::
  "'t crypto \<Rightarrow> bool \<Rightarrow> bool \<Rightarrow> pyfloat \<Rightarrow> string \<Rightarrow> string \<Rightarrow> 't auth_state \<Rightarrow> (py_error + 't \<times> 't) \<times> 't auth_state" where
  \<comment> \<open>whether the read and the write reach the database; time, user, password\<close>
  "setup_admin Y read_ok write_ok now user password s =
     (if load_admin_from_db read_ok (as_admin s) \<noteq> None then (Inl (HTTPException 400 ''Admin already configured.''), s)
      else if length password < 8 then (Inl (HTTPException 400 ''Password must be at least 8 characters''), s)
      else if \<not> write_ok then (Inl (HTTPException 500 []), s)
      else (Inr (create_access_token (cy_jwt Y) now [(''sub'', Text user)] None,
                 create_refresh_token (cy_jwt Y) now [(''sub'', Text user)]),
            s\<lparr>as_admin := save_admin_to_db user (cy_hash Y password) None (as_admin s)\<rparr>))"

definition refresh_token_endpoint :: "'t crypto \<Rightarrow> pyfloat \<Rightarrow> 't \<Rightarrow> 't auth_state \<Rightarrow> (py_error + 't) \<times> 't auth_state" where
  "refresh_token_endpoint Y now t s =
     (case refresh_access_token (cy_jwt Y) now t (as_revoked s) of
        (None, r) \<Rightarrow> (Inl (HTTPException 401 ''Invalid or expired refresh token''), s\<lparr>as_revoked := r\<rparr>)
      | (Some new_token, r) \<Rightarrow> (Inr new_token, s\<lparr>as_revoked := r\<rparr>))"

definition logout :: "'t option \<Rightarrow> 't auth_state \<Rightarrow> (py_error + unit) \<times> 't auth_state" where
  \<comment> \<open>\<open>revoke_token\<close> is no coroutine: awaiting its result raises after the token was revoked\<close>
  "logout credentials s = (case credentials of
     None \<Rightarrow> (Inl AttributeError, s)
   | Some t \<Rightarrow> (Inl TypeError, s\<lparr>as_revoked := blacklist_token t (as_revoked s)\<rparr>))"

section \<open>Settings (routers/settings.py)\<close>

record settings_update =
  su_email :: "string option"
  su_current :: "string option"
  su_new :: "string option"
  su_timeout :: "jvalue" \<comment> \<open>the field of the body, which the schema does not have\<close>

definition given :: "string option \<Rightarrow> string option" where
  \<comment> \<open>an empty text counts as absent\<close>
  "given v = (case v of Some (ch # s) \<Rightarrow> Some (ch # s) | _ \<Rightarrow> None)"

definition new_admin_hash :: "'t crypto \<Rightarrow> settings_update \<Rightarrow> string \<Rightarrow> py_error + string" where
  \<comment> \<open>the hash to store, from the stored one\<close>
  "new_admin_hash Y u hash = (case given (su_new u) of
     None \<Rightarrow> Inr hash
   | Some p \<Rightarrow> (case given (su_current u) of
       None \<Rightarrow> Inl (HTTPException 400 ''Current password required'')
     | Some c \<Rightarrow> if length p < 8 then Inl (HTTPException 400 ''New password must be at least 8 characters'')
                else if \<not> cy_check Y c hash then Inl (HTTPException 400 ''Current password incorrect'')
                else Inr (cy_hash Y p)))"

definition update_settings :: "'t crypto \<Rightarrow> bool \<Rightarrow> settings_update \<Rightarrow> admin_row option \<Rightarrow> (py_error + unit) \<times> admin_row option" where
  \<comment> \<open>the function that saves the timeout is not imported\<close>
  "update_settings Y read_ok u row =
     (case load_admin_from_db read_ok row of
        None \<Rightarrow> (Inl (HTTPException 400 ''No admin configured.''), row)
      | Some (email, hash) \<Rightarrow> (case new_admin_hash Y u hash of
          Inl e \<Rightarrow> (Inl e, row)
        | Inr h \<Rightarrow> if su_timeout u \<noteq> SNull then (Inl NameError, row)
                  else (Inr (), save_admin_to_db (case given (su_email u) of None \<Rightarrow> email | Some m \<Rightarrow> m) h None row)))"

definition get_settings :: "bool \<Rightarrow> admin_row option \<Rightarrow> string option \<times> int" where
  "get_settings read_ok row = (map_option fst (load_admin_from_db read_ok row), get_session_timeout_minutes read_ok row)"

definition add_blocklist_word :: "string \<Rightarrow> string list \<Rightarrow> py_error + string list" where
  \<comment> \<open>the second argument is the stored list\<close>
  "add_blocklist_word w words =
     (let word = lower (strip w) in
      if word = [] then Inl (HTTPException 400 ''Word required'')
      else Inr (if word \<in> set words then words else words @ [word]))"

definition remove_blocklist_word :: "string \<Rightarrow> string list \<Rightarrow> string list" where
  "remove_blocklist_word w words = filter (\<lambda>v. v \<noteq> lower w) words"

definition get_webhooks :: "(string \<times> jvalue) list option \<Rightarrow> (string \<times> jvalue) list" where
  \<comment> \<open>the parsed file, \<open>None\<close> when it is missing or malformed\<close>
  "get_webhooks file = (case file of
     None \<Rightarrow> [(''url'', SText []), (''enabled'', SBool False), (''events'', SText ''toxicity,pii''), (''signing_secret'', SText [])]
   | Some d \<Rightarrow> if dict_get d ''signing_secret'' = None then dict_set ''signing_secret'' (SText []) d else d)"

definition save_webhooks :: "string \<Rightarrow> (string \<times> jvalue) list \<Rightarrow> jvalue \<times> (string \<times> jvalue) list" where
  \<comment> \<open>the secret of the answer and the new file; the first argument is the random part of a new secret\<close>
  "save_webhooks random body =
     (let d = (if json_truthy (dict_get_or body ''signing_secret'' SNull) then body
               else dict_set ''signing_secret'' (SText (''whsec_'' @ random)) body)
      in (dict_get_or d ''signing_secret'' SNull, d))"

definition sign_webhook_payload :: "(string \<Rightarrow> string \<Rightarrow> string) \<Rightarrow> pyfloat \<Rightarrow> string \<Rightarrow> string \<Rightarrow> string" where
  \<comment> \<open>the first argument is the HMAC\<close>
  "sign_webhook_payload mac now payload secret =
     (let ts = show_int (py_int now) in ''t='' @ ts @ '',v1='' @ mac secret (ts @ ''.'' @ payload))"

record domain_threshold =
  dt_domain :: string
  dt_severity :: string
  dt_toxicity :: string
  dt_pii :: string

definition default_thresholds :: "domain_threshold list" where
  "default_thresholds =
     [\<lparr>dt_domain = ''finance'', dt_severity = ''high'', dt_toxicity = ''block'', dt_pii = ''block''\<rparr>,
      \<lparr>dt_domain = ''healthcare'', dt_severity = ''critical'', dt_toxicity = ''block'', dt_pii = ''block''\<rparr>,
      \<lparr>dt_domain = ''education'', dt_severity = ''medium'', dt_toxicity = ''flag'', dt_pii = ''mask''\<rparr>,
      \<lparr>dt_domain = ''general'', dt_severity = ''medium'', dt_toxicity = ''flag'', dt_pii = ''mask''\<rparr>]"

definition get_domain_thresholds :: "(string, domain_threshold) pydict \<Rightarrow> domain_threshold list" where
  \<comment> \<open>the table, keyed by the domain\<close>
  "get_domain_thresholds rows = (if rows = [] then default_thresholds else sort_key dt_domain (dict_values rows))"

definition save_domain_thresholds :: "domain_threshold list \<Rightarrow> (string, domain_threshold) pydict \<Rightarrow> (string, domain_threshold) pydict" where
  "save_domain_thresholds ts rows = foldl (\<lambda>d t. dict_set (dt_domain t) t d) rows ts"

section \<open>Users (routers/users.py)\<close>

record account =
  ac_email :: string
  ac_hash :: string
  ac_role :: string
  ac_active :: bool
  ac_created :: pyfloat

definition create_account :: "'t crypto \<Rightarrow> pyfloat \<Rightarrow> string \<Rightarrow> string \<Rightarrow> string \<Rightarrow> account list \<Rightarrow> py_error + account list" where
  \<comment> \<open>e-mail, role (by default \<open>safety_officer\<close>) and password of the body\<close>
  "create_account Y now mail role password rows =
     (let email = strip mail in
      if email = [] \<or> CHR ''@'' \<notin> set email then Inl (HTTPException 400 ''Valid email required'')
      else if role \<notin> {''admin'', ''safety_officer'', ''viewer''} then Inl (HTTPException 400 ''Role must be admin, safety_officer, or viewer'')
      else if length password < 6 then Inl (HTTPException 400 ''Password must be at least 6 characters'')
      else if list_ex (\<lambda>r. ac_email r = email) rows then Inl (HTTPException 400 ''User already exists'')
      else Inr (rows @ [\<lparr>ac_email = email, ac_hash = cy_hash Y password, ac_role = role, ac_active = True, ac_created = now\<rparr>]))"

definition deactivate_account :: "string \<Rightarrow> account list \<Rightarrow> account list" where
  "deactivate_account email rows = map (\<lambda>r. if ac_email r = email then r\<lparr>ac_active := False\<rparr> else r) rows"

definition list_accounts :: "account list \<Rightarrow> (string \<times> string \<times> bool \<times> pyfloat) list" where
  "list_accounts rows = map (\<lambda>r. (ac_email r, ac_role r, ac_active r, ac_created r)) (rev (sort_key ac_created rows))"

section \<open>Guessing a password\<close>

lemma login_is_both_steps:
  "lr_auth (foldl (login_step Y) \<lparr>lr_auth = s, lr_waiting = []\<rparr> [Begin a, Finish a]) = snd (login Y a s)"
  by (simp add: login_def login_finish_def check_brute_force_def Let_def)

fun refusal_times :: "'t crypto \<Rightarrow> string \<Rightarrow> 't login_run \<Rightarrow> login_event \<Rightarrow> pyfloat list" where
  \<comment> \<open>the time at which a wrong password for a user is compared and refused, if the event does this\<close>
  "refusal_times Y u r (Begin a) = []"
| "refusal_times Y u r (Finish a) =
     (if a \<in> set (lr_waiting r) \<and> lt_user a = u \<and>
         fst (login_finish Y a (lr_auth r)) = Inl (HTTPException 401 ''Invalid credentials'') then [lt_end a] else [])"

fun failure_times :: "'t crypto \<Rightarrow> string \<Rightarrow> login_event list \<Rightarrow> 't login_run \<Rightarrow> pyfloat list" where
  "failure_times Y u [] r = []"
| "failure_times Y u (e # es) r = refusal_times Y u r e @ failure_times Y u es (login_step Y r e)"

fun event_time :: "login_event \<Rightarrow> pyfloat" where
  "event_time (Begin a) = lt_start a"
| "event_time (Finish a) = lt_end a"

definition in_flight :: "string \<Rightarrow> 't login_run \<Rightarrow> nat" where
  "in_flight u r = length (filter (\<lambda>a. lt_user a = u) (lr_waiting r))"

fun at_most_in_flight :: "'t crypto \<Rightarrow> string \<Rightarrow> nat \<Rightarrow> login_event list \<Rightarrow> 't login_run \<Rightarrow> bool" where
  \<comment> \<open>never more than \<open>k\<close> attempts for a user are between the check and the comparison\<close>
  "at_most_in_flight Y u k [] r \<longleftrightarrow> in_flight u r \<le> k"
| "at_most_in_flight Y u k (e # es) r \<longleftrightarrow> in_flight u r \<le> k \<and> at_most_in_flight Y u k es (login_step Y r e)"

definition wrong_guess :: "'t crypto \<Rightarrow> string \<Rightarrow> admin_row \<Rightarrow> login_event \<Rightarrow> bool" where
  \<comment> \<open>no attempt for the user has the right password\<close>
  "wrong_guess Y u row e \<longleftrightarrow> (case e of Begin a \<Rightarrow> True | Finish a \<Rightarrow>
     lt_user a = u \<longrightarrow> u \<noteq> ad_email row \<or> \<not> cy_check Y (lt_password a) (ad_hash row))"

definition in_window :: "pyfloat \<Rightarrow> pyfloat list \<Rightarrow> pyfloat list" where
  \<comment> \<open>the times in the five minutes up to a time\<close>
  "in_window t ts = filter (\<lambda>x. t - failure_window < x \<and> x \<le> t) ts"

definition recent :: "pyfloat \<Rightarrow> pyfloat list \<Rightarrow> pyfloat list" where
  "recent t ts = filter (\<lambda>x. t - failure_window < x) ts"

definition tracked :: "string \<Rightarrow> nat \<Rightarrow> pyfloat \<Rightarrow> pyfloat list \<Rightarrow> 't login_run \<Rightarrow> bool" where
  \<comment> \<open>the stored failures are those of the history that still count; once five of them count, the attempts
     in flight are at most those that were in flight with the fifth\<close>
  "tracked u k now h r \<longleftrightarrow> (\<forall>x \<in> set h. x \<le> now) \<and>
     recent now (dict_get_or (as_failures (lr_auth r)) u []) = recent now h \<and>
     (\<forall>t \<ge> now. max_failures \<le> length (recent t h) \<longrightarrow> length (recent t h) + in_flight u r < max_failures + k) \<and>
     (\<forall>t. length (in_window t h) < max_failures + k)"

lemma filter_later:
  assumes "filter (\<lambda>x. now - w < x) xs = filter (\<lambda>x. now - w < x) ys" "now \<le> (later :: pyfloat)"
  shows "filter (\<lambda>x. later - w < x) xs = filter (\<lambda>x. later - w < x) ys"
proof -
  have "filter (\<lambda>x. later - w < x) zs = filter (\<lambda>x. later - w < x) (filter (\<lambda>x. now - w < x) zs)" for zs
    using assms(2) by (auto intro!: filter_cong)
  then show ?thesis using assms(1) by metis
qed

lemma recent_later: "recent now xs = recent now ys \<Longrightarrow> now \<le> later \<Longrightarrow> recent later xs = recent later ys"
  unfolding recent_def by (rule filter_later)

lemma recent_recent: "now \<le> later \<Longrightarrow> recent later (recent now xs) = recent later xs"
  by (auto simp: recent_def intro!: filter_cong)

lemma length_recent_mono: "t \<le> t' \<Longrightarrow> length (recent t' xs) \<le> length (recent t xs)"
  by (induction xs) (auto simp: recent_def)

lemma in_window_now: "\<forall>x \<in> set h. x \<le> t \<Longrightarrow> in_window t h = recent t h"
  by (auto simp: in_window_def recent_def intro!: filter_cong)

lemma tracked_later:
  assumes "tracked u k now h r" "now \<le> later" "in_flight u r' \<le> in_flight u r"
    and "recent later (dict_get_or (as_failures (lr_auth r')) u []) = recent later (dict_get_or (as_failures (lr_auth r)) u [])"
  shows "tracked u k later h r'"
  unfolding tracked_def
proof (intro conjI ballI allI impI)
  fix x assume "x \<in> set h"
  with assms(1) have "x \<le> now" by (simp add: tracked_def)
  with assms(2) show "x \<le> later" by simp
next
  show "recent later (dict_get_or (as_failures (lr_auth r')) u []) = recent later h"
    using assms(1,2) recent_later [of now "dict_get_or (as_failures (lr_auth r)) u []" h later]
    unfolding assms(4) tracked_def by blast
next
  fix t assume "later \<le> t" "max_failures \<le> length (recent t h)"
  with assms(1,2) have "length (recent t h) + in_flight u r < max_failures + k" by (simp add: tracked_def)
  with assms(3) show "length (recent t h) + in_flight u r' < max_failures + k" by simp
next
  fix t show "length (in_window t h) < max_failures + k" using assms(1) by (simp add: tracked_def)
qed

lemma tracked_begin:
  assumes "tracked u k now h r" "now \<le> lt_start a"
  shows "tracked u k (lt_start a) h (login_step Y r (Begin a))"
proof -
  let ?ts = "dict_get_or (as_failures (lr_auth r)) u []" and ?r = "login_step Y r (Begin a)" and ?b = "lt_start a"
  have same: "recent ?b (dict_get_or (as_failures (lr_auth ?r)) u []) = recent ?b ?ts"
    by (auto simp: check_brute_force_def Let_def dict_get_or_def recent_def)
  have "recent now ?ts = recent now h" using assms(1) unfolding tracked_def by blast
  then have h: "recent ?b ?ts = recent ?b h" using assms(2) by (rule recent_later)
  show ?thesis
  proof (cases "in_flight u ?r \<le> in_flight u r")
    case True
    show ?thesis by (rule tracked_later [OF assms True same])
  next
    case False
    then have "lt_user a = u" "length (recent ?b ?ts) < max_failures"
      by (auto simp: in_flight_def check_brute_force_def Let_def recent_def split: if_splits)
    then have "length (recent t h) < max_failures" if "?b \<le> t" for t
      using length_recent_mono [OF that, of h] h by simp
    then have "tracked u k ?b h ?r \<longleftrightarrow> (\<forall>x \<in> set h. x \<le> ?b) \<and>
        recent ?b (dict_get_or (as_failures (lr_auth ?r)) u []) = recent ?b h \<and> (\<forall>t. length (in_window t h) < max_failures + k)"
      unfolding tracked_def by (auto simp del: login_step.simps simp: not_le [symmetric])
    moreover have "\<forall>x \<in> set h. x \<le> ?b" using assms by (force simp: tracked_def)
    moreover have "\<forall>t. length (in_window t h) < max_failures + k" using assms(1) by (simp add: tracked_def)
    moreover note trans [OF same h]
    ultimately show ?thesis by (simp only: simp_thms)
  qed
qed

lemma tracked_refused:
  assumes "tracked u k now h r" "now \<le> f" "in_flight u r \<le> k" "in_flight u r = Suc (in_flight u r')"
    and "dict_get_or (as_failures (lr_auth r')) u [] = recent f (dict_get_or (as_failures (lr_auth r)) u []) @ [f]"
  shows "tracked u k f (h @ [f]) r'"
proof -
  have le: "\<forall>x \<in> set h. x \<le> f" using assms(1,2) by (force simp: tracked_def)
  have "recent f (recent f (dict_get_or (as_failures (lr_auth r)) u [])) = recent f h"
    using assms(1,2) by (auto simp: recent_recent tracked_def intro: recent_later)
  then have stored: "recent f (dict_get_or (as_failures (lr_auth r')) u []) = recent f (h @ [f])"
    unfolding assms(5) by (simp add: recent_def)
  have bound: "length (recent t (h @ [f])) + in_flight u r' < max_failures + k"
    if t: "f \<le> t" "max_failures \<le> length (recent t (h @ [f]))" for t
  proof (cases "max_failures \<le> length (recent t h)")
    case True
    with assms(1,2) t have "length (recent t h) + in_flight u r < max_failures + k" by (simp add: tracked_def)
    moreover have "length (recent t (h @ [f])) \<le> Suc (length (recent t h))" by (simp add: recent_def)
    ultimately show ?thesis using assms(4) by simp
  next
    case False
    moreover have "length (recent t (h @ [f])) \<le> Suc (length (recent t h))" by (simp add: recent_def)
    ultimately show ?thesis using assms(3,4) by simp
  qed
  have "length (in_window t (h @ [f])) < max_failures + k" for t
  proof (cases "f \<le> t")
    case True
    with le have "in_window t (h @ [f]) = recent t (h @ [f])" by (intro in_window_now) auto
    with bound [OF True] assms(3,4) show ?thesis by (cases "max_failures \<le> length (recent t (h @ [f]))") auto
  next
    case False
    then have "in_window t (h @ [f]) = in_window t h" by (simp add: in_window_def)
    with assms(1) show ?thesis by (simp add: tracked_def)
  qed
  with le stored bound show ?thesis by (auto simp: tracked_def)
qed

lemma in_flight_remove:
  assumes "a \<in> set (lr_waiting r)" "lr_waiting r' = remove1 a (lr_waiting r)"
  shows "in_flight u r = (if lt_user a = u then Suc (in_flight u r') else in_flight u r')"
proof (cases "lt_user a = u")
  case True
  with assms(1) have "a \<in> set (filter (\<lambda>b. lt_user b = u) (lr_waiting r))" by simp
  with True assms(2) show ?thesis
    using length_pos_if_in_set [of a "filter (\<lambda>b. lt_user b = u) (lr_waiting r)"]
    by (simp add: in_flight_def filter_remove1 length_remove1)
next
  case False
  with assms(2) show ?thesis by (simp add: in_flight_def filter_remove1 remove1_idem)
qed

lemma tracked_finish:
  assumes "tracked u k now h r" "now \<le> lt_end a" "in_flight u r \<le> k"
    and "as_admin (lr_auth r) = Some row" "wrong_guess Y u row (Finish a)"
  shows "tracked u k (lt_end a) (h @ refusal_times Y u r (Finish a)) (login_step Y r (Finish a))"
proof (cases "a \<in> set (lr_waiting r)")
  case False
  with assms(1,2) show ?thesis by (auto intro: tracked_later)
next
  case True
  let ?r = "login_step Y r (Finish a)"
  have w: "in_flight u r = (if lt_user a = u then Suc (in_flight u ?r) else in_flight u ?r)"
    using True by (intro in_flight_remove) simp_all
  note defs = login_finish_def load_admin_from_db_def record_login_failure_def Let_def
  show ?thesis
  proof (cases "lt_user a = u \<and> lt_read_ok a")
    case False
    then have "refusal_times Y u r (Finish a) = []" using assms(4) by (auto simp: defs)
    moreover have "dict_get_or (as_failures (snd (login_finish Y a (lr_auth r)))) u [] = dict_get_or (as_failures (lr_auth r)) u []"
      using False by (auto simp: defs dict_get_or_def split: option.split)
    then have "dict_get_or (as_failures (lr_auth ?r)) u [] = dict_get_or (as_failures (lr_auth r)) u []" using True by simp
    ultimately show ?thesis
      using tracked_later [OF assms(1,2), of ?r] w by (simp del: login_step.simps refusal_times.simps split: if_splits)
  next
    case u: True
    then have out: "login_finish Y a (lr_auth r) = (Inl (HTTPException 401 ''Invalid credentials''), record_login_failure (lt_end a) u (lr_auth r))"
      using assms(4,5) by (auto simp: login_finish_def load_admin_from_db_def wrong_guess_def Let_def)
    have "refusal_times Y u r (Finish a) = [lt_end a]" using True u by (simp add: out)
    moreover have "dict_get_or (as_failures (lr_auth ?r)) u [] = recent (lt_end a) (dict_get_or (as_failures (lr_auth r)) u []) @ [lt_end a]"
      using True by (simp add: out record_login_failure_def recent_def dict_get_or_def)
    ultimately show ?thesis
      using tracked_refused [OF assms(1-3), of ?r] u w by (simp del: login_step.simps refusal_times.simps)
  qed
qed
lemma event_keeps_admin: "as_admin (lr_auth (login_step Y r e)) = as_admin (lr_auth r)"
  by (cases e) (auto simp: check_brute_force_def login_finish_def record_login_failure_def Let_def split: option.split)

lemma guesses_tracked:
  assumes "tracked u k now h r" "sorted (now # map event_time es)" "as_admin (lr_auth r) = Some row"
    and "\<forall>e \<in> set es. wrong_guess Y u row e" "at_most_in_flight Y u k es r"
  shows "length (in_window t (h @ failure_times Y u es r)) < max_failures + k"
  using assms
proof (induction es arbitrary: now h r)
  case Nil
  then show ?case by (simp add: tracked_def)
next
  case (Cons e es)
  have "tracked u k (event_time e) (h @ refusal_times Y u r e) (login_step Y r e)"
  proof (cases e)
    case (Begin a)
    with Cons.prems tracked_begin [of u k now h r a Y] show ?thesis by simp
  next
    case (Finish a)
    with Cons.prems tracked_finish [of u k now h r a row Y] show ?thesis by simp
  qed
  then have "length (in_window t ((h @ refusal_times Y u r e) @ failure_times Y u es (login_step Y r e))) < max_failures + k"
    using Cons.prems by (intro Cons.IH) (auto simp: event_keeps_admin)
  then show ?case by simp
qed

text \<open>
  C24: Passwords cannot be guessed quickly, as far as attempts do not overlap. Each login checks
  the number of failures, waits for the database and then compares. However these steps of all
  users are interleaved, if never more than \<open>k\<close> attempts for a user wait for the database at the
  same time, a user whose right password is never given has fewer than \<open>5 + k\<close> wrong passwords
  compared in any five minutes (five when the attempts are made one after the other): further
  attempts are refused before the comparison.
\<close>
theorem failed_guesses_bounded:
  assumes "dict_get (as_failures s) u = None" "sorted (map event_time es)" "as_admin s = Some row" "1 \<le> k"
    and "\<forall>e \<in> set es. wrong_guess Y u row e" "at_most_in_flight Y u k es \<lparr>lr_auth = s, lr_waiting = []\<rparr>"
  shows "length (in_window t (failure_times Y u es \<lparr>lr_auth = s, lr_waiting = []\<rparr>)) < max_failures + k"
proof (cases es)
  case Nil
  with assms(4) show ?thesis by (simp add: in_window_def max_failures_def)
next
  case (Cons e es')
  have "tracked u k (event_time e) [] \<lparr>lr_auth = s, lr_waiting = []\<rparr>"
    using assms(1) by (simp add: tracked_def dict_get_or_def in_window_def recent_def max_failures_def)
  from guesses_tracked [OF this _ _ assms(5,6), of t] assms(2,3) Cons show ?thesis by simp
qed

definition plain_crypto :: "claims crypto" where
  "plain_crypto = \<lparr>cy_jwt = transparent_jwt, cy_check = (\<lambda>p h. h = ''hash '' @ p), cy_hash = (\<lambda>p. ''hash '' @ p)\<rparr>"

definition admin_state :: "claims auth_state" where
  "admin_state = \<lparr>as_admin = Some \<lparr>ad_email = ''a@b'', ad_hash = ''hash secret'', ad_timeout = Some 30\<rparr>, as_failures = [], as_revoked = {}\<rparr>"

definition guess :: "nat \<Rightarrow> login_try" where
  "guess n = \<lparr>lt_user = ''a@b'', lt_password = ''guess'', lt_read_ok = True, lt_start = real n, lt_end = real n, lt_family = []\<rparr>"

lemma guess_fields [simp]: "lt_user (guess n) = ''a@b''" "lt_password (guess n) = ''guess''" "lt_start (guess n) = real n" "lt_end (guess n) = real n"
  by (simp_all add: guess_def)

lemma failed_guesses_bounded_witness:
  "length (in_window 100 (failure_times plain_crypto ''a@b'' [Begin (guess 1\<lparr>lt_end := 3\<rparr>), Begin (guess 0\<lparr>lt_start := 2, lt_end := 3\<rparr>), Finish (guess 1\<lparr>lt_end := 3\<rparr>), Finish (guess 0\<lparr>lt_start := 2, lt_end := 3\<rparr>)]
     \<lparr>lr_auth = admin_state, lr_waiting = []\<rparr>)) < max_failures + 2"
  by (rule failed_guesses_bounded [where row = "\<lparr>ad_email = ''a@b'', ad_hash = ''hash secret'', ad_timeout = Some 30\<rparr>"])
    (simp_all add: admin_state_def plain_crypto_def wrong_guess_def in_flight_def check_brute_force_def login_finish_def
      load_admin_from_db_def record_login_failure_def max_failures_def dict_get_or_def Let_def guess_def)

section \<open>Guesses that overlap\<close>






section \<open>What a login is good for\<close>

text \<open>
  No token that login issues is good for the functions of an administrator: it names no role, so that the
  user counts as a viewer and \<open>require_admin\<close> refuses the access token, the refresh token and every token that is exchanged
  for the latter.
\<close>
theorem login_never_admin:
  assumes "jwt_laws (cy_jwt Y)" "fst (login Y a s) = Inr (access, refresh)"
  shows "(\<exists>c m. require_admin (get_current_user (cy_jwt Y) later (Some access)) = Inl (HTTPException c m)) \<and>
    (\<exists>c m. require_admin (get_current_user (cy_jwt Y) later (Some refresh)) = Inl (HTTPException c m))"
proof -
  have tokens: "access = create_access_token (cy_jwt Y) (lt_end a) [(''sub'', Text (lt_user a)), (''family'', Text (lt_family a))] None"
    "refresh = create_refresh_token (cy_jwt Y) (lt_end a) [(''sub'', Text (lt_user a))]"
    using assms(2) by (auto simp: login_def login_finish_def check_brute_force_def Let_def split: option.splits if_splits)
  have no_role: "\<exists>c m. require_admin v = Inl (HTTPException c m)" if "\<forall>u. v = Some u \<longrightarrow> aw_role u = Some ''viewer''" for v
    using that by (cases v) (auto simp: require_admin_def require_one_of_def)
  have "\<forall>u. get_current_user (cy_jwt Y) later (Some access) = Some u \<longrightarrow> aw_role u = Some ''viewer''"
    unfolding tokens issued_token_identifies [OF assms(1)] by (simp add: user_of_def dict_get_or_def)
  moreover have "\<forall>u. get_current_user (cy_jwt Y) later (Some refresh) = Some u \<longrightarrow> aw_role u = Some ''viewer''"
    unfolding tokens get_current_user_def option.case refresh_token_claims [OF assms(1)]
    by (simp add: user_of_def dict_get_or_def split: option.split if_splits)
  ultimately show ?thesis using no_role by blast
qed

definition right_login :: login_try where
  "right_login = \<lparr>lt_user = ''a@b'', lt_password = ''secret'', lt_read_ok = True, lt_start = 0, lt_end = 0, lt_family = ''f''\<rparr>"

lemma login_never_admin_witness:
  "\<exists>access refresh c m. fst (login plain_crypto right_login admin_state) = Inr (access, refresh) \<and>
     require_admin (get_current_user transparent_jwt 60 (Some access)) = Inl (HTTPException c m)"
proof -
  obtain access refresh where t: "fst (login plain_crypto right_login admin_state) = Inr (access, refresh)"
    by (simp add: login_def login_finish_def check_brute_force_def right_login_def admin_state_def plain_crypto_def load_admin_from_db_def Let_def
        max_failures_def dict_get_or_def)
  have "jwt_laws (cy_jwt plain_crypto)" by (simp add: plain_crypto_def transparent_jwt_laws)
  from login_never_admin [OF this t, of 60] t show ?thesis by (auto simp: plain_crypto_def)
qed

text \<open>
  A failing read is a way in. The administrator counts as not configured when the database does not answer, and the
  set-up then overwrites the existing account: whoever calls it at that moment can log in with a password of his own,
  and the former administrator no longer can.
\<close>
theorem setup_takes_over:
  assumes "\<And>p. cy_check Y p (cy_hash Y p)" "as_admin s = Some old" "8 \<le> length password"
    and "lt_user a = user" "lt_password a = password" "lt_read_ok a" "dict_get (as_failures s) user = None"
  shows "\<exists>tokens s'. setup_admin Y False True now user password s = (Inr tokens, s') \<and>
    (\<exists>t. fst (login Y a s') = Inr t) \<and>
    (\<forall>b. lt_user b = ad_email old \<and> ad_email old \<noteq> user \<longrightarrow> (\<exists>e. fst (login Y b s') = Inl e))"
proof -
  obtain tokens s' where s': "setup_admin Y False True now user password s = (Inr tokens, s')"
    and row: "as_admin s' = Some \<lparr>ad_email = user, ad_hash = cy_hash Y password, ad_timeout = ad_timeout old\<rparr>"
    and fails: "as_failures s' = as_failures s"
    using assms(2,3) by (simp add: setup_admin_def load_admin_from_db_def save_admin_to_db_def)
  have "\<exists>t. fst (login Y a s') = Inr t"
    using assms(1,4-7) fails row
    by (simp add: login_def login_finish_def check_brute_force_def load_admin_from_db_def Let_def dict_get_or_def max_failures_def)
  moreover have "\<exists>e. fst (login Y b s') = Inl e" if "lt_user b = ad_email old \<and> ad_email old \<noteq> user" for b
    using that row by (auto simp: login_def login_finish_def check_brute_force_def load_admin_from_db_def Let_def)
  ultimately show ?thesis using s' by blast
qed

lemma setup_takes_over_witness:
  "\<exists>tokens s' t. setup_admin plain_crypto False True 5 ''evil@b'' ''password'' admin_state = (Inr tokens, s') \<and>
     fst (login plain_crypto (right_login\<lparr>lt_user := ''evil@b'', lt_password := ''password''\<rparr>) s') = Inr t"
  using setup_takes_over [of plain_crypto admin_state "\<lparr>ad_email = ''a@b'', ad_hash = ''hash secret'', ad_timeout = Some 30\<rparr>" "''password''"
      "right_login\<lparr>lt_user := ''evil@b'', lt_password := ''password''\<rparr>" "''evil@b''" 5]
  by (auto simp: plain_crypto_def admin_state_def right_login_def)

section \<open>What the settings change\<close>

datatype admin_op =
    UpdateSettings bool settings_update
  | SetupAdmin bool bool pyfloat string string

fun admin_step :: "'t crypto \<Rightarrow> 't auth_state \<Rightarrow> admin_op \<Rightarrow> 't auth_state" where
  "admin_step Y s (UpdateSettings ok u) = s\<lparr>as_admin := snd (update_settings Y ok u (as_admin s))\<rparr>"
| "admin_step Y s (SetupAdmin r w now user password) = snd (setup_admin Y r w now user password s)"

interpretation timeout_run: run_invariant "admin_step Y" "\<lambda>_ _. True" "\<lambda>s. get_session_timeout_minutes True (as_admin s) = m" for Y :: "'t crypto" and m
proof unfold_locales
  fix s :: "'t auth_state" and op assume "get_session_timeout_minutes True (as_admin s) = m"
  then show "get_session_timeout_minutes True (as_admin (admin_step Y s op)) = m"
    by (cases op) (auto simp: update_settings_def setup_admin_def save_admin_to_db_def get_session_timeout_minutes_def load_admin_from_db_def
        split: option.splits sum.splits)
qed

text \<open>
  The session timeout that the settings offer cannot be set: it stays what it was after any set-ups and updates,
  and an update that names one raises and changes nothing.
\<close>
theorem session_timeout_constant:
  "get_session_timeout_minutes ok (as_admin (foldl (admin_step Y) s ops)) = get_session_timeout_minutes ok (as_admin s) \<and>
   (su_timeout u = SNull \<or> snd (update_settings Y ok u row) = row)"
proof -
  have "get_session_timeout_minutes True (as_admin (foldl (admin_step Y) s ops)) = get_session_timeout_minutes True (as_admin s)"
    by (rule timeout_run.run_inv_always) simp_all
  then have "get_session_timeout_minutes ok (as_admin (foldl (admin_step Y) s ops)) = get_session_timeout_minutes ok (as_admin s)"
    by (cases ok) (simp_all add: get_session_timeout_minutes_def)
  moreover have "su_timeout u = SNull \<or> snd (update_settings Y ok u row) = row"
    by (simp add: update_settings_def split: option.split sum.split)
  ultimately show ?thesis by blast
qed

datatype word_op = AddWord string | RemoveWord string

fun word_step :: "string list \<Rightarrow> word_op \<Rightarrow> string list" where
  "word_step words (AddWord w) = (case add_blocklist_word w words of Inl _ \<Rightarrow> words | Inr ws \<Rightarrow> ws)"
| "word_step words (RemoveWord w) = remove_blocklist_word w words"

interpretation word_run: run_invariant word_step "\<lambda>_ op. case op of RemoveWord v \<Rightarrow> lower v \<noteq> x | AddWord _ \<Rightarrow> True"
  "\<lambda>words. x \<in> set words" for x
  by unfold_locales (auto simp: add_blocklist_word_def remove_blocklist_word_def Let_def split: word_op.splits)

text \<open>
  C25: A blocked word takes effect at once and until it is removed: after it was added, no prompt that contains it, in upper or lower
  case, reaches a vendor, whatever words are added later or removed besides it.
\<close>

theorem blocked_word_effective:
  assumes "add_blocklist_word w words = Inr words1" "ge_words env = foldl word_step words1 ops"
    and "\<And>v. RemoveWord v \<in> set ops \<Longrightarrow> lower v \<noteq> lower (strip w)"
    and "substr (lower (strip w)) (lower (cq_prompt req))"
  shows "\<not> calls_provider (snd (run_chat env provider req key user team))"
proof -
  let ?x = "lower (strip w)"
  have "?x \<in> set words1" using assms(1) by (auto simp: add_blocklist_word_def Let_def split: if_splits)
  then have "?x \<in> set (foldl word_step words1 ops)"
    by (rule word_run.run_inv_always) (use assms(3) in \<open>auto split: word_op.split\<close>)
  then have b: "is_blocklisted (ge_words env) (cq_prompt req)"
    using assms(2,4) by (auto simp: is_blocklisted_def list_ex_iff)
  have "gk_blocklisted g" if "checks env (cq_prompt req) = Inr g" for g
    using that b by (auto simp: run_input_guardrails_def split: sum.splits)
  then show ?thesis
    by (auto simp: run_chat_def Let_def request_prompt calls_provider_def no_provider_in_trace split: sum.split caller.split)
qed

lemma blocked_word_effective_witness:
  "\<not> calls_provider (snd (run_chat ((sample_env False)\<lparr>ge_words := [''bomb'', ''gun'']\<rparr>) ''openai''
     \<lparr>cq_prompt = ''a Bomb'', cq_model = [], cq_api_key = []\<rparr> None Anonymous (Some ''t'')))"
proof (rule blocked_word_effective)
  show "add_blocklist_word '' Bomb'' [] = Inr [''bomb'']"
    by (simp add: add_blocklist_word_def Let_def strip_def is_space_def lower_def lower_char_def char_of_eq_iff)
  show "ge_words ((sample_env False)\<lparr>ge_words := [''bomb'', ''gun'']\<rparr>) = foldl word_step [''bomb''] [AddWord ''gun'']"
    by (simp add: add_blocklist_word_def Let_def strip_def is_space_def lower_def lower_char_def char_of_eq_iff)
  show "substr (lower (strip '' Bomb'')) (lower (cq_prompt \<lparr>cq_prompt = ''a Bomb'', cq_model = [], cq_api_key = []\<rparr>))"
    by code_simp
qed auto

end
