(* ===== verification/Py_Codecs.thy ===== *)
theory Py_Codecs
  imports Py_Prelude "HOL-Library.Word"
begin

text \<open>
  The codecs of the Python standard library that the encryption module uses: UTF-8
  (\<open>str.encode\<close>, \<open>bytes.decode\<close>), base64 (\<open>b64encode\<close>, \<open>b64decode\<close>) and big-endian integers
  (\<open>int.to_bytes\<close>, \<open>int.from_bytes\<close>). Here a Python string is the list of its code points and
  a byte string a list of 8-bit words, so that text outside ASCII is covered. A codec is an
  interface, the locale \<open>codec\<close>: decoding undoes encoding; it has one interpretation per codec.
\<close>

section \<open>The interface of a codec\<close>

type_synonym ustr = "nat list" \<comment> \<open>code points\<close>
type_synonym bytes = "8 word list"

locale codec =
  fixes enc :: "'a \<Rightarrow> 'b option" and dec :: "'b \<Rightarrow> 'a option"
  assumes dec_enc: "enc x = Some y \<Longrightarrow> dec y = Some x"
begin

lemma enc_inj: "enc x = Some y \<Longrightarrow> enc x' = Some y \<Longrightarrow> x = x'"
  by (drule dec_enc)+ simp

lemma enc_eq_iff: "enc x = Some y \<Longrightarrow> enc x' = Some y' \<Longrightarrow> y = y' \<longleftrightarrow> x = x'"
  using enc_inj by auto

end

definition nat_byte :: "nat \<Rightarrow> 8 word" where
  "nat_byte n = word_of_nat n"

lemma unat_nat_byte [simp]: "unat (nat_byte n) = n mod 256"
  by (simp add: nat_byte_def unat_of_nat)

lemma nat_byte_unat [simp]: "nat_byte (unat b) = b"
  by (simp add: nat_byte_def)

lemma unat_byte_less [simp]: "unat (b :: 8 word) < 256"
  using unsigned_less [of b] by simp

lemma map_nat_byte_unat [simp]: "map (nat_byte \<circ> unat) bs = bs"
  by (induction bs) auto

lemma map_unat_nat_byte: "\<forall>n \<in> set ns. n < 256 \<Longrightarrow> map (unat \<circ> nat_byte) ns = ns"
  by (induction ns) auto

section \<open>UTF-8\<close>

definition utf8_point :: "nat \<Rightarrow> nat list option" where
  \<comment> \<open>surrogates and numbers above the last code point have no encoding\<close>
  "utf8_point c =
     (if c < 0x80 then Some [c]
      else if c < 0x800 then Some [0xC0 + c div 64, 0x80 + c mod 64]
      else if 0xD800 \<le> c \<and> c < 0xE000 then None
      else if c < 0x10000 then Some [0xE0 + c div 4096, 0x80 + c div 64 mod 64, 0x80 + c mod 64]
      else if c < 0x110000 then
        Some [0xF0 + c div 262144, 0x80 + c div 4096 mod 64, 0x80 + c div 64 mod 64, 0x80 + c mod 64]
      else None)"

fun utf8_points :: "ustr \<Rightarrow> nat list option" where
  "utf8_points [] = Some []"
| "utf8_points (c # cs) = (case utf8_point c of None \<Rightarrow> None
     | Some a \<Rightarrow> map_option ((@) a) (utf8_points cs))"

definition utf8_encode :: "ustr \<Rightarrow> bytes option" where
  "utf8_encode s = map_option (map nat_byte) (utf8_points s)"

definition is_cont :: "nat \<Rightarrow> bool" where
  "is_cont b = (0x80 \<le> b \<and> b < 0xC0)"

fun utf8_step :: "nat list \<Rightarrow> (nat \<times> nat list) option" where
  \<comment> \<open>the first code point and the bytes behind it; overlong forms are refused\<close>
  "utf8_step (a # r) =
     (if a < 0x80 then Some (a, r)
      else if a < 0xC2 then None
      else if a < 0xE0 then
        (case r of b # r' \<Rightarrow> if is_cont b then Some ((a - 0xC0) * 64 + (b - 0x80), r') else None | _ \<Rightarrow> None)
      else if a < 0xF0 then
        (case r of b # c # r' \<Rightarrow>
           (let p = (a - 0xE0) * 4096 + (b - 0x80) * 64 + (c - 0x80) in
            if is_cont b \<and> is_cont c \<and> 0x800 \<le> p \<and> \<not> (0xD800 \<le> p \<and> p < 0xE000) then Some (p, r') else None)
         | _ \<Rightarrow> None)
      else if a < 0xF5 then
        (case r of b # c # d # r' \<Rightarrow>
           (let p = (a - 0xF0) * 262144 + (b - 0x80) * 4096 + (c - 0x80) * 64 + (d - 0x80) in
            if is_cont b \<and> is_cont c \<and> is_cont d \<and> 0x10000 \<le> p \<and> p < 0x110000 then Some (p, r') else None)
         | _ \<Rightarrow> None)
      else None)"
| "utf8_step [] = None"

lemma utf8_step_shorter: "utf8_step bs = Some (c, r) \<Longrightarrow> length r < length bs"
  by (cases bs) (auto simp: Let_def split: if_splits list.splits)

function utf8_unpoints :: "nat list \<Rightarrow> ustr option" where
  "utf8_unpoints bs = (if bs = [] then Some [] else
     (case utf8_step bs of None \<Rightarrow> None | Some (c, r) \<Rightarrow> map_option ((#) c) (utf8_unpoints r)))"
  by pat_completeness auto
termination
  by (relation "measure length") (auto dest: utf8_step_shorter)

declare utf8_unpoints.simps [simp del]

definition utf8_decode :: "bytes \<Rightarrow> ustr option" where
  "utf8_decode bs = utf8_unpoints (map unat bs)"

lemma split_base64_digits:
  fixes c :: nat
  shows "c div 4096 * 4096 + c div 64 mod 64 * 64 + c mod 64 = c"
    and "c div 262144 * 262144 + c div 4096 mod 64 * 4096 + c div 64 mod 64 * 64 + c mod 64 = c"
proof -
  have d: "c div 4096 = c div 64 div 64" "c div 262144 = c div 64 div 64 div 64"
    by (simp_all add: div_mult2_eq [symmetric])
  have one: "c div 64 * 64 + c mod 64 = c" for c :: nat
    by simp
  show "c div 4096 * 4096 + c div 64 mod 64 * 64 + c mod 64 = c"
    using one [of c] one [of "c div 64"] d by linarith
  show "c div 262144 * 262144 + c div 4096 mod 64 * 4096 + c div 64 mod 64 * 64 + c mod 64 = c"
    unfolding d using one [of c] one [of "c div 64"] one [of "c div 64 div 64"] by linarith
qed

lemma utf8_step_point: "utf8_point c = Some a \<Longrightarrow> utf8_step (a @ r) = Some (c, r)"
proof -
  assume a: "utf8_point c = Some a"
  consider "c < 0x80" | "0x80 \<le> c" "c < 0x800" | "0x800 \<le> c" "c < 0x10000" "\<not> (0xD800 \<le> c \<and> c < 0xE000)"
    | "0x10000 \<le> c" "c < 0x110000"
    using a by (fastforce simp: utf8_point_def split: if_splits)
  then show ?thesis
  proof cases
    case 1 then show ?thesis using a by (auto simp: utf8_point_def)
  next
    case 2
    have "2 \<le> c div 64" "c div 64 < 32" using 2 by auto
    then show ?thesis using a 2 div_mult_mod_eq [of c 64] by (auto simp: utf8_point_def is_cont_def)
  next
    case 3
    have "c div 4096 < 16" using 3 by auto
    then show ?thesis using a 3 split_base64_digits(1) [of c] by (auto simp: utf8_point_def is_cont_def Let_def)
  next
    case 4
    have "c div 262144 < 5" using 4 by auto
    then show ?thesis using a 4 split_base64_digits(2) [of c] by (auto simp: utf8_point_def is_cont_def Let_def)
  qed
qed

lemma utf8_point_bytes: "utf8_point c = Some a \<Longrightarrow> \<forall>n \<in> set a. n < 256"
proof -
  assume a: "utf8_point c = Some a"
  have "c < 0x110000" using a by (auto simp: utf8_point_def split: if_splits)
  then have "c < 0x800 \<Longrightarrow> c div 64 < 32" "c < 0x10000 \<Longrightarrow> c div 4096 < 16" "c div 262144 < 5"
    "c mod 64 < 64" "c div 64 mod 64 < 64" "c div 4096 mod 64 < 64" by auto
  then show ?thesis using a by (auto simp: utf8_point_def split: if_splits)
qed

lemma utf8_points_bytes: "utf8_points s = Some ns \<Longrightarrow> \<forall>n \<in> set ns. n < 256"
  by (induction s arbitrary: ns) (fastforce split: option.splits dest: utf8_point_bytes)+

lemma utf8_unpoints_points: "utf8_points s = Some ns \<Longrightarrow> utf8_unpoints ns = Some s"
proof (induction s arbitrary: ns)
  case Nil
  then show ?case by (simp add: utf8_unpoints.simps)
next
  case (Cons c s)
  then obtain a ms where a: "utf8_point c = Some a" and ms: "utf8_points s = Some ms" and ns: "ns = a @ ms"
    by (auto split: option.splits)
  have "ns \<noteq> []" using utf8_step_point [OF a, of ms] ns by auto
  then show ?case
    using utf8_step_point [OF a, of ms] Cons.IH [OF ms] ns by (subst utf8_unpoints.simps) simp
qed

interpretation utf8: codec utf8_encode utf8_decode
proof unfold_locales
  fix s bs assume "utf8_encode s = Some bs"
  then obtain ns where ns: "utf8_points s = Some ns" and bs: "bs = map nat_byte ns"
    by (auto simp: utf8_encode_def)
  have "map unat bs = ns" using map_unat_nat_byte [OF utf8_points_bytes [OF ns]] bs by simp
  then show "utf8_decode bs = Some s" using utf8_unpoints_points [OF ns] by (simp add: utf8_decode_def)
qed

section \<open>Base64\<close>

definition b64_char :: "nat \<Rightarrow> nat" where
  \<comment> \<open>the letter of a digit: A-Z, a-z, 0-9, plus and slash\<close>
  "b64_char v = (if v < 26 then 65 + v else if v < 52 then 71 + v else if v < 62 then v - 4
     else if v = 62 then 43 else 47)"

definition b64_value :: "nat \<Rightarrow> nat option" where
  "b64_value c = (if 65 \<le> c \<and> c \<le> 90 then Some (c - 65) else if 97 \<le> c \<and> c \<le> 122 then Some (c - 71)
     else if 48 \<le> c \<and> c \<le> 57 then Some (c + 4) else if c = 43 then Some 62 else if c = 47 then Some 63
     else None)"

abbreviation b64_pad :: nat where "b64_pad \<equiv> 61"

fun b64_text :: "nat list \<Rightarrow> ustr" where
  "b64_text [] = []"
| "b64_text [a] = [b64_char (a div 4), b64_char (a mod 4 * 16), b64_pad, b64_pad]"
| "b64_text [a, b] = [b64_char (a div 4), b64_char (a mod 4 * 16 + b div 16), b64_char (b mod 16 * 4), b64_pad]"
| "b64_text (a # b # c # r) =
     b64_char (a div 4) # b64_char (a mod 4 * 16 + b div 16) # b64_char (b mod 16 * 4 + c div 64)
       # b64_char (c mod 64) # b64_text r"

definition b64encode :: "bytes \<Rightarrow> ustr" where
  "b64encode bs = b64_text (map unat bs)"

fun b64_run :: "nat \<Rightarrow> nat \<Rightarrow> nat \<Rightarrow> ustr \<Rightarrow> nat list option" where
  \<comment> \<open>position in the group of four, padding seen, bits left over; a letter outside the alphabet
      is skipped, a group closed by padding ends the data\<close>
  "b64_run q p l [] = (if q = 0 then Some [] else None)"
| "b64_run q p l (c # cs) =
     (if c = b64_pad then
        (if q < 2 then b64_run q p l cs else if 4 \<le> q + Suc p then Some [] else b64_run q (Suc p) l cs)
      else (case b64_value c of
          None \<Rightarrow> b64_run q p l cs
        | Some v \<Rightarrow>
            if q = 0 then b64_run 1 0 v cs
            else if q = 1 then map_option ((#) (l * 4 + v div 16)) (b64_run 2 0 (v mod 16) cs)
            else if q = 2 then map_option ((#) (l * 16 + v div 4)) (b64_run 3 0 (v mod 4) cs)
            else map_option ((#) (l * 64 + v)) (b64_run 0 0 0 cs)))"

definition b64decode :: "ustr \<Rightarrow> bytes option" where
  \<comment> \<open>a letter outside ASCII raises\<close>
  "b64decode s = (if \<exists>c \<in> set s. 128 \<le> c then None else map_option (map nat_byte) (b64_run 0 0 0 s))"

lemma b64_char_value [simp]: "v < 64 \<Longrightarrow> b64_value (b64_char v) = Some v"
  by (auto simp: b64_char_def b64_value_def)

lemma b64_char_not_pad [simp]: "v < 64 \<Longrightarrow> b64_char v \<noteq> b64_pad"
  by (auto simp: b64_char_def)

lemma b64_char_ascii [simp]: "b64_char v < 128"
  by (auto simp: b64_char_def)

lemma b64_text_ascii: "c \<in> set (b64_text ns) \<Longrightarrow> c < 128"
  by (induction ns rule: b64_text.induct) auto

lemma b64_run_text: "\<forall>n \<in> set ns. n < 256 \<Longrightarrow> b64_run 0 0 l (b64_text ns) = Some ns"
proof (induction ns arbitrary: l rule: b64_text.induct)
  case (2 a)
  then have "a div 4 < 64" "a mod 4 * 16 < 64" "a div 4 * 4 + a mod 4 = a" by auto
  then show ?case by simp
next
  case (3 a b)
  then have "a div 4 < 64" "a mod 4 * 16 + b div 16 < 64" "b mod 16 * 4 < 64"
    "(a mod 4 * 16 + b div 16) div 16 = a mod 4" "(a mod 4 * 16 + b div 16) mod 16 = b div 16"
    "a div 4 * 4 + a mod 4 = a" "b div 16 * 16 + b mod 16 = b" by auto
  then show ?case by simp
next
  case (4 a b c r)
  then have "a div 4 < 64" "a mod 4 * 16 + b div 16 < 64" "b mod 16 * 4 + c div 64 < 64" "c mod 64 < 64"
    "(a mod 4 * 16 + b div 16) div 16 = a mod 4" "(a mod 4 * 16 + b div 16) mod 16 = b div 16"
    "(b mod 16 * 4 + c div 64) div 4 = b mod 16" "(b mod 16 * 4 + c div 64) mod 4 = c div 64"
    "a div 4 * 4 + a mod 4 = a" "b div 16 * 16 + b mod 16 = b" "c div 64 * 64 + c mod 64 = c" by auto
  then show ?case using 4 by simp
qed simp

lemma b64decode_encode [simp]: "b64decode (b64encode bs) = Some bs"
proof -
  have "b64_run 0 0 0 (b64_text (map unat bs)) = Some (map unat bs)" by (rule b64_run_text) auto
  then show ?thesis using b64_text_ascii [of _ "map unat bs"]
    by (fastforce simp: b64decode_def b64encode_def not_le)
qed

interpretation base64: codec "\<lambda>bs. Some (b64encode bs)" b64decode
  by unfold_locales auto

section \<open>Big-endian integers\<close>

definition to_bytes4 :: "nat \<Rightarrow> bytes option" where
  \<comment> \<open>\<open>n.to_bytes(4, "big")\<close> raises from 2 to the 32 on\<close>
  "to_bytes4 n = (if n < 2 ^ 32
     then Some [nat_byte (n div 2 ^ 24), nat_byte (n div 2 ^ 16), nat_byte (n div 2 ^ 8), nat_byte n] else None)"

definition from_bytes :: "bytes \<Rightarrow> nat" where
  "from_bytes bs = foldl (\<lambda>n b. 256 * n + unat b) 0 bs"

interpretation int4: codec to_bytes4 "\<lambda>bs. Some (from_bytes bs)"
proof unfold_locales
  fix n bs assume a: "to_bytes4 n = Some bs"
  then have n: "n < 4294967296" by (simp add: to_bytes4_def split: if_splits)
  have "256 * (256 * (256 * (n div 16777216 mod 256) + n div 65536 mod 256) + n div 256 mod 256) + n mod 256 = n"
  proof -
    have d: "n div 65536 = n div 256 div 256" "n div 16777216 = n div 256 div 256 div 256"
      by (simp_all add: div_mult2_eq [symmetric])
    have one: "m div 256 * 256 + m mod 256 = m" for m :: nat by simp
    have "n div 16777216 < 256" using n by auto
    then show ?thesis
      using one [of n] one [of "n div 256"] one [of "n div 256 div 256"] d by simp
  qed
  then show "Some (from_bytes bs) = Some n" using a by (auto simp: to_bytes4_def from_bytes_def split: if_splits)
qed

lemma length_to_bytes4: "to_bytes4 n = Some bs \<Longrightarrow> length bs = 4"
  by (auto simp: to_bytes4_def split: if_splits)

end
