(* ===== verification/Encryption.thy ===== *)
theory Encryption
  imports Interfaces Py_Codecs
begin

text \<open>
  The encryption of stored fields, \<open>services/shared/security/encryption.py\<close>: an
  \<open>EncryptionManager\<close> derives versioned keys from a master key, rotates them, and encrypts text
  under a label. HKDF and AES-GCM of the \<open>cryptography\<close> package are parameters (\<open>crypto_lib\<close>);
  what the theorems need of AES-GCM is named: \<open>aead_opens\<close> (opening gives the sealed text back)
  and \<open>aead_binds\<close> (it opens under no other associated data). Salts and nonces of \<open>os.urandom\<close>
  are arguments. The lemmas show that rotation keeps old data readable, what the label of a field
  separates and what it does not, and that a restart forgets the rotated keys.
\<close>

section \<open>The cryptographic library\<close>

record crypto_lib =
  has_crypto :: bool \<comment> \<open>the package is installed\<close>
  hkdf :: "bytes option \<Rightarrow> bytes \<Rightarrow> bytes \<Rightarrow> bytes option" \<comment> \<open>salt, info, master key; None when it raises\<close>
  seal :: "bytes \<Rightarrow> bytes \<Rightarrow> bytes \<Rightarrow> bytes \<Rightarrow> bytes option" \<comment> \<open>key, nonce, data, associated data\<close>
  unseal :: "bytes \<Rightarrow> bytes \<Rightarrow> bytes \<Rightarrow> bytes \<Rightarrow> bytes option" \<comment> \<open>key, nonce, sealed data, associated data\<close>

definition aead_opens :: "crypto_lib \<Rightarrow> bool" where
  "aead_opens L \<longleftrightarrow> (\<forall>k n p a c. seal L k n p a = Some c \<longrightarrow> unseal L k n c a = Some p)"

definition aead_binds :: "crypto_lib \<Rightarrow> bool" where
  "aead_binds L \<longleftrightarrow> (\<forall>k n p a c a'. seal L k n p a = Some c \<longrightarrow> a' \<noteq> a \<longrightarrow> unseal L k n c a' = None)"

section \<open>The manager\<close>

record encryption_manager =
  em_master :: bytes
  em_ring :: "(nat, bytes) pydict"
  em_version :: nat
  em_ready :: bool

definition encryption_info :: "nat \<Rightarrow> bytes" where
  "encryption_info v = map (nat_byte \<circ> of_char) (''polarisgate-encryption-v'' @ show_nat v)"

definition initialize_key_ring :: "crypto_lib \<Rightarrow> encryption_manager \<Rightarrow> encryption_manager" where
  "initialize_key_ring L m =
     (if \<not> has_crypto L then m
      else case hkdf L None (encryption_info 0) (em_master m) of
          None \<Rightarrow> m
        | Some k \<Rightarrow> m\<lparr>em_ring := dict_set 0 k (em_ring m), em_version := 0, em_ready := True\<rparr>)"

definition new_manager :: "crypto_lib \<Rightarrow> bytes option \<Rightarrow> ustr \<Rightarrow> py_error + encryption_manager" where
  \<comment> \<open>the master key given, else the environment variable in base64\<close>
  "new_manager L given env =
     (let start = (\<lambda>master. let m = \<lparr>em_master = master, em_ring = [], em_version = 0, em_ready = False\<rparr>
                    in if master \<noteq> [] then initialize_key_ring L m else m)
      in case given of
          Some (b # bs) \<Rightarrow> Inr (start (b # bs))
        | _ \<Rightarrow> (case b64decode env of None \<Rightarrow> Inl ValueError | Some master \<Rightarrow> Inr (start master)))"

definition rotate_encryption_key :: "crypto_lib \<Rightarrow> bytes \<Rightarrow> encryption_manager \<Rightarrow> (py_error + nat) \<times> encryption_manager" where
  "rotate_encryption_key L salt m =
     (if \<not> has_crypto L \<or> em_master m = [] then (Inr (em_version m), m)
      else let v = em_version m + 1 in
        case hkdf L (Some salt) (encryption_info v) (em_master m) of
          None \<Rightarrow> (Inl ValueError, m)
        | Some k \<Rightarrow> (Inr v, m\<lparr>em_ring := dict_set v k (em_ring m), em_version := v\<rparr>))"

definition associated :: "bytes option \<Rightarrow> bytes" where
  \<comment> \<open>\<open>associated_data or b""\<close>\<close>
  "associated aad = (case aad of None \<Rightarrow> [] | Some a \<Rightarrow> a)"

definition encrypt :: "crypto_lib \<Rightarrow> bytes \<Rightarrow> encryption_manager \<Rightarrow> ustr \<Rightarrow> bytes option \<Rightarrow> ustr option" where
  "encrypt L nonce m plaintext aad =
     (if \<not> em_ready m \<or> \<not> has_crypto L then Some plaintext
      else case dict_get (em_ring m) (em_version m) of None \<Rightarrow> None
      | Some key \<Rightarrow> (case utf8_encode plaintext of None \<Rightarrow> None
      | Some p \<Rightarrow> (case seal L key nonce p (associated aad) of None \<Rightarrow> None
      | Some ciphertext \<Rightarrow> (case to_bytes4 (em_version m) of None \<Rightarrow> None
      | Some version_bytes \<Rightarrow> Some (b64encode (version_bytes @ nonce @ ciphertext))))))"

definition decrypt :: "crypto_lib \<Rightarrow> encryption_manager \<Rightarrow> ustr \<Rightarrow> bytes option \<Rightarrow> ustr option" where
  "decrypt L m data aad =
     (if \<not> em_ready m \<or> \<not> has_crypto L then Some data
      else case b64decode data of None \<Rightarrow> None
      | Some payload \<Rightarrow>
          (case dict_get (em_ring m) (from_bytes (take 4 payload)) of None \<Rightarrow> None
           | Some key \<Rightarrow>
               (case unseal L key (take 12 (drop 4 payload)) (drop 16 payload) (associated aad) of
                  None \<Rightarrow> None
                | Some p \<Rightarrow> utf8_decode p)))"

definition field_label :: "ustr \<Rightarrow> ustr \<Rightarrow> ustr" where
  \<comment> \<open>\<open>f"{record_id}:{field_name}"\<close>\<close>
  "field_label record_id field_name = record_id @ [58] @ field_name"

definition encrypt_field ::
  "crypto_lib \<Rightarrow> bytes \<Rightarrow> encryption_manager \<Rightarrow> ustr \<Rightarrow> ustr \<Rightarrow> ustr \<Rightarrow> py_error + ustr option" where
  "encrypt_field L nonce m record_id field_name v =
     (case utf8_encode (field_label record_id field_name) of
        None \<Rightarrow> Inl ValueError
      | Some aad \<Rightarrow> Inr (encrypt L nonce m v (Some aad)))"

definition decrypt_field ::
  "crypto_lib \<Rightarrow> encryption_manager \<Rightarrow> ustr \<Rightarrow> ustr \<Rightarrow> ustr \<Rightarrow> py_error + ustr option" where
  "decrypt_field L m record_id field_name v =
     (case utf8_encode (field_label record_id field_name) of
        None \<Rightarrow> Inl ValueError
      | Some aad \<Rightarrow> Inr (decrypt L m v (Some aad)))"

record encryption_health =
  eh_status :: string
  eh_version :: nat
  eh_keys :: nat
  eh_library :: bool

definition encryption_health_check :: "crypto_lib \<Rightarrow> encryption_manager \<Rightarrow> encryption_health" where
  "encryption_health_check L m =
     \<lparr>eh_status = (if em_ready m then ''healthy'' else ''unavailable''), eh_version = em_version m,
      eh_keys = length (em_ring m), eh_library = has_crypto L\<rparr>"

section \<open>The shared manager\<close>

definition get_encryption_manager ::
  "crypto_lib \<Rightarrow> ustr \<Rightarrow> encryption_manager option \<Rightarrow> (py_error + encryption_manager) \<times> encryption_manager option" where
  "get_encryption_manager L env single =
     (case single of
        Some m \<Rightarrow> (Inr m, single)
      | None \<Rightarrow> (case new_manager L None env of Inl e \<Rightarrow> (Inl e, None) | Inr m \<Rightarrow> (Inr m, Some m)))"

definition encrypt_pii ::
  "crypto_lib \<Rightarrow> ustr \<Rightarrow> bytes \<Rightarrow> ustr \<Rightarrow> ustr \<Rightarrow> ustr \<Rightarrow> encryption_manager option
   \<Rightarrow> (py_error + ustr option) \<times> encryption_manager option" where
  "encrypt_pii L env nonce r f v single =
     (case get_encryption_manager L env single of
        (Inl e, single') \<Rightarrow> (Inl e, single')
      | (Inr m, single') \<Rightarrow> (encrypt_field L nonce m r f v, single'))"

definition decrypt_pii ::
  "crypto_lib \<Rightarrow> ustr \<Rightarrow> ustr \<Rightarrow> ustr \<Rightarrow> ustr \<Rightarrow> encryption_manager option
   \<Rightarrow> (py_error + ustr option) \<times> encryption_manager option" where
  "decrypt_pii L env r f v single =
     (case get_encryption_manager L env single of
        (Inl e, single') \<Rightarrow> (Inl e, single')
      | (Inr m, single') \<Rightarrow> (decrypt_field L m r f v, single'))"

section \<open>Rotation keeps the old keys\<close>

abbreviation rotate_once :: "crypto_lib \<Rightarrow> encryption_manager \<Rightarrow> bytes \<Rightarrow> encryption_manager" where
  "rotate_once L m salt \<equiv> snd (rotate_encryption_key L salt m)"

abbreviation rotated :: "crypto_lib \<Rightarrow> encryption_manager \<Rightarrow> bytes list \<Rightarrow> encryption_manager" where
  "rotated L \<equiv> foldl (rotate_once L)"

interpretation ready_run: run_invariant "rotate_once L" "\<lambda>_ _. True" "\<lambda>m. em_ready m = b" for L b
  by unfold_locales (auto simp: rotate_encryption_key_def Let_def split: option.splits)

interpretation ring_run: run_invariant "rotate_once L" "\<lambda>_ _. True"
  "\<lambda>m. v \<le> em_version m \<and> dict_get (em_ring m) v = Some k" for L v k
  by unfold_locales (auto simp: rotate_encryption_key_def Let_def split: option.splits)

lemma rotated_ready [simp]: "em_ready (rotated L m salts) = em_ready m"
  using ready_run.run_inv_always [of m "em_ready m" salts] by simp

lemma rotated_ring:
  "dict_get (em_ring m) (em_version m) = Some k \<Longrightarrow> dict_get (em_ring (rotated L m salts)) (em_version m) = Some k"
  using ring_run.run_inv_always [of "em_version m" m k salts] by simp

lemma encrypt_SomeE:
  assumes "encrypt L nonce m p aad = Some c" "em_ready m" "has_crypto L"
  obtains k pb ct vb where "dict_get (em_ring m) (em_version m) = Some k" "utf8_encode p = Some pb"
    "seal L k nonce pb (associated aad) = Some ct" "to_bytes4 (em_version m) = Some vb"
    "c = b64encode (vb @ nonce @ ct)"
  using assms by (auto simp: encrypt_def split: option.splits)

lemma decrypt_payload:
  assumes "em_ready m" "has_crypto L" "to_bytes4 v = Some vb" "length nonce = 12"
  shows "decrypt L m (b64encode (vb @ nonce @ ct)) aad =
    (case dict_get (em_ring m) v of None \<Rightarrow> None
     | Some k \<Rightarrow> (case unseal L k nonce ct (associated aad) of None \<Rightarrow> None | Some p \<Rightarrow> utf8_decode p))"
proof -
  have "length vb = 4" by (rule length_to_bytes4 [OF assms(3)])
  moreover have "from_bytes vb = v" using int4.dec_enc [OF assms(3)] by simp
  ultimately have parts: "drop 4 (vb @ nonce @ ct) = nonce @ ct" "drop 16 (vb @ nonce @ ct) = ct"
    "take 4 (vb @ nonce @ ct) = vb" "take 12 (nonce @ ct) = nonce" "from_bytes vb = v"
    using assms(4) by simp_all
  show ?thesis using assms(1,2) unfolding decrypt_def b64decode_encode option.case parts by simp
qed

lemma encrypt_unavailable: "\<not> (em_ready m \<and> has_crypto L) \<Longrightarrow> encrypt L nonce m p aad = Some p"
  and decrypt_unavailable: "\<not> (em_ready m \<and> has_crypto L) \<Longrightarrow> decrypt L m c aad = Some c"
  by (auto simp: encrypt_def decrypt_def)


lemma decrypt_encrypted:
  assumes "em_ready m" "has_crypto L" "length nonce = 12" "encrypt L nonce m p aad = Some c"
    and opens: "aead_opens L" and binds: "aead_binds L \<or> associated aad' = associated aad"
  shows "decrypt L (rotated L m salts) c aad' = (if associated aad' = associated aad then Some p else None)"
proof -
  from assms(4,1,2) obtain k pb ct vb where k: "dict_get (em_ring m) (em_version m) = Some k"
    and pb: "utf8_encode p = Some pb" and ct: "seal L k nonce pb (associated aad) = Some ct"
    and vb: "to_bytes4 (em_version m) = Some vb" and c: "c = b64encode (vb @ nonce @ ct)"
    by (rule encrypt_SomeE)
  have "unseal L k nonce ct (associated aad') = (if associated aad' = associated aad then Some pb else None)"
    using opens binds ct by (auto simp: aead_opens_def aead_binds_def)
  then show ?thesis
    using decrypt_payload [of "rotated L m salts" L, OF _ assms(2) vb assms(3)] rotated_ring [OF k]
      assms(1) utf8.dec_enc [OF pb] c by simp
qed

section \<open>A library that keeps the laws\<close>

definition marked :: "bytes \<Rightarrow> bytes" where
  "marked a = concat (map (\<lambda>b. [1, b]) a) @ [0]"

definition sample_crypto :: crypto_lib where
  \<comment> \<open>the associated data is written in front of the data, and compared when it is opened\<close>
  "sample_crypto = \<lparr>has_crypto = True,
     hkdf = (\<lambda>salt info master. Some (case salt of None \<Rightarrow> master | Some s \<Rightarrow> s @ master)),
     seal = (\<lambda>k n p a. Some (marked a @ p)),
     unseal = (\<lambda>k n c a. if take (length (marked a)) c = marked a then Some (drop (length (marked a)) c) else None)\<rparr>"

lemma marked_prefix: "take (length (marked a')) (marked a @ p) = marked a' \<Longrightarrow> a' = a"
  by (induction a a' rule: list_induct2') (auto simp: marked_def)

lemma sample_crypto_laws: "aead_opens sample_crypto" "aead_binds sample_crypto"
proof -
  show "aead_opens sample_crypto" by (simp add: aead_opens_def sample_crypto_def)
  show "aead_binds sample_crypto"
    by (auto simp: aead_binds_def sample_crypto_def simp del: take_append dest: marked_prefix)
qed

definition sample_manager :: encryption_manager where
  "sample_manager = \<lparr>em_master = [7], em_ring = [(0, [7])], em_version = 0, em_ready = True\<rparr>"

lemma sample_manager_new: "new_manager sample_crypto (Some [7]) [] = Inr sample_manager"
  by (simp add: new_manager_def initialize_key_ring_def sample_crypto_def sample_manager_def)

definition sample_text :: ustr where
  "sample_text = [83, 233, 8364]" \<comment> \<open>a letter of one, of two and of three bytes\<close>

lemma sample_text_utf8: "utf8_encode sample_text = Some (map nat_byte [83, 195, 169, 226, 130, 172])"
  by (simp add: utf8_encode_def utf8_point_def sample_text_def)

lemma sample_encrypts:
  "encrypt sample_crypto (replicate 12 3) sample_manager sample_text aad =
     Some (b64encode (map nat_byte [0, 0, 0, 0] @ replicate 12 3
       @ marked (associated aad) @ map nat_byte [83, 195, 169, 226, 130, 172]))"
  by (simp add: encrypt_def sample_crypto_def sample_manager_def sample_text_utf8 to_bytes4_def)

section \<open>Properties\<close>

text \<open>
  C28: Encrypted data stays readable: what the manager encrypted, with any text that has an encoding and any associated data, it decrypts to
  the same text after any number of rotations, in whatever state of the library they ran (a rotation that raises included), and
  also when encryption is not available.
\<close>

theorem old_ciphertexts_readable:
  assumes "aead_opens L" "length nonce = 12" "encrypt L nonce m p aad = Some c"
  shows "decrypt L (rotated L m salts) c aad = Some p"
proof (cases "em_ready m \<and> has_crypto L")
  case True
  then show ?thesis using decrypt_encrypted [OF _ _ assms(2,3,1)] by simp
next
  case False
  then show ?thesis using assms(3) by (simp add: encrypt_unavailable decrypt_unavailable)
qed

theorem old_ciphertexts_readable_witness:
  "\<exists>c. encrypt sample_crypto (replicate 12 3) sample_manager sample_text None = Some c
     \<and> decrypt sample_crypto (rotated sample_crypto sample_manager [[1], [2]]) c None = Some sample_text"
  using old_ciphertexts_readable [OF sample_crypto_laws(1) _ sample_encrypts, where aad = None and salts = "[[1], [2]]"] sample_encrypts [of None]
  by simp

text \<open>
  C29: The label of an encrypted field: a value that was encrypted for one record and field decrypts, for any record and field, exactly when
  the two labels are the same text, else the answer is None. The label joins the two names with a colon, so that names with
  colons are confused: record \<open>a:b\<close>, field \<open>c\<close> and record \<open>a\<close>, field \<open>b:c\<close> have the same label.
\<close>

theorem field_label_decides:
  assumes "aead_opens L" "aead_binds L" "length nonce = 12" "em_ready m" "has_crypto L"
    and "encrypt_field L nonce m r f v = Inr (Some c)" "utf8_encode (field_label r' f') \<noteq> None"
  shows "decrypt_field L (rotated L m salts) r' f' c = Inr (if field_label r' f' = field_label r f then Some v else None)"
proof -
  obtain a where a: "utf8_encode (field_label r f) = Some a" and e: "encrypt L nonce m v (Some a) = Some c"
    using assms(6) by (auto simp: encrypt_field_def split: option.splits)
  obtain a' where a': "utf8_encode (field_label r' f') = Some a'" using assms(7) by auto
  have "associated (Some a') = associated (Some a) \<longleftrightarrow> field_label r' f' = field_label r f"
    using utf8.enc_eq_iff [OF a' a] by (simp add: associated_def)
  then show ?thesis
    using decrypt_encrypted [OF assms(4,5,3) e assms(1), of "Some a'"] assms(2) a' by (simp add: decrypt_field_def)
qed

theorem field_label_decides_witness:
  "\<exists>c. encrypt_field sample_crypto (replicate 12 3) sample_manager [97, 58, 98] [99] sample_text = Inr (Some c)
     \<and> decrypt_field sample_crypto (rotated sample_crypto sample_manager [[1]]) [97] [98, 58, 99] c = Inr (Some sample_text)
     \<and> decrypt_field sample_crypto (rotated sample_crypto sample_manager [[1]]) [97] [99] c = Inr None"
proof -
  have u: "utf8_encode (field_label [97, 58, 98] [99]) \<noteq> None" "utf8_encode (field_label [97] [98, 58, 99]) \<noteq> None"
    "utf8_encode (field_label [97] [99]) \<noteq> None"
    by (simp_all add: utf8_encode_def utf8_point_def field_label_def)
  then obtain c where c: "encrypt_field sample_crypto (replicate 12 3) sample_manager [97, 58, 98] [99] sample_text = Inr (Some c)"
    using sample_encrypts by (auto simp: encrypt_field_def)
  have l: "field_label [97] [98, 58, 99] = field_label [97, 58, 98] [99]" "field_label [97] [99] \<noteq> field_label [97, 58, 98] [99]"
    by (simp_all add: field_label_def)
  have s: "length (replicate 12 (3 :: 8 word)) = 12" "em_ready sample_manager" "has_crypto sample_crypto"
    by (simp_all add: sample_manager_def sample_crypto_def)
  show ?thesis
    using field_label_decides [OF sample_crypto_laws s c u(2), where salts = "[[1]]"] field_label_decides [OF sample_crypto_laws s c u(3), where salts = "[[1]]"] c l
    by auto
qed

text \<open>
  A restart forgets the rotated keys: their salts are stored nowhere, so that a process that starts again with the same master key
  decrypts nothing that was encrypted after a rotation, under any associated data.
\<close>

theorem restart_loses_rotated:
  assumes "new_manager L given env = Inr m0" "em_ready m0" "length nonce = 12"
    and "em_version (rotated L m0 salts) > 0" "encrypt L nonce (rotated L m0 salts) p aad = Some c"
    and "has_crypto L"
  shows "decrypt L m0 c aad' = None"
proof -
  from assms(5) obtain k pb ct vb where "to_bytes4 (em_version (rotated L m0 salts)) = Some vb"
    and c: "c = b64encode (vb @ nonce @ ct)"
    by (rule encrypt_SomeE) (use assms(2,6) in auto)
  moreover have "dict_get (em_ring m0) v = None" if "v > 0" for v
    using assms(1) that by (auto simp: new_manager_def initialize_key_ring_def Let_def split: option.splits list.splits if_splits)
  ultimately show ?thesis
    using decrypt_payload [OF assms(2,6) _ assms(3)] assms(4) by simp
qed

theorem restart_loses_rotated_witness:
  "\<exists>c. encrypt sample_crypto (replicate 12 3) (rotated sample_crypto sample_manager [[1]]) sample_text None = Some c
     \<and> decrypt sample_crypto sample_manager c None = None"
proof -
  have v: "em_version (rotated sample_crypto sample_manager [[1]]) > 0" "em_ready sample_manager" "has_crypto sample_crypto"
    by (simp_all add: rotate_encryption_key_def Let_def sample_manager_def sample_crypto_def)
  have "\<exists>c. encrypt sample_crypto (replicate 12 3) (rotated sample_crypto sample_manager [[1]]) sample_text None = Some c"
    by (simp add: encrypt_def rotate_encryption_key_def Let_def sample_crypto_def sample_manager_def sample_text_utf8 to_bytes4_def)
  then show ?thesis
    using restart_loses_rotated [OF sample_manager_new v(2) _ v(1) _ v(3), of "replicate 12 3"] by auto
qed

end
