(* ===== verification/Vault_Client.thy ===== *)
theory Vault_Client
  imports Interfaces
begin

text \<open>
  The client for secrets, \<open>services/shared/security/vault.py\<close>: connection, a cache with a
  lifetime, fallback to environment variables, writing and rotating secrets, and the getters for
  the secrets of the services. Vault (package \<open>hvac\<close>), the Kubernetes token file and the
  environment are the parameter \<open>vault_world\<close>, what they answer at the time of one call; times are
  arguments. The lemmas show where a secret can come from and how old it can be, and which
  variable serves as the fallback.
\<close>

section \<open>The services around the client\<close>

datatype vault_auth = NoClient | AuthRaises | Authenticated | Refused
  \<comment> \<open>the constructor raises, \<open>is_authenticated\<close> raises, answers True, answers False\<close>

record vault_health =
  vh_initialized :: bool
  vh_sealed :: bool
  vh_cluster :: string

record vault_world =
  vw_installed :: bool
  vw_auth :: vault_auth
  vw_kubernetes :: bool \<comment> \<open>the token file exists and the login with it succeeds\<close>
  vw_read :: "string \<Rightarrow> (string, string) pydict option" \<comment> \<open>None when the read raises\<close>
  vw_write :: "string \<Rightarrow> (string, string) pydict \<Rightarrow> bool"
  vw_rotate :: "string \<Rightarrow> bool"
  vw_list :: "string \<Rightarrow> string list option"
  vw_health :: "vault_health option"
  vw_env :: "string \<Rightarrow> string option"

datatype secret = Field string | Fields "(string, string) pydict"

fun truthy_secret :: "secret \<Rightarrow> bool" where
  "truthy_secret (Field s) = (s \<noteq> [])"
| "truthy_secret (Fields d) = (d \<noteq> [])"

record vault_client =
  vc_cache :: "(string, secret \<times> pyfloat) pydict" \<comment> \<open>value and expiry\<close>
  vc_ttl :: pyfloat
  vc_client :: bool \<comment> \<open>the client object exists\<close>
  vc_ready :: bool

section \<open>Connection\<close>

definition try_kubernetes_auth :: "vault_world \<Rightarrow> vault_client \<Rightarrow> bool \<times> vault_client" where
  "try_kubernetes_auth W c = (if vw_kubernetes W then (True, c\<lparr>vc_ready := True\<rparr>) else (False, c))"

definition connect :: "vault_world \<Rightarrow> vault_client \<Rightarrow> bool \<times> vault_client" where
  "connect W c =
     (if \<not> vw_installed W then (False, c)
      else if vc_client c then (True, c)
      else case vw_auth W of
          NoClient \<Rightarrow> (False, c)
        | AuthRaises \<Rightarrow> (False, c\<lparr>vc_client := True\<rparr>)
        | Authenticated \<Rightarrow> (True, c\<lparr>vc_client := True, vc_ready := True\<rparr>)
        | Refused \<Rightarrow> try_kubernetes_auth W (c\<lparr>vc_client := True\<rparr>))"

section \<open>Reading\<close>

definition key_given :: "string option \<Rightarrow> string option" where
  \<comment> \<open>an empty key counts as none\<close>
  "key_given key = (if key = Some [] then None else key)"

definition cache_key :: "string \<Rightarrow> string option \<Rightarrow> string" where
  "cache_key path key = (case key_given key of Some k \<Rightarrow> path @ '':'' @ k | None \<Rightarrow> path)"

definition env_char :: "char \<Rightarrow> char" where
  "env_char ch = (let n = of_char ch :: nat in if 97 \<le> n \<and> n \<le> 122 then char_of (n - 32) else ch)"

definition env_key :: "string \<Rightarrow> string option \<Rightarrow> string" where
  "env_key path key = (case key_given key of
     Some k \<Rightarrow> map env_char k
   | None \<Rightarrow> map (\<lambda>ch. if ch = CHR ''/'' \<or> ch = CHR ''-'' then CHR ''_'' else env_char ch) path)"

definition env_secret :: "vault_world \<Rightarrow> string \<Rightarrow> string option \<Rightarrow> secret option" where
  "env_secret W path key = (case vw_env W (env_key path key) of
     Some (ch # s) \<Rightarrow> Some (Field (ch # s)) | _ \<Rightarrow> None)"

definition cached :: "pyfloat \<Rightarrow> string \<Rightarrow> vault_client \<Rightarrow> secret option" where
  "cached now ck c = (case dict_get (vc_cache c) ck of
     None \<Rightarrow> None | Some (v, expiry) \<Rightarrow> if now < expiry then Some v else None)"

definition read_secret :: "vault_world \<Rightarrow> string \<Rightarrow> string option \<Rightarrow> secret option" where
  \<comment> \<open>what a read gives, when it does not raise and the value is not empty\<close>
  "read_secret W path key =
     (case vw_read W path of
        None \<Rightarrow> None
      | Some d \<Rightarrow>
          (let result = (case key_given key of Some k \<Rightarrow> map_option Field (dict_get d k) | None \<Rightarrow> Some (Fields d))
           in case result of None \<Rightarrow> None | Some v \<Rightarrow> if truthy_secret v then Some v else None))"

definition get_secret ::
  "vault_world \<Rightarrow> pyfloat \<Rightarrow> pyfloat \<Rightarrow> string \<Rightarrow> string option \<Rightarrow> vault_client \<Rightarrow> secret option \<times> vault_client" where
  \<comment> \<open>the time of the look into the cache and the time after the read\<close>
  "get_secret W now after path key c =
     (case cached now (cache_key path key) c of
        Some v \<Rightarrow> (Some v, c)
      | None \<Rightarrow>
          (case connect W c of
             (False, c') \<Rightarrow> (env_secret W path key, c')
           | (True, c') \<Rightarrow>
               (case read_secret W path key of
                  Some v \<Rightarrow> (Some v, c'\<lparr>vc_cache := dict_set (cache_key path key) (v, after + vc_ttl c') (vc_cache c')\<rparr>)
                | None \<Rightarrow> (env_secret W path key, c'))))"

section \<open>Writing, rotating, listing\<close>

definition invalidate :: "string \<Rightarrow> vault_client \<Rightarrow> vault_client" where
  "invalidate path c = c\<lparr>vc_cache := filter (\<lambda>(k, _). \<not> prefix path k) (vc_cache c)\<rparr>"

definition set_secret :: "vault_world \<Rightarrow> string \<Rightarrow> (string, string) pydict \<Rightarrow> vault_client \<Rightarrow> bool \<times> vault_client" where
  "set_secret W path data c =
     (case connect W c of
        (False, c') \<Rightarrow> (False, c')
      | (True, c') \<Rightarrow> if vw_write W path data then (True, invalidate path c') else (False, c'))"

definition rotate_secret :: "vault_world \<Rightarrow> string \<Rightarrow> vault_client \<Rightarrow> bool \<times> vault_client" where
  "rotate_secret W path c =
     (case connect W c of
        (False, c') \<Rightarrow> (False, c')
      | (True, c') \<Rightarrow> if vw_rotate W path then (True, invalidate path c') else (False, c'))"

definition list_secrets :: "vault_world \<Rightarrow> string \<Rightarrow> vault_client \<Rightarrow> string list \<times> vault_client" where
  "list_secrets W path c =
     (case connect W c of
        (False, c') \<Rightarrow> ([], c')
      | (True, c') \<Rightarrow> ((case vw_list W path of None \<Rightarrow> [] | Some ks \<Rightarrow> ks), c'))"

datatype vault_status = Unavailable | Unhealthy | HealthOf string bool string

definition vault_health_check :: "vault_world \<Rightarrow> vault_client \<Rightarrow> vault_status \<times> vault_client" where
  "vault_health_check W c =
     (case connect W c of
        (False, c') \<Rightarrow> (Unavailable, c')
      | (True, c') \<Rightarrow>
          ((case vw_health W of None \<Rightarrow> Unhealthy
            | Some h \<Rightarrow> HealthOf (if vh_initialized h then ''healthy'' else ''uninitialized'') (vh_sealed h) (vh_cluster h)), c'))"

section \<open>The secrets of the services\<close>

definition secret_text :: "secret option \<Rightarrow> string option" where
  \<comment> \<open>a secret read by key is a string\<close>
  "secret_text v = (case v of Some (Field s) \<Rightarrow> Some s | _ \<Rightarrow> None)"

definition secret_or :: "vault_world \<Rightarrow> secret option \<Rightarrow> string \<Rightarrow> string \<Rightarrow> string" where
  \<comment> \<open>\<open>secret or os.getenv(name, default)\<close>\<close>
  "secret_or W v name dflt = (case secret_text v of
     Some (ch # s) \<Rightarrow> ch # s
   | _ \<Rightarrow> (case vw_env W name of Some s \<Rightarrow> s | None \<Rightarrow> dflt))"

definition env_or :: "vault_world \<Rightarrow> string \<Rightarrow> string \<Rightarrow> string" where
  "env_or W name dflt = (case vw_env W name of Some s \<Rightarrow> s | None \<Rightarrow> dflt)"

definition database_path :: string where
  "database_path = ''secret/data/polarisgate/database''"

definition get_database_url :: "vault_world \<Rightarrow> pyfloat \<Rightarrow> vault_client \<Rightarrow> string \<times> vault_client" where
  "get_database_url W now c =
     (case get_secret W now now database_path (Some ''url'') c of
        (v, c1) \<Rightarrow>
          (case secret_text v of
             Some (ch # s) \<Rightarrow> (ch # s, c1)
           | _ \<Rightarrow>
               (case get_secret W now now database_path (Some ''username'') c1 of
                  (u, c2) \<Rightarrow>
                    (case get_secret W now now database_path (Some ''password'') c2 of
                       (p, c3) \<Rightarrow>
                         (''postgresql://'' @ secret_or W u ''DATABASE_USER'' ''polarisgate'' @ '':''
                            @ secret_or W p ''DATABASE_PASSWORD'' [] @ ''@'' @ env_or W ''DATABASE_HOST'' ''postgres'' @ '':''
                            @ env_or W ''DATABASE_PORT'' ''5432'' @ ''/'' @ env_or W ''DATABASE_NAME'' ''polarisgate'', c3)))))"

definition get_redis_password :: "vault_world \<Rightarrow> pyfloat \<Rightarrow> vault_client \<Rightarrow> string \<times> vault_client" where
  "get_redis_password W now c =
     (case get_secret W now now ''secret/data/polarisgate/redis'' (Some ''password'') c of
        (v, c') \<Rightarrow> (secret_or W v ''REDIS_PASSWORD'' [], c'))"

definition get_jwt_secret :: "vault_world \<Rightarrow> pyfloat \<Rightarrow> vault_client \<Rightarrow> string \<times> vault_client" where
  "get_jwt_secret W now c =
     (case get_secret W now now ''secret/data/polarisgate/jwt'' (Some ''secret'') c of
        (v, c') \<Rightarrow> (secret_or W v ''JWT_SECRET'' ''dev-secret-change-in-production'', c'))"

definition get_api_key :: "vault_world \<Rightarrow> pyfloat \<Rightarrow> string \<Rightarrow> vault_client \<Rightarrow> secret option \<times> vault_client" where
  "get_api_key W now service c =
     get_secret W now now (''secret/data/polarisgate/api-keys/'' @ service) (Some ''key'') c"


section \<open>Where a cached secret comes from\<close>

datatype vault_op =
    GetSecret vault_world pyfloat pyfloat string "string option"
  | SetSecret vault_world string "(string, string) pydict"
  | RotateSecret vault_world string

fun vault_step :: "vault_client \<Rightarrow> vault_op \<Rightarrow> vault_client" where
  "vault_step c (GetSecret W now after path key) = snd (get_secret W now after path key c)"
| "vault_step c (SetSecret W path data) = snd (set_secret W path data c)"
| "vault_step c (RotateSecret W path) = snd (rotate_secret W path c)"

fun supplies :: "pyfloat \<Rightarrow> string \<Rightarrow> vault_op \<Rightarrow> secret \<Rightarrow> pyfloat \<Rightarrow> bool" where
  \<comment> \<open>the operation can read this value, to be kept under this key until this time\<close>
  "supplies ttl ck (GetSecret W now after path key) v e \<longleftrightarrow>
     cache_key path key = ck \<and> read_secret W path key = Some v \<and> e = after + ttl"
| "supplies ttl ck _ v e \<longleftrightarrow> False"

lemma connect_keeps [simp]: "vc_cache (snd (connect W c)) = vc_cache c" "vc_ttl (snd (connect W c)) = vc_ttl c"
  by (auto simp: connect_def try_kubernetes_auth_def split: vault_auth.splits)

lemma connect_pair: "connect W c = (b, c') \<Longrightarrow> vc_cache c' = vc_cache c \<and> vc_ttl c' = vc_ttl c"
  using connect_keeps [of W c] by simp

lemma invalidate_get: "dict_get (vc_cache (invalidate path c)) k = (if prefix path k then None else dict_get (vc_cache c) k)"
proof -
  have "map_of (filter (\<lambda>(k, _). \<not> prefix path k) d) k = (if prefix path k then None else map_of d k)"
    for d :: "(string \<times> secret \<times> pyfloat) list"
    by (induction d) auto
  then show ?thesis by (simp add: invalidate_def)
qed

lemma prefix_cache_key [simp]: "prefix path (cache_key path key)"
  by (auto simp: cache_key_def split: option.splits)

lemma invalidated:
  assumes "set_secret W path data c = (True, c') \<or> rotate_secret W path c = (True, c')"
  shows "dict_get (vc_cache c') (cache_key path key) = None" "vc_ttl c' = vc_ttl c"
  using assms
  by (auto simp: set_secret_def rotate_secret_def invalidate_get split: prod.splits bool.splits if_splits dest!: connect_pair)
    (auto simp: invalidate_def)

lemma get_secret_ttl [simp]: "vc_ttl (snd (get_secret W now after path key c)) = vc_ttl c"
  using connect_pair [of W c] by (cases "connect W c") (simp add: get_secret_def split: option.split bool.split)

lemma get_secret_cache:
  "vc_cache (snd (get_secret W now after path key c)) = vc_cache c
   \<or> (\<exists>v. read_secret W path key = Some v
        \<and> vc_cache (snd (get_secret W now after path key c)) = dict_set (cache_key path key) (v, after + vc_ttl c) (vc_cache c))"
  using connect_pair [of W c] by (cases "connect W c") (simp add: get_secret_def split: option.split bool.split)

lemma invalidate_ttl [simp]: "vc_ttl (invalidate path c) = vc_ttl c"
  by (simp add: invalidate_def)

lemma set_secret_cache:
  "vc_ttl (snd (set_secret W path data c)) = vc_ttl c \<and>
   (vc_cache (snd (set_secret W path data c)) = vc_cache c \<or>
    vc_cache (snd (set_secret W path data c)) = vc_cache (invalidate path c))"
  using connect_pair [of W c]
  by (cases "connect W c") (simp add: set_secret_def invalidate_def split: bool.split)

lemma rotate_secret_cache:
  "vc_ttl (snd (rotate_secret W path c)) = vc_ttl c \<and>
   (vc_cache (snd (rotate_secret W path c)) = vc_cache c \<or>
    vc_cache (snd (rotate_secret W path c)) = vc_cache (invalidate path c))"
  using connect_pair [of W c]
  by (cases "connect W c") (simp add: rotate_secret_def invalidate_def split: bool.split)

interpretation cache_run: run_invariant vault_step
  "\<lambda>c op. \<forall>v e. supplies ttl ck op v e \<longrightarrow> P v e"
  "\<lambda>c. vc_ttl c = ttl \<and> (\<forall>v e. dict_get (vc_cache c) ck = Some (v, e) \<longrightarrow> P v e)" for ttl ck P
proof unfold_locales
  fix c :: vault_client and op
  assume inv: "vc_ttl c = ttl \<and> (\<forall>v e. dict_get (vc_cache c) ck = Some (v, e) \<longrightarrow> P v e)"
    and ok: "\<forall>v e. supplies ttl ck op v e \<longrightarrow> P v e"
  show "vc_ttl (vault_step c op) = ttl \<and> (\<forall>v e. dict_get (vc_cache (vault_step c op)) ck = Some (v, e) \<longrightarrow> P v e)"
  proof (cases op)
    case (GetSecret W now after path key)
    from get_secret_cache [of W now after path key c] show ?thesis
    proof (elim disjE exE conjE)
      fix v assume "read_secret W path key = Some v"
        "vc_cache (snd (get_secret W now after path key c)) = dict_set (cache_key path key) (v, after + vc_ttl c) (vc_cache c)"
      then show ?thesis using inv ok GetSecret by simp
    qed (use inv GetSecret in simp)
  next
    case (SetSecret W path data)
    then show ?thesis using inv set_secret_cache [of W path data c] by (auto simp: invalidate_get split: if_splits)
  next
    case (RotateSecret W path)
    then show ?thesis using inv rotate_secret_cache [of W path c] by (auto simp: invalidate_get split: if_splits)
  qed
qed

lemma cached_since:
  assumes "dict_get (vc_cache c) ck = None" "dict_get (vc_cache (foldl vault_step c ops)) ck = Some (v, e)"
  shows "\<exists>op \<in> set ops. supplies (vc_ttl c) ck op v e"
  using cache_run.run_inv_always [of c "vc_ttl c" ck "\<lambda>v e. \<exists>op \<in> set ops. supplies (vc_ttl c) ck op v e" ops] assms by auto

lemma supplies_get: "supplies ttl ck op v e \<longleftrightarrow>
    (\<exists>W now after path key. op = GetSecret W now after path key \<and> cache_key path key = ck
       \<and> read_secret W path key = Some v \<and> e = after + ttl)"
  by (cases op) auto

lemma get_secret_source:
  assumes "fst (get_secret W now after path key c) = Some v"
  shows "cached now (cache_key path key) c = Some v \<or> read_secret W path key = Some v \<or> env_secret W path key = Some v"
  using assms by (auto simp: get_secret_def split: option.splits prod.splits bool.splits)

text \<open>
  C30: A secret is never older than its last write: after a successful write or rotation of a path, whatever is read, written and rotated
  then, a secret of this path that the client gives was read from Vault now, or by a read after the write and less than the lifetime
  of the cache ago, or is the environment variable of the same name.
\<close>

theorem secret_fresh_after_write:
  assumes "set_secret W path data c = (True, c1) \<or> rotate_secret W path c = (True, c1)"
    and "fst (get_secret W' now after path key (foldl vault_step c1 ops)) = Some v"
  shows "read_secret W' path key = Some v \<or> env_secret W' path key = Some v
    \<or> (\<exists>W0 n0 a0 path0 key0. GetSecret W0 n0 a0 path0 key0 \<in> set ops \<and> cache_key path0 key0 = cache_key path key
         \<and> read_secret W0 path0 key0 = Some v \<and> now < a0 + vc_ttl c)"
proof -
  consider "cached now (cache_key path key) (foldl vault_step c1 ops) = Some v"
    | "read_secret W' path key = Some v \<or> env_secret W' path key = Some v"
    using get_secret_source [OF assms(2)] by blast
  then show ?thesis
  proof cases
    case 1
    then obtain e where e: "dict_get (vc_cache (foldl vault_step c1 ops)) (cache_key path key) = Some (v, e)" "now < e"
      by (auto simp: cached_def split: option.splits if_splits)
    obtain op where "op \<in> set ops" "supplies (vc_ttl c) (cache_key path key) op v e"
      using cached_since [OF invalidated(1) [OF assms(1)] e(1)] invalidated(2) [OF assms(1)] by auto
    then show ?thesis using e(2) by (auto simp: supplies_get)
  qed auto
qed

definition sample_world :: "string \<Rightarrow> vault_world" where
  "sample_world secret = \<lparr>vw_installed = True, vw_auth = Authenticated, vw_kubernetes = False,
     vw_read = (\<lambda>_. Some [(''password'', secret)]), vw_write = (\<lambda>_ _. True), vw_rotate = (\<lambda>_. True), vw_list = (\<lambda>_. Some []),
     vw_health = None, vw_env = (\<lambda>_. None)\<rparr>"

definition sample_client :: vault_client where
  "sample_client = \<lparr>vc_cache = [(''db:password'', (Field ''old'', 300))], vc_ttl = 300, vc_client = True, vc_ready = True\<rparr>"

theorem secret_fresh_after_write_witness:
  "\<exists>c1. set_secret (sample_world ''new'') ''db'' [(''password'', ''new'')] sample_client = (True, c1)
     \<and> fst (get_secret (sample_world ''newer'') 20 21 ''db'' (Some ''password'')
         (foldl vault_step c1 [GetSecret (sample_world ''new'') 10 11 ''db'' (Some ''password'')])) = Some (Field ''new'')
     \<and> (20 :: real) < 11 + vc_ttl sample_client"
proof -
  obtain c1 where c1: "set_secret (sample_world ''new'') ''db'' [(''password'', ''new'')] sample_client = (True, c1)"
    by (simp add: set_secret_def connect_def sample_world_def sample_client_def)
  have g: "fst (get_secret (sample_world ''newer'') 20 21 ''db'' (Some ''password'')
         (foldl vault_step c1 [GetSecret (sample_world ''new'') 10 11 ''db'' (Some ''password'')])) = Some (Field ''new'')"
    using c1 by (auto simp: set_secret_def connect_def sample_world_def sample_client_def invalidate_def get_secret_def cached_def
        cache_key_def key_given_def read_secret_def)
  have "\<exists>W0 n0 a0 path0 key0. GetSecret W0 n0 a0 path0 key0 \<in> set [GetSecret (sample_world ''new'') 10 11 ''db'' (Some ''password'')]
      \<and> cache_key path0 key0 = cache_key ''db'' (Some ''password'') \<and> read_secret W0 path0 key0 = Some (Field ''new'')
      \<and> (20 :: real) < a0 + vc_ttl sample_client"
    using secret_fresh_after_write [OF disjI1 [OF c1] g]
    by (simp add: read_secret_def key_given_def sample_world_def env_secret_def)
  then show ?thesis using c1 g by auto
qed

text \<open>
  Which environment variable replaces a secret when the package for Vault is missing: the API key of every service is the variable
  \<open>KEY\<close>, the Redis password is \<open>PASSWORD\<close>, also the fallback for the password of the database, and the secret that
  signs tokens is \<open>SECRET\<close>; the variables \<open>REDIS_PASSWORD\<close> and \<open>JWT_SECRET\<close> only count without them.
\<close>

theorem fallback_variables:
  assumes "\<not> vw_installed W" "vc_cache c = []"
  shows "fst (get_api_key W now service c) = map_option Field (key_given (vw_env W ''KEY''))
    \<and> fst (get_redis_password W now c) = (case key_given (vw_env W ''PASSWORD'') of Some s \<Rightarrow> s | None \<Rightarrow> env_or W ''REDIS_PASSWORD'' [])
    \<and> fst (get_secret W now now database_path (Some ''password'') c) = map_option Field (key_given (vw_env W ''PASSWORD''))
    \<and> fst (get_jwt_secret W now c) = (case key_given (vw_env W ''SECRET'') of
           Some s \<Rightarrow> s | None \<Rightarrow> env_or W ''JWT_SECRET'' ''dev-secret-change-in-production'')"
proof -
  have u: "map env_char ''key'' = ''KEY''" "map env_char ''password'' = ''PASSWORD''" "map env_char ''secret'' = ''SECRET''"
    by code_simp+
  have g: "get_secret W now now path (Some k) c = (map_option Field (key_given (vw_env W (map env_char k))), c)" if "k \<noteq> []" for path k
    using assms that by (auto simp: get_secret_def cached_def connect_def env_secret_def env_key_def key_given_def split: option.splits list.splits)
  have api: "fst (get_api_key W now service c) = map_option Field (key_given (vw_env W ''KEY''))"
    by (simp add: get_api_key_def g u del: list.map)
  have db: "fst (get_secret W now now database_path (Some ''password'') c) = map_option Field (key_given (vw_env W ''PASSWORD''))"
    by (simp add: g u del: list.map)
  have or_env: "secret_or W (map_option Field (key_given v)) name dflt = (case key_given v of Some s \<Rightarrow> s | None \<Rightarrow> env_or W name dflt)"
    for v name dflt
    by (auto simp: secret_or_def secret_text_def env_or_def key_given_def split: option.splits list.splits)
  show ?thesis
    by (simp add: api db get_redis_password_def get_jwt_secret_def g u or_env del: list.map)
qed

theorem fallback_variables_witness:
  "let W = (sample_world [])\<lparr>vw_installed := False, vw_env := (\<lambda>name. if name = ''KEY'' then Some ''k1'' else None)\<rparr>;
       c = sample_client\<lparr>vc_cache := []\<rparr>
   in fst (get_api_key W 0 ''openai'' c) = Some (Field ''k1'') \<and> fst (get_api_key W 0 ''cohere'' c) = Some (Field ''k1'')
      \<and> fst (get_jwt_secret W 0 c) = ''dev-secret-change-in-production''"
proof -
  define W where "W = (sample_world [])\<lparr>vw_installed := False, vw_env := (\<lambda>name. if name = ''KEY'' then Some ''k1'' else None)\<rparr>"
  have W: "\<not> vw_installed W" "vc_cache (sample_client\<lparr>vc_cache := []\<rparr>) = []" "vw_env W ''KEY'' = Some ''k1''"
    "vw_env W ''SECRET'' = None" "vw_env W ''JWT_SECRET'' = None"
    by (simp_all add: W_def)
  show ?thesis
    unfolding Let_def W_def [symmetric]
    using fallback_variables [OF W(1,2), of 0 "''openai''"] fallback_variables [OF W(1,2), of 0 "''cohere''"] W(3-)
    by (simp add: key_given_def env_or_def)
qed

end
