(* ===== verification/Org_Admin.thy ===== *)
theory Org_Admin
  imports Providers Safety_Pipeline Policy_Engines Interfaces Py_Codecs "HOL-Library.Char_ord" "HOL-Library.List_Lexorder"
begin

text \<open>
  The administration of team budgets (\<open>services/cost-tracker/app/budgets.py\<close>), of the stored
  configurations of the model vendors (\<open>services/gateway/app/routers/admin_providers.py\<close>) and of
  the approvals and overrides of tool calls (\<open>services/gateway/app/mcp/policy_router.py\<close>). A table
  is \<open>None\<close> until it is created. The lemmas connect the tables with their readers: the budgets
  with the quota check of the chat, the vendor configurations with the registry of adapters.
\<close>

section \<open>Errors\<close>

datatype admin_error =
    Http nat string \<comment> \<open>an \<open>HTTPException\<close>\<close>
  | SqlError \<comment> \<open>the database refuses the statement\<close>
  | Raised py_error

section \<open>Team budgets (cost-tracker/app/budgets.py)\<close>

record budget_entry =
  be_id :: nat
  be_team :: string
  be_monthly :: pyfloat
  be_spent :: pyfloat
  be_alert :: int
  be_hard :: bool
  be_webhook :: "string option"

record budget_table =
  bt_rows :: "budget_entry list"
  bt_next :: nat \<comment> \<open>the sequence of the ids\<close>

definition empty_budgets :: budget_table where
  "empty_budgets = \<lparr>bt_rows = [], bt_next = 1\<rparr>"

definition list_budgets :: "budget_table option \<Rightarrow> budget_entry list \<times> budget_table option" where
  \<comment> \<open>creates the table\<close>
  "list_budgets db = (let t = (case db of None \<Rightarrow> empty_budgets | Some t \<Rightarrow> t)
     in (sort_key be_team (bt_rows t), Some t))"

fun text_arg :: "jvalue \<Rightarrow> string option option" where
  \<comment> \<open>a text argument of a statement: the driver refuses anything but a string and null\<close>
  "text_arg (SText s) = Some (Some s)"
| "text_arg SNull = Some None"
| "text_arg _ = None"

definition body_get :: "json_dict \<Rightarrow> string \<Rightarrow> jvalue \<Rightarrow> jvalue" where
  "body_get body k dflt = dict_get_or body k dflt"

definition int4 :: "int \<Rightarrow> bool" where
  "int4 i \<longleftrightarrow> - (2 ^ 31) \<le> i \<and> i < 2 ^ 31"

definition insert_budget ::
  "string option \<Rightarrow> pyfloat \<Rightarrow> int \<Rightarrow> bool \<Rightarrow> string option \<Rightarrow> budget_table \<Rightarrow> budget_entry option \<times> budget_table" where
  \<comment> \<open>the constraints of the table; a refused row uses up an id\<close>
  "insert_budget team monthly alert hard webhook t =
     (let t' = t\<lparr>bt_next := bt_next t + 1\<rparr> in
      case team of None \<Rightarrow> (None, t')
      | Some n \<Rightarrow>
          if 255 < length n \<or> n \<in> be_team ` set (bt_rows t) then (None, t')
          else let row = \<lparr>be_id = bt_next t, be_team = n, be_monthly = monthly, be_spent = 0, be_alert = alert,
                          be_hard = hard, be_webhook = webhook\<rparr>
               in (Some row, t'\<lparr>bt_rows := bt_rows t @ [row]\<rparr>))"

definition budget_args ::
  "text_conv \<Rightarrow> json_dict \<Rightarrow> (string option \<times> pyfloat \<times> int \<times> bool \<times> string option) option" where
  \<comment> \<open>the arguments of the statement, None when a conversion raises or the driver refuses one\<close>
  "budget_args C body =
     (case (text_arg (body_get body ''team_name'' (SText [])), float_of C (body_get body ''monthly_budget_usd'' (SNum 5000)),
            int_of C (body_get body ''alert_threshold_pct'' (SNum 80)), text_arg (body_get body ''webhook_url'' (SText []))) of
        (Some n, Inr m, Inr a, Some w) \<Rightarrow>
          if int4 a then Some (n, m, a, json_truthy (body_get body ''hard_cutoff'' (SBool True)), w) else None
      | _ \<Rightarrow> None)"

definition create_budget ::
  "text_conv \<Rightarrow> json_dict \<Rightarrow> budget_table option \<Rightarrow> (admin_error + budget_entry) \<times> budget_table option" where
  \<comment> \<open>every exception is answered as a duplicate\<close>
  "create_budget C body db =
     (let failed = Inl (Http 409 (''Team '' @ [CHR 0x27] @ str_of C (body_get body ''team_name'' SNull) @ [CHR 0x27] @ '' already exists''))
      in case budget_args C body of None \<Rightarrow> (failed, db)
         | Some (n, m, a, h, w) \<Rightarrow>
             (case db of None \<Rightarrow> (failed, db)
              | Some t \<Rightarrow>
                  (case insert_budget n m a h w t of
                     (None, t') \<Rightarrow> (failed, Some t')
                   | (Some row, t') \<Rightarrow> (Inr row, Some t'))))"

definition budget_by_id :: "nat \<Rightarrow> budget_table \<Rightarrow> budget_entry option" where
  "budget_by_id i t = find (\<lambda>b. be_id b = i) (bt_rows t)"

definition update_budget ::
  "text_conv \<Rightarrow> nat \<Rightarrow> json_dict \<Rightarrow> budget_table option \<Rightarrow> (admin_error + budget_entry) \<times> budget_table option" where
  "update_budget C i body db =
     (case db of None \<Rightarrow> (Inl SqlError, db)
      | Some t \<Rightarrow>
          (case budget_by_id i t of None \<Rightarrow> (Inl (Http 404 ''Budget not found''), db)
           | Some row \<Rightarrow>
               (case float_of C (body_get body ''monthly_budget_usd'' (SNum (be_monthly row))) of Inl e \<Rightarrow> (Inl (Raised e), db)
                | Inr m \<Rightarrow>
                    (case int_of C (body_get body ''alert_threshold_pct'' (SNum (of_int (be_alert row)))) of Inl e \<Rightarrow> (Inl (Raised e), db)
                     | Inr a \<Rightarrow>
                         (case text_arg (body_get body ''webhook_url'' (case be_webhook row of None \<Rightarrow> SNull | Some w \<Rightarrow> SText w)) of
                            None \<Rightarrow> (Inl SqlError, db)
                          | Some w \<Rightarrow>
                              if \<not> int4 a then (Inl SqlError, db)
                              else let row' = row\<lparr>be_monthly := m, be_alert := a,
                                         be_hard := json_truthy (body_get body ''hard_cutoff'' (SBool (be_hard row))), be_webhook := w\<rparr>
                                in (Inr row', Some (t\<lparr>bt_rows := map (\<lambda>b. if be_id b = i then row' else b) (bt_rows t)\<rparr>)))))))"

definition delete_budget :: "nat \<Rightarrow> budget_table option \<Rightarrow> (admin_error + nat) \<times> budget_table option" where
  "delete_budget i db =
     (case db of None \<Rightarrow> (Inl SqlError, db)
      | Some t \<Rightarrow>
          (case budget_by_id i t of None \<Rightarrow> (Inl (Http 404 ''Budget not found''), db)
           | Some _ \<Rightarrow> (Inr i, Some (t\<lparr>bt_rows := filter (\<lambda>b. be_id b \<noteq> i) (bt_rows t)\<rparr>))))"

definition team_budget_of :: "budget_table option \<Rightarrow> string \<Rightarrow> py_error + budget_row option" where
  \<comment> \<open>the query of the quota check: an exception when the table is missing\<close>
  "team_budget_of db team =
     (case db of None \<Rightarrow> Inl ValueError
      | Some t \<Rightarrow> Inr (map_option (\<lambda>b. \<lparr>bu_monthly = be_monthly b, bu_spent = be_spent b, bu_hard = be_hard b\<rparr>)
          (find (\<lambda>b. be_team b = team) (bt_rows t))))"

datatype budget_op =
    ListBudgets
  | CreateBudget json_dict
  | UpdateBudget nat json_dict
  | DeleteBudget nat

fun budget_step :: "text_conv \<Rightarrow> budget_table option \<Rightarrow> budget_op \<Rightarrow> budget_table option" where
  "budget_step C db ListBudgets = snd (list_budgets db)"
| "budget_step C db (CreateBudget body) = snd (create_budget C body db)"
| "budget_step C db (UpdateBudget i body) = snd (update_budget C i body db)"
| "budget_step C db (DeleteBudget i) = snd (delete_budget i db)"

definition budgets_ok :: "budget_table option \<Rightarrow> bool" where
  \<comment> \<open>one row per team and id, ids below the sequence, and nothing spent\<close>
  "budgets_ok db \<longleftrightarrow> (case db of None \<Rightarrow> True
     | Some t \<Rightarrow> distinct (map be_team (bt_rows t)) \<and> distinct (map be_id (bt_rows t))
         \<and> (\<forall>b \<in> set (bt_rows t). be_id b < bt_next t \<and> be_spent b = 0))"

lemma create_budget_cases:
  "snd (create_budget C body db) = db
   \<or> (\<exists>t n m a h w. db = Some t \<and> snd (create_budget C body db) = Some (snd (insert_budget n m a h w t)))"
proof (cases "budget_args C body")
  case None
  then show ?thesis by (simp add: create_budget_def Let_def)
next
  case (Some p)
  obtain n m a h w where p: "p = (n, m, a, h, w)" by (cases p)
  show ?thesis
  proof (cases db)
    case None
    then show ?thesis using Some p by (simp add: create_budget_def Let_def)
  next
    case t: (Some t)
    obtain r t' where i: "insert_budget n m a h w t = (r, t')" by (cases "insert_budget n m a h w t")
    then have "snd (create_budget C body db) = Some t'"
      using Some p t by (cases r) (simp_all add: create_budget_def Let_def)
    then have "snd (create_budget C body db) = Some (snd (insert_budget n m a h w t))" using i by simp
    then show ?thesis using t by blast
  qed
qed

lemma insert_budget_ok: "budgets_ok (Some t) \<Longrightarrow> budgets_ok (Some (snd (insert_budget n m a h w t)))"
  by (cases n) (auto simp: budgets_ok_def insert_budget_def Let_def)

lemma budget_by_id_eq:
  assumes "budget_by_id i t = Some row"
  shows "be_id row = i" "row \<in> set (bt_rows t)"
  using assms by (auto simp: budget_by_id_def dest: find_SomeD)

lemma update_budget_cases:
  "snd (update_budget C i body db) = db
   \<or> (\<exists>t row m a h w. db = Some t \<and> budget_by_id i t = Some row
        \<and> snd (update_budget C i body db) = Some (t\<lparr>bt_rows := map (\<lambda>b. if be_id b = i
             then row\<lparr>be_monthly := m, be_alert := a, be_hard := h, be_webhook := w\<rparr> else b) (bt_rows t)\<rparr>))"
  unfolding update_budget_def Let_def by (auto split: option.splits sum.splits)

lemma update_budget_ok: 
  assumes "budgets_ok db"
  shows "budgets_ok (snd (update_budget C i body db))"
  using update_budget_cases [of C i body db]
proof (elim disjE exE conjE)
  fix t row m a h w
  assume db: "db = Some t" and row: "budget_by_id i t = Some row"
    and u: "snd (update_budget C i body db) = Some (t\<lparr>bt_rows := map (\<lambda>b. if be_id b = i
             then row\<lparr>be_monthly := m, be_alert := a, be_hard := h, be_webhook := w\<rparr> else b) (bt_rows t)\<rparr>)"
  let ?f = "\<lambda>b. if be_id b = i then row\<lparr>be_monthly := m, be_alert := a, be_hard := h, be_webhook := w\<rparr> else b"
  have same: "be_team (?f b) = be_team b" "be_id (?f b) = be_id b" "be_spent (?f b) = 0" "be_id (?f b) < bt_next t"
    if "b \<in> set (bt_rows t)" for b
    using that budget_by_id_eq [OF row] assms
    by (auto simp: budgets_ok_def db distinct_map dest: inj_onD)
  define rows where "rows = map ?f (bt_rows t)"
  have "map be_team rows = map be_team (bt_rows t)" "map be_id rows = map be_id (bt_rows t)"
    unfolding rows_def map_map comp_def by (intro map_cong refl same; assumption)+
  moreover have "\<forall>b \<in> set rows. be_id b < bt_next t \<and> be_spent b = 0"
    unfolding rows_def set_map using same(3,4) by blast
  moreover have "snd (update_budget C i body db) = Some (t\<lparr>bt_rows := rows\<rparr>)" using u by (simp add: rows_def)
  ultimately show ?thesis using assms by (simp add: budgets_ok_def db)
qed (use assms in simp)

interpretation budget_run: run_invariant "budget_step C" "\<lambda>_ _. True" budgets_ok for C
proof unfold_locales
  fix db op assume inv: "budgets_ok db"
  show "budgets_ok (budget_step C db op)"
  proof (cases op)
    case ListBudgets
    then show ?thesis using inv by (auto simp: list_budgets_def empty_budgets_def budgets_ok_def Let_def split: option.splits)
  next
    case (CreateBudget body)
    then show ?thesis using create_budget_cases [of C body db] inv insert_budget_ok by auto
  next
    case (UpdateBudget i body)
    then show ?thesis using update_budget_ok [OF inv] by simp
  next
    case (DeleteBudget i)
    then show ?thesis using inv
      by (auto simp: delete_budget_def budgets_ok_def distinct_map_filter split: option.splits)
  qed
qed

text \<open>
  C7: The budget of a team stops no spending: the column of the spent amount is written by no operation, so that, after any sequence of
  budget operations from an empty database, the quota check allows every request of a team, unless its monthly budget is not positive
  and the cutoff is hard; this also after an update of the budget.
\<close>

theorem positive_budget_never_stops:
  "qu_allowed (check_quota (team_budget_of (foldl (budget_step C) None ops)) team) \<longleftrightarrow>
     (case team_budget_of (foldl (budget_step C) None ops) team of
        Inr (Some b) \<Rightarrow> \<not> (bu_hard b \<and> bu_monthly b \<le> 0) | _ \<Rightarrow> True)"
proof -
  let ?db = "foldl (budget_step C) None ops"
  have ok: "budgets_ok ?db" using budget_run.run_inv_always [of None ops C] by (simp add: budgets_ok_def)
  have "bu_spent b = 0" if "team_budget_of ?db team = Inr (Some b)" for b
    using that ok by (auto simp: team_budget_of_def budgets_ok_def split: option.splits dest: find_SomeD)
  then show ?thesis by (auto simp: check_quota_def Let_def split: sum.splits option.splits)
qed


section \<open>Vendor configurations (routers/admin\_providers.py)\<close>

record vendor_row =
  vr_id :: nat
  vr_name :: string
  vr_provider :: string
  vr_base_url :: string
  vr_key :: ustr \<comment> \<open>the column \<open>api_key_encrypted\<close>\<close>
  vr_default :: string
  vr_models :: "string list"
  vr_enabled :: bool

record vendor_table =
  vt_rows :: "vendor_row list"
  vt_next :: nat

record vendor_create =
  ve_name :: string
  ve_provider :: string
  ve_key :: ustr
  ve_base_url :: string
  ve_default :: string
  ve_models :: string
  ve_enabled :: bool

record vendor_update =
  vu_name :: "string option"
  vu_key :: "ustr option"
  vu_base_url :: "string option"
  vu_default :: "string option"
  vu_models :: "string option"
  vu_enabled :: "bool option"

record vendor_entry = \<comment> \<open>an answer, without the key\<close>
  vx_id :: "nat option"
  vx_name :: string
  vx_provider :: string
  vx_base_url :: string
  vx_default :: string
  vx_models :: "string list"
  vx_enabled :: bool

definition row_to_response :: "vendor_row \<Rightarrow> vendor_entry" where
  "row_to_response r = \<lparr>vx_id = Some (vr_id r), vx_name = vr_name r, vx_provider = vr_provider r, vx_base_url = vr_base_url r,
     vx_default = vr_default r, vx_models = vr_models r, vx_enabled = vr_enabled r\<rparr>"

definition model_names :: "string \<Rightarrow> string list" where
  "model_names s = filter (\<lambda>m. m \<noteq> []) (map strip (split_on CHR '','' s))"

definition capitalize :: "string \<Rightarrow> string" where
  "capitalize s = (case s of [] \<Rightarrow> []
     | ch # r \<Rightarrow> (let n = of_char ch :: nat in if 97 \<le> n \<and> n \<le> 122 then char_of (n - 32) else ch) # lower r)"

definition list_provider_configs :: "registry \<Rightarrow> vendor_table option \<Rightarrow> vendor_entry list \<times> vendor_table option" where
  \<comment> \<open>creates the table; of two rows for a vendor the later counts; a row of no registered adapter is left out\<close>
  "list_provider_configs reg db =
     (let t = (case db of None \<Rightarrow> \<lparr>vt_rows = [], vt_next = 1\<rparr> | Some t \<Rightarrow> t);
          configured = foldl (\<lambda>d r. dict_set (vr_provider r) (row_to_response r) d) [] (sort_key vr_provider (vt_rows t));
          entry = (\<lambda>p. dict_get_or configured p
             \<lparr>vx_id = None, vx_name = capitalize p, vx_provider = p,
              vx_base_url = (case dict_get builtin_configs p of None \<Rightarrow> [] | Some co \<Rightarrow> co_url co), vx_default = [], vx_models = [],
              vx_enabled = (p = ''mock'' \<or> p = ''ollama'')\<rparr>)
      in (map entry (sort (map fst reg)), Some t))"

definition valid_create :: "vendor_create \<Rightarrow> bool" where
  "valid_create v \<longleftrightarrow> ve_name v \<noteq> [] \<and> length (ve_name v) \<le> 128 \<and> ve_provider v \<noteq> [] \<and> length (ve_provider v) \<le> 32 \<and> ve_key v \<noteq> []"

definition create_provider_config ::
  "vendor_create \<Rightarrow> vendor_table option \<Rightarrow> (admin_error + vendor_entry) \<times> vendor_table option" where
  "create_provider_config v db =
     (if \<not> valid_create v then (Inl (Http 422 ''Unprocessable Entity''), db)
      else case utf8_encode (ve_key v) of None \<Rightarrow> (Inl (Raised ValueError), db)
      | Some key \<Rightarrow>
          (case db of None \<Rightarrow> (Inl SqlError, db)
           | Some t \<Rightarrow>
               if ve_provider v \<in> vr_provider ` set (vt_rows t)
               then (Inl (Http 409 (''Provider '' @ [CHR 0x27] @ ve_provider v @ [CHR 0x27] @ '' already configured. Use PUT to update.'')), db)
               else if 128 < length (ve_default v) then (Inl SqlError, Some (t\<lparr>vt_next := vt_next t + 1\<rparr>))
               else let row = \<lparr>vr_id = vt_next t, vr_name = ve_name v, vr_provider = ve_provider v, vr_base_url = ve_base_url v,
                               vr_key = b64encode key, vr_default = ve_default v, vr_models = model_names (ve_models v),
                               vr_enabled = ve_enabled v\<rparr>
                    in (Inr (row_to_response row), Some (t\<lparr>vt_rows := vt_rows t @ [row], vt_next := vt_next t + 1\<rparr>))))"

definition vendor_by_id :: "nat \<Rightarrow> vendor_table \<Rightarrow> vendor_row option" where
  "vendor_by_id i t = find (\<lambda>r. vr_id r = i) (vt_rows t)"

definition nothing_to_update :: "vendor_update \<Rightarrow> bool" where
  "nothing_to_update u \<longleftrightarrow> vu_name u = None \<and> vu_key u = None \<and> vu_base_url u = None \<and> vu_default u = None \<and> vu_models u = None
     \<and> vu_enabled u = None"

definition update_provider_config ::
  "nat \<Rightarrow> vendor_update \<Rightarrow> vendor_table option \<Rightarrow> (admin_error + vendor_entry) \<times> vendor_table option" where
  \<comment> \<open>the placeholders of the statement carry a backslash, so that the database refuses it\<close>
  "update_provider_config i u db =
     (if \<not> (case vu_name u of Some n \<Rightarrow> length n \<le> 128 | None \<Rightarrow> True) then (Inl (Http 422 ''Unprocessable Entity''), db)
      else case db of None \<Rightarrow> (Inl SqlError, db)
      | Some t \<Rightarrow>
          (case vendor_by_id i t of
             None \<Rightarrow> (Inl (Http 404 (''Provider config '' @ show_nat i @ '' not found'')), db)
           | Some r \<Rightarrow>
               if nothing_to_update u then (Inr (row_to_response r), db)
               else (case vu_key u of
                   Some k \<Rightarrow> (if utf8_encode k = None then (Inl (Raised ValueError), db) else (Inl SqlError, db))
                 | None \<Rightarrow> (Inl SqlError, db))))"

definition delete_provider_config ::
  "nat \<Rightarrow> vendor_table option \<Rightarrow> registry \<Rightarrow> (admin_error + string) \<times> vendor_table option \<times> registry" where
  "delete_provider_config i db reg =
     (case db of None \<Rightarrow> (Inl SqlError, db, reg)
      | Some t \<Rightarrow>
          (case vendor_by_id i t of
             None \<Rightarrow> (Inl (Http 404 (''Provider config '' @ show_nat i @ '' not found'')), db, reg)
           | Some r \<Rightarrow>
               (Inr (vr_provider r), Some (t\<lparr>vt_rows := filter (\<lambda>x. vr_id x \<noteq> i) (vt_rows t)\<rparr>),
                (case unregister_provider (vr_provider r) reg of Inl e \<Rightarrow> reg | Inr reg' \<Rightarrow> reg'))))"

definition get_api_keys_status :: "vendor_table option \<Rightarrow> (string, bool) pydict" where
  "get_api_keys_status db = (case db of None \<Rightarrow> []
     | Some t \<Rightarrow> foldl (\<lambda>d r. dict_set (vr_provider r) (vr_enabled r) d) [] (vt_rows t))"

datatype vendor_op =
    ListConfigs
  | CreateConfig vendor_create
  | UpdateConfig nat vendor_update
  | DeleteConfig nat

fun vendor_step :: "vendor_table option \<times> registry \<Rightarrow> vendor_op \<Rightarrow> vendor_table option \<times> registry" where
  "vendor_step (db, reg) ListConfigs = (snd (list_provider_configs reg db), reg)"
| "vendor_step (db, reg) (CreateConfig v) = (snd (create_provider_config v db), reg)"
| "vendor_step (db, reg) (UpdateConfig i u) = (snd (update_provider_config i u db), reg)"
| "vendor_step (db, reg) (DeleteConfig i) = snd (delete_provider_config i db reg)"


lemma update_provider_config_keeps [simp]: "snd (update_provider_config i u db) = db"
  by (auto simp: update_provider_config_def split: option.splits)

lemma create_provider_config_rows:
  "snd (create_provider_config v db) = db
   \<or> (\<exists>t t'. db = Some t \<and> snd (create_provider_config v db) = Some t' \<and> set (vt_rows t) \<subseteq> set (vt_rows t'))"
  unfolding create_provider_config_def Let_def by (auto split: option.split)

lemma created_row:
  assumes "create_provider_config v db = (Inr e, db')"
  shows "\<exists>key t' row. utf8_encode (ve_key v) = Some key \<and> db' = Some t' \<and> row \<in> set (vt_rows t')
    \<and> vr_provider row = ve_provider v \<and> vr_key row = b64encode key"
  using assms by (fastforce simp: create_provider_config_def Let_def split: if_splits option.splits)

lemma vendor_step_simps [simp]:
  "vendor_step s ListConfigs = (snd (list_provider_configs (snd s) (fst s)), snd s)"
  "vendor_step s (CreateConfig v) = (snd (create_provider_config v (fst s)), snd s)"
  "vendor_step s (UpdateConfig i u) = s"
  "vendor_step s (DeleteConfig i) = snd (delete_provider_config i (fst s) (snd s))"
  by (cases s; simp)+

interpretation vendor_row_run: run_invariant vendor_step "\<lambda>_ op. op \<noteq> DeleteConfig (vr_id row)"
  "\<lambda>s. \<exists>t. fst s = Some t \<and> row \<in> set (vt_rows t)" for row :: vendor_row
proof unfold_locales
  fix s :: "vendor_table option \<times> registry" and op
  assume inv: "\<exists>t. fst s = Some t \<and> row \<in> set (vt_rows t)" and op: "op \<noteq> DeleteConfig (vr_id row)"
  then obtain t where t: "fst s = Some t" "row \<in> set (vt_rows t)" by auto
  show "\<exists>t. fst (vendor_step s op) = Some t \<and> row \<in> set (vt_rows t)"
  proof (cases op)
    case (CreateConfig v)
    then show ?thesis using create_provider_config_rows [of v "fst s"] t by auto
  qed (use op t in \<open>auto simp: list_provider_configs_def delete_provider_config_def Let_def split: option.splits\<close>)
qed

interpretation vendor_gone_run: run_invariant vendor_step "\<lambda>_ _. True" "\<lambda>s. dict_get (snd s) n = None" for n :: string
proof unfold_locales
  fix s :: "vendor_table option \<times> registry" and op assume inv: "dict_get (snd s) n = None"
  have "dict_get (snd (snd (delete_provider_config i (fst s) (snd s)))) n = None" for i
    using inv by (auto simp: delete_provider_config_def unregister_provider_def split: option.splits)
  then show "dict_get (snd (vendor_step s op)) n = None" using inv by (cases op) auto
qed

text \<open>
  Deleting the stored configuration of a vendor outside the six protected names takes its adapter away: from then on, whatever is
  configured, updated or deleted, no request for this vendor finds an adapter, although the adapter came with the gateway.
\<close>

theorem deleted_config_disables_vendor:
  assumes "vendor_by_id i t = Some r" "canonical_name (vr_provider r) \<notin> set protected_providers"
    and "dict_get provider_aliases (canonical_name (vr_provider r)) = None"
  shows "get_provider (snd (foldl vendor_step (vendor_step (Some t, reg) (DeleteConfig i)) ops)) (vr_provider r) = Inl ValueError"
proof -
  let ?n = "canonical_name (vr_provider r)" and ?s = "vendor_step (Some t, reg) (DeleteConfig i)"
  have "dict_get (snd ?s) ?n = None"
    using assms(1,2) by (simp add: delete_provider_config_def unregister_provider_def)
  then have "dict_get (snd (foldl vendor_step ?s ops)) ?n = None"
    by (intro vendor_gone_run.run_inv_always) simp_all
  then show ?thesis using assms(3) by (simp add: get_provider_def Let_def)
qed

definition sample_vendor :: vendor_create where
  "sample_vendor = \<lparr>ve_name = ''Mistral'', ve_provider = ''mistral'', ve_key = [115, 107], ve_base_url = [], ve_default = [], ve_models = [],
     ve_enabled = True\<rparr>"

lemma sample_vendor_created:
  "\<exists>e t. create_provider_config sample_vendor (Some \<lparr>vt_rows = [], vt_next = 1\<rparr>) = (Inr e, Some t)
     \<and> (\<exists>r. vendor_by_id 1 t = Some r \<and> vr_provider r = ''mistral'')"
  by (simp add: create_provider_config_def valid_create_def sample_vendor_def utf8_encode_def utf8_point_def vendor_by_id_def Let_def)

theorem deleted_config_disables_vendor_witness:
  "(\<exists>a. get_provider initial_registry ''mistral'' = Inr a) \<and>
   (\<exists>t. get_provider (snd (foldl vendor_step (vendor_step (Some t, initial_registry) (DeleteConfig 1)) [CreateConfig sample_vendor])) ''mistral''
      = Inl ValueError)"
proof -
  obtain t r where r: "vendor_by_id 1 t = Some r" "vr_provider r = ''mistral''" using sample_vendor_created by blast
  have n: "canonical_name ''mistral'' \<notin> set protected_providers" "dict_get provider_aliases (canonical_name ''mistral'') = None"
    "(case get_provider initial_registry ''mistral'' of Inl _ \<Rightarrow> False | Inr _ \<Rightarrow> True)"
    by code_simp+
  show ?thesis
    using deleted_config_disables_vendor [OF r(1), unfolded r(2), OF n(1,2), of initial_registry "[CreateConfig sample_vendor]"] n(3)
    by (auto split: sum.splits)
qed

text \<open>
  C31: A stored key is neither encrypted nor can it be changed: after a configuration was created, whatever is listed, created, updated or
  deleted, but for the deletion of this configuration, the table holds the key that was given, in base64, and a reader of the table gets it
  without any secret; an update with a new key changes nothing.
\<close>

theorem stored_key_readable:
  assumes "create_provider_config v db = (Inr e, db')"
  shows "\<exists>row. vr_provider row = ve_provider v \<and> Option.bind (b64decode (vr_key row)) utf8_decode = Some (ve_key v)
    \<and> (\<forall>ops. DeleteConfig (vr_id row) \<notin> set ops \<longrightarrow> (\<exists>t. fst (foldl vendor_step (db', reg) ops) = Some t \<and> row \<in> set (vt_rows t)))"
proof -
  obtain key t' row where k: "utf8_encode (ve_key v) = Some key" and t': "db' = Some t'" and row: "row \<in> set (vt_rows t')"
    "vr_provider row = ve_provider v" "vr_key row = b64encode key"
    using created_row [OF assms] by blast
  have "\<exists>t. fst (foldl vendor_step (db', reg) ops) = Some t \<and> row \<in> set (vt_rows t)" if "DeleteConfig (vr_id row) \<notin> set ops" for ops
    by (intro vendor_row_run.run_inv_always) (use that row(1) t' in auto)
  then show ?thesis using row(2,3) utf8.dec_enc [OF k] by auto
qed


theorem stored_key_readable_witness:
  "\<exists>t row. Option.bind (b64decode (vr_key row)) utf8_decode = Some [115, 107] \<and>
     (\<exists>t'. fst (foldl vendor_step (Some t, initial_registry)
        [UpdateConfig 1 \<lparr>vu_name = None, vu_key = Some [120], vu_base_url = None, vu_default = None, vu_models = None, vu_enabled = None\<rparr>])
        = Some t' \<and> row \<in> set (vt_rows t'))"
proof -
  obtain e t where "create_provider_config sample_vendor (Some \<lparr>vt_rows = [], vt_next = 1\<rparr>) = (Inr e, Some t)"
    using sample_vendor_created by blast
  from stored_key_readable [OF this, of initial_registry] obtain row where
    row: "Option.bind (b64decode (vr_key row)) utf8_decode = Some (ve_key sample_vendor)"
    "\<forall>ops. DeleteConfig (vr_id row) \<notin> set ops \<longrightarrow> (\<exists>t'. fst (foldl vendor_step (Some t, initial_registry) ops) = Some t' \<and> row \<in> set (vt_rows t'))"
    by blast
  show ?thesis using row(1) row(2) [rule_format, of "[UpdateConfig 1 \<lparr>vu_name = None, vu_key = Some [120], vu_base_url = None,
      vu_default = None, vu_models = None, vu_enabled = None\<rparr>]"]
    by (auto simp: sample_vendor_def)
qed

section \<open>Approvals and overrides of tool calls (mcp/policy\_router.py)\<close>

record approval =
  aq_id :: nat
  aq_user :: string
  aq_tool :: string
  aq_target :: string
  aq_status :: string
  aq_requested :: pyfloat
  aq_by :: "string option"
  aq_at :: "pyfloat option"

record tool_override =
  uo_user :: string
  uo_tool :: string
  uo_target :: string
  uo_permission :: string
  uo_reason :: string
  uo_by :: string

record tool_tables =
  tt_approvals :: "approval list option"
  tt_overrides :: "tool_override list option"

definition list_approvals :: "tool_tables \<Rightarrow> approval list \<times> tool_tables" where
  "list_approvals T = (let rows = (case tt_approvals T of None \<Rightarrow> [] | Some rows \<Rightarrow> rows)
     in (rev (sort_key aq_requested (filter (\<lambda>a. aq_status a = ''pending'') rows)), T\<lparr>tt_approvals := Some rows\<rparr>))"

definition settle_tool :: "string \<Rightarrow> nat \<Rightarrow> string \<Rightarrow> pyfloat \<Rightarrow> tool_tables \<Rightarrow> (admin_error + nat) \<times> tool_tables" where
  \<comment> \<open>the statement of both endpoints; no status and no row is asked for\<close>
  "settle_tool status i by_user now T =
     (case tt_approvals T of None \<Rightarrow> (Inl SqlError, T)
      | Some rows \<Rightarrow> (Inr i, T\<lparr>tt_approvals := Some (map (\<lambda>a. if aq_id a = i
           then a\<lparr>aq_status := status, aq_by := Some by_user, aq_at := Some now\<rparr> else a) rows)\<rparr>))"

definition approve_tool :: "nat \<Rightarrow> string \<Rightarrow> pyfloat \<Rightarrow> tool_tables \<Rightarrow> (admin_error + nat) \<times> tool_tables" where
  "approve_tool = settle_tool ''approved''"

definition deny_tool :: "nat \<Rightarrow> string \<Rightarrow> pyfloat \<Rightarrow> tool_tables \<Rightarrow> (admin_error + nat) \<times> tool_tables" where
  "deny_tool = settle_tool ''denied''"

definition add_user_override ::
  "string \<Rightarrow> (string, string) pydict \<Rightarrow> string \<Rightarrow> tool_tables \<Rightarrow> tool_tables" where
  \<comment> \<open>a row of a table that no other code reads\<close>
  "add_user_override email payload sub T =
     (let row = \<lparr>uo_user = email, uo_tool = dict_get_or payload ''tool_pattern'' [], uo_target = dict_get_or payload ''target_pattern'' ''*'',
                 uo_permission = dict_get_or payload ''permission'' ''deny'',
                 uo_reason = dict_get_or payload ''reason'' ''Admin override via UI'', uo_by = sub\<rparr>
      in T\<lparr>tt_overrides := Some ((case tt_overrides T of None \<Rightarrow> [] | Some rows \<Rightarrow> rows) @ [row])\<rparr>)"

definition get_user_policy :: "policies \<Rightarrow> string option \<Rightarrow> string \<Rightarrow> effective_policy" where
  \<comment> \<open>with the role of the caller\<close>
  "get_user_policy po caller_role email =
     get_user_effective_policy po email (case caller_role of None \<Rightarrow> ''intern'' | Some r \<Rightarrow> r)"

lemma last_settlement_counts:
  assumes "fst (settle_tool s1 i u1 t1 T) = Inr j"
  shows "snd (settle_tool s2 i u2 t2 (snd (settle_tool s1 i u1 t1 T))) = snd (settle_tool s2 i u2 t2 T)"
  using assms by (auto simp: settle_tool_def split: option.splits)

lemma override_leaves_decisions:
  "tt_approvals (add_user_override email payload sub T) = tt_approvals T"
  by (simp add: add_user_override_def Let_def)

end
