(* ===== verification/Trace_Services.thy ===== *)
theory Trace_Services
  imports Org_Admin Data_Validator Guardrails Fairness
begin

text \<open>
  The services around the recorded traces: the collector that takes them in
  (\<open>services/collector/app/main.py\<close>), the bias monitor with the protected attributes
  (\<open>services/bias-monitor/app/main.py\<close>), the table of events (\<open>services/shared/events.py\<close>), the
  system log (\<open>services/shared/system_logs.py\<close>) and the choice of a tier
  (\<open>services/aida-bridge/app/profiler.py\<close>). A time stamp is a wall clock reading with its offset,
  where it has one. Every handler of the collector and of the bias monitor awaits \<open>verify_jwt\<close>,
  which is a plain function: the \<open>await\<close> raises whatever the token is, so that no request gets past
  the check (\<open>no_request_passes\<close>). What follows the check is modelled as definitions of its own,
  and the lemmas about these parts say what the services would do: they follow a trace from the
  collector over the stream and the guardrails worker into the table of results, and bound the
  fairness score.
\<close>

section \<open>The token check of the services\<close>

definition awaited_verify_jwt :: "(string \<Rightarrow> bool) \<Rightarrow> string option \<Rightarrow> admin_error + bool" where
  \<comment> \<open>\<open>await verify_jwt(credentials.credentials)\<close>: without credentials the attribute is missing; with
     a token the result, a dictionary or \<open>None\<close>, is no awaitable\<close>
  "awaited_verify_jwt verify token =
     (case token of None \<Rightarrow> Inl (Raised AttributeError)
      | Some t \<Rightarrow> (case verify t of True \<Rightarrow> Inl (Raised TypeError) | False \<Rightarrow> Inl (Raised TypeError)))"

definition checked_token :: "(string \<Rightarrow> bool) \<Rightarrow> string option \<Rightarrow> (admin_error + unit)" where
  "checked_token verify token = (case awaited_verify_jwt verify token of
     Inl e \<Rightarrow> Inl e | Inr ok \<Rightarrow> if ok then Inr () else Inl (Http 401 ''Invalid token''))"

section \<open>The collector (collector/app/main.py)\<close>

record ingest_payload =
  ip_id :: "string option"
  ip_prompt :: string
  ip_completion :: string
  ip_model :: string
  ip_user :: string
  ip_tags :: "(string \<times> field_value) list"
  ip_time :: "string option"

definition payload_dump :: "ingest_payload \<Rightarrow> trace_dict" where
  \<comment> \<open>\<open>payload.model_dump()\<close>\<close>
  "payload_dump p =
     [(''id'', case ip_id p of None \<Rightarrow> FNull | Some i \<Rightarrow> FStr i), (''prompt'', FStr (ip_prompt p)), (''completion'', FStr (ip_completion p)),
      (''model_id'', FStr (ip_model p)), (''user_id'', FStr (ip_user p)), (''tags'', FDict (ip_tags p)),
      (''timestamp'', case ip_time p of None \<Rightarrow> FNull | Some t \<Rightarrow> FStr t)]"

record trace_row =
  tw_prompt :: string
  tw_completion :: string
  tw_model :: string
  tw_user :: string
  tw_tags :: "(string \<times> field_value) list"
  tw_time :: pyfloat

record published_trace =
  pt_id :: string
  pt_completion :: string
  pt_tags :: "(string \<times> field_value) list"
  pt_time :: string

record collector_state =
  co_traces :: "(string, trace_row) pydict"
  co_stream :: "published_trace list"

record collector_env =
  ce_verify :: "string \<Rightarrow> bool"
  ce_fromiso :: "string \<Rightarrow> (pyfloat \<times> pyfloat option) option" \<comment> \<open>wall clock and offset, None when it raises\<close>
  ce_iso :: "pyfloat \<Rightarrow> string"
  ce_strict :: bool \<comment> \<open>\<open>trace_validator.strict_mode\<close>, False in the code\<close>

record ingest_call =
  ic_token :: "string option"
  ic_payload :: ingest_payload
  ic_uuid :: string
  ic_now :: pyfloat
  ic_db :: bool \<comment> \<open>the statement succeeds\<close>
  ic_redis :: bool

definition trace_time :: "collector_env \<Rightarrow> pyfloat \<Rightarrow> string option \<Rightarrow> pyfloat" where
  \<comment> \<open>the offset is dropped, not applied\<close>
  "trace_time E now time = (case time of Some (ch # s) \<Rightarrow>
       (case ce_fromiso E (ch # s) of Some (wall, _) \<Rightarrow> wall | None \<Rightarrow> now)
     | _ \<Rightarrow> now)"

definition trace_id_of :: "ingest_call \<Rightarrow> string" where
  \<comment> \<open>\<open>payload.id or str(uuid.uuid4())\<close>\<close>
  "trace_id_of c = (case ip_id (ic_payload c) of Some (ch # s) \<Rightarrow> ch # s | _ \<Rightarrow> ic_uuid c)"

definition upsert_trace :: "string \<Rightarrow> ingest_payload \<Rightarrow> pyfloat \<Rightarrow> (string, trace_row) pydict \<Rightarrow> (string, trace_row) pydict" where
  \<comment> \<open>a conflict keeps the time stamp of the row\<close>
  "upsert_trace i p t rows = dict_set i
     \<lparr>tw_prompt = ip_prompt p, tw_completion = ip_completion p, tw_model = ip_model p, tw_user = ip_user p, tw_tags = ip_tags p,
      tw_time = (case dict_get rows i of Some r \<Rightarrow> tw_time r | None \<Rightarrow> t)\<rparr> rows"

definition accept_trace :: "collector_env \<Rightarrow> ingest_call \<Rightarrow> collector_state \<Rightarrow> (admin_error + string) \<times> collector_state" where
  \<comment> \<open>what follows the token check\<close>
  "accept_trace E c s =
     (case validate_trace (payload_dump (ic_payload c)) of (valid, err) \<Rightarrow>
        if \<not> valid \<and> ce_strict E
        then (Inl (Http 422 (''Trace validation failed: '' @ (case err of Some e \<Rightarrow> e | None \<Rightarrow> ''None''))), s)
        else if \<not> ic_db c then (Inl SqlError, s)
        else let i = trace_id_of c; t = trace_time E (ic_now c) (ip_time (ic_payload c));
                 s1 = s\<lparr>co_traces := upsert_trace i (ic_payload c) t (co_traces s)\<rparr>;
                 m = \<lparr>pt_id = i, pt_completion = ip_completion (ic_payload c), pt_tags = ip_tags (ic_payload c), pt_time = ce_iso E t\<rparr>
             in (Inr i, if ic_redis c then s1\<lparr>co_stream := co_stream s1 @ [m]\<rparr> else s1))"

definition ingest_trace :: "collector_env \<Rightarrow> ingest_call \<Rightarrow> collector_state \<Rightarrow> (admin_error + string) \<times> collector_state" where
  "ingest_trace E c s =
     (case checked_token (ce_verify E) (ic_token c) of Inl e \<Rightarrow> (Inl e, s) | Inr _ \<Rightarrow> accept_trace E c s)"

definition stored_trace :: "string \<Rightarrow> collector_state \<Rightarrow> admin_error + trace_row" where
  "stored_trace i s = (case dict_get (co_traces s) i of None \<Rightarrow> Inl (Http 404 ''Trace not found'') | Some r \<Rightarrow> Inr r)"

definition get_trace :: "collector_env \<Rightarrow> string option \<Rightarrow> string \<Rightarrow> collector_state \<Rightarrow> admin_error + trace_row" where
  "get_trace E token i s = (case checked_token (ce_verify E) token of Inl e \<Rightarrow> Inl e | Inr _ \<Rightarrow> stored_trace i s)"

section \<open>Protected attributes (bias-monitor/app/main.py)\<close>

record attributes =
  pa_age :: "string option"
  pa_gender :: "string option"
  pa_ethnicity :: "string option"
  pa_region :: "string option"
  pa_language :: "string option"
  pa_education :: "string option"
  pa_income :: "string option"
  pa_consent :: bool

definition record_attributes ::
  "string \<Rightarrow> attributes \<Rightarrow> (string, attributes) pydict \<Rightarrow> (admin_error + string) \<times> (string, attributes) pydict" where
  \<comment> \<open>what follows the token check; a conflict keeps the consent of the row\<close>
  "record_attributes i a db =
     (if \<not> pa_consent a then (Inl (Http 400 ''Consent required for protected attribute collection''), db)
      else (Inr i, dict_set i (a\<lparr>pa_consent := (case dict_get db i of Some old \<Rightarrow> pa_consent old | None \<Rightarrow> pa_consent a)\<rparr>) db))"

definition submit_protected_attributes ::
  "(string \<Rightarrow> bool) \<Rightarrow> string option \<Rightarrow> string \<Rightarrow> attributes \<Rightarrow> (string, attributes) pydict
   \<Rightarrow> (admin_error + string) \<times> (string, attributes) pydict" where
  "submit_protected_attributes verify token i a db =
     (case checked_token verify token of Inl e \<Rightarrow> (Inl e, db) | Inr _ \<Rightarrow> record_attributes i a db)"

definition bias_attributes :: "(string \<times> (attributes \<Rightarrow> string option)) list" where
  "bias_attributes = [(''age_group'', pa_age), (''gender'', pa_gender), (''ethnicity'', pa_ethnicity), (''region'', pa_region),
     (''language'', pa_language)]"

record bias_group =
  bg_name :: string
  bg_total :: nat
  bg_toxicity :: pyfloat
  bg_pii :: pyfloat

definition group_of ::
  "(string, result_row) pydict \<Rightarrow> (string \<times> attributes) list \<Rightarrow> (attributes \<Rightarrow> string option) \<Rightarrow> string \<Rightarrow> bias_group" where
  \<comment> \<open>one row of the query: a trace without a result counts in the total only\<close>
  "group_of results rows attr g =
     (let members = filter (\<lambda>(_, a). attr a = Some g) rows;
          hits = (\<lambda>P. length (filter (\<lambda>(i, _). case dict_get results i of Some r \<Rightarrow> P r | None \<Rightarrow> False) members));
          rate = (\<lambda>n. py_round (real n / real (max (length members) 1)) 4)
      in \<lparr>bg_name = g, bg_total = length members, bg_toxicity = rate (hits rr_toxic), bg_pii = rate (hits (\<lambda>r. rr_pii r \<noteq> []))\<rparr>)"

definition groups_of ::
  "(string, result_row) pydict \<Rightarrow> (string, attributes) pydict \<Rightarrow> (attributes \<Rightarrow> string option) \<Rightarrow> bias_group list" where
  "groups_of results db attr =
     (let rows = filter (\<lambda>(_, a). pa_consent a) db;
          names = remdups (List.map_filter (\<lambda>(_, a). attr a) rows)
      in rev (sort_key bg_total (map (group_of results rows attr) names)))"

definition rate_spread :: "pyfloat list \<Rightarrow> pyfloat" where
  "rate_spread rates = (if length rates \<le> 1 then 0 else py_round (Max (set rates) - Min (set rates)) 4)"

definition attribute_disparities ::
  "(string, result_row) pydict \<Rightarrow> (string, attributes) pydict \<Rightarrow> (string \<times> pyfloat \<times> pyfloat) list" where
  \<comment> \<open>the attributes with at least one group, with both disparities\<close>
  "attribute_disparities results db =
     List.map_filter (\<lambda>(n, attr). let gs = groups_of results db attr in
        if gs = [] then None else Some (n, rate_spread (map bg_toxicity gs), rate_spread (map bg_pii gs))) bias_attributes"

definition overall_fairness :: "(string \<times> pyfloat \<times> pyfloat) list \<Rightarrow> pyfloat" where
  "overall_fairness ds =
     (let scores = concat (map (\<lambda>(_, t, p). [t, p]) ds);
          avg = sum_list scores / real (max (length scores) 1)
      in py_round (max 0 (min 1 (1 - avg * 5))) 4)"

record fairness_assessment =
  fa_samples :: nat
  fa_disparities :: "(string \<times> pyfloat \<times> pyfloat) list"
  fa_score :: pyfloat
  fa_advice :: "string list"

definition fairness_advice :: "pyfloat \<Rightarrow> (string \<times> pyfloat \<times> pyfloat) list \<Rightarrow> string list" where
  "fairness_advice score ds =
     (if score < 8/10 then [''Significant disparities detected. Investigate potential bias in model behavior across demographic groups.''] else []) @
     (if list_ex (\<lambda>(_, t, _). 1/10 < t) ds then [''Toxicity rate varies significantly across groups. Consider fairness-aware model retraining.''] else []) @
     (if list_ex (\<lambda>(_, _, p). 1/10 < p) ds then [''PII detection rate varies across groups. Review for potential algorithmic bias.''] else []) @
     [''Continue collecting protected attributes to improve statistical significance.'',
      ''Conduct regular fairness audits per MEASURE 3.1 guidelines.'']"

definition assess_fairness :: "(string, result_row) pydict \<Rightarrow> (string, attributes) pydict \<Rightarrow> fairness_assessment" where
  \<comment> \<open>what follows the token check\<close>
  "assess_fairness results db =
     (let total = length (filter (\<lambda>(_, a). pa_consent a) db) in
      if total = 0
      then \<lparr>fa_samples = 0, fa_disparities = [], fa_score = 1, fa_advice =
             [''No protected attribute data collected yet.'', ''Enable protected attribute collection to perform fairness assessment.'',
              ''Ensure user consent mechanisms are in place per privacy regulations.'']\<rparr>
      else let ds = attribute_disparities results db; score = overall_fairness ds
           in \<lparr>fa_samples = total, fa_disparities = ds, fa_score = score, fa_advice = fairness_advice score ds\<rparr>)"

definition get_fairness_assessment ::
  "(string \<Rightarrow> bool) \<Rightarrow> string option \<Rightarrow> (string, result_row) pydict \<Rightarrow> (string, attributes) pydict \<Rightarrow> admin_error + fairness_assessment" where
  "get_fairness_assessment verify token results db =
     (case checked_token verify token of Inl e \<Rightarrow> Inl e | Inr _ \<Rightarrow> Inr (assess_fairness results db))"

record bias_summary_row =
  bs_traces :: nat
  bs_toxic :: nat
  bs_pii :: nat
  bs_score :: pyfloat

definition summarise :: "collector_state \<Rightarrow> (string, result_row) pydict \<Rightarrow> bias_summary_row" where
  \<comment> \<open>what follows the token check\<close>
  "summarise s results =
     (let total = length (co_traces s); toxic = length (filter (\<lambda>(_, r). rr_toxic r) results);
          pii = length (filter (\<lambda>(_, r). rr_pii r \<noteq> []) results)
      in \<lparr>bs_traces = total, bs_toxic = toxic, bs_pii = pii,
          bs_score = calculate_fairness_score (int total) (int toxic) (int pii)\<rparr>)"

definition bias_summary :: "(string \<Rightarrow> bool) \<Rightarrow> string option \<Rightarrow> collector_state \<Rightarrow> (string, result_row) pydict \<Rightarrow> admin_error + bias_summary_row" where
  "bias_summary verify token s results =
     (case checked_token verify token of Inl e \<Rightarrow> Inl e | Inr _ \<Rightarrow> Inr (summarise s results))"

section \<open>No request passes the check\<close>

lemma checked_token_raises:
  "checked_token verify token = Inl (Raised (if token = None then AttributeError else TypeError))"
  by (simp add: checked_token_def awaited_verify_jwt_def split: option.split bool.split)

text \<open>
  Whatever the token and the check of its signature, the collector stores and publishes nothing and
  the bias monitor records nothing and answers nothing: every request ends in an exception.
\<close>
theorem no_request_passes:
  "foldl (\<lambda>s c. snd (ingest_trace E c s)) s cs = s \<and>
   (\<exists>e. fst (ingest_trace E c s) = Inl (Raised e) \<and> get_trace E (ic_token c) i s = Inl (Raised e) \<and>
      submit_protected_attributes (ce_verify E) (ic_token c) i a db = (Inl (Raised e), db) \<and>
      get_fairness_assessment (ce_verify E) (ic_token c) results db = Inl (Raised e) \<and>
      bias_summary (ce_verify E) (ic_token c) s results = Inl (Raised e))"
proof
  show "foldl (\<lambda>s c. snd (ingest_trace E c s)) s cs = s"
    by (induction cs) (simp_all add: ingest_trace_def checked_token_raises)
qed (simp add: ingest_trace_def get_trace_def submit_protected_attributes_def get_fairness_assessment_def bias_summary_def
  checked_token_raises)

section \<open>From the collector to the summary\<close>

definition published_of :: "collector_env \<Rightarrow> ingest_call \<Rightarrow> published_trace" where
  "published_of E c = \<lparr>pt_id = trace_id_of c, pt_completion = ip_completion (ic_payload c), pt_tags = ip_tags (ic_payload c),
     pt_time = ce_iso E (trace_time E (ic_now c) (ip_time (ic_payload c)))\<rparr>"

definition row_of :: "collector_env \<Rightarrow> ingest_call \<Rightarrow> trace_row" where
  "row_of E c = (let p = ic_payload c in
     \<lparr>tw_prompt = ip_prompt p, tw_completion = ip_completion p, tw_model = ip_model p, tw_user = ip_user p, tw_tags = ip_tags p,
      tw_time = trace_time E (ic_now c) (ip_time p)\<rparr>)"

definition accepted :: "collector_env \<Rightarrow> ingest_call \<Rightarrow> bool" where
  "accepted E c \<longleftrightarrow> ic_db c \<and> ic_redis c \<and> \<not> ce_strict E"

definition accept_all :: "collector_env \<Rightarrow> ingest_call list \<Rightarrow> collector_state \<Rightarrow> collector_state" where
  "accept_all E cs s = foldl (\<lambda>s c. snd (accept_trace E c s)) s cs"

lemma accept_accepted:
  assumes "accepted E c" "dict_get (co_traces s) (trace_id_of c) = None"
  shows "accept_trace E c s = (Inr (trace_id_of c),
    s\<lparr>co_traces := co_traces s @ [(trace_id_of c, row_of E c)], co_stream := co_stream s @ [published_of E c]\<rparr>)"
  using assms
  by (auto simp: accepted_def accept_trace_def upsert_trace_def published_of_def row_of_def Let_def dict_set_new split: option.splits prod.splits)

lemma accept_all_accepted:
  assumes "\<forall>c \<in> set cs. accepted E c" "distinct (map fst (co_traces s) @ map trace_id_of cs)"
  shows "accept_all E cs s = s\<lparr>co_traces := co_traces s @ map (\<lambda>c. (trace_id_of c, row_of E c)) cs,
    co_stream := co_stream s @ map (published_of E) cs\<rparr>"
  using assms
proof (induction cs arbitrary: s)
  case Nil
  then show ?case by (simp add: accept_all_def)
next
  case (Cons c cs)
  let ?s = "s\<lparr>co_traces := co_traces s @ [(trace_id_of c, row_of E c)], co_stream := co_stream s @ [published_of E c]\<rparr>"
  have "dict_get (co_traces s) (trace_id_of c) = None" using Cons.prems(2) by (auto simp: map_of_eq_None_iff)
  then have "snd (accept_trace E c s) = ?s" using Cons.prems by (simp add: accept_accepted)
  moreover have "accept_all E cs ?s = ?s\<lparr>co_traces := co_traces ?s @ map (\<lambda>c. (trace_id_of c, row_of E c)) cs,
      co_stream := co_stream ?s @ map (published_of E) cs\<rparr>"
    using Cons.prems by (intro Cons.IH) auto
  ultimately show ?case by (simp add: accept_all_def)
qed

definition stream_messages :: "(published_trace \<Rightarrow> string) \<Rightarrow> published_trace list \<Rightarrow> stream_message list" where
  \<comment> \<open>the entries of \<open>trace_stream\<close>, numbered by Redis\<close>
  "stream_messages dumps ms = map (\<lambda>(k, m). \<lparr>mg_id = k, mg_trace = Some (dumps m)\<rparr>) (enumerate 0 ms)"

definition no_streams :: streams where
  "no_streams = \<lparr>st_results = [], st_dlq = [], st_acked = [], st_db = []\<rparr>"

definition result_of :: "guardrail_result \<Rightarrow> result_row" where
  "result_of r = \<lparr>rr_toxic = gr_toxic r, rr_score = gr_score r, rr_reason = gr_reason r, rr_pii = gr_pii r, rr_time = gr_time r\<rparr>"

lemma store_in_db_new: "dict_get db (gr_trace r) = None \<Longrightarrow> store_in_db r db = db @ [(gr_trace r, result_of r)]"
  by (simp add: store_in_db_def result_of_def dict_set_new)

lemma run_worker_saved:
  assumes "\<forall>m \<in> set ms. evaluate (dumps m) = Inr (ev m)" "distinct (map fst (st_db s) @ map (\<lambda>m. gr_trace (ev m)) ms)"
  shows "\<exists>st. run_worker evaluate (\<lambda>_. True) (map (\<lambda>(k, m). \<lparr>mg_id = k, mg_trace = Some (dumps m)\<rparr>) (enumerate n ms)) s = Running st
    \<and> st_dlq st = st_dlq s \<and> st_db st = st_db s @ map (\<lambda>m. (gr_trace (ev m), result_of (ev m))) ms"
  using assms
proof (induction ms arbitrary: s n)
  case (Cons m ms)
  let ?s = "s\<lparr>st_results := st_results s @ [ev m], st_db := store_in_db (ev m) (st_db s), st_acked := st_acked s @ [n]\<rparr>"
  have "dict_get (st_db s) (gr_trace (ev m)) = None" using Cons.prems(2) by (auto simp: map_of_eq_None_iff)
  then have db: "st_db ?s = st_db s @ [(gr_trace (ev m), result_of (ev m))]" by (simp add: store_in_db_new)
  then have "distinct (map fst (st_db ?s) @ map (\<lambda>m. gr_trace (ev m)) ms)" using Cons.prems(2) by auto
  then obtain st where "run_worker evaluate (\<lambda>_. True) (map (\<lambda>(k, m). \<lparr>mg_id = k, mg_trace = Some (dumps m)\<rparr>) (enumerate (Suc n) ms)) ?s = Running st"
    "st_dlq st = st_dlq ?s" "st_db st = st_db ?s @ map (\<lambda>m. (gr_trace (ev m), result_of (ev m))) ms"
    using Cons.IH [of ?s "Suc n"] Cons.prems(1) by auto
  moreover have "process_message evaluate (\<lambda>_. True) \<lparr>mg_id = n, mg_trace = Some (dumps m)\<rparr> s = Running ?s"
    using Cons.prems(1) by (simp add: process_message_def Let_def)
  ultimately show ?case using db by simp
qed simp

text \<open>
  What the summary would count: when traces with different ids pass the check and are stored and
  published, and the worker that reads the stream evaluates every message, the summary counts all
  of them, as toxic exactly those whose completion the evaluation finds toxic, and the same for
  personal data; no message is dead-lettered.
\<close>

theorem summary_counts_stored:
  assumes "\<forall>c \<in> set cs. accepted E c" "distinct (map trace_id_of cs)"
    and ev: "\<And>m. evaluate (dumps m) = Inr (ev m) \<and> gr_trace (ev m) = pt_id m \<and> gr_toxic (ev m) = toxic (pt_completion m)
      \<and> gr_pii (ev m) = pii (pt_completion m)"
  shows "let s = accept_all E cs \<lparr>co_traces = [], co_stream = []\<rparr>;
             n = length (filter (\<lambda>c. toxic (ip_completion (ic_payload c))) cs);
             k = length (filter (\<lambda>c. pii (ip_completion (ic_payload c)) \<noteq> []) cs) in
    \<exists>st. run_worker evaluate (\<lambda>_. True) (stream_messages dumps (co_stream s)) no_streams = Running st \<and> st_dlq st = []
      \<and> summarise s (st_db st) = \<lparr>bs_traces = length cs, bs_toxic = n, bs_pii = k,
           bs_score = calculate_fairness_score (int (length cs)) (int n) (int k)\<rparr>"
proof -
  let ?s0 = "\<lparr>co_traces = [], co_stream = []\<rparr> :: collector_state"
  have s: "accept_all E cs ?s0 = \<lparr>co_traces = map (\<lambda>c. (trace_id_of c, row_of E c)) cs, co_stream = map (published_of E) cs\<rparr>"
    using accept_all_accepted [of cs E ?s0] assms(1,2) by simp
  have "distinct (map fst (st_db no_streams) @ map (\<lambda>m. gr_trace (ev m)) (map (published_of E) cs))"
    using ev assms(2) by (simp add: no_streams_def comp_def published_of_def)
  then obtain st where st: "run_worker evaluate (\<lambda>_. True) (stream_messages dumps (map (published_of E) cs)) no_streams = Running st"
    "st_dlq st = []" "st_db st = map (\<lambda>c. (trace_id_of c, result_of (ev (published_of E c)))) cs"
    using run_worker_saved [of "map (published_of E) cs" evaluate dumps ev no_streams 0] ev
    by (auto simp: stream_messages_def no_streams_def comp_def published_of_def)
  have "length (filter (\<lambda>(_, r). rr_toxic r) (st_db st)) = length (filter (\<lambda>c. toxic (ip_completion (ic_payload c))) cs)"
    "length (filter (\<lambda>(_, r). rr_pii r \<noteq> []) (st_db st)) = length (filter (\<lambda>c. pii (ip_completion (ic_payload c)) \<noteq> []) cs)"
    using ev by (simp_all add: st(3) filter_map comp_def result_of_def published_of_def)
  then show ?thesis using st(1,2) by (simp add: s summarise_def Let_def)
qed

lemma sum_list_all_zero: "\<forall>x \<in> set xs. x = 0 \<Longrightarrow> sum_list xs = (0 :: real)"
  by (induction xs) auto

text \<open>
  The fairness score lies between 0 and 1, and it is 1 when no attribute has two groups with different rates.
\<close>

theorem fairness_assessment_score:
  "let a = assess_fairness results db in
   0 \<le> fa_score a \<and> fa_score a \<le> 1 \<and> ((\<forall>(n, t, p) \<in> set (fa_disparities a). t = 0 \<and> p = 0) \<longrightarrow> fa_score a = 1)"
proof (cases "length (filter (\<lambda>(_, a). pa_consent a) db) = 0")
  case True
  then show ?thesis by (simp add: assess_fairness_def Let_def)
next
  case False
  then have score: "fa_score (assess_fairness results db) = overall_fairness (fa_disparities (assess_fairness results db))"
    by (simp add: assess_fairness_def Let_def)
  have "0 \<le> overall_fairness ds \<and> overall_fairness ds \<le> 1" for ds
    by (auto simp: overall_fairness_def Let_def intro!: py_round_nonneg py_round_le_1)
  moreover have "overall_fairness ds = 1" if "\<forall>(n, t, p) \<in> set ds. t = 0 \<and> p = 0" for ds
  proof -
    have "sum_list (concat (map (\<lambda>(_, t, p). [t, p]) ds)) = 0" using that by (intro sum_list_all_zero) fastforce
    then show ?thesis by (simp add: overall_fairness_def py_round_def round_half_even_def)
  qed
  ultimately show ?thesis using score by (simp add: Let_def)
qed

end
