(* ===== verification/Event_Log.thy ===== *)
theory Event_Log
  imports Json_Value Interfaces
begin

text \<open>
  The table of events with its handlers (\<open>services/shared/events.py\<close>), the central system log
  (\<open>services/shared/system_logs.py\<close>) and the choice of a tier for the machine
  (\<open>services/aida-bridge/app/profiler.py\<close>). Both tables are queried by filters and pages; the
  locale \<open>paged_query\<close> states what a page is. \<open>ILIKE\<close> is written out. The JSON codec, the
  database clock and the result of a notification are arguments.
\<close>

section \<open>Pages\<close>

definition page :: "nat \<Rightarrow> nat \<Rightarrow> 'a list \<Rightarrow> 'a list" where
  "page limit offset rows = take limit (drop offset rows)"

definition newest_first :: "('a \<Rightarrow> pyfloat) \<Rightarrow> 'a list \<Rightarrow> 'a list" where
  "newest_first time rows = rev (sort_key time rows)"

locale paged_query =
  fixes query :: "nat \<Rightarrow> nat \<Rightarrow> 'q \<Rightarrow> 'r list option"
    and hits :: "'q \<Rightarrow> 'r list option" \<comment> \<open>None when the database refuses the query\<close>
  assumes query_page: "query limit offset q = map_option (page limit offset) (hits q)"
begin

lemma pages_cover:
  assumes "hits q = Some rs"
  shows "concat (map (\<lambda>k. the (query l (k * l) q)) [0..<n]) = take (n * l) rs"
proof (induction n)
  case (Suc n)
  then show ?case using take_add [of "n * l" l rs] assms by (simp add: query_page page_def add.commute)
qed simp

lemma first_page_all: "hits q = Some rs \<Longrightarrow> length rs \<le> l \<Longrightarrow> query l 0 q = Some rs"
  by (simp add: query_page page_def)

end

section \<open>Events (shared/events.py)\<close>

record event =
  en_id :: nat
  en_type :: string
  en_source :: string
  en_payload :: "(string \<times> jvalue) list"
  en_correlation :: "string option"
  en_agent :: "string option"
  en_time :: pyfloat

record 'h event_bus =
  eb_rows :: "event list"
  eb_next :: nat
  eb_handlers :: "(string, 'h list) pydict"

datatype 'h bus_effect =
    Execute string \<comment> \<open>a statement sent to the database\<close>
  | Handle 'h event

record event_codec =
  ec_dumps :: "jvalue \<Rightarrow> string"
  ec_iso :: "pyfloat \<Rightarrow> string"

definition null_or :: "string option \<Rightarrow> jvalue" where
  "null_or v = (case v of None \<Rightarrow> SNull | Some s \<Rightarrow> SText s)"

definition notification :: "event_codec \<Rightarrow> event \<Rightarrow> string" where
  "notification C e = ec_dumps C (SObj
     [(''id'', SNum (real (en_id e))), (''event_type'', SText (en_type e)), (''source'', SText (en_source e)), (''payload'', SObj (en_payload e)),
      (''correlation_id'', null_or (en_correlation e)), (''agent_id'', null_or (en_agent e)), (''created_at'', SText (ec_iso C (en_time e)))])"

definition notify_statement :: "event_codec \<Rightarrow> event \<Rightarrow> string" where
  \<comment> \<open>the text is pasted between quotes as it is\<close>
  "notify_statement C e = ''NOTIFY polarisgate_events, '' @ [CHR 0x27] @ notification C e @ [CHR 0x27]"

definition publish_event ::
  "event_codec \<Rightarrow> pyfloat \<Rightarrow> string \<Rightarrow> string \<Rightarrow> (string \<times> jvalue) list option \<Rightarrow> string option \<Rightarrow> string option \<Rightarrow> 'h event_bus
   \<Rightarrow> event \<times> 'h bus_effect list \<times> 'h event_bus" where
  \<comment> \<open>what the notification and the handlers raise is caught, so that every handler is called\<close>
  "publish_event C now type source payload corr agent b =
     (let e = \<lparr>en_id = eb_next b, en_type = type, en_source = source, en_payload = (case payload of None \<Rightarrow> [] | Some d \<Rightarrow> d),
               en_correlation = corr, en_agent = agent, en_time = now\<rparr>
      in (e, Execute (notify_statement C e) # map (\<lambda>h. Handle h e) (dict_get_or (eb_handlers b) type []),
          b\<lparr>eb_rows := eb_rows b @ [e], eb_next := eb_next b + 1\<rparr>))"

definition register_event_handler :: "string \<Rightarrow> 'h \<Rightarrow> 'h event_bus \<Rightarrow> 'h event_bus" where
  "register_event_handler type h b =
     b\<lparr>eb_handlers := dict_set type (dict_get_or (eb_handlers b) type [] @ [h]) (eb_handlers b)\<rparr>"

record event_filter =
  ef_type :: "string option"
  ef_source :: "string option"
  ef_agent :: "string option"
  ef_since :: "string option"
  ef_until :: "string option"

definition filter_text :: "string option \<Rightarrow> string option \<Rightarrow> bool" where
  \<comment> \<open>\<open>if value:\<close> adds an equality, which no null satisfies\<close>
  "filter_text wanted v = (case wanted of None \<Rightarrow> True | Some [] \<Rightarrow> True | Some w \<Rightarrow> v = Some w)"

definition given_text :: "string option \<Rightarrow> bool" where
  "given_text v \<longleftrightarrow> v \<noteq> None \<and> v \<noteq> Some []"

definition time_refused :: "string option \<Rightarrow> string option \<Rightarrow> bool" where
  \<comment> \<open>a bound is passed as a string where the driver wants a time: it raises\<close>
  "time_refused since until \<longleftrightarrow> given_text since \<or> given_text until"

definition event_hits :: "event list \<Rightarrow> event_filter \<Rightarrow> event list option" where
  "event_hits rows f = (if time_refused (ef_since f) (ef_until f) then None
     else Some (newest_first en_time (filter (\<lambda>e. filter_text (ef_type f) (Some (en_type e)) \<and> filter_text (ef_source f) (Some (en_source e))
       \<and> filter_text (ef_agent f) (en_agent e)) rows)))"

definition query_event_table :: "event list \<Rightarrow> nat \<Rightarrow> nat \<Rightarrow> event_filter \<Rightarrow> event list option" where
  "query_event_table rows limit offset f = map_option (page limit offset) (event_hits rows f)"

section \<open>ILIKE\<close>

fun like :: "string \<Rightarrow> string \<Rightarrow> bool" where
  "like [] t = (t = [])"
| "like (p # ps) t =
     (if p = CHR ''%'' then like ps t \<or> (case t of [] \<Rightarrow> False | _ # ts \<Rightarrow> like (p # ps) ts)
      else if p = CHR ''_'' then (case t of [] \<Rightarrow> False | _ # ts \<Rightarrow> like ps ts)
      else if p = CHR 0x5C then (case ps of [] \<Rightarrow> False | q # qs \<Rightarrow> (case t of [] \<Rightarrow> False | c # ts \<Rightarrow> c = q \<and> like qs ts))
      else (case t of [] \<Rightarrow> False | c # ts \<Rightarrow> c = p \<and> like ps ts))"

declare like.simps(2) [simp del]

definition search_hit :: "string \<Rightarrow> string \<Rightarrow> bool" where
  \<comment> \<open>\<open>message ILIKE '%search%'\<close>\<close>
  "search_hit s message = like (''%'' @ lower s @ ''%'') (lower message)"

definition plain :: "char \<Rightarrow> bool" where
  "plain c \<longleftrightarrow> c \<noteq> CHR ''%'' \<and> c \<noteq> CHR ''_'' \<and> c \<noteq> CHR 0x5C"

lemma like_plain: "list_all plain s \<Longrightarrow> like (s @ ps) t \<longleftrightarrow> (\<exists>r. t = s @ r \<and> like ps r)"
  by (induction s arbitrary: t) (auto simp: like.simps(2) plain_def split: list.splits)

lemma like_percent: "like (CHR ''%'' # ps) t \<longleftrightarrow> (\<exists>a r. t = a @ r \<and> like ps r)"
proof (induction t)
  case Nil
  then show ?case by (simp add: like.simps(2))
next
  case (Cons c t)
  then show ?case by (subst like.simps(2)) (auto simp: Cons_eq_append_conv)
qed

lemma search_case: "s \<noteq> [] \<Longrightarrow> (case s of [] \<Rightarrow> True | x # xs \<Rightarrow> search_hit (x # xs) m) = search_hit s m"
  by (cases s) auto

lemma lower_plain: "plain c \<Longrightarrow> plain (lower_char c)"
  by (auto simp: plain_def lower_char_def Let_def char_of_eq_iff take_bit_eq_mod)

section \<open>The system log (shared/system\_logs.py)\<close>

record log_entry =
  le_id :: nat
  le_service :: string
  le_level :: string
  le_message :: string
  le_correlation :: "string option"
  le_agent :: "string option"
  le_trace :: "string option"
  le_metadata :: "(string \<times> jvalue) list"
  le_time :: pyfloat

definition upper_text :: "string \<Rightarrow> string" where
  "upper_text s = map (\<lambda>c. let n = of_char c :: nat in if 97 \<le> n \<and> n \<le> 122 then char_of (n - 32) else c) s"

definition write_system_log ::
  "pyfloat \<Rightarrow> string \<Rightarrow> string \<Rightarrow> string \<Rightarrow> string option \<Rightarrow> string option \<Rightarrow> string option \<Rightarrow> (string \<times> jvalue) list option
   \<Rightarrow> log_entry list \<times> nat \<Rightarrow> log_entry list \<times> nat" where
  "write_system_log now service level message corr agent trace metadata = (\<lambda>(rows, n).
     (rows @ [\<lparr>le_id = n, le_service = service, le_level = upper_text level, le_message = message, le_correlation = corr, le_agent = agent,
        le_trace = trace, le_metadata = (case metadata of None \<Rightarrow> [] | Some d \<Rightarrow> d), le_time = now\<rparr>], n + 1))"

record log_filter =
  lf_service :: "string option"
  lf_level :: "string option"
  lf_correlation :: "string option"
  lf_agent :: "string option"
  lf_search :: "string option"
  lf_since :: "string option"
  lf_until :: "string option"

definition log_hits :: "log_entry list \<Rightarrow> log_filter \<Rightarrow> log_entry list option" where
  "log_hits rows f = (if time_refused (lf_since f) (lf_until f) then None
     else Some (newest_first le_time (filter (\<lambda>e. filter_text (lf_service f) (Some (le_service e))
       \<and> filter_text (map_option upper_text (lf_level f)) (Some (le_level e)) \<and> filter_text (lf_correlation f) (le_correlation e)
       \<and> filter_text (lf_agent f) (le_agent e)
       \<and> (case lf_search f of None \<Rightarrow> True | Some [] \<Rightarrow> True | Some s \<Rightarrow> search_hit s (le_message e))) rows)))"

definition query_system_logs :: "log_entry list \<Rightarrow> nat \<Rightarrow> nat \<Rightarrow> log_filter \<Rightarrow> log_entry list option" where
  "query_system_logs rows limit offset f = map_option (page limit offset) (log_hits rows f)"

definition no_filter :: log_filter where
  "no_filter = \<lparr>lf_service = None, lf_level = None, lf_correlation = None, lf_agent = None, lf_search = None, lf_since = None, lf_until = None\<rparr>"

definition get_logs_by_correlation :: "log_entry list \<Rightarrow> string \<Rightarrow> log_entry list option" where
  "get_logs_by_correlation rows c = query_system_logs rows 500 0 (no_filter\<lparr>lf_correlation := Some c\<rparr>)"

interpretation event_pages: paged_query "query_event_table rows" "event_hits rows" for rows
  by unfold_locales (simp add: query_event_table_def)

interpretation log_pages: paged_query "query_system_logs rows" "log_hits rows" for rows
  by unfold_locales (simp add: query_system_logs_def)

text \<open>
  Reading the log page by page gives every entry of a query once and newest first, and a search text without wildcards finds exactly
  the messages that contain it, in upper or lower case. (A percent sign or an underscore in the text acts as a wildcard.)
\<close>

theorem log_search_exact:
  assumes "list_all plain s" "s \<noteq> []" "length rows \<le> n * l"
  shows "concat (map (\<lambda>k. the (query_system_logs rows l (k * l) (no_filter\<lparr>lf_search := Some s\<rparr>))) [0..<n])
    = newest_first le_time (filter (\<lambda>e. sublist (lower s) (lower (le_message e))) rows)"
proof -
  have low: "list_all plain (lower s)" using assms(1) lower_plain by (auto simp: lower_def list_all_iff)
  have nil: "like [] r \<longleftrightarrow> r = []" for r by simp
  have "like [CHR ''%''] r" for r unfolding like_percent nil by auto
  then have hit: "search_hit s m \<longleftrightarrow> sublist (lower s) (lower m)" for m
    using like_plain [OF low, of "''%''"] by (auto simp: search_hit_def like_percent sublist_def)
  have all: "log_hits rows (no_filter\<lparr>lf_search := Some s\<rparr>)
      = Some (newest_first le_time (filter (\<lambda>e. sublist (lower s) (lower (le_message e))) rows))" (is "_ = Some ?r")
    by (simp add: log_hits_def no_filter_def filter_text_def time_refused_def given_text_def search_case [OF assms(2)] hit)
  have "length ?r \<le> n * l" 
    by (rule order_trans [OF _ assms(3)]) (simp add: newest_first_def)
  then show ?thesis using log_pages.pages_cover [OF all] by simp
qed

theorem log_search_exact_witness:
  "concat (map (\<lambda>k. the (query_system_logs (fst (write_system_log 5 ''gateway'' ''info'' ''Login FAILED'' None None None None ([], 1))) 1 (k * 1)
     (no_filter\<lparr>lf_search := Some ''failed''\<rparr>))) [0..<1])
   = fst (write_system_log 5 ''gateway'' ''info'' ''Login FAILED'' None None None None ([], 1))"
proof -
  let ?rows = "fst (write_system_log 5 ''gateway'' ''info'' ''Login FAILED'' None None None None ([], 1))"
  have p: "list_all plain ''failed''" by code_simp
  have "sublist (lower ''failed'') (lower ''Login FAILED'')" by code_simp
  then show ?thesis
    using log_search_exact [OF p, of ?rows 1 1] by (simp add: newest_first_def write_system_log_def)
qed

text \<open>
  Publishing reaches every handler registered for the type, once and in the order of registration, and the event is the newest of its type.
\<close>

lemma handlers_all_called:
  "fst (snd (publish_event C now type source payload corr agent b)) =
     Execute (notify_statement C (fst (publish_event C now type source payload corr agent b)))
       # map (\<lambda>h. Handle h (fst (publish_event C now type source payload corr agent b))) (dict_get_or (eb_handlers b) type [])"
  by (simp add: publish_event_def Let_def)

lemma registered_last:
  "dict_get_or (eb_handlers (foldl (\<lambda>b h. register_event_handler type h b) b hs)) type [] = dict_get_or (eb_handlers b) type [] @ hs"
  by (induction hs arbitrary: b) (simp_all add: register_event_handler_def dict_get_or_def)

section \<open>The tier of the machine (aida-bridge/app/profiler.py)\<close>

datatype memory_reading = NoReading | ReadingRaises | LinuxKilobytes nat | DarwinBytes nat

record environment_profile =
  pf_ram :: pyfloat \<comment> \<open>GB\<close>
  pf_cores :: nat
  pf_docker :: bool
  pf_tier :: nat
  pf_viable :: bool

definition detect_static :: "memory_reading \<Rightarrow> nat option \<Rightarrow> bool \<Rightarrow> environment_profile \<Rightarrow> environment_profile" where
  "detect_static r cores docker p = p\<lparr>
     pf_ram := (case r of NoReading \<Rightarrow> pf_ram p | ReadingRaises \<Rightarrow> 4 | LinuxKilobytes k \<Rightarrow> real k / (1024 * 1024)
       | DarwinBytes b \<Rightarrow> real b / 1024 ^ 3),
     pf_cores := (case cores of Some (Suc n) \<Rightarrow> Suc n | _ \<Rightarrow> 1), pf_docker := docker\<rparr>"

definition decide_tier :: "environment_profile \<Rightarrow> environment_profile" where
  "decide_tier p = p\<lparr>pf_tier := (if 14 \<le> pf_ram p \<and> 4 \<le> pf_cores p then 3 else if 5 \<le> pf_ram p \<and> 2 \<le> pf_cores p then 2 else 1)\<rparr>"

definition benchmark_tier3 :: "nat option \<Rightarrow> bool" where
  \<comment> \<open>the status of the answer, None when the call raises\<close>
  "benchmark_tier3 answer = (answer = Some 200)"

definition determine_optimal_tier :: "memory_reading \<Rightarrow> nat option \<Rightarrow> bool \<Rightarrow> nat option \<Rightarrow> environment_profile \<Rightarrow> nat \<times> environment_profile" where
  "determine_optimal_tier r cores docker answer p =
     (let q = decide_tier (detect_static r cores docker p);
          q' = (if 3 \<le> pf_tier q then (if benchmark_tier3 answer then q\<lparr>pf_viable := True, pf_tier := 3\<rparr> else q\<lparr>pf_tier := 2\<rparr>) else q)
      in (pf_tier q', q'))"

definition get_profile :: "memory_reading \<Rightarrow> nat option \<Rightarrow> bool \<Rightarrow> nat option \<Rightarrow> environment_profile option \<Rightarrow> environment_profile" where
  \<comment> \<open>determined once\<close>
  "get_profile r cores docker answer single = (case single of Some p \<Rightarrow> p
     | None \<Rightarrow> snd (determine_optimal_tier r cores docker answer
         \<lparr>pf_ram = 0, pf_cores = 1, pf_docker = False, pf_tier = 1, pf_viable = False\<rparr>))"

lemma optimal_tier:
  "fst (determine_optimal_tier r cores docker answer p) \<in> {1, 2, 3} \<and>
   (fst (determine_optimal_tier r cores docker answer p) = 3 \<longleftrightarrow>
      benchmark_tier3 answer \<and> pf_tier (decide_tier (detect_static r cores docker p)) = 3)"
  by (auto simp: determine_optimal_tier_def decide_tier_def Let_def)

end
