(* ===== verification/Aida_Bridge.thy ===== *)
theory Aida_Bridge
  imports Injection Trace_Services
begin

text \<open>
  The compliance reports of the AIDA bridge, \<open>services/aida-bridge/app/main.py\<close>: the text of a
  report by tiers of language models, the figures of the monitoring, and the rendering of a text that a
  language model wrote with \<open>str.format\<close>: all braces are doubled, ten placeholders are restored by
  replacements and the text is formatted. The replacements and \<open>str.format\<close> are written out, and
  the lemmas show that the rendering is the substitution of the placeholders and never raises. Answers
  of the models and of the database are arguments. Both exports await the plain function \<open>verify_jwt\<close>
  before they render, so that at present no request reaches the rendering (\<open>no_export\<close>); what follows
  the check is a definition of its own.
\<close>

section \<open>Replacement of a text\<close>

abbreviation lbrace :: char where "lbrace \<equiv> CHR ''{''"
abbreviation rbrace :: char where "rbrace \<equiv> CHR ''}''"

lemma str_replace_fuel:
  "old \<noteq> [] \<Longrightarrow> length s \<le> n \<Longrightarrow> length s \<le> m \<Longrightarrow> str_replace n old new s = str_replace m old new s"
proof (induction n arbitrary: s m)
  case 0
  then show ?case by (cases m) auto
next
  case (Suc n)
  show ?case
  proof (cases s)
    case Nil
    then show ?thesis by (cases m) auto
  next
    case (Cons c r)
    then obtain k where m: "m = Suc k" using Suc.prems by (cases m) auto
    have "length (drop (length old) (c # r)) \<le> length r" using Suc.prems(1) by (cases old) auto
    then show ?thesis using Suc.IH [of "drop (length old) (c # r)" k] Suc.IH [of r k] Suc.prems Cons m by simp
  qed
qed

lemma py_replace_Nil [simp]: "py_replace old new [] = []"
  by (simp add: py_replace_def)

lemma py_replace_Cons:
  assumes "old \<noteq> []"
  shows "py_replace old new (c # s) =
    (if prefix old (c # s) then new @ py_replace old new (drop (length old) (c # s)) else c # py_replace old new s)"
proof -
  have "length (drop (length old) (c # s)) \<le> length s" using assms by (cases old) auto
  then show ?thesis
    using str_replace_fuel [OF assms, of "drop (length old) (c # s)" "length s" "length (drop (length old) (c # s))" new]
    by (simp add: py_replace_def)
qed

lemma py_replace_hit: "old \<noteq> [] \<Longrightarrow> py_replace old new (old @ s) = new @ py_replace old new s"
  by (cases old) (simp_all add: py_replace_Cons)

lemma py_replace_skip: "c \<notin> set a \<Longrightarrow> py_replace (c # old) new (a @ s) = a @ py_replace (c # old) new s"
  by (induction a) (auto simp: py_replace_Cons)

lemma py_replace_char: "py_replace [c] new s = concat (map (\<lambda>x. if x = c then new else [x]) s)"
  by (induction s) (auto simp: py_replace_Cons)

section \<open>Formatting (\<open>str.format\<close>)\<close>

function py_format :: "(string, string) pydict \<Rightarrow> (string \<Rightarrow> py_error + string) \<Rightarrow> string \<Rightarrow> py_error + string" where
  \<comment> \<open>named values; a field with any other content (a missing name, a conversion, a format) is left to \<open>other\<close>\<close>
  "py_format vals other s =
     (case s of [] \<Rightarrow> Inr []
      | c # r \<Rightarrow>
          if c = lbrace then
            (if r \<noteq> [] \<and> hd r = lbrace then map_sum id ((#) lbrace) (py_format vals other (tl r))
             else if rbrace \<notin> set r then Inl ValueError
             else let f = takeWhile (\<lambda>x. x \<noteq> rbrace) r in
               bind_sum (case dict_get vals f of Some v \<Rightarrow> Inr v | None \<Rightarrow> other f)
                 (\<lambda>v. map_sum id ((@) v) (py_format vals other (tl (dropWhile (\<lambda>x. x \<noteq> rbrace) r)))))
          else if c = rbrace then
            (if r \<noteq> [] \<and> hd r = rbrace then map_sum id ((#) rbrace) (py_format vals other (tl r)) else Inl ValueError)
          else map_sum id ((#) c) (py_format vals other r))"
  by pat_completeness auto
termination
proof (relation "measure (\<lambda>(_, _, s). length s)", goal_cases)
  case (3 vals other s c r x)
  have "length (tl (dropWhile (\<lambda>x. x \<noteq> rbrace) r)) \<le> length r"
    using length_dropWhile_le [of "\<lambda>x. x \<noteq> rbrace" r] by simp
  then show ?case using 3 by simp
qed auto

declare py_format.simps [simp del]

section \<open>Rendering of a report\<close>

definition report_fields :: "string list" where
  "report_fields = [''total_traces'', ''toxic_flags'', ''pii_leaks'', ''toxic_pct'', ''pii_pct'', ''fairness_score'', ''fairness_note'',
     ''active_models'', ''audit_count'', ''generated_at'']"

definition escape_braces :: "string \<Rightarrow> string" where
  "escape_braces s = py_replace [rbrace] [rbrace, rbrace] (py_replace [lbrace] [lbrace, lbrace] s)"

definition restore_field :: "string \<Rightarrow> string \<Rightarrow> string" where
  "restore_field s n = py_replace ([lbrace, lbrace] @ n @ [rbrace, rbrace]) ([lbrace] @ n @ [rbrace]) s"

definition render_report :: "(string, string) pydict \<Rightarrow> (string \<Rightarrow> py_error + string) \<Rightarrow> string \<Rightarrow> py_error + string" where
  \<comment> \<open>\<open>safe_body\<close> and its \<open>format\<close>\<close>
  "render_report vals other body = py_format vals other (foldl restore_field (escape_braces body) report_fields)"

section \<open>Reports by tiers\<close>

datatype llm_answer =
    LlmRaises
  | LlmDict "string option" \<comment> \<open>the field \<open>response\<close>\<close>
  | LlmOther string \<comment> \<open>the text of any other result\<close>

fun llm_text :: "llm_answer \<Rightarrow> string option" where
  "llm_text LlmRaises = None"
| "llm_text (LlmDict r) = Some (strip (case r of None \<Rightarrow> [] | Some s \<Rightarrow> s))"
| "llm_text (LlmOther s) = Some (strip s)"

definition usable :: "nat \<Rightarrow> llm_answer \<Rightarrow> string option" where
  \<comment> \<open>longer than the bound, and not a refusal\<close>
  "usable bound a = (case llm_text a of None \<Rightarrow> None
     | Some t \<Rightarrow> if t \<noteq> [] \<and> bound < length t \<and> \<not> startswith t (''I can'' @ [CHR 0x27] @ ''t'') then Some t else None)"

definition lf :: string where "lf = [CHR 0x0A]"

definition model_report :: "nat \<Rightarrow> (string \<Rightarrow> llm_answer) \<Rightarrow> (string \<Rightarrow> llm_answer) \<Rightarrow> string \<Rightarrow> string" where
  \<comment> \<open>tier, the answers of the two models for a name; the hyphen of the second heading is one that does not break\<close>
  "model_report tier tier3 tier2 name =
     (let note = lf @ ''## Report for '' @ name @ lf @ lf @ ''### Note'' @ lf
            @ ''A detailed compliance report will be generated after the next system upgrade.'' @ lf;
          second = (if 2 \<le> tier then (case usable 5 (tier2 name) of
                Some t \<Rightarrow> lf @ ''## Report for '' @ name @ lf @ ''### AI-Generated Summary'' @ lf @ escape_braces t @ lf
              | None \<Rightarrow> note) else note)
      in if 3 \<le> tier then (case usable 100 (tier3 name) of
             Some t \<Rightarrow> lf @ ''## Report for '' @ name @ lf @ t
           | None \<Rightarrow> second) else second)"

definition generate_report_text :: "nat \<Rightarrow> (string \<Rightarrow> llm_answer) \<Rightarrow> (string \<Rightarrow> llm_answer) \<Rightarrow> string list \<Rightarrow> string" where
  "generate_report_text tier tier3 tier2 names =
     (case map (model_report tier tier3 tier2) names of [] \<Rightarrow> []
      | r # rs \<Rightarrow> r @ concat (map (\<lambda>x. lf @ lf @ x) rs))"

section \<open>Export\<close>

record monitoring =
  mo_total :: nat
  mo_toxic :: nat
  mo_pii :: nat

definition get_monitoring_stats :: "nat option \<Rightarrow> nat option \<Rightarrow> nat option \<Rightarrow> monitoring" where
  \<comment> \<open>the answers of the three queries; after one that raises the rest is 0\<close>
  "get_monitoring_stats n_total n_toxic n_pii =
     \<lparr>mo_total = (case n_total of Some n \<Rightarrow> n | None \<Rightarrow> 0),
      mo_toxic = (case (n_total, n_toxic) of (Some _, Some n) \<Rightarrow> n | _ \<Rightarrow> 0),
      mo_pii = (case (n_total, n_toxic, n_pii) of (Some _, Some _, Some n) \<Rightarrow> n | _ \<Rightarrow> 0)\<rparr>"

record export_env =
  xe_verify :: "string \<Rightarrow> bool"
  xe_tier :: nat
  xe_tier3 :: "string \<Rightarrow> llm_answer"
  xe_tier2 :: "string \<Rightarrow> llm_answer"
  xe_stats :: monitoring
  xe_models :: "nat option" \<comment> \<open>answers of the two queries for models and audit entries\<close>
  xe_audit :: "nat option"
  xe_now :: string
  xe_float :: "pyfloat \<Rightarrow> string" \<comment> \<open>\<open>str\<close> of a float\<close>
  xe_other :: "string \<Rightarrow> py_error + string"

definition percentage :: "export_env \<Rightarrow> nat \<Rightarrow> nat \<Rightarrow> string" where
  "percentage X n all = (if 0 < all then xe_float X (py_round (real n / real all * 100) 1) else ''0'')"

definition export_values :: "export_env \<Rightarrow> (string, string) pydict" where
  "export_values X =
     (let st = xe_stats X; score = calculate_fairness_score (int (mo_total st)) (int (mo_toxic st)) (int (mo_pii st)) in
      [(''total_traces'', show_nat (mo_total st)), (''toxic_flags'', show_nat (mo_toxic st)), (''pii_leaks'', show_nat (mo_pii st)),
       (''toxic_pct'', percentage X (mo_toxic st) (mo_total st)), (''pii_pct'', percentage X (mo_pii st) (mo_total st)),
       (''fairness_score'', xe_float X score), (''fairness_note'', get_fairness_note score),
       (''active_models'', show_nat (case xe_models X of Some n \<Rightarrow> n | None \<Rightarrow> 0)),
       (''audit_count'', show_nat (case (xe_models X, xe_audit X) of (Some _, Some n) \<Rightarrow> n | _ \<Rightarrow> 0)),
       (''generated_at'', xe_now X)])"

definition export_check :: "export_env \<Rightarrow> string option \<Rightarrow> admin_error + unit" where
  \<comment> \<open>\<open>not credentials or not await verify_jwt(credentials.credentials)\<close>\<close>
  "export_check X token = (if token = None then Inl (Http 401 ''Invalid token'') else checked_token (xe_verify X) token)"

definition compliance_body :: "export_env \<Rightarrow> string \<Rightarrow> admin_error + string \<times> monitoring" where
  \<comment> \<open>what follows the token check\<close>
  "compliance_body X name =
     (case render_report (export_values X) (xe_other X) (generate_report_text (xe_tier X) (xe_tier3 X) (xe_tier2 X) [name]) of
        Inl e \<Rightarrow> Inl (Raised e)
      | Inr r \<Rightarrow> Inr (r, xe_stats X))"

definition export_compliance_report :: "export_env \<Rightarrow> string option \<Rightarrow> string \<Rightarrow> admin_error + string \<times> monitoring" where
  "export_compliance_report X token name = (case export_check X token of Inl e \<Rightarrow> Inl e | Inr _ \<Rightarrow> compliance_body X name)"

definition pdf_values :: "export_env \<Rightarrow> (string, string) pydict" where
  "pdf_values X =
     (let st = xe_stats X; pct = (\<lambda>n. xe_float X (py_round (real n / real (max (mo_total st) 1) * 100) 1)) in
      [(''total_traces'', show_nat (mo_total st)), (''toxic_flags'', show_nat (mo_toxic st)), (''pii_leaks'', show_nat (mo_pii st)),
       (''toxic_pct'', pct (mo_toxic st)), (''pii_pct'', pct (mo_pii st)), (''fairness_score'', ''N/A''),
       (''fairness_note'', ''Calculated during export.''), (''active_models'', ''0''), (''audit_count'', ''0''), (''generated_at'', ''N/A'')])"

definition pdf_body :: "export_env \<Rightarrow> string \<Rightarrow> admin_error + string" where
  \<comment> \<open>\<open>generate_pdf\<close> after the token check, up to the text that is typeset\<close>
  "pdf_body X name =
     (case render_report (pdf_values X) (xe_other X) (generate_report_text (xe_tier X) (xe_tier3 X) (xe_tier2 X) [name]) of
        Inl e \<Rightarrow> Inl (Raised e)
      | Inr r \<Rightarrow> Inr r)"

definition pdf_report :: "export_env \<Rightarrow> string option \<Rightarrow> string \<Rightarrow> admin_error + string" where
  "pdf_report X token name = (case export_check X token of Inl e \<Rightarrow> Inl e | Inr _ \<Rightarrow> pdf_body X name)"

text \<open>No export is answered: without credentials the answer is 401, and every token raises.\<close>

theorem no_export:
  "\<exists>e. export_compliance_report X token name = Inl e \<and> pdf_report X token name = Inl e \<and>
    (e = Raised TypeError \<or> token = None \<and> e = Http 401 ''Invalid token'')"
  by (simp add: export_compliance_report_def pdf_report_def export_check_def checked_token_raises)

section \<open>Rendering is substitution\<close>

datatype piece = Chr char | Fld string

function pieces :: "string list \<Rightarrow> string \<Rightarrow> piece list" where
  \<comment> \<open>the fields in braces among these names, from left to right\<close>
  "pieces ns s = (case s of [] \<Rightarrow> []
     | c # r \<Rightarrow>
         (case (if c = lbrace then find (\<lambda>n. prefix (n @ [rbrace]) r) ns else None) of
            Some n \<Rightarrow> Fld n # pieces ns (drop (length n + 1) r)
          | None \<Rightarrow> Chr c # pieces ns r))"
  by pat_completeness auto
termination by (relation "measure (\<lambda>(_, s). length s)") auto

declare pieces.simps [simp del]

definition substitute :: "(string, string) pydict \<Rightarrow> string list \<Rightarrow> string \<Rightarrow> string" where
  \<comment> \<open>the reference: each field in braces replaced by its value, all other text as it is\<close>
  "substitute vals ns s = concat (map (\<lambda>p. case p of Chr c \<Rightarrow> [c] | Fld n \<Rightarrow> dict_get_or vals n []) (pieces ns s))"

definition no_brace :: "string \<Rightarrow> bool" where
  "no_brace n \<longleftrightarrow> n \<noteq> [] \<and> lbrace \<notin> set n \<and> rbrace \<notin> set n"

fun source :: "piece \<Rightarrow> string" where
  "source (Chr c) = [c]"
| "source (Fld n) = [lbrace] @ n @ [rbrace]"

fun coded :: "string set \<Rightarrow> piece \<Rightarrow> string" where
  \<comment> \<open>the text after the names in the set are restored\<close>
  "coded S (Chr c) = (if c = lbrace \<or> c = rbrace then [c, c] else [c])"
| "coded S (Fld n) = (if n \<in> S then [lbrace] @ n @ [rbrace] else [lbrace, lbrace] @ n @ [rbrace, rbrace])"

abbreviation sources :: "piece list \<Rightarrow> string" where "sources ps \<equiv> concat (map source ps)"
abbreviation coding :: "string set \<Rightarrow> piece list \<Rightarrow> string" where "coding S ps \<equiv> concat (map (coded S) ps)"

fun greedy :: "string list \<Rightarrow> piece list \<Rightarrow> bool" where
  "greedy ns [] \<longleftrightarrow> True"
| "greedy ns (Fld n # ps) \<longleftrightarrow> n \<in> set ns \<and> greedy ns ps"
| "greedy ns (Chr c # ps) \<longleftrightarrow> \<not> (c = lbrace \<and> (\<exists>n \<in> set ns. prefix (n @ [rbrace]) (sources ps))) \<and> greedy ns ps"

lemma sources_pieces: "sources (pieces ns s) = s"
proof (induction ns s rule: pieces.induct)
  case (1 ns s)
  show ?case
  proof (cases s)
    case Nil
    then show ?thesis by (simp add: pieces.simps)
  next
    case (Cons c r)
    show ?thesis
    proof (cases "if c = lbrace then find (\<lambda>n. prefix (n @ [rbrace]) r) ns else None")
      case None
      then show ?thesis using 1(1) [OF Cons None] Cons by (subst pieces.simps) simp
    next
      case (Some n)
      then have "c = lbrace" "prefix (n @ [rbrace]) r" by (auto split: if_splits dest: find_SomeD)
      then have "[lbrace] @ n @ [rbrace] @ drop (length n + 1) r = c # r" by (auto simp: prefix_def)
      then show ?thesis using 1(2) [OF Cons Some] Cons Some by (subst pieces.simps) simp
    qed
  qed
qed

lemma greedy_pieces: "greedy ns (pieces ns s)"
proof (induction ns s rule: pieces.induct)
  case (1 ns s)
  show ?case
  proof (cases s)
    case Nil
    then show ?thesis by (simp add: pieces.simps)
  next
    case (Cons c r)
    show ?thesis
    proof (cases "if c = lbrace then find (\<lambda>n. prefix (n @ [rbrace]) r) ns else None")
      case None
      then have "\<not> (c = lbrace \<and> (\<exists>n \<in> set ns. prefix (n @ [rbrace]) r))"
        by (auto simp: find_None_iff split: if_splits)
      then show ?thesis using 1(1) [OF Cons None] Cons None by (subst pieces.simps) (simp add: sources_pieces)
    next
      case (Some n)
      then have "n \<in> set ns" by (auto split: if_splits dest: find_SomeD)
      then show ?thesis using 1(2) [OF Cons Some] Cons Some by (subst pieces.simps) simp
    qed
  qed
qed

lemma escape_braces_dbl: "escape_braces s = concat (map (coded S \<circ> Chr) s)"
  by (induction s) (auto simp: escape_braces_def py_replace_char)

lemma coding_none: "list_all no_brace ns \<Longrightarrow> greedy ns ps \<Longrightarrow> coding {} ps = escape_braces (sources ps)"
proof (induction ns ps rule: greedy.induct)
  case (2 ns n ps)
  have "concat (map (coded {} \<circ> Chr) n) = n" if "lbrace \<notin> set n" "rbrace \<notin> set n" for n
    using that by (induction n) (auto simp: comp_def)
  then have "concat (map (coded {} \<circ> Chr) n) = n" if "no_brace n" for n using that by (simp add: no_brace_def)
  then show ?case using 2 by (auto simp: escape_braces_dbl [of _ "{}"] list_all_iff)
qed (auto simp: escape_braces_dbl [of _ "{}"])

lemma field_follows:
  assumes "lbrace \<notin> set n" "rbrace \<notin> set n" "prefix (n @ [rbrace, rbrace]) (coding S ps)"
  shows "prefix (n @ [rbrace]) (sources ps)"
  using assms
proof (induction n arbitrary: ps)
  case Nil
  then obtain p qs where ps: "ps = p # qs" by (cases ps) auto
  then show ?case using Nil by (cases p) (auto split: if_splits)
next
  case (Cons a n)
  then obtain p qs where ps: "ps = p # qs" by (cases ps) auto
  then show ?case using Cons by (cases p) (auto split: if_splits)
qed

lemma same_name:
  assumes "rbrace \<notin> set n" "rbrace \<notin> set m" "prefix (n @ rbrace # x) (m @ rbrace # y)"
  shows "n = m"
  using assms
proof (induction n arbitrary: m)
  case Nil
  then show ?case by (cases m) auto
next
  case (Cons a n)
  then show ?case by (cases m) auto
qed

lemma restore_step:
  assumes "no_brace n" "list_all no_brace ns" "n \<in> set ns" "n \<notin> S" "greedy ns ps"
  shows "restore_field (coding S ps) n = coding (insert n S) ps"
  using assms(5)
proof (induction ps)
  case Nil
  then show ?case by (simp add: restore_field_def)
next
  case (Cons p ps)
  let ?old = "[lbrace, lbrace] @ n @ [rbrace, rbrace]" and ?new = "[lbrace] @ n @ [rbrace]"
  let ?R = "py_replace ?old ?new"
  obtain h t where n: "n = h # t" "h \<noteq> lbrace" using assms(1) by (cases n) (auto simp: no_brace_def)
  have IH: "?R (coding S ps) = coding (insert n S) ps" using Cons by (cases p) (auto simp: restore_field_def)
  have skip: "?R (a @ x) = a @ ?R x" if "lbrace \<notin> set a" for a x
    using py_replace_skip [OF that, of "lbrace # n @ [rbrace, rbrace]" ?new x] by simp
  have one: "?R (lbrace # x) = lbrace # ?R x" if "\<not> prefix (lbrace # n @ [rbrace, rbrace]) x" for x
    using that by (simp add: py_replace_Cons)
  have free: "lbrace \<notin> set n" "rbrace \<notin> set n" using assms(1) by (auto simp: no_brace_def)
  show ?case
  proof (cases p)
    case (Chr c)
    show ?thesis
    proof (cases "c = lbrace")
      case False
      then show ?thesis
        using skip [of "[c]"] skip [of "[c, c]"] IH Chr by (auto simp: restore_field_def)
    next
      case True
      have "\<not> prefix (n @ [rbrace, rbrace]) (coding S ps)"
        using field_follows [OF free, of S ps] Cons.prems Chr True assms(3) by auto
      moreover have "\<not> prefix (lbrace # n @ [rbrace, rbrace]) (coding S ps)"
      proof (cases ps)
        case (Cons q qs)
        show ?thesis
        proof (cases q)
          case (Chr d)
          then show ?thesis using Cons n by auto
        next
          case (Fld m)
          show ?thesis
          proof (cases "m \<in> S")
            case True
            then have "m \<noteq> n" using assms(4) by auto
            moreover have "rbrace \<notin> set m" using \<open>greedy ns (p # ps)\<close> assms(2) Cons Fld \<open>p = Chr c\<close>
              by (auto simp: list_all_iff no_brace_def)
            ultimately show ?thesis using same_name [OF free(2), of m "[rbrace]"] Cons Fld True by auto
          qed (use Cons Fld n in auto)
        qed
      qed simp
      ultimately show ?thesis using one [of "lbrace # coding S ps"] one [of "coding S ps"] IH Chr True
        by (auto simp: restore_field_def)
    qed
  next
    case (Fld m)
    then have "no_brace m" using Cons.prems assms(2) by (auto simp: list_all_iff)
    then have m: "lbrace \<notin> set m" "rbrace \<notin> set m" and hm: "m \<noteq> []" by (auto simp: no_brace_def)
    obtain k l where kl: "m = k # l" "k \<noteq> lbrace" using m(1) hm by (cases m) auto
    show ?thesis
    proof (cases "m = n")
      case True
      then show ?thesis using Fld assms(4) py_replace_hit [of ?old ?new "coding S ps"] IH by (simp add: restore_field_def)
    next
      case False
      have tail: "?R (m @ rbrace # x) = m @ rbrace # ?R x" "?R (m @ rbrace # rbrace # x) = m @ rbrace # rbrace # ?R x" for x
        using skip [of "m @ [rbrace]" x] skip [of "m @ [rbrace, rbrace]" x] m(1) by auto
      show ?thesis
      proof (cases "m \<in> S")
        case True
        have "?R (lbrace # m @ rbrace # coding S ps) = lbrace # ?R (m @ rbrace # coding S ps)"
          by (rule one) (use kl in auto)
        then show ?thesis using Fld True tail(1) IH by (simp add: restore_field_def)
      next
        case mS: False
        have "?R (lbrace # lbrace # m @ rbrace # rbrace # coding S ps) = lbrace # ?R (lbrace # m @ rbrace # rbrace # coding S ps)"
          by (rule one) (use False same_name [OF free(2) m(2)] in auto)
        moreover have "?R (lbrace # m @ rbrace # rbrace # coding S ps) = lbrace # ?R (m @ rbrace # rbrace # coding S ps)"
          by (rule one) (use kl in auto)
        ultimately show ?thesis using Fld mS False tail(2) IH by (simp add: restore_field_def)
      qed
    qed
  qed
qed

lemma restore_all:
  assumes "list_all no_brace ns" "greedy ns ps" "distinct ms" "set ms \<subseteq> set ns" "set ms \<inter> S = {}"
  shows "foldl restore_field (coding S ps) ms = coding (set ms \<union> S) ps"
  using assms(3-5)
proof (induction ms arbitrary: S)
  case (Cons m ms)
  then have "restore_field (coding S ps) m = coding (insert m S) ps"
    using assms(1,2) by (intro restore_step [of m ns]) (auto simp: list_all_iff)
  then show ?case using Cons.IH [of "insert m S"] Cons.prems by simp
qed simp

lemma py_format_plain: "c \<noteq> lbrace \<Longrightarrow> c \<noteq> rbrace \<Longrightarrow> py_format vals other (c # s) = map_sum id ((#) c) (py_format vals other s)"
  and py_format_double: "c = lbrace \<or> c = rbrace \<Longrightarrow> py_format vals other (c # c # s) = map_sum id ((#) c) (py_format vals other s)"
  by (subst py_format.simps, auto)+

lemma name_then_rbrace:
  assumes "rbrace \<notin> set n"
  shows "takeWhile (\<lambda>x. x \<noteq> rbrace) (n @ rbrace # s) = n" "dropWhile (\<lambda>x. x \<noteq> rbrace) (n @ rbrace # s) = rbrace # s"
  using assms by (induction n) auto

lemma py_format_field:
  assumes "no_brace n" "dict_get vals n = Some v"
  shows "py_format vals other ([lbrace] @ n @ [rbrace] @ s) = map_sum id ((@) v) (py_format vals other s)"
proof -
  have t: "takeWhile (\<lambda>x. x \<noteq> rbrace) (n @ rbrace # s) = n" "dropWhile (\<lambda>x. x \<noteq> rbrace) (n @ rbrace # s) = rbrace # s"
    using name_then_rbrace assms(1) by (auto simp: no_brace_def)
  have h: "hd (n @ rbrace # s) \<noteq> lbrace" using assms(1) by (cases n) (auto simp: no_brace_def)
  show ?thesis by (subst py_format.simps) (simp add: t h assms(2) bind_sum_def)
qed

lemma format_coding:
  assumes "list_all no_brace ns" "greedy ns ps" "\<forall>n \<in> set ns. dict_get vals n \<noteq> None"
  shows "py_format vals other (coding (set ns) ps) = Inr (concat (map (\<lambda>p. case p of Chr c \<Rightarrow> [c] | Fld n \<Rightarrow> dict_get_or vals n []) ps))"
  using assms(2)
proof (induction ps)
  case Nil
  then show ?case by (simp add: py_format.simps)
next
  case (Cons p ps)
  show ?case
  proof (cases p)
    case (Chr c)
    then show ?thesis using Cons by (auto simp: py_format_plain py_format_double)
  next
    case (Fld n)
    then obtain v where "no_brace n" "dict_get vals n = Some v" using Cons.prems assms(1,3) by (auto simp: list_all_iff)
    moreover from this have "dict_get_or vals n [] = v" by (simp add: dict_get_or_def)
    ultimately show ?thesis using Cons Fld py_format_field [of n vals v other "coding (set ns) ps"] by simp
  qed
qed

lemma report_fields_ok: "list_all no_brace report_fields" "distinct report_fields"
  by (simp_all add: report_fields_def no_brace_def)

lemma rendering_exact:
  assumes "\<forall>n \<in> set report_fields. dict_get vals n \<noteq> None"
  shows "render_report vals other body = Inr (substitute vals report_fields body)"
proof -
  let ?ps = "pieces report_fields body"
  have g: "greedy report_fields ?ps" by (rule greedy_pieces)
  have "escape_braces body = coding {} ?ps"
    using coding_none [OF report_fields_ok(1) g] by (simp add: sources_pieces)
  then have "foldl restore_field (escape_braces body) report_fields = coding (set report_fields) ?ps"
    using restore_all [OF report_fields_ok(1) g report_fields_ok(2), of "{}"] by simp
  then show ?thesis
    using format_coding [OF report_fields_ok(1) g assms] by (simp add: render_report_def substitute_def)
qed

text \<open>
  The text of the second tier is escaped twice, so that its braces come out doubled.
\<close>

lemma second_tier_doubles:
  assumes "usable 5 (tier2 name) = Some t"
  shows "model_report 2 tier3 tier2 name = lf @ ''## Report for '' @ name @ lf @ ''### AI-Generated Summary'' @ lf @ escape_braces t @ lf"
  using assms by (simp add: model_report_def Let_def)

lemma export_rendered:
  "render_report (export_values X) other body = Inr (substitute (export_values X) report_fields body)"
  "render_report (pdf_values X) other body = Inr (substitute (pdf_values X) report_fields body)"
  by (rule rendering_exact; simp add: report_fields_def export_values_def pdf_values_def Let_def)+

text \<open>
  C33: A report is the text of the models with the placeholders substituted. Both exports render the
  text the models wrote by doubling all its braces, restoring ten names in braces one after the
  other and formatting: for whatever text, with whatever braces, this never raises, and the result
  is the text in which each of the ten names in braces is replaced by its figure and everything
  else is unchanged. (This is what the exports do after their token check; the check raises.)
\<close>
theorem report_is_substitution:
  "let body = generate_report_text (xe_tier X) (xe_tier3 X) (xe_tier2 X) [name] in
    compliance_body X name = Inr (substitute (export_values X) report_fields body, xe_stats X) \<and>
    pdf_body X name = Inr (substitute (pdf_values X) report_fields body) \<and>
    render_report (export_values X) other t = Inr (substitute (export_values X) report_fields t)"
  by (simp add: compliance_body_def pdf_body_def export_rendered Let_def)

end
