(* ===== verification/Spec2Isabelle.thy ===== *)
theory Spec2Isabelle
  imports Rate_Limiter Injection Audit_Chain Policy_Engines Safety_Pipeline Circuit_Breaker
    Cost_Tracker Model_Router Drift_Detector Access_Control Data_Protection Data_Governance Hallucination
    Auth_Roles Gateway_Limits Fairness Legacy_Injection Pii_Detector Sanitizer
    Guardrails Model_Registry Nli_Detector Data_Validator
    Json_Value Sdk_Client Soc2_Controls Opa_Client Data_Lifecycle Preflight Compliance_Manager Providers Chat_Routes Admin_Routes
    Py_Codecs Encryption Vault_Client Org_Admin Trace_Services Event_Log Aida_Bridge
begin

text \<open>
  PolarisGate is a safety gateway in front of language models. A request reaches the gateway
  (\<open>services/gateway\<close>), is checked by guardrails (\<open>services/guardrails\<close>, \<open>services/shared/injection\<close>),
  counted against a budget, forwarded to a model vendor, checked again on the way back (also by
  \<open>services/hallucination-detector\<close>) and recorded in audit logs, usage tables and dashboards. The
  libraries of \<open>services/shared\<close> hold what the services have in common: limits, breakers, policies,
  access, privacy and compliance records. The theories below model this code, one per group of components; every
  definition is a translation of the function or class that its comment or its name gives.

  \<^bold>\<open>Foundations.\<close> \<open>Py_Prelude\<close>: the part of Python that the code uses (dictionaries in insertion
  order, slices, string methods, rounding, exceptions as a datatype). \<open>Py_Regex\<close>: the regular expressions of
  \<open>re\<close> as a datatype with a backtracking matcher. \<open>Json_Value\<close>, \<open>Json_Store\<close>: decoded JSON values and
  records kept in a JSON file. \<open>Py_Codecs\<close>: UTF-8, base64 and big-endian integers on 8-bit words, with the locale \<open>codec\<close>. \<open>Interfaces\<close>: the locales that several components share: an invariant kept along a run
  (\<open>run_invariant\<close>), a refinement of an abstract machine (\<open>refinement\<close>), a log that keeps its newest entries (\<open>bounded_log\<close>) and the
  choice of the strictest entry (\<open>strictest\<close>); each is interpreted on the model's own functions where a component provides it.

  \<^bold>\<open>The request path.\<close>
  \<open>Rate_Limiter\<close> (\<open>shared/rate_limiter.py\<close>: buckets, keys, decorator, ASGI middleware: bound on what is granted under any
  interleaving, Retry-After, waiting). \<open>Chat_Routes\<close> (\<open>gateway/app/chat_store.py\<close>, \<open>routers/chat.py\<close>, \<open>routers/proxy.py\<close>,
  \<open>shared/tenant_context.py\<close>: the store keeps users apart, the endpoints do not; a turn is recorded; streams
  deliver before they check). \<open>Providers\<close> (\<open>gateway/app/providers\<close>: registry, normalised requests, wire requests, answers and streams of
  every vendor: which text is checked and which texts are sent). \<open>Safety_Pipeline\<close> (\<open>gateway/app/safety\<close>, \<open>routers/canary.py\<close>,
  \<open>shared/quota_enforcer.py\<close>: blocked prompts and exhausted budgets reach no vendor, what a delivered answer went through,
  canary tokens). \<open>Gateway_Limits\<close> (\<open>providers/context_limits.py\<close>, \<open>token_counter.py\<close>, \<open>budget_alerts.py\<close>, \<open>feature_flags.py\<close>:
  trimming keeps the longest fitting suffix, bound of the anomaly score, one alert per level). \<open>Sdk_Client\<close>
  (\<open>sdk/polarisgate/client.py\<close>: retries, waits, and agreement of the client with the gateway).

  \<^bold>\<open>Detection.\<close> \<open>Injection\<close> (\<open>shared/injection\<close>: all patterns, decoding, judge, pipeline), \<open>Legacy_Injection\<close>, \<open>Pii_Detector\<close>,
  \<open>Sanitizer\<close>, \<open>Guardrails\<close> (\<open>guardrails/worker.py\<close> and its cache, classifiers, escalation and stream worker),
  \<open>Hallucination\<close> and \<open>Nli_Detector\<close> (\<open>hd_cascade\<close>), \<open>Policy_Engines\<close> (content policies and access of tools).

  \<^bold>\<open>Records.\<close> \<open>Audit_Chain\<close> (three hash chained logs: verification survives appending, equal last hashes mean equal
  histories of the covered fields; what breaks a chain: overlapping writes, an event object appended twice), \<open>Data_Governance\<close> (consent, breaches, classification), \<open>Data_Protection\<close> (PCI, DLP, Luhn), \<open>Data_Lifecycle\<close>
  (snapshots, exports, erasure), \<open>Soc2_Controls\<close>, \<open>Compliance_Manager\<close>, \<open>Data_Validator\<close>, \<open>Trace_Services\<close> (\<open>collector/app/main.py\<close>,
  \<open>bias-monitor/app/main.py\<close>: the token check that lets no request pass, and behind it the way of a trace into the summary), \<open>Event_Log\<close>
  (\<open>shared/events.py\<close>, \<open>shared/system_logs.py\<close>, \<open>aida-bridge/app/profiler.py\<close>: handlers, pages, search), \<open>Aida_Bridge\<close> (\<open>aida-bridge/app/main.py\<close>: rendering a report
  that a model wrote is the substitution of its placeholders; the same token check in front of it).

  \<^bold>\<open>Operation.\<close> \<open>Circuit_Breaker\<close>, \<open>Opa_Client\<close>, \<open>Cost_Tracker\<close>, \<open>Model_Router\<close>, \<open>Model_Registry\<close>, \<open>Drift_Detector\<close>, \<open>Fairness\<close>,
  \<open>Preflight\<close>, \<open>Access_Control\<close> (sessions and API keys), \<open>Auth_Roles\<close> (tokens, roles, accounts), \<open>Admin_Routes\<close>
  (\<open>routers/auth.py\<close>, \<open>routers/settings.py\<close>, \<open>routers/users.py\<close>: login in two steps that others interleave, its lock, set-up, settings, blocked words), \<open>Org_Admin\<close>
  (\<open>cost-tracker/app/budgets.py\<close>, \<open>routers/admin_providers.py\<close>, \<open>mcp/policy_router.py\<close>: budgets that nothing is charged to, stored vendor keys,
  approvals of tool calls), \<open>Encryption\<close> (\<open>security/encryption.py\<close>: round trip across key rotations, what the label of a field
  separates, what a restart loses), \<open>Vault_Client\<close> (\<open>security/vault.py\<close>: age and source of a secret).

  \<^bold>\<open>How the code is read.\<close> A table is the list of its rows, Redis a record of maps, a file its parsed content. Clock readings, random
  ids and draws, and whether a statement succeeds and how a write ends (a file opened for writing is truncated first) are arguments of the
  operation, so that a theorem holds for all of them. Requests run one after the other except where a theory says how their steps
  interleave (login, the writers of the audit log, the buckets of the limiter). Code outside the repository (the HTTP exchange with a vendor, classifiers and language models, digests and signatures, the JSON codec)
  is a parameter; what a theorem needs of it is a named hypothesis of that theorem, and its witness instantiates it. Exceptions are values of
  \<open>py_error\<close>, and what leaves the process is a list of effects in order. Integers of Python are \<open>int\<close> or \<open>nat\<close>;
  a \<open>float\<close> is a real number: rounding of the binary format is not modelled, \<open>round\<close>, \<open>int\<close> and the division by zero are. Texts
  are ASCII, but for the encryption module, where a text is a list of code points.

  \<^bold>\<open>Bounds and fuel.\<close> The limits are those of the code: 100 times per escalation key, 1000 feedback entries, 100 messages of
  history, 10000 characters of a scanned text, the sessions of a user, the burst of a bucket. Loops are structural recursions over the list they
  traverse or the range of their counter (the retries of the client run over \<open>[0..<n]\<close>). Waiting for tokens, a loop that
  need not end in the source, is modelled with fuel, and a theorem states exactly when some fuel is enough. The iterations of a star in a
  regular expression are bounded by the length of the text that is left, which is proved to lose no match.

  \<^bold>\<open>What the theorems show.\<close> The properties carry the numbers C1 to C40: guarantees that hold (chains, limits, blocking, escalation,
  refinement of abstract specifications, round trips) and, where the code does not do what its documentation or its name
  promises, the exact behaviour (for example for messages that are not checked, for conversations that all callers share and for
  guesses of a password that overlap).

  \<^bold>\<open>Not modelled.\<close> FastAPI routes that run one SQL statement or shape rows for charts, listings of the administration of tool policies,
  wrappers of FIPS, mTLS, Kafka, MLflow, Presidio and Prometheus, logging and telemetry, settings and schemas, report texts, the front ends of the
  smaller services, the demo, training and benchmark scripts: they hold no decision beyond calls of the libraries that
  they wrap, or are not part of the running product.
\<close>

end
